(* ===== verification/Prelude.thy ===== *)
theory Prelude
  imports Main "HOL-Library.Word"
begin

text \<open>
  Shared vocabulary of the development: the machine integers of the Rust sources, byte strings and
  their big- and little-endian readings, the arithmetic of \<open>usize\<close>, and the generic facts about
  lists and words that the component theories use.

  A \<open>usize\<close> is 64 bits wide on the Solana target; it is modelled as a \<open>nat\<close> below \<open>2 ^ 64\<close>, with the
  wrap-around, the check or the saturation of each Rust operator written out below.
  An Ethereum address \<open>[u8; 20]\<close>, a Solana public key \<open>[u8; 32]\<close> and a 32-byte array are the words
  that their bytes spell in big-endian order (\<open>be_bytes\<close> and \<open>from_be\<close> are inverse to each other on
  arrays of the right length, see \<open>from_be_be_bytes\<close> and \<open>be_bytes_from_be\<close>).
\<close>

unbundle bit_operations_syntax

section \<open>Types\<close>

type_synonym u8 = "8 word"
type_synonym u16 = "16 word"
type_synonym u32 = "32 word"
type_synonym u64 = "64 word"
type_synonym u256 = "256 word"
type_synonym usize = nat
type_synonym bytes = "8 word list"
type_synonym bytes32 = "256 word"
type_synonym address = "160 word"
type_synonym pubkey = "256 word"

named_theorems exec_simps \<open>evaluation of the error monad and of the operations built on it\<close>
named_theorems codec \<open>round trips between words and their byte strings\<close>

section \<open>Machine integers\<close>

abbreviation usize_bound :: nat where
  "usize_bound \<equiv> 18446744073709551616"

lemma usize_bound_eq: "usize_bound = 2 ^ 64"
  by simp

definition usize_wrap :: "nat \<Rightarrow> usize" where
  "usize_wrap n = n mod usize_bound"

definition usize_of_int :: "int \<Rightarrow> usize" where
  "usize_of_int i = nat (i mod int usize_bound)"

definition checked_add_usize :: "usize \<Rightarrow> usize \<Rightarrow> usize option" where
  "checked_add_usize a b = (if a + b < usize_bound then Some (a + b) else None)"

definition saturating_add_usize :: "usize \<Rightarrow> usize \<Rightarrow> usize" where
  "saturating_add_usize a b = min (a + b) (usize_bound - 1)"

lemma usize_wrap_less [simp]: "usize_wrap n < usize_bound"
  by (simp add: usize_wrap_def)

lemma usize_wrap_id [simp]: "n < usize_bound \<Longrightarrow> usize_wrap n = n"
  by (simp add: usize_wrap_def)

lemma usize_of_int_less [simp]: "usize_of_int i < usize_bound"
  by (simp add: usize_of_int_def nat_less_iff)

lemma usize_of_int_nonneg: "0 \<le> i \<Longrightarrow> i < int usize_bound \<Longrightarrow> usize_of_int i = nat i"
  by (simp add: usize_of_int_def)

lemma checked_add_usize_Some [simp]:
  "checked_add_usize a b = Some c \<longleftrightarrow> c = a + b \<and> a + b < usize_bound"
  by (auto simp: checked_add_usize_def)

lemma checked_add_usize_None [simp]:
  "checked_add_usize a b = None \<longleftrightarrow> usize_bound \<le> a + b"
  by (auto simp: checked_add_usize_def)

section \<open>Bytes\<close>

primrec le_bytes_nat :: "nat \<Rightarrow> nat \<Rightarrow> bytes" where
  "le_bytes_nat 0 k = []"
| "le_bytes_nat (Suc n) k = word_of_nat k # le_bytes_nat n (k div 256)"

primrec nat_of_le :: "bytes \<Rightarrow> nat" where
  "nat_of_le [] = 0"
| "nat_of_le (b # bs) = unat b + 256 * nat_of_le bs"

definition be_bytes :: "nat \<Rightarrow> 'a::len word \<Rightarrow> bytes" where
  "be_bytes n w = rev (le_bytes_nat n (unat w))"

definition from_be :: "bytes \<Rightarrow> 'a::len word" where
  "from_be bs = word_of_nat (nat_of_le (rev bs))"

definition le_bytes :: "nat \<Rightarrow> 'a::len word \<Rightarrow> bytes" where
  "le_bytes n w = le_bytes_nat n (unat w)"

definition from_le :: "bytes \<Rightarrow> 'a::len word" where
  "from_le bs = word_of_nat (nat_of_le bs)"

lemma unat_less_2p: "unat (w :: 'a::len word) < 2 ^ LENGTH('a)"
  by (rule unsigned_less)

lemma length_le_bytes_nat [simp]: "length (le_bytes_nat n k) = n"
  by (induction n arbitrary: k) auto

lemma length_be_bytes [simp]: "length (be_bytes n w) = n"
  by (simp add: be_bytes_def)

lemma length_le_bytes [simp]: "length (le_bytes n w) = n"
  by (simp add: le_bytes_def)

lemma unat_word_of_nat_u8: "unat (word_of_nat k :: u8) = k mod 256"
  by (simp add: unsigned_of_nat take_bit_eq_mod)

lemma nat_of_le_le_bytes_nat: "nat_of_le (le_bytes_nat n k) = k mod 256 ^ n"
proof (induction n arbitrary: k)
  case (Suc n)
  have "nat_of_le (le_bytes_nat (Suc n) k) = k mod 256 + 256 * (k div 256 mod 256 ^ n)"
    by (simp add: Suc.IH unat_word_of_nat_u8)
  also have "\<dots> = k mod (256 * 256 ^ n)"
    by (simp add: mod_mult2_eq)
  finally show ?case by simp
qed simp

lemma le_bytes_nat_nat_of_le: "le_bytes_nat (length bs) (nat_of_le bs) = bs"
proof (induction bs)
  case (Cons b bs)
  have b: "unat b < 256" using unat_less_2p [of b] by simp
  then have "(unat b + 256 * nat_of_le bs) div 256 = nat_of_le bs" by simp
  moreover have "(word_of_nat (unat b + 256 * nat_of_le bs) :: u8) = b"
  proof -
    have "unat (word_of_nat (unat b + 256 * nat_of_le bs) :: u8) = unat b"
      using b by (simp only: unat_word_of_nat_u8) simp
    then show ?thesis by (simp only: word_unat_eq_iff)
  qed
  ultimately show ?case using Cons.IH by (simp del: of_nat_add of_nat_mult)
qed simp

lemma nat_of_le_less: "nat_of_le bs < 256 ^ length bs"
  by (subst le_bytes_nat_nat_of_le [symmetric], subst nat_of_le_le_bytes_nat) simp

lemma from_le_le_bytes [codec]:
  "LENGTH('a) \<le> 8 * n \<Longrightarrow> from_le (le_bytes n (w :: 'a::len word)) = w"
proof -
  assume n: "LENGTH('a) \<le> 8 * n"
  have "(2::nat) ^ LENGTH('a) \<le> 2 ^ (8 * n)" using n by (rule power_increasing) simp
  also have "(2::nat) ^ (8 * n) = 256 ^ n" by (simp add: power_mult)
  finally have "unat w < 256 ^ n" using unat_less_2p [of w] by linarith
  then show ?thesis
    by (simp add: from_le_def le_bytes_def nat_of_le_le_bytes_nat)
qed

lemma le_bytes_from_le [codec]:
  "length bs = n \<Longrightarrow> LENGTH('a) = 8 * n \<Longrightarrow> le_bytes n (from_le bs :: 'a::len word) = bs"
proof -
  assume n: "length bs = n" and l: "LENGTH('a) = 8 * n"
  have "(2::nat) ^ LENGTH('a) = 256 ^ n" by (simp add: l power_mult)
  then have "unat (from_le bs :: 'a word) = nat_of_le bs"
    using nat_of_le_less [of bs] n
    by (simp add: from_le_def unsigned_of_nat take_bit_eq_mod)
  then show ?thesis
    using le_bytes_nat_nat_of_le [of bs] n by (simp add: le_bytes_def)
qed

lemma from_be_be_bytes [codec]:
  "LENGTH('a) \<le> 8 * n \<Longrightarrow> from_be (be_bytes n (w :: 'a::len word)) = w"
  using from_le_le_bytes [of n w] by (simp add: from_be_def be_bytes_def from_le_def le_bytes_def)

lemma be_bytes_from_be [codec]:
  "length bs = n \<Longrightarrow> LENGTH('a) = 8 * n \<Longrightarrow> be_bytes n (from_be bs :: 'a::len word) = bs"
  using le_bytes_from_le [of "rev bs" n, where 'a = 'a]
  by (simp add: from_be_def be_bytes_def from_le_def le_bytes_def)

lemma unat_from_be:
  "8 * length bs \<le> LENGTH('a) \<Longrightarrow> unat (from_be bs :: 'a::len word) = nat_of_le (rev bs)"
proof -
  assume l: "8 * length bs \<le> LENGTH('a)"
  have "nat_of_le (rev bs) < 256 ^ length bs" using nat_of_le_less [of "rev bs"] by simp
  also have "(256::nat) ^ length bs = 2 ^ (8 * length bs)" by (simp add: power_mult)
  also have "\<dots> \<le> 2 ^ LENGTH('a)" using l by (rule power_increasing) simp
  finally show ?thesis by (simp add: from_be_def unsigned_of_nat take_bit_eq_mod)
qed

section \<open>Lists\<close>

lemma nth_if_map_upt: "i < n \<Longrightarrow> map f [0..<n] ! i = f i"
  by simp

lemma map_upt_eqI: "length xs = n \<Longrightarrow> (\<And>i. i < n \<Longrightarrow> xs ! i = f i) \<Longrightarrow> map f [0..<n] = xs"
  by (rule nth_equalityI) auto

lemma foldl_invariant:
  "P s \<Longrightarrow> (\<And>s x. P s \<Longrightarrow> x \<in> set xs \<Longrightarrow> P (f s x)) \<Longrightarrow> P (foldl f s xs)"
  by (induction xs arbitrary: s) auto

end
