(* ===== verification/Errors.thy ===== *)
theory Errors
  imports Prelude
begin

text \<open>
  The error type of the program (\<open>program/src/error.rs\<close>), the three ways a Rust computation can end
  (a value, an \<open>Err\<close> that the caller may handle, a panic that aborts the Solana instruction), the
  state-and-error monad in which the stateful components are written, and the encoding of a message
  as the return data of a reverted call.

  An error keeps the payload that the source gives it.  The errors that wrap a value of a third-party
  crate (\<open>bincode\<close>, \<open>hex\<close>, \<open>secp256k1\<close>, the standard library's conversion errors) carry none: the
  program never looks inside them.
\<close>

section \<open>Errors\<close>

datatype program_error =
    CustomProgramError u32
  | InvalidArgument
  | InvalidInstructionData
  | InvalidAccountData
  | AccountDataTooSmall
  | InsufficientFunds
  | MissingRequiredSignature
  | AccountAlreadyInitializedProgram
  | UninitializedAccount
  | NotEnoughAccountKeys
  | IllegalOwner

datatype rlp_error =
    RlpExpectedToBeData
  | RlpExpectedToBeList
  | RlpInconsistentLengthAndData
  | RlpIncorrectListLen
  | RlpInvalidIndirection
  | RlpInvalidLength
  | RlpIsTooBig
  | RlpOther

datatype account_error =
    AccountMissing address
  | AccountBlocked address
  | AccountInvalidTag pubkey u8
  | AccountInvalidOwner pubkey pubkey
  | AccountInvalidKey pubkey pubkey
  | AccountInvalidData pubkey
  | AccountNotWritable pubkey
  | AccountNotSigner pubkey
  | AccountNotRentExempt pubkey
  | AccountAlreadyInitialized pubkey
  | UnauthorizedOperator
  | StorageAccountUninitialized
  | StorageAccountFinalized
  | HolderInvalidOwner pubkey pubkey
  | HolderInvalidHash bytes32 bytes32

datatype validation_error =
    ValidationUndefinedInstruction u8 usize
  | ValidationTruncatedImmediate u8 usize
  | ValidationInvalidSectionArgument u16 usize usize
  | ValidationInvalidJumpDest int usize usize
  | ValidationConflictingStack usize usize
  | ValidationInvalidBranchCount usize
  | ValidationInvalidOutputs u8 usize usize
  | ValidationInvalidMaxStackHeight usize usize u16
  | ValidationInvalidCodeTermination u8 usize
  | ValidationUnreachableCode
  | FunctionMetadataNotFound usize
  | UnsupportedOpcode u8

datatype eof_error =
    UnexpectedEndOfFile
  | InvalidMagic
  | InvalidVersion u8
  | MissingSectionHeader u8 u8
  | InvalidTypeSizeMustBeDivisibleBy4 u16
  | InvalidTypeSizeExceed u16
  | InvalidCodeHeader
  | MismatchCodeSize usize usize
  | InvalidCodeSize usize
  | MissingTerminator u8
  | TooManyInputs u8 u8
  | TooManyOutputs u8 u8
  | TooLargeMaxStackHeight u8 u8
  | InvalidSection0Type u8 u8
  | InvalidContainerSize usize usize
  | UnknownSectionHeader u8

datatype evm_error =
    StackOverflow
  | StackUnderflow
  | PushOutOfBounds address
  | MemoryAccessOutOfLimits usize usize
  | ReturnDataCopyOverflow usize usize
  | StaticModeViolation address
  | InvalidJump address usize
  | InvalidOpcode address u8
  | DeprecatedOpcode address u8
  | UnknownOpcode address u8
  | EmptyStack
  | ContainerNotFound
  | EOFLegacyCode

text \<open>
  The Rust enum is flat; its variants are grouped here by the component that raises them
  (\<open>AccountError\<close>, \<open>ValidationError\<close>, \<open>EofError\<close>, \<open>EvmError\<close>), the rest are kept as they are.
\<close>

datatype error =
    Custom string
  | ProgramError program_error
  | RlpError rlp_error
  | Secp256k1Error
  | BincodeError
  | FromHexError
  | TryFromIntError
  | TryFromSliceError
  | AccountError account_error
  | ValidationError validation_error
  | EofError eof_error
  | EvmError evm_error
  | UnknownPrecompileMethodSelector address bytes
  | InsufficientBalance address u256
  | OutOfGas u256 u256
  | NonceOverflow address
  | InvalidTransactionNonce address u64 u64
  | InvalidChainId u256
  | DeployToExistingAccount address address
  | EVMObjectFormatNotSupported address
  | ContractCodeSizeLimit address usize
  | SenderHasDeployedCode address
  | IntegerOverflow
  | OutOfBounds

section \<open>Results\<close>

text \<open>
  \<open>Panic\<close> is what \<open>unwrap\<close>, \<open>expect\<close>, \<open>assert!\<close> and an index out of range do: unlike an \<open>Err\<close>,
  no code of the program can catch it.
\<close>

datatype 'a result = Ok 'a | Err error | Panic

definition rbind :: "'a result \<Rightarrow> ('a \<Rightarrow> 'b result) \<Rightarrow> 'b result" where
  "rbind r f = (case r of Ok x \<Rightarrow> f x | Err e \<Rightarrow> Err e | Panic \<Rightarrow> Panic)"

definition rensure :: "bool \<Rightarrow> error \<Rightarrow> unit result" where
  "rensure c e = (if c then Ok () else Err e)"

definition rassert :: "bool \<Rightarrow> unit result" where
  "rassert c = (if c then Ok () else Panic)"

definition ok_or :: "'a option \<Rightarrow> error \<Rightarrow> 'a result" where
  "ok_or x e = (case x of Some y \<Rightarrow> Ok y | None \<Rightarrow> Err e)"

definition unwrap :: "'a option \<Rightarrow> 'a result" where
  "unwrap x = (case x of Some y \<Rightarrow> Ok y | None \<Rightarrow> Panic)"

text \<open>An index into a slice panics out of range.\<close>

definition index_at :: "'a list \<Rightarrow> nat \<Rightarrow> 'a result" where
  "index_at xs i = (if i < length xs then Ok (xs ! i) else Panic)"

lemma rbind_simps [simp, exec_simps]:
  "rbind (Ok x) f = f x" "rbind (Err e) f = Err e" "rbind Panic f = Panic"
  by (simp_all add: rbind_def)

lemma rbind_Ok_iff: "rbind r f = Ok y \<longleftrightarrow> (\<exists>x. r = Ok x \<and> f x = Ok y)"
  by (cases r) auto

lemma rbind_assoc: "rbind (rbind r f) g = rbind r (\<lambda>x. rbind (f x) g)"
  by (cases r) auto

lemma rensure_Ok [simp]: "rensure c e = Ok u \<longleftrightarrow> c"
  by (simp add: rensure_def)

lemma rensure_True [simp, exec_simps]: "rensure True e = Ok ()"
  by (simp add: rensure_def)

lemma rensure_False [simp, exec_simps]: "rensure False e = Err e"
  by (simp add: rensure_def)

lemma rassert_True [simp, exec_simps]: "rassert True = Ok ()"
  by (simp add: rassert_def)

lemma rassert_False [simp, exec_simps]: "rassert False = Panic"
  by (simp add: rassert_def)

lemma rassert_Ok [simp]: "rassert c = Ok u \<longleftrightarrow> c"
  by (simp add: rassert_def)

lemma ok_or_simps [simp, exec_simps]: "ok_or (Some x) e = Ok x" "ok_or None e = Err e"
  by (simp_all add: ok_or_def)

lemma ok_or_Ok [simp]: "ok_or x e = Ok y \<longleftrightarrow> x = Some y"
  by (cases x) auto

lemma unwrap_simps [simp, exec_simps]: "unwrap (Some x) = Ok x" "unwrap None = Panic"
  by (simp_all add: unwrap_def)

lemma index_at_Ok [simp]: "index_at xs i = Ok x \<longleftrightarrow> i < length xs \<and> x = xs ! i"
  by (auto simp: index_at_def)

section \<open>Stateful computations\<close>

text \<open>
  A method with \<open>&mut self\<close> takes the state and returns its result together with the state it
  leaves, also when it fails: what was done before the \<open>?\<close> that returned the error stays done.
\<close>

type_synonym ('s, 'a) exec = "'s \<Rightarrow> 'a result \<times> 's"

definition ret :: "'a \<Rightarrow> ('s, 'a) exec" where
  "ret x = (\<lambda>s. (Ok x, s))"

definition raise :: "error \<Rightarrow> ('s, 'a) exec" where
  "raise e = (\<lambda>s. (Err e, s))"

definition panic :: "('s, 'a) exec" where
  "panic = (\<lambda>s. (Panic, s))"

definition and_then :: "('s, 'a) exec \<Rightarrow> ('a \<Rightarrow> ('s, 'b) exec) \<Rightarrow> ('s, 'b) exec" where
  "and_then m f = (\<lambda>s. case m s of
      (Ok x, s') \<Rightarrow> f x s'
    | (Err e, s') \<Rightarrow> (Err e, s')
    | (Panic, s') \<Rightarrow> (Panic, s'))"

definition gets :: "('s \<Rightarrow> 'a) \<Rightarrow> ('s, 'a) exec" where
  "gets f = (\<lambda>s. (Ok (f s), s))"

definition modify :: "('s \<Rightarrow> 's) \<Rightarrow> ('s, unit) exec" where
  "modify f = (\<lambda>s. (Ok (), f s))"

definition lift :: "'a result \<Rightarrow> ('s, 'a) exec" where
  "lift r = (\<lambda>s. (r, s))"

definition ensure :: "bool \<Rightarrow> error \<Rightarrow> ('s, unit) exec" where
  "ensure c e = (if c then ret () else raise e)"

definition zoom :: "('s \<Rightarrow> 't) \<Rightarrow> ('t \<Rightarrow> 's \<Rightarrow> 's) \<Rightarrow> ('t, 'a) exec \<Rightarrow> ('s, 'a) exec" where
  "zoom get put m = (\<lambda>s. case m (get s) of (r, t) \<Rightarrow> (r, put t s))"

text \<open>A \<open>match\<close> on the result of a call: an \<open>Err\<close> is handled, a panic is not.\<close>

definition catch_err :: "('s, 'a) exec \<Rightarrow> (error \<Rightarrow> ('s, 'a) exec) \<Rightarrow> ('s, 'a) exec" where
  "catch_err m h = (\<lambda>s. case m s of
      (Ok x, s') \<Rightarrow> (Ok x, s')
    | (Err e, s') \<Rightarrow> h e s'
    | (Panic, s') \<Rightarrow> (Panic, s'))"

text \<open>A call that only reads the state, and one that only reads a part of it\<close>

definition reads :: "('s \<Rightarrow> 'a result) \<Rightarrow> ('s, 'a) exec" where
  "reads f = (\<lambda>s. (f s, s))"

lemma reads_apply [exec_simps]: "reads f s = (f s, s)"
  by (simp add: reads_def)

lemma catch_err_apply [exec_simps]:
  "catch_err m h s = (case fst (m s) of Ok x \<Rightarrow> (Ok x, snd (m s))
     | Err e \<Rightarrow> h e (snd (m s)) | Panic \<Rightarrow> (Panic, snd (m s)))"
  by (cases "m s") (simp add: catch_err_def split: result.splits)

lemma ret_apply [exec_simps]: "ret x s = (Ok x, s)"
  by (simp add: ret_def)

lemma raise_apply [exec_simps]: "raise e s = (Err e, s)"
  by (simp add: raise_def)

lemma panic_apply [exec_simps]: "panic s = (Panic, s)"
  by (simp add: panic_def)

lemma gets_apply [exec_simps]: "gets f s = (Ok (f s), s)"
  by (simp add: gets_def)

lemma modify_apply [exec_simps]: "modify f s = (Ok (), f s)"
  by (simp add: modify_def)

lemma lift_apply [exec_simps]: "lift r s = (r, s)"
  by (simp add: lift_def)

lemma ensure_apply [exec_simps]: "ensure c e s = (if c then Ok () else Err e, s)"
  by (simp add: ensure_def ret_def raise_def)

lemma zoom_apply [exec_simps]: "zoom get put m s = (fst (m (get s)), put (snd (m (get s))) s)"
  by (simp add: zoom_def split_beta)

lemma and_then_ret [simp]: "and_then (ret x) f = f x"
  by (simp add: and_then_def ret_def)

lemma and_then_raise [simp]: "and_then (raise e) f = raise e"
  by (simp add: and_then_def raise_def)

lemma and_then_eval:
  "m s = (Ok x, s') \<Longrightarrow> and_then m f s = f x s'"
  "m s = (Err e, s') \<Longrightarrow> and_then m f s = (Err e, s')"
  "m s = (Panic, s') \<Longrightarrow> and_then m f s = (Panic, s')"
  by (simp_all add: and_then_def)

lemma and_then_apply [exec_simps]:
  "and_then m f s = (case fst (m s) of Ok x \<Rightarrow> f x (snd (m s))
     | Err e \<Rightarrow> (Err e, snd (m s)) | Panic \<Rightarrow> (Panic, snd (m s)))"
  by (cases "m s") (simp add: and_then_def split: result.splits)

lemma and_then_assoc:
  "and_then (and_then m f) g = and_then m (\<lambda>x. and_then (f x) g)"
  by (rule ext) (simp add: and_then_apply split: result.splits)

lemma and_then_OkE:
  assumes "and_then m f s = (Ok y, s')"
  obtains x s1 where "m s = (Ok x, s1)" "f x s1 = (Ok y, s')"
  using assms by (cases "m s") (auto simp: and_then_def split: result.splits)

subsection \<open>Hoare-style reasoning\<close>

text \<open>
  \<open>holds P m Q E\<close>: started in a state with \<open>P\<close>, a computation that ends with a value satisfies \<open>Q\<close>
  and one that ends with an error leaves a state with \<open>E\<close>.  A panic ends the instruction, so it
  carries no obligation here.
\<close>

named_theorems hoare \<open>rules that compute with \<open>holds\<close>\<close>

definition holds :: "('s \<Rightarrow> bool) \<Rightarrow> ('s, 'a) exec \<Rightarrow> ('a \<Rightarrow> 's \<Rightarrow> bool) \<Rightarrow> ('s \<Rightarrow> bool) \<Rightarrow> bool" where
  "holds P m Q E \<longleftrightarrow> (\<forall>s. P s \<longrightarrow> (case m s of
      (Ok x, s') \<Rightarrow> Q x s' | (Err e, s') \<Rightarrow> E s' | (Panic, s') \<Rightarrow> True))"

lemma holds_ret: "(\<And>s. P s \<Longrightarrow> Q x s) \<Longrightarrow> holds P (ret x) Q E"
  by (simp add: holds_def ret_def)

lemma holds_raise: "(\<And>s. P s \<Longrightarrow> E s) \<Longrightarrow> holds P (raise e) Q E"
  by (simp add: holds_def raise_def)

lemma holds_panic [hoare]: "holds P panic Q E"
  by (simp add: holds_def panic_def)

lemma holds_gets: "(\<And>s. P s \<Longrightarrow> Q (f s) s) \<Longrightarrow> holds P (gets f) Q E"
  by (simp add: holds_def gets_def)

lemma holds_modify: "(\<And>s. P s \<Longrightarrow> Q () (f s)) \<Longrightarrow> holds P (modify f) Q E"
  by (simp add: holds_def modify_def)

lemma holds_lift:
  "(\<And>s x. P s \<Longrightarrow> r = Ok x \<Longrightarrow> Q x s) \<Longrightarrow> (\<And>s. P s \<Longrightarrow> E s) \<Longrightarrow> holds P (lift r) Q E"
  by (cases r) (simp_all add: holds_def lift_def)

lemma holds_ensure:
  "(\<And>s. P s \<Longrightarrow> c \<Longrightarrow> Q () s) \<Longrightarrow> (\<And>s. P s \<Longrightarrow> E s) \<Longrightarrow> holds P (ensure c e) Q E"
  by (simp add: holds_def ensure_def ret_def raise_def)

lemma holds_and_then:
  "holds P m R E \<Longrightarrow> (\<And>x. holds (R x) (f x) Q E) \<Longrightarrow> holds P (and_then m f) Q E"
  by (fastforce simp: holds_def and_then_apply split_beta split: result.splits prod.splits)

lemma holds_catch_err:
  "holds P m Q R \<Longrightarrow> (\<And>e. holds R (h e) Q E) \<Longrightarrow> holds P (catch_err m h) Q E"
  by (fastforce simp: holds_def catch_err_apply split_beta split: result.splits prod.splits)

lemma holds_reads:
  "(\<And>s x. P s \<Longrightarrow> f s = Ok x \<Longrightarrow> Q x s) \<Longrightarrow> (\<And>s. P s \<Longrightarrow> E s) \<Longrightarrow> holds P (reads f) Q E"
  by (auto simp: holds_def reads_def split: result.splits)

lemma holds_zoom:
  "(\<And>t s. P s \<Longrightarrow> P (put t s)) \<Longrightarrow> holds P (zoom get put m) (\<lambda>_. P) P"
  by (auto simp: holds_def zoom_apply split: result.splits)

lemma holds_if:
  "(c \<Longrightarrow> holds P m Q E) \<Longrightarrow> (\<not> c \<Longrightarrow> holds P n Q E) \<Longrightarrow> holds P (if c then m else n) Q E"
  by simp

lemma holds_conseq:
  "holds P m Q E \<Longrightarrow> (\<And>s. P' s \<Longrightarrow> P s) \<Longrightarrow> (\<And>x s. Q x s \<Longrightarrow> Q' x s) \<Longrightarrow> (\<And>s. E s \<Longrightarrow> E' s)
    \<Longrightarrow> holds P' m Q' E'"
  by (fastforce simp: holds_def split: prod.splits result.splits)

lemma holdsD_Ok: "holds P m Q E \<Longrightarrow> P s \<Longrightarrow> m s = (Ok x, s') \<Longrightarrow> Q x s'"
  by (fastforce simp: holds_def)

lemma holdsD_Err: "holds P m Q E \<Longrightarrow> P s \<Longrightarrow> m s = (Err e, s') \<Longrightarrow> E s'"
  by (fastforce simp: holds_def)

text \<open>
  \<open>keeps I m\<close>: whatever \<open>m\<close> does, it takes a state with \<open>I\<close> to a state with \<open>I\<close>.  The rules below
  are syntax directed; \<open>intro keeps\<close> reduces a composed operation to its primitive steps.
\<close>

named_theorems keeps \<open>syntax-directed rules for invariants\<close>

definition keep :: "('s \<Rightarrow> bool) \<Rightarrow> ('s, 'a) exec \<Rightarrow> bool" where
  "keep I m \<longleftrightarrow> holds I m (\<lambda>_. I) I"

lemma keep_ret [keeps]: "keep I (ret x)"
  by (simp add: keep_def holds_ret)

lemma keep_raise [keeps]: "keep I (raise e)"
  by (simp add: keep_def holds_raise)

lemma keep_panic [keeps]: "keep I panic"
  by (simp add: keep_def holds_panic)

lemma keep_gets [keeps]: "keep I (gets f)"
  by (simp add: keep_def holds_gets)

lemma keep_lift [keeps]: "keep I (lift r)"
  by (simp add: keep_def holds_lift)

lemma keep_ensure [keeps]: "keep I (ensure c e)"
  by (simp add: keep_def holds_ensure)

lemma keep_and_then [keeps]: "keep I m \<Longrightarrow> (\<And>x. keep I (f x)) \<Longrightarrow> keep I (and_then m f)"
  by (simp add: keep_def holds_and_then)

lemma keep_if [keeps]:
  "(c \<Longrightarrow> keep I m) \<Longrightarrow> (\<not> c \<Longrightarrow> keep I n) \<Longrightarrow> keep I (if c then m else n)"
  by simp

lemma keep_reads [keeps]: "keep I (reads f)"
  by (simp add: keep_def holds_reads)

lemma keep_catch_err [keeps]: "keep I m \<Longrightarrow> (\<And>e. keep I (h e)) \<Longrightarrow> keep I (catch_err m h)"
  by (simp add: keep_def holds_catch_err)

lemma keep_zoom: "(\<And>t s. I s \<Longrightarrow> I (put t s)) \<Longrightarrow> keep I (zoom get put m)"
  unfolding keep_def by (rule holds_zoom)

lemma keep_modify: "(\<And>s. I s \<Longrightarrow> I (f s)) \<Longrightarrow> keep I (modify f)"
  by (simp add: keep_def holds_modify)

lemma keep_case_option [keeps]:
  "(x = None \<Longrightarrow> keep I m) \<Longrightarrow> (\<And>y. x = Some y \<Longrightarrow> keep I (n y))
    \<Longrightarrow> keep I (case x of None \<Rightarrow> m | Some y \<Rightarrow> n y)"
  by (cases x) auto

lemma keep_case_prod [keeps]: "(\<And>a b. keep I (f a b)) \<Longrightarrow> keep I (case p of (a, b) \<Rightarrow> f a b)"
  by (cases p) auto

lemma holds_keep_then:
  "keep I m \<Longrightarrow> (\<And>x. holds I (f x) Q I) \<Longrightarrow> holds I (and_then m f) Q I"
  unfolding keep_def by (rule holds_and_then)

lemma keep_holds: "keep I m \<Longrightarrow> holds I m (\<lambda>_. I) I"
  by (simp add: keep_def)

section \<open>Messages of reverted calls\<close>

text \<open>
  \<open>str::from_utf8\<close>: the standard library accepts exactly the well-formed UTF-8 strings.
\<close>

fun utf8_valid :: "bytes \<Rightarrow> bool" where
  "utf8_valid [] = True"
| "utf8_valid (a # rest) =
    (let n = unat a; cont = (\<lambda>b::u8. 128 \<le> unat b \<and> unat b \<le> 191) in
     if n < 128 then utf8_valid rest
     else if 194 \<le> n \<and> n \<le> 223 then
       (case rest of b # r \<Rightarrow> cont b \<and> utf8_valid r | _ \<Rightarrow> False)
     else if 224 \<le> n \<and> n \<le> 239 then
       (case rest of b # c # r \<Rightarrow> cont b \<and> (n = 224 \<longrightarrow> 160 \<le> unat b) \<and> (n = 237 \<longrightarrow> unat b \<le> 159)
           \<and> cont c \<and> utf8_valid r | _ \<Rightarrow> False)
     else if 240 \<le> n \<and> n \<le> 244 then
       (case rest of b # c # d # r \<Rightarrow> cont b \<and> (n = 240 \<longrightarrow> 144 \<le> unat b) \<and> (n = 244 \<longrightarrow> unat b \<le> 143)
           \<and> cont c \<and> cont d \<and> utf8_valid r | _ \<Rightarrow> False)
     else False)"

definition error_selector :: bytes where
  "error_selector = [0x08, 0xc3, 0x79, 0xa0]"

definition panic_selector :: bytes where
  "panic_selector = [0x4e, 0x48, 0x7b, 0x71]"

text \<open>\<open>msg.get(begin..end)\<close>\<close>

definition slice_get :: "bytes \<Rightarrow> nat \<Rightarrow> nat \<Rightarrow> bytes option" where
  "slice_get bs b e = (if b \<le> e \<and> e \<le> length bs then Some (take (e - b) (drop b bs)) else None)"

definition format_revert_error :: "bytes \<Rightarrow> bytes option" where
  "format_revert_error msg =
    (if take 4 msg = error_selector then
       let msg = drop 4 msg in
       if length msg < 64 then None
       else
         let offset = from_be (take 32 msg) :: u256 in
         if offset \<noteq> 32 then None
         else
           let len = unat (from_be (take 32 (drop 32 msg)) :: u256) in
           if usize_bound \<le> len then None
           else
             (case checked_add_usize 64 len of
                None \<Rightarrow> None
              | Some end \<Rightarrow>
                  (case slice_get msg 64 end of
                     None \<Rightarrow> None
                   | Some reason \<Rightarrow> if utf8_valid reason then Some reason else None))
     else None)"

definition format_revert_panic :: "bytes \<Rightarrow> u256 option" where
  "format_revert_panic msg =
    (if take 4 msg = panic_selector then
       let msg = drop 4 msg in
       if length msg \<noteq> 32 then None else Some (from_be msg)
     else None)"

definition build_revert_message :: "bytes \<Rightarrow> bytes result" where
  "build_revert_message msg =
    (let data_len = (if length msg mod 32 = 0 then max (length msg) 32
                     else (length msg div 32 + 1) * 32);
         capacity = 4 + 32 + 32 + data_len;
         result = error_selector
           @ be_bytes 32 (32 :: u256)
           @ be_bytes 32 (word_of_nat (length msg) :: u256)
           @ msg
     in rbind (rassert (length result \<le> capacity))
          (\<lambda>_. Ok (result @ replicate (capacity - length result) 0)))"

lemma length_error_selector [simp]: "length error_selector = 4"
  by (simp add: error_selector_def)

text \<open>The message always fits the buffer it was given, and the buffer is a whole number of words.\<close>

definition revert_padding :: "bytes \<Rightarrow> nat" where
  "revert_padding msg = (if length msg mod 32 = 0 then max (length msg) 32
                     else (length msg div 32 + 1) * 32) - length msg"

lemma build_revert_message_eq:
  "build_revert_message msg = Ok (error_selector @ be_bytes 32 (32 :: u256)
     @ be_bytes 32 (word_of_nat (length msg) :: u256) @ msg @ replicate (revert_padding msg) 0)"
proof -
  have "length msg \<le> (length msg div 32 + 1) * 32"
    by presburger
  then show ?thesis
    by (simp add: build_revert_message_def revert_padding_def Let_def rassert_def)
qed

lemma format_build_shape:
  assumes "utf8_valid msg" and "length msg + 64 < usize_bound"
  shows "format_revert_error (error_selector @ be_bytes 32 (32 :: u256)
     @ be_bytes 32 (word_of_nat (length msg) :: u256) @ msg @ replicate k 0) = Some msg"
proof -
  have u: "unat (word_of_nat (length msg) :: u256) = length msg"
    using assms(2) by (simp add: unsigned_of_nat take_bit_eq_mod)
  have a: "(from_be (be_bytes 32 w) :: u256) = w" for w :: u256
    by (rule from_be_be_bytes) simp
  show ?thesis using assms
    by (simp add: format_revert_error_def Let_def a u slice_get_def checked_add_usize_def)
qed

section \<open>Properties\<close>

text \<open>The return data that is built for a failed instruction reads back as its message: a valid
  UTF-8 text is recovered from the encoding, whose length is a selector and a whole number of words.\<close>

theorem revert_message_roundtrip:
  assumes "utf8_valid msg" and "length msg + 64 < usize_bound"
  shows "\<exists>data. build_revert_message msg = Ok data \<and> format_revert_error data = Some msg
    \<and> length data mod 32 = 4"
proof -
  have "(length msg + revert_padding msg) mod 32 = 0"
    unfolding revert_padding_def by (simp add: max_def)
  then have "(68 + (length msg + revert_padding msg)) mod 32 = 4"
    by (simp only: mod_add_right_eq [of 68 "length msg + revert_padding msg" 32, symmetric]) simp
  then have "length (error_selector @ be_bytes 32 (32 :: u256) @ be_bytes 32 (word_of_nat (length msg) :: u256)
      @ msg @ replicate (revert_padding msg) 0) mod 32 = 4"
    by (simp only: length_append length_error_selector length_be_bytes length_replicate) simp
  then show ?thesis
    using format_build_shape [OF assms] build_revert_message_eq by blast
qed

theorem revert_message_roundtrip_witness:
  "\<exists>data. build_revert_message [0x6F, 0xC3, 0xA9] = Ok data
    \<and> format_revert_error data = Some [0x6F, 0xC3, 0xA9]"
  using revert_message_roundtrip [of "[0x6F, 0xC3, 0xA9]"] by auto

end
