(* ===== verification/Stack.thy ===== *)
theory Stack
  imports Errors
begin

text \<open>
  The operand stack of the EVM (\<open>program/src/evm/stack.rs\<close>) at two levels.

  \<open>raw_stack\<close> is the structure of the source: a block of \<open>STACK_SIZE\<close> bytes from the allocator and
  the pointer \<open>top\<close>, as an offset from \<open>begin\<close>; every operation is the pointer arithmetic and the
  byte copies of the code.  \<open>evm_stack\<close> is what it promises: a list of 256-bit words, top first, that
  holds at most 127 of them (\<open>end\<close> points at the last slot, so the last slot never becomes part of
  the stack).  Each raw operation implements its list counterpart (\<open>refines\<close>), keeps the
  representation invariant, and never touches a byte outside the block.  The interpreter uses the
  list operations.
\<close>

section \<open>The stack as a block of bytes\<close>

definition ELEMENT_SIZE :: nat where
  "ELEMENT_SIZE = 32"

definition STACK_SIZE :: nat where
  "STACK_SIZE = ELEMENT_SIZE * 128"

text \<open>\<open>end = begin.add(STACK_SIZE - ELEMENT_SIZE)\<close>, as an offset from \<open>begin\<close>\<close>

definition STACK_END :: nat where
  "STACK_END = STACK_SIZE - ELEMENT_SIZE"

lemmas stack_consts = ELEMENT_SIZE_def STACK_SIZE_def STACK_END_def

record raw_stack =
  block :: "nat \<Rightarrow> u8"
  top :: nat

text \<open>The allocator does not clear the block: its contents are the argument \<open>junk\<close>.\<close>

definition raw_new :: "(nat \<Rightarrow> u8) \<Rightarrow> raw_stack" where
  "raw_new junk = \<lparr>block = junk, top = 0\<rparr>"

definition raw_len :: "raw_stack \<Rightarrow> usize" where
  "raw_len s = top s div ELEMENT_SIZE"

definition raw_to_vec :: "raw_stack \<Rightarrow> bytes list" where
  "raw_to_vec s = map (\<lambda>k. map (\<lambda>i. block s (32 * k + i)) [0..<32]) [0..<top s div 32]"

text \<open>\<open>ptr::copy_nonoverlapping\<close> of a byte string to an offset of the block\<close>

definition write_at :: "nat \<Rightarrow> bytes \<Rightarrow> (nat \<Rightarrow> u8) \<Rightarrow> nat \<Rightarrow> u8" where
  "write_at off bs m = (\<lambda>i. if off \<le> i \<and> i < off + length bs then bs ! (i - off) else m i)"

definition read_at :: "nat \<Rightarrow> nat \<Rightarrow> (nat \<Rightarrow> u8) \<Rightarrow> bytes" where
  "read_at off n m = map (\<lambda>i. m (off + i)) [0..<n]"

definition raw_read :: "raw_stack \<Rightarrow> bytes" where
  "raw_read s = read_at (top s) 32 (block s)"

definition raw_push :: "(raw_stack, unit) exec" where
  "raw_push = (\<lambda>s. if top s = STACK_END then (Err (EvmError StackOverflow), s)
                   else (Ok (), s\<lparr>top := top s + 32\<rparr>))"

definition raw_pop :: "(raw_stack, unit) exec" where
  "raw_pop = (\<lambda>s. if top s = 0 then (Err (EvmError StackUnderflow), s)
                  else (Ok (), s\<lparr>top := top s - 32\<rparr>))"

definition raw_write :: "nat \<Rightarrow> bytes \<Rightarrow> (raw_stack, unit) exec" where
  "raw_write off bs = modify (\<lambda>s. s\<lparr>block := write_at (top s + off) bs (block s)\<rparr>)"

definition raw_pop_array :: "(raw_stack, bytes) exec" where
  "raw_pop_array = and_then raw_pop (\<lambda>_. gets raw_read)"

definition raw_pop_u256 :: "(raw_stack, u256) exec" where
  "raw_pop_u256 = and_then raw_pop (\<lambda>_. gets (\<lambda>s. from_be (raw_read s)))"

definition raw_pop_usize :: "(raw_stack, usize) exec" where
  "raw_pop_usize = and_then raw_pop_u256 (\<lambda>v.
     if unat v < usize_bound then ret (unat v) else raise TryFromIntError)"

text \<open>The address is the slot without its first 12 bytes.\<close>

definition raw_pop_address :: "(raw_stack, address) exec" where
  "raw_pop_address = and_then raw_pop (\<lambda>_. gets (\<lambda>s. from_be (read_at (top s + 12) 20 (block s))))"

definition raw_pop_i256 :: "(raw_stack, u256) exec" where
  "raw_pop_i256 = and_then raw_pop (\<lambda>_. gets (\<lambda>s. from_be (raw_read s)))"

definition raw_discard :: "(raw_stack, unit) exec" where
  "raw_discard = raw_pop"

definition raw_push_byte :: "u8 \<Rightarrow> (raw_stack, unit) exec" where
  "raw_push_byte v = and_then (raw_write 0 (replicate 32 0)) (\<lambda>_.
     and_then (raw_write 31 [v]) (\<lambda>_. raw_push))"

definition raw_push_zero :: "(raw_stack, unit) exec" where
  "raw_push_zero = and_then (raw_write 0 (replicate 32 0)) (\<lambda>_. raw_push)"

definition raw_push_array :: "bytes \<Rightarrow> (raw_stack, unit) exec" where
  "raw_push_array bs = and_then (raw_write 0 bs) (\<lambda>_. raw_push)"

definition raw_push_array_2_31 :: "bytes \<Rightarrow> (raw_stack, unit) exec" where
  "raw_push_array_2_31 bs = (let zero_bytes = 32 - length bs in
     and_then (raw_write 0 (replicate zero_bytes 0)) (\<lambda>_.
       and_then (raw_write zero_bytes bs) (\<lambda>_. raw_push)))"

definition raw_push_bool :: "bool \<Rightarrow> (raw_stack, unit) exec" where
  "raw_push_bool b = (if b then raw_push_byte 1 else raw_push_zero)"

definition raw_push_address :: "address \<Rightarrow> (raw_stack, unit) exec" where
  "raw_push_address a = raw_push_array_2_31 (be_bytes 20 a)"

definition raw_push_usize :: "usize \<Rightarrow> (raw_stack, unit) exec" where
  "raw_push_usize n = raw_push_array_2_31 (be_bytes 8 (word_of_nat n :: u64))"

definition raw_push_u256 :: "u256 \<Rightarrow> (raw_stack, unit) exec" where
  "raw_push_u256 w = raw_push_array (be_bytes 32 w)"

definition raw_push_i256 :: "u256 \<Rightarrow> (raw_stack, unit) exec" where
  "raw_push_i256 w = raw_push_array (be_bytes 32 w)"

definition raw_dup :: "nat \<Rightarrow> (raw_stack, unit) exec" where
  "raw_dup n = (\<lambda>s.
     if top s < n * 32 then (Err (EvmError StackUnderflow), s)
     else and_then (raw_write 0 (read_at (top s - n * 32) 32 (block s))) (\<lambda>_. raw_push) s)"

definition raw_swap :: "nat \<Rightarrow> (raw_stack, unit) exec" where
  "raw_swap n = (\<lambda>s.
     if top s < (n + 1) * 32 then (Err (EvmError StackUnderflow), s)
     else
       let a = top s - 32;
           b = top s - (n + 1) * 32;
           c = read_at a 32 (block s);
           m1 = write_at a (read_at b 32 (block s)) (block s);
           m2 = write_at b c m1
       in (Ok (), s\<lparr>block := m2\<rparr>))"

definition raw_serialize :: "raw_stack \<Rightarrow> bytes" where
  "raw_serialize s = read_at 0 (top s) (block s)"

text \<open>The visitor accepts any whole number of slots, and copies them to the start of a new block.\<close>

definition raw_deserialize :: "(nat \<Rightarrow> u8) \<Rightarrow> bytes \<Rightarrow> raw_stack result" where
  "raw_deserialize junk v =
    (if length v mod 32 \<noteq> 0 then Err BincodeError
     else Ok \<lparr>block = write_at 0 v junk, top = length v\<rparr>)"

section \<open>The stack as a list of words\<close>

type_synonym evm_stack = "u256 list"

definition st_len :: "evm_stack \<Rightarrow> usize" where
  "st_len xs = length xs"

definition st_limit :: nat where
  "st_limit = 127"

definition st_push :: "u256 \<Rightarrow> (evm_stack, unit) exec" where
  "st_push w = (\<lambda>xs. if length xs = st_limit then (Err (EvmError StackOverflow), xs)
                     else (Ok (), w # xs))"

fun st_pop :: "(evm_stack, u256) exec" where
  "st_pop [] = (Err (EvmError StackUnderflow), [])"
| "st_pop (w # xs) = (Ok w, xs)"

definition pop_u256 :: "(evm_stack, u256) exec" where
  "pop_u256 = st_pop"

text \<open>An \<open>I256\<close> has the bits of the slot; \<open>sint\<close> reads it as a signed number.\<close>

definition pop_i256 :: "(evm_stack, u256) exec" where
  "pop_i256 = st_pop"

definition pop_array :: "(evm_stack, bytes32) exec" where
  "pop_array = st_pop"

definition pop_usize :: "(evm_stack, usize) exec" where
  "pop_usize = and_then pop_u256 (\<lambda>v.
     if unat v < usize_bound then ret (unat v) else raise TryFromIntError)"

definition pop_address :: "(evm_stack, address) exec" where
  "pop_address = and_then st_pop (\<lambda>v. ret (ucast v))"

definition discard :: "(evm_stack, unit) exec" where
  "discard = and_then st_pop (\<lambda>_. ret ())"

definition push_byte :: "u8 \<Rightarrow> (evm_stack, unit) exec" where
  "push_byte v = st_push (ucast v)"

definition push_zero :: "(evm_stack, unit) exec" where
  "push_zero = st_push 0"

definition push_array :: "bytes32 \<Rightarrow> (evm_stack, unit) exec" where
  "push_array w = st_push w"

definition push_array_2_31 :: "bytes \<Rightarrow> (evm_stack, unit) exec" where
  "push_array_2_31 bs = st_push (from_be bs)"

definition push_bool :: "bool \<Rightarrow> (evm_stack, unit) exec" where
  "push_bool b = (if b then push_byte 1 else push_zero)"

definition push_address :: "address \<Rightarrow> (evm_stack, unit) exec" where
  "push_address a = push_array_2_31 (be_bytes 20 a)"

definition push_usize :: "usize \<Rightarrow> (evm_stack, unit) exec" where
  "push_usize n = push_array_2_31 (be_bytes 8 (word_of_nat n :: u64))"

definition push_u256 :: "u256 \<Rightarrow> (evm_stack, unit) exec" where
  "push_u256 w = push_array w"

definition push_i256 :: "u256 \<Rightarrow> (evm_stack, unit) exec" where
  "push_i256 w = push_array w"

definition dup_1_16 :: "nat \<Rightarrow> (evm_stack, unit) exec" where
  "dup_1_16 n = (\<lambda>xs.
     if length xs < n then (Err (EvmError StackUnderflow), xs) else st_push (xs ! (n - 1)) xs)"

definition swap_1_16 :: "nat \<Rightarrow> (evm_stack, unit) exec" where
  "swap_1_16 n = (\<lambda>xs.
     if length xs < n + 1 then (Err (EvmError StackUnderflow), xs)
     else (Ok (), xs[0 := xs ! n, n := xs ! 0]))"

definition st_serialize :: "evm_stack \<Rightarrow> bytes" where
  "st_serialize xs = concat (map (be_bytes 32) (rev xs))"

fun words_of_bytes :: "bytes \<Rightarrow> u256 list" where
  "words_of_bytes [] = []"
| "words_of_bytes (b # bs) = from_be (take 32 (b # bs)) # words_of_bytes (drop 32 (b # bs))"

definition st_deserialize :: "bytes \<Rightarrow> evm_stack result" where
  "st_deserialize v = (if length v mod 32 \<noteq> 0 then Err BincodeError else Ok (rev (words_of_bytes v)))"

lemmas stack_op_defs = pop_u256_def pop_i256_def pop_array_def pop_usize_def pop_address_def
  discard_def push_byte_def push_zero_def push_array_def push_array_2_31_def push_bool_def
  push_address_def push_usize_def push_u256_def push_i256_def

section \<open>The representation\<close>

definition raw_inv :: "raw_stack \<Rightarrow> bool" where
  "raw_inv s \<longleftrightarrow> top s mod 32 = 0 \<and> top s \<le> STACK_END"

definition slot :: "(nat \<Rightarrow> u8) \<Rightarrow> nat \<Rightarrow> u256" where
  "slot m k = from_be (read_at (32 * k) 32 m)"

definition raw_abs :: "raw_stack \<Rightarrow> evm_stack" where
  "raw_abs s = rev (map (slot (block s)) [0..<top s div 32])"

text \<open>
  \<open>refines R A\<close>: on every well-formed raw stack the raw operation returns what the list operation
  returns on the abstraction, leaves a well-formed stack that represents the list operation's result,
  and changes no byte outside the block.
\<close>

definition refines :: "(raw_stack, 'a) exec \<Rightarrow> (evm_stack, 'a) exec \<Rightarrow> bool" where
  "refines R A \<longleftrightarrow> (\<forall>s. raw_inv s \<longrightarrow>
     A (raw_abs s) = (fst (R s), raw_abs (snd (R s))) \<and> raw_inv (snd (R s))
     \<and> (\<forall>i \<ge> STACK_SIZE. block (snd (R s)) i = block s i))"

lemma length_read_at [simp]: "length (read_at off n m) = n"
  by (simp add: read_at_def)

lemma read_at_nth [simp]: "i < n \<Longrightarrow> read_at off n m ! i = m (off + i)"
  by (simp add: read_at_def)

lemma read_write_same: "length bs = n \<Longrightarrow> read_at off n (write_at off bs m) = bs"
  by (rule nth_equalityI) (auto simp: write_at_def)

lemma read_write_other:
  "off + length bs \<le> p \<or> p + n \<le> off \<Longrightarrow> read_at p n (write_at off bs m) = read_at p n m"
  by (rule nth_equalityI) (auto simp: write_at_def)

lemma slot_write_same: "length bs = 32 \<Longrightarrow> slot (write_at (32 * k) bs m) k = from_be bs"
  by (simp add: slot_def read_write_same)

lemma slot_write_other: "length bs = 32 \<Longrightarrow> j \<noteq> k \<Longrightarrow> slot (write_at (32 * k) bs m) j = slot m j"
  unfolding slot_def by (subst read_write_other) auto

lemma raw_inv_top: "raw_inv s \<Longrightarrow> \<exists>k. top s = 32 * k \<and> k \<le> 127"
  by (auto simp: raw_inv_def stack_consts elim!: dvdE simp flip: dvd_eq_mod_eq_0)

lemma length_raw_abs [simp]: "length (raw_abs s) = top s div 32"
  by (simp add: raw_abs_def)

lemma raw_abs_nth:
  "i < top s div 32 \<Longrightarrow> raw_abs s ! i = slot (block s) (top s div 32 - 1 - i)"
  by (simp add: raw_abs_def rev_nth)

lemma raw_abs_push:
  "top s = 32 * k \<Longrightarrow> length bs = 32 \<Longrightarrow>
   raw_abs (s\<lparr>block := write_at (32 * k) bs (block s), top := 32 * k + 32\<rparr>) = from_be bs # raw_abs s"
  by (auto simp: raw_abs_def slot_write_same slot_write_other add.commute)

lemma raw_abs_frame:
  "top s = 32 * k \<Longrightarrow> length bs = 32 \<Longrightarrow>
   raw_abs (s\<lparr>block := write_at (32 * k) bs (block s)\<rparr>) = raw_abs s"
  by (auto simp: raw_abs_def slot_write_other)

text \<open>Every push ends in this step: the slot at \<open>top\<close> holds the word and \<open>raw_push\<close> accounts for it.\<close>

lemma refines_push_slot:
  assumes "\<And>s. R s = raw_push (s\<lparr>block := write_at (top s) bs (block s)\<rparr>)" and "length bs = 32"
  shows "refines R (st_push (from_be bs))"
  unfolding refines_def
proof (intro allI impI)
  fix s
  assume inv: "raw_inv s"
  then obtain k where k: "top s = 32 * k" "k \<le> 127" using raw_inv_top by blast
  have out: "\<forall>i \<ge> STACK_SIZE. write_at (32 * k) bs (block s) i = block s i"
    using k assms(2) by (simp add: write_at_def stack_consts)
  show "st_push (from_be bs) (raw_abs s) = (fst (R s), raw_abs (snd (R s)))
      \<and> raw_inv (snd (R s)) \<and> (\<forall>i \<ge> STACK_SIZE. block (snd (R s)) i = block s i)"
  proof (cases "k = 127")
    case True
    with k have "raw_push (s\<lparr>block := write_at (32 * k) bs (block s)\<rparr>)
        = (Err (EvmError StackOverflow), s\<lparr>block := write_at (32 * k) bs (block s)\<rparr>)"
      by (simp add: raw_push_def stack_consts)
    then show ?thesis using k inv assms(2) out True raw_abs_frame [OF k(1) assms(2)]
      by (simp add: assms(1) st_push_def st_limit_def raw_inv_def)
  next
    case False
    with k have "raw_push (s\<lparr>block := write_at (32 * k) bs (block s)\<rparr>)
        = (Ok (), s\<lparr>block := write_at (32 * k) bs (block s), top := 32 * k + 32\<rparr>)"
      by (simp add: raw_push_def stack_consts)
    then show ?thesis using k inv assms(2) out False raw_abs_push [OF k(1) assms(2)]
      by (simp add: assms(1) st_push_def st_limit_def raw_inv_def stack_consts)
  qed
qed

lemma write_at_overlay:
  "length bs \<le> n \<Longrightarrow>
   write_at (t + (n - length bs)) bs (write_at t (replicate n 0) m)
     = write_at t (replicate (n - length bs) 0 @ bs) m"
  by (rule ext) (auto simp: write_at_def nth_append)

lemma write_at_prefix:
  "length bs \<le> n \<Longrightarrow>
   write_at (t + (n - length bs)) bs (write_at t (replicate (n - length bs) 0) m)
     = write_at t (replicate (n - length bs) 0 @ bs) m"
  by (rule ext) (auto simp: write_at_def nth_append)

lemma nat_of_le_zeros [simp]: "nat_of_le (replicate n 0) = 0"
  by (induction n) auto

lemma nat_of_le_append: "nat_of_le (as @ bs) = nat_of_le as + 256 ^ length as * nat_of_le bs"
  by (induction as) (auto simp: algebra_simps)

lemma from_be_zeros: "from_be (replicate n 0 @ bs) = from_be bs"
  by (simp add: from_be_def nat_of_le_append)

lemma raw_pop_refines: "refines (and_then raw_pop (\<lambda>_. gets (\<lambda>s. from_be (raw_read s)))) st_pop"
  unfolding refines_def
proof (intro allI impI)
  fix s
  assume inv: "raw_inv s"
  then obtain k where k: "top s = 32 * k" "k \<le> 127" using raw_inv_top by blast
  let ?R = "and_then raw_pop (\<lambda>_. gets (\<lambda>s. from_be (raw_read s) :: u256)) s"
  show "st_pop (raw_abs s) = (fst ?R, raw_abs (snd ?R))
      \<and> raw_inv (snd ?R) \<and> (\<forall>i \<ge> STACK_SIZE. block (snd ?R) i = block s i)"
  proof (cases k)
    case 0
    then show ?thesis using k inv
      by (simp add: raw_pop_def and_then_apply raw_abs_def)
  next
    case (Suc j)
    then show ?thesis using k inv
      by (auto simp: raw_pop_def and_then_apply gets_apply raw_abs_def raw_inv_def slot_def raw_read_def)
  qed
qed

lemma refines_and_then:
  "refines R A \<Longrightarrow> (\<And>x. refines (R' x) (A' x)) \<Longrightarrow> refines (and_then R R') (and_then A A')"
  by (fastforce simp: refines_def and_then_apply split: result.splits)

lemma refines_ret: "refines (ret x) (ret x)"
  by (simp add: refines_def ret_def)

lemma refines_raise: "refines (raise e) (raise e)"
  by (simp add: refines_def raise_def)

lemma refines_if: "refines R A \<Longrightarrow> refines R' A' \<Longrightarrow> refines (if c then R else R') (if c then A else A')"
  by simp

lemmas refines_compose = refines_and_then refines_ret refines_raise refines_if

lemma pop_u256_refines: "refines raw_pop_u256 pop_u256"
  unfolding raw_pop_u256_def pop_u256_def by (rule raw_pop_refines)

lemma pop_usize_refines: "refines raw_pop_usize pop_usize"
  unfolding raw_pop_usize_def pop_usize_def by (intro refines_compose pop_u256_refines)

lemma pop_array_refines: "refines (and_then raw_pop_array (\<lambda>bs. ret (from_be bs))) pop_array"
proof -
  have "and_then raw_pop_array (\<lambda>bs. ret (from_be bs)) = raw_pop_u256"
    by (rule ext) (simp add: raw_pop_array_def raw_pop_u256_def raw_pop_def and_then_apply
        gets_apply ret_apply)
  then show ?thesis by (simp add: pop_array_def pop_u256_refines [unfolded pop_u256_def])
qed

text \<open>The low 20 bytes of a slot are its word without the high bits.\<close>

lemma from_be_drop12:
  "length bs = 32 \<Longrightarrow> (from_be (drop 12 bs) :: address) = ucast (from_be bs :: u256)"
proof -
  assume l: "length bs = 32"
  have split: "rev bs = rev (drop 12 bs) @ rev (take 12 bs)"
    by (simp flip: rev_append)
  have "nat_of_le (rev bs) = nat_of_le (rev (drop 12 bs)) + 256 ^ 20 * nat_of_le (rev (take 12 bs))"
    by (subst split, subst nat_of_le_append) (simp add: l)
  then have "nat_of_le (rev bs) mod 2 ^ 160 = nat_of_le (rev (drop 12 bs)) mod 2 ^ 160"
    by (simp add: mod_simps)
  moreover have "unat (ucast (from_be bs :: u256) :: address) = nat_of_le (rev bs) mod 2 ^ 160"
    using unat_from_be [of bs, where 'a = 256] l
    by (simp add: unsigned_ucast_eq take_bit_eq_mod)
  moreover have "unat (from_be (drop 12 bs) :: address) = nat_of_le (rev (drop 12 bs)) mod 2 ^ 160"
    using unat_from_be [of "drop 12 bs", where 'a = 160] l nat_of_le_less [of "rev (drop 12 bs)"]
    by simp
  ultimately show ?thesis by (simp add: word_unat_eq_iff)
qed

lemma raw_pop_address_eq:
  "raw_pop_address = and_then raw_pop_u256 (\<lambda>v. ret (ucast v))"
proof
  fix s
  have "read_at (t + 12) 20 m = drop 12 (read_at t 32 m)" for t m
    by (rule nth_equalityI) (auto simp: ac_simps)
  then have "(from_be (read_at (t + 12) 20 m) :: address) = ucast (from_be (read_at t 32 m) :: u256)" for t m
    by (simp add: from_be_drop12)
  then show "raw_pop_address s = and_then raw_pop_u256 (\<lambda>v. ret (ucast v)) s"
    by (simp add: raw_pop_address_def raw_pop_u256_def raw_pop_def and_then_apply gets_apply
        ret_apply raw_read_def)
qed

lemma pop_address_refines: "refines raw_pop_address pop_address"
  unfolding raw_pop_address_eq pop_address_def
  by (intro refines_compose pop_u256_refines [unfolded pop_u256_def])

lemma raw_push_array_eq: "raw_push_array bs s = raw_push (s\<lparr>block := write_at (top s) bs (block s)\<rparr>)"
  by (simp add: raw_push_array_def raw_write_def and_then_apply modify_apply)

lemma push_array_refines: "length bs = 32 \<Longrightarrow> refines (raw_push_array bs) (push_array (from_be bs))"
  unfolding push_array_def by (rule refines_push_slot) (simp_all add: raw_push_array_eq)

lemma push_u256_refines: "refines (raw_push_array (be_bytes 32 w)) (push_u256 w)"
  using push_array_refines [of "be_bytes 32 w"]
  by (simp add: push_u256_def from_be_be_bytes)

lemma push_array_2_31_refines:
  "length bs \<le> 32 \<Longrightarrow> refines (raw_push_array_2_31 bs) (push_array_2_31 bs)"
proof -
  assume l: "length bs \<le> 32"
  have "refines (raw_push_array_2_31 bs) (st_push (from_be (replicate (32 - length bs) 0 @ bs)))"
  proof (rule refines_push_slot)
    show "raw_push_array_2_31 bs s
        = raw_push (s\<lparr>block := write_at (top s) (replicate (32 - length bs) 0 @ bs) (block s)\<rparr>)" for s
      using write_at_prefix [OF l, of "top s" "block s"] l
      by (simp add: raw_push_array_2_31_def raw_write_def and_then_apply modify_apply)
  qed (use l in simp)
  then show ?thesis by (simp add: push_array_2_31_def from_be_zeros)
qed

lemma push_zero_refines: "refines raw_push_zero push_zero"
proof -
  have "refines raw_push_zero (st_push (from_be (replicate 32 0)))"
    by (rule refines_push_slot)
      (simp_all add: raw_push_zero_def raw_write_def and_then_apply modify_apply)
  moreover have "(from_be (replicate 32 0) :: u256) = 0"
    unfolding from_be_def rev_replicate nat_of_le_zeros by simp
  ultimately show ?thesis by (simp only: push_zero_def)
qed

lemma from_be_single: "(from_be [v] :: u256) = ucast v"
  by (simp add: from_be_def)

lemma push_byte_refines: "refines (raw_push_byte v) (push_byte v)"
proof -
  have "refines (raw_push_byte v) (st_push (from_be (replicate 31 0 @ [v])))"
    by (rule refines_push_slot)
      (simp_all add: raw_push_byte_def raw_write_def and_then_apply modify_apply
        write_at_overlay [of "[v]" 32, simplified])
  moreover have "(from_be (replicate 31 0 @ [v]) :: u256) = ucast v"
    by (simp only: from_be_zeros from_be_single)
  ultimately show ?thesis by (simp only: push_byte_def)
qed

lemma push_bool_refines: "refines (if b then raw_push_byte 1 else raw_push_zero) (push_bool b)"
  unfolding push_bool_def by (intro refines_if push_byte_refines push_zero_refines)

lemma raw_push_at:
  "raw_push (s\<lparr>block := m\<rparr>) = (fst (raw_push (s\<lparr>block := m\<rparr>)), snd (raw_push (s\<lparr>block := m\<rparr>)))"
  by simp

lemma dup_refines: "1 \<le> n \<Longrightarrow> refines (raw_dup n) (dup_1_16 n)"
  unfolding refines_def
proof (intro allI impI)
  fix s
  assume n: "1 \<le> n" and inv: "raw_inv s"
  then obtain k where k: "top s = 32 * k" "k \<le> 127" using raw_inv_top by blast
  show "dup_1_16 n (raw_abs s) = (fst (raw_dup n s), raw_abs (snd (raw_dup n s)))
      \<and> raw_inv (snd (raw_dup n s)) \<and> (\<forall>i \<ge> STACK_SIZE. block (snd (raw_dup n s)) i = block s i)"
  proof (cases "k < n")
    case True
    then show ?thesis using k inv by (simp add: raw_dup_def dup_1_16_def)
  next
    case False
    then obtain j where j: "k = n + j" using le_Suc_ex by (auto simp: not_less)
    define bs where "bs = read_at (32 * j) 32 (block s)"
    have d: "top s - n * 32 = 32 * j" using k j by simp
    have "raw_dup n s = raw_push_array bs s"
      unfolding raw_dup_def d using False k by (simp add: raw_push_array_def bs_def)
    moreover have "dup_1_16 n (raw_abs s) = push_array (from_be bs) (raw_abs s)"
    proof -
      have "raw_abs s ! (n - 1) = slot (block s) j"
        using j k n by (subst raw_abs_nth) (auto intro: arg_cong2 [where f = slot])
      then show ?thesis
        using False k by (simp add: dup_1_16_def push_array_def bs_def slot_def)
    qed
    ultimately show ?thesis
      using push_array_refines [of bs] inv by (simp add: refines_def bs_def)
  qed
qed

lemma raw_abs_write:
  assumes "top s = 32 * k" and "j < k" and "length bs = 32"
  shows "raw_abs (s\<lparr>block := write_at (32 * j) bs (block s)\<rparr>) = (raw_abs s)[k - 1 - j := from_be bs]"
  using assms
  by (auto intro!: nth_equalityI simp: raw_abs_nth nth_list_update slot_write_same slot_write_other)

lemma swap_refines: "refines (raw_swap n) (swap_1_16 n)"
  unfolding refines_def
proof (intro allI impI)
  fix s
  assume inv: "raw_inv s"
  then obtain k where k: "top s = 32 * k" "k \<le> 127" using raw_inv_top by blast
  show "swap_1_16 n (raw_abs s) = (fst (raw_swap n s), raw_abs (snd (raw_swap n s)))
      \<and> raw_inv (snd (raw_swap n s)) \<and> (\<forall>i \<ge> STACK_SIZE. block (snd (raw_swap n s)) i = block s i)"
  proof (cases "k < n + 1")
    case True
    then show ?thesis using k inv by (simp add: raw_swap_def swap_1_16_def)
  next
    case False
    then have "Suc n \<le> k" by simp
    then obtain j where j: "k = Suc n + j" using le_Suc_ex by blast
    define a b where "a = read_at (32 * (n + j)) 32 (block s)" and "b = read_at (32 * j) 32 (block s)"
    define s1 where "s1 = s\<lparr>block := write_at (32 * (n + j)) b (block s)\<rparr>"
    define s2 where "s2 = s1\<lparr>block := write_at (32 * j) a (block s1)\<rparr>"
    have at: "top s - 32 = 32 * (n + j)" "top s - (n + 1) * 32 = 32 * j"
      using k j by simp_all
    have lens: "length a = 32" "length b = 32" by (simp_all add: a_def b_def)
    have eval: "raw_swap n s = (Ok (), s2)"
      unfolding raw_swap_def at Let_def using k j by (simp add: s2_def s1_def a_def b_def)
    have "raw_abs s ! 0 = from_be a" "raw_abs s ! n = from_be b"
      using k j by (simp_all add: raw_abs_nth slot_def a_def b_def)
    moreover have "raw_abs s2 = (raw_abs s)[0 := from_be b, n := from_be a]"
    proof -
      have "raw_abs s2 = (raw_abs s1)[n := from_be a]"
        using raw_abs_write [of s1 k j a] k j lens by (simp add: s2_def s1_def)
      also have "raw_abs s1 = (raw_abs s)[0 := from_be b]"
        using raw_abs_write [of s k "n + j" b] k j lens by (simp add: s1_def)
      finally show ?thesis .
    qed
    moreover have "\<forall>i \<ge> STACK_SIZE. block s2 i = block s i"
      using k j lens by (simp add: s2_def s1_def write_at_def stack_consts)
    moreover have "raw_inv s2" using inv by (simp add: raw_inv_def s2_def s1_def)
    ultimately show ?thesis
      using k False by (simp add: eval swap_1_16_def)
  qed
qed

section \<open>Serialization\<close>

lemma words_of_bytes_append:
  "length bs = 32 \<Longrightarrow> words_of_bytes (bs @ cs) = from_be bs # words_of_bytes cs"
  by (cases bs) auto

lemma words_of_bytes_concat: "words_of_bytes (concat (map (be_bytes 32) ws)) = ws"
  by (induction ws) (simp_all add: words_of_bytes_append from_be_be_bytes)

lemma length_concat_be_bytes: "length (concat (map (be_bytes n) ws)) = n * length ws"
  by (induction ws) auto

lemma st_deserialize_serialize: "st_deserialize (st_serialize xs) = Ok xs"
  by (simp add: st_deserialize_def st_serialize_def words_of_bytes_concat length_concat_be_bytes)

lemma read_at_append: "read_at 0 (n + m) f = read_at 0 n f @ read_at n m f"
  by (rule nth_equalityI) (auto simp: nth_append)

lemma raw_serialize_abs: "raw_inv s \<Longrightarrow> raw_serialize s = st_serialize (raw_abs s)"
proof -
  assume "raw_inv s"
  then obtain k where k: "top s = 32 * k" using raw_inv_top by blast
  have "read_at 0 (32 * j) m = concat (map (\<lambda>i. be_bytes 32 (slot m i)) [0..<j])" for j m
  proof (induction j)
    case 0
    show ?case by (simp add: read_at_def)
  next
    case (Suc j)
    have "be_bytes 32 (slot m j) = read_at (32 * j) 32 m"
      by (simp add: slot_def be_bytes_from_be)
    with Suc show ?case using read_at_append [of "32 * j" 32 m] by (simp add: algebra_simps)
  qed
  then show ?thesis by (simp add: raw_serialize_def st_serialize_def raw_abs_def k o_def)
qed

lemma words_of_bytes_read:
  "words_of_bytes (read_at (32 * j) (32 * k) m) = map (slot m) [j..<j + k]"
proof (induction k arbitrary: j)
  case 0
  show ?case by (simp add: read_at_def)
next
  case (Suc k)
  have "read_at (32 * j) (32 * Suc k) m = read_at (32 * j) 32 m @ read_at (32 * Suc j) (32 * k) m"
    by (rule nth_equalityI) (auto simp: nth_append algebra_simps)
  then show ?case
    by (simp add: words_of_bytes_append Suc.IH slot_def upt_conv_Cons del: upt_Suc mult_Suc_right)
qed

text \<open>
  Deserializing accepts more than serializing produces: it checks that the length is a multiple of 32
  but not that it fits the block.  Within the block it builds the stack that the bytes spell.
\<close>

lemma raw_deserialize_abs:
  assumes "length v \<le> STACK_END"
  shows "(case raw_deserialize junk v of
      Ok s \<Rightarrow> raw_inv s \<and> st_deserialize v = Ok (raw_abs s)
    | Err e \<Rightarrow> st_deserialize v = Err e | Panic \<Rightarrow> False)"
proof (cases "length v mod 32 = 0")
  case True
  then obtain k where k: "length v = 32 * k" by (auto simp flip: dvd_eq_mod_eq_0 elim: dvdE)
  have "v = read_at (32 * 0) (32 * k) (write_at 0 v junk)"
    using k by (simp add: read_write_same)
  then have "words_of_bytes v = map (slot (write_at 0 v junk)) [0..<k]"
    using words_of_bytes_read [of 0 k "write_at 0 v junk"] by simp
  then show ?thesis using True assms k
    by (simp add: raw_deserialize_def st_deserialize_def raw_inv_def raw_abs_def)
next
  case False
  then show ?thesis by (simp add: raw_deserialize_def st_deserialize_def)
qed

section \<open>Bounds of the list stack\<close>

definition st_inv :: "evm_stack \<Rightarrow> bool" where
  "st_inv xs \<longleftrightarrow> length xs \<le> st_limit"

lemma keep_st_push [keeps]: "keep st_inv (st_push w)"
  by (auto simp: keep_def holds_def st_push_def st_inv_def st_limit_def)

lemma keep_st_pop [keeps]: "keep st_inv st_pop"
  by (auto simp: keep_def holds_def st_inv_def elim!: st_pop.elims split: prod.splits result.splits)

lemma keep_stack_ops [keeps]:
  "keep st_inv pop_u256" "keep st_inv pop_i256" "keep st_inv pop_array" "keep st_inv pop_usize"
  "keep st_inv pop_address" "keep st_inv discard" "keep st_inv (push_byte v)" "keep st_inv push_zero"
  "keep st_inv (push_array w)" "keep st_inv (push_array_2_31 bs)" "keep st_inv (push_bool b)"
  "keep st_inv (push_address a)" "keep st_inv (push_usize n)" "keep st_inv (push_u256 w)"
  "keep st_inv (push_i256 w)"
  by (simp_all add: stack_op_defs keeps)

lemma keep_dup [keeps]: "keep st_inv (dup_1_16 n)"
  using keep_st_push by (auto simp: keep_def holds_def dup_1_16_def)

lemma keep_swap [keeps]: "keep st_inv (swap_1_16 n)"
  by (auto simp: keep_def holds_def swap_1_16_def st_inv_def)

section \<open>Properties\<close>

text \<open>A stack that is serialized when the execution is suspended and read back in a later
  transaction, into a block of arbitrary content, represents the same list of words.\<close>

theorem stack_suspend_resume:
  assumes "raw_inv s"
  shows "\<exists>s'. raw_deserialize junk (raw_serialize s) = Ok s' \<and> raw_inv s' \<and> raw_abs s' = raw_abs s"
proof -
  have "length (st_serialize (raw_abs s)) \<le> STACK_END"
    using raw_inv_top [OF assms] by (auto simp: st_serialize_def length_concat_be_bytes stack_consts)
  from raw_deserialize_abs [OF this, of junk] show ?thesis
    unfolding raw_serialize_abs [OF assms] st_deserialize_serialize by (auto split: result.splits)
qed

theorem stack_suspend_resume_witness:
  "raw_inv \<lparr>block = (\<lambda>i. if i = 31 then 7 else 0), top = 32\<rparr>
   \<and> (\<exists>s'. raw_deserialize (\<lambda>_. 0xFF) (raw_serialize \<lparr>block = (\<lambda>i. if i = 31 then 7 else 0), top = 32\<rparr>) = Ok s'
       \<and> raw_abs s' = raw_abs \<lparr>block = (\<lambda>i. if i = 31 then 7 else 0), top = 32\<rparr>)"
proof -
  have "raw_inv \<lparr>block = (\<lambda>i. if i = 31 then 7 else 0), top = 32\<rparr>"
    by (simp add: raw_inv_def stack_consts)
  then show ?thesis using stack_suspend_resume by blast
qed

text \<open>What only looks at the stack\<close>

definition raw_reads :: "(raw_stack \<Rightarrow> 'a) \<Rightarrow> (evm_stack \<Rightarrow> 'a) \<Rightarrow> bool" where
  "raw_reads R A \<longleftrightarrow> (\<forall>s. raw_inv s \<longrightarrow> R s = A (raw_abs s))"

lemma len_reads: "raw_reads raw_len st_len"
  by (simp add: raw_reads_def raw_len_def st_len_def stack_consts)

lemma to_vec_reads: "raw_reads raw_to_vec (\<lambda>xs. map (be_bytes 32) (rev xs))"
proof -
  have "map (\<lambda>i. block s (32 * k + i)) [0..<32] = be_bytes 32 (slot (block s) k)" for s :: raw_stack and k
    by (simp add: slot_def be_bytes_from_be) (simp add: read_at_def)
  then show ?thesis by (simp add: raw_reads_def raw_to_vec_def raw_abs_def)
qed

lemma serialize_reads: "raw_reads raw_serialize st_serialize"
  by (simp add: raw_reads_def raw_serialize_abs)

lemma resume_reads: "raw_reads (\<lambda>s. case raw_deserialize junk (raw_serialize s) of
    Ok s' \<Rightarrow> if raw_inv s' then Some (raw_abs s') else None | _ \<Rightarrow> None) Some"
  using stack_suspend_resume [of _ junk] by (fastforce simp: raw_reads_def)

lemmas pop_refines = pop_u256_refines pop_u256_refines [unfolded raw_pop_u256_def pop_u256_def, folded raw_pop_i256_def pop_i256_def]
  pop_array_refines pop_usize_refines pop_address_refines

lemma discard_refines: "refines raw_discard discard"
proof -
  have "raw_discard = and_then raw_pop_u256 (\<lambda>_. ret ())"
    by (rule ext) (simp add: raw_discard_def raw_pop_u256_def raw_pop_def and_then_apply gets_apply ret_apply)
  then show ?thesis unfolding discard_def
    using refines_and_then [OF pop_u256_refines [unfolded pop_u256_def] refines_ret, of "\<lambda>_. ()"] by simp
qed

lemma push_fixed_refines:
  "refines (raw_push_address a) (push_address a)" "refines (raw_push_usize k) (push_usize k)"
  "refines (raw_push_u256 w) (push_u256 w)" "refines (raw_push_i256 w) (push_i256 w)" "refines (raw_push_bool b) (push_bool b)"
  unfolding raw_push_address_def push_address_def raw_push_usize_def push_usize_def raw_push_u256_def raw_push_i256_def
    push_i256_def push_u256_def [symmetric] raw_push_bool_def
  by (rule push_array_2_31_refines push_u256_refines push_bool_refines; simp)+

text \<open>C16: the raw stack, an aligned block of bytes addressed through a moving pointer, implements a list of 256-bit words.  A new
  stack is empty, whatever the block holds.  Every pop, push, discard, duplication and exchange returns what the list operation
  returns on the represented list (overflow and underflow included), leaves a well-formed stack that represents its result,
  and writes no byte outside the block.  The length, the listing of the slots and the serialized bytes are those of the
  list, and the bytes are read back, into a block of arbitrary content, as a well-formed stack of the same words.\<close>

theorem raw_stack_refines:
  "raw_inv (raw_new junk) \<and> raw_abs (raw_new junk) = []
   \<and> refines raw_pop_u256 pop_u256 \<and> refines raw_pop_i256 pop_i256 \<and> refines (and_then raw_pop_array (\<lambda>bs. ret (from_be bs))) pop_array
   \<and> refines raw_pop_usize pop_usize \<and> refines raw_pop_address pop_address \<and> refines raw_discard discard
   \<and> refines (raw_push_byte v) (push_byte v) \<and> refines raw_push_zero push_zero \<and> refines (raw_push_bool b) (push_bool b)
   \<and> refines (raw_push_array (be_bytes 32 w)) (push_array w) \<and> refines (raw_push_array_2_31 (take 31 bs)) (push_array_2_31 (take 31 bs))
   \<and> refines (raw_push_address a) (push_address a) \<and> refines (raw_push_usize k) (push_usize k)
   \<and> refines (raw_push_u256 w) (push_u256 w) \<and> refines (raw_push_i256 w) (push_i256 w)
   \<and> refines (raw_dup (Suc n)) (dup_1_16 (Suc n)) \<and> refines (raw_swap n) (swap_1_16 n)
   \<and> raw_reads raw_len st_len \<and> raw_reads raw_to_vec (\<lambda>xs. map (be_bytes 32) (rev xs)) \<and> raw_reads raw_serialize st_serialize
   \<and> raw_reads (\<lambda>s. case raw_deserialize junk (raw_serialize s) of
        Ok s' \<Rightarrow> if raw_inv s' then Some (raw_abs s') else None | _ \<Rightarrow> None) Some"
proof -
  have "raw_inv (raw_new junk) \<and> raw_abs (raw_new junk) = []" by (simp add: raw_new_def raw_inv_def raw_abs_def)
  moreover have "refines (raw_push_array (be_bytes 32 w)) (push_array w)"
    using push_array_refines [of "be_bytes 32 w"] by (simp add: from_be_be_bytes)
  ultimately show ?thesis
    by (intro conjI pop_refines discard_refines push_fixed_refines push_byte_refines push_zero_refines dup_refines swap_refines
        push_array_2_31_refines len_reads to_vec_reads serialize_reads resume_reads) simp_all
qed

end
