(* ===== verification/Memory.thy ===== *)
theory Memory
  imports Stack
begin

text \<open>
  The byte memory of a call frame (\<open>program/src/evm/memory.rs\<close>, \<open>program/src/evm/utils.rs\<close>): an
  allocation of \<open>capacity\<close> bytes that grows to the next power of two, at most 64 KiB, and the
  high-water mark \<open>msize\<close> of the accesses so far.

  What it promises is the EVM memory: a byte function that is zero where nothing was written
  (\<open>mem_abs\<close>).  The lemmas say that a successful access stays inside the allocation, that reads and
  writes act on the byte function as they should, that a failed access changes no byte, and that the
  serialized form holds the whole memory.
\<close>

section \<open>Representation and growth\<close>

definition MAX_MEMORY_SIZE :: usize where
  "MAX_MEMORY_SIZE = 64 * 1024"

definition MEMORY_CAPACITY :: usize where
  "MEMORY_CAPACITY = 1024"

lemmas memory_consts = MAX_MEMORY_SIZE_def MEMORY_CAPACITY_def

record memory =
  mdata :: "nat \<Rightarrow> u8"
  capacity :: usize
  msize :: usize

text \<open>\<open>alloc_zeroed\<close>\<close>

definition mem_with_capacity :: "usize \<Rightarrow> memory" where
  "mem_with_capacity cap = \<lparr>mdata = (\<lambda>_. 0), capacity = cap, msize = 0\<rparr>"

definition mem_new :: memory where
  "mem_new = mem_with_capacity MEMORY_CAPACITY"

text \<open>\<open>usize::checked_next_power_of_two\<close>\<close>

definition checked_next_power_of_two :: "usize \<Rightarrow> usize option" where
  "checked_next_power_of_two n = find (\<lambda>p. n \<le> p) (map (\<lambda>k. 2 ^ k) [0..<64])"

definition mem_from_buffer :: "bytes \<Rightarrow> memory result" where
  "mem_from_buffer v = rbind (unwrap (checked_next_power_of_two (length v))) (\<lambda>p.
     Ok \<lparr>mdata = write_at 0 v (\<lambda>_. 0), capacity = max p MEMORY_CAPACITY, msize = length v\<rparr>)"

definition checked_next_multiple_of_32 :: "usize \<Rightarrow> usize option" where
  "checked_next_multiple_of_32 n = (case checked_add_usize n 31 of
     None \<Rightarrow> None | Some m \<Rightarrow> Some (nat (int m AND NOT 31)))"

text \<open>
  The order is the source's: \<open>size\<close> grows before the limit is checked, and new bytes are cleared
  after the reallocation.
\<close>

definition mem_realloc :: "usize \<Rightarrow> usize \<Rightarrow> (memory, unit) exec" where
  "mem_realloc offset len =
    (let limits = EvmError (MemoryAccessOutOfLimits offset len) in
     and_then (lift (ok_or (checked_add_usize offset len) limits)) (\<lambda>required_size.
     and_then (lift (ok_or (checked_next_multiple_of_32 required_size) limits)) (\<lambda>new_size.
     and_then (modify (\<lambda>m. if new_size > msize m then m\<lparr>msize := new_size\<rparr> else m)) (\<lambda>_.
     and_then (gets capacity) (\<lambda>cap.
     if new_size \<le> cap then ret ()
     else
       and_then (lift (ok_or (checked_next_power_of_two new_size) limits)) (\<lambda>new_capacity.
       if new_capacity > MAX_MEMORY_SIZE then raise limits
       else modify (\<lambda>m. m\<lparr>mdata := (\<lambda>i. if cap \<le> i \<and> i < new_capacity then 0 else mdata m i),
                          capacity := new_capacity\<rparr>)))))))"

section \<open>Accesses\<close>

definition mem_read :: "usize \<Rightarrow> usize \<Rightarrow> (memory, bytes) exec" where
  "mem_read offset len =
    (if len = 0 then ret []
     else and_then (mem_realloc offset len) (\<lambda>_. gets (\<lambda>m. read_at offset len (mdata m))))"

definition mem_read_32 :: "usize \<Rightarrow> (memory, bytes32) exec" where
  "mem_read_32 offset = and_then (mem_realloc offset 32) (\<lambda>_.
     gets (\<lambda>m. from_be (read_at offset 32 (mdata m))))"

definition mem_store :: "usize \<Rightarrow> bytes \<Rightarrow> (memory, unit) exec" where
  "mem_store offset bs = modify (\<lambda>m. m\<lparr>mdata := write_at offset bs (mdata m)\<rparr>)"

definition mem_write_32 :: "usize \<Rightarrow> bytes32 \<Rightarrow> (memory, unit) exec" where
  "mem_write_32 offset value = and_then (mem_realloc offset 32) (\<lambda>_. mem_store offset (be_bytes 32 value))"

definition mem_write_byte :: "usize \<Rightarrow> u8 \<Rightarrow> (memory, unit) exec" where
  "mem_write_byte offset value = and_then (mem_realloc offset 1) (\<lambda>_. mem_store offset [value])"

definition mem_write_buffer :: "usize \<Rightarrow> usize \<Rightarrow> bytes \<Rightarrow> usize \<Rightarrow> (memory, unit) exec" where
  "mem_write_buffer offset len source source_offset =
    (if len = 0 then ret ()
     else and_then (mem_realloc offset len) (\<lambda>_.
       if source_offset \<ge> length source then mem_store offset (replicate len 0)
       else if usize_wrap (source_offset + len) > length source then
         (let source = drop source_offset source
          in mem_store offset (source @ replicate (len - length source) 0))
       else (case slice_get source source_offset (usize_wrap (source_offset + len)) of
               Some bs \<Rightarrow> mem_store offset bs
             | None \<Rightarrow> panic)))"

text \<open>A \<open>Range\<close> has length 0 when it ends before it starts.\<close>

definition mem_write_range :: "usize \<times> usize \<Rightarrow> bytes \<Rightarrow> (memory, unit) exec" where
  "mem_write_range rng source = mem_write_buffer (fst rng) (snd rng - fst rng) source 0"

section \<open>Serialization\<close>

text \<open>\<open>&data[..self.size()]\<close> panics when the size exceeds the allocation.\<close>

definition mem_serialize :: "memory \<Rightarrow> bytes result" where
  "mem_serialize m = (if msize m \<le> capacity m then Ok (read_at 0 (msize m) (mdata m)) else Panic)"

definition mem_deserialize :: "bytes \<Rightarrow> memory result" where
  "mem_deserialize v = (if length v mod 32 \<noteq> 0 then Err BincodeError else mem_from_buffer v)"

section \<open>What the memory promises\<close>

definition mem_abs :: "memory \<Rightarrow> nat \<Rightarrow> u8" where
  "mem_abs m = (\<lambda>i. if i < capacity m then mdata m i else 0)"

definition mem_inv :: "memory \<Rightarrow> bool" where
  "mem_inv m \<longleftrightarrow> MEMORY_CAPACITY \<le> capacity m \<and> capacity m \<le> MAX_MEMORY_SIZE
     \<and> msize m \<le> capacity m \<and> msize m mod 32 = 0
     \<and> (\<forall>i. msize m \<le> i \<and> i < capacity m \<longrightarrow> mdata m i = 0)"

definition round32 :: "nat \<Rightarrow> nat" where
  "round32 n = (n + 31) div 32 * 32"

lemma and_not_mask: "(k :: int) AND NOT (mask n) = k div 2 ^ n * 2 ^ n"
proof -
  have "k AND NOT (mask n) = push_bit n (drop_bit n k)"
    by (rule bit_eqI) (auto simp: bit_simps)
  then show ?thesis by (simp add: push_bit_eq_mult drop_bit_eq_div)
qed

lemma checked_next_multiple_of_32_Some:
  "checked_next_multiple_of_32 n = (if n + 31 < usize_bound then Some (round32 n) else None)"
proof -
  have "nat (int m AND NOT 31) = m div 32 * 32" for m :: nat
    using and_not_mask [of "int m" 5]
    by (simp add: mask_eq_exp_minus_1 nat_mult_distrib nat_div_distrib)
  from this [of "n + 31"] show ?thesis
    by (simp add: checked_next_multiple_of_32_def checked_add_usize_def round32_def)
qed

lemma round32_ge: "n \<le> round32 n"
  unfolding round32_def by presburger

lemma round32_mod [simp]: "round32 n mod 32 = 0"
  by (simp add: round32_def)

lemma round32_less: "round32 n < n + 32"
  unfolding round32_def by presburger

lemma next_power_of_two_ge: "checked_next_power_of_two n = Some p \<Longrightarrow> n \<le> p"
  by (auto simp: checked_next_power_of_two_def find_Some_iff)

lemma next_power_of_two_pow: "checked_next_power_of_two n = Some p \<Longrightarrow> \<exists>k. p = 2 ^ k"
  by (auto simp: checked_next_power_of_two_def find_Some_iff)

lemma next_power_of_two_le: "n \<le> 2 ^ k \<Longrightarrow> k < 64 \<Longrightarrow> \<exists>p. checked_next_power_of_two n = Some p \<and> p \<le> 2 ^ k"
proof -
  assume n: "n \<le> 2 ^ k" and k: "k < 64"
  then have "\<exists>x \<in> set (map (\<lambda>k. 2 ^ k) [0..<64]). n \<le> x" by auto
  then obtain p where p: "checked_next_power_of_two n = Some p"
    unfolding checked_next_power_of_two_def by (metis find_None_iff option.exhaust)
  then obtain i where i: "i < 64" "p = 2 ^ i" "\<And>j. j < i \<Longrightarrow> \<not> n \<le> 2 ^ j"
    by (auto simp: checked_next_power_of_two_def find_Some_iff)
  then have "i \<le> k" using n by (meson not_le)
  then show ?thesis using p i by (auto intro: power_increasing)
qed

lemma mem_inv_consts: "mem_inv m \<Longrightarrow> 1024 \<le> capacity m \<and> capacity m \<le> 65536"
  by (simp add: mem_inv_def memory_consts)

lemma mem_inv_new: "mem_inv mem_new"
  by (simp add: mem_new_def mem_with_capacity_def mem_inv_def memory_consts)

lemma mem_abs_new [simp]: "mem_abs mem_new = (\<lambda>_. 0)"
  by (simp add: mem_new_def mem_with_capacity_def mem_abs_def fun_eq_iff)

subsection \<open>Growing\<close>

text \<open>
  The three outcomes of \<open>realloc\<close>: the limit is exceeded, the access fits, or the allocation grows.
\<close>

lemma mem_realloc_eval:
  "mem_inv m \<Longrightarrow> mem_realloc offset len m =
    (let n = round32 (offset + len); m1 = m\<lparr>msize := max (msize m) n\<rparr> in
     if usize_bound \<le> offset + len \<or> usize_bound \<le> offset + len + 31
     then (Err (EvmError (MemoryAccessOutOfLimits offset len)), m)
     else if n \<le> capacity m then (Ok (), m1)
     else case checked_next_power_of_two n of
       None \<Rightarrow> (Err (EvmError (MemoryAccessOutOfLimits offset len)), m1)
     | Some c \<Rightarrow>
         if 65536 < c then (Err (EvmError (MemoryAccessOutOfLimits offset len)), m1)
         else (Ok (), m1\<lparr>mdata := (\<lambda>i. if capacity m \<le> i \<and> i < c then 0 else mdata m i), capacity := c\<rparr>))"
  by (auto simp: mem_realloc_def Let_def exec_simps checked_next_multiple_of_32_Some memory_consts
      checked_add_usize_def max_def cong: if_cong split: option.splits)

lemma mem_realloc_Ok:
  assumes "mem_inv m" and "mem_realloc offset len m = (Ok u, m')"
  shows "mem_inv m'" and "offset + len \<le> capacity m'" and "mem_abs m' = mem_abs m"
    and "msize m' = max (msize m) (round32 (offset + len))" and "offset + len \<le> msize m'"
proof -
  let ?n = "round32 (offset + len)"
  have ge: "offset + len \<le> ?n" by (rule round32_ge)
  note inv = assms(1) [unfolded mem_inv_def memory_consts]
  have mx: "max (msize m) ?n mod 32 = 0" using inv by (simp add: max_def)
  consider (fits) "?n \<le> capacity m" "m' = m\<lparr>msize := max (msize m) ?n\<rparr>"
    | (grows) c where "capacity m < ?n" "?n \<le> c" "c \<le> 65536"
        "m' = m\<lparr>msize := max (msize m) ?n,
               mdata := (\<lambda>i. if capacity m \<le> i \<and> i < c then 0 else mdata m i), capacity := c\<rparr>"
    using assms mem_realloc_eval [OF assms(1), of offset len]
    by (auto simp: Let_def dest: next_power_of_two_ge split: if_splits option.splits)
  then have "mem_inv m' \<and> offset + len \<le> capacity m' \<and> mem_abs m' = mem_abs m
    \<and> msize m' = max (msize m) ?n"
  proof cases
    case fits
    then show ?thesis using inv ge mx by (auto simp: mem_inv_def memory_consts mem_abs_def)
  next
    case grows
    have "mem_inv m'" using grows inv mx by (auto simp: mem_inv_def memory_consts)
    moreover have "mem_abs m' = mem_abs m" using grows by (auto simp: mem_abs_def fun_eq_iff)
    ultimately show ?thesis using grows ge by simp
  qed
  then show "mem_inv m'" and "offset + len \<le> capacity m'" and "mem_abs m' = mem_abs m"
    and "msize m' = max (msize m) ?n" and "offset + len \<le> msize m'"
    using ge by auto
qed

lemma mem_realloc_not_Ok:
  assumes "mem_inv m" and "mem_realloc offset len m = (r, m')" and "r \<noteq> Ok ()"
  shows "r = Err (EvmError (MemoryAccessOutOfLimits offset len))" and "mem_abs m' = mem_abs m"
    and "capacity m' = capacity m"
  using assms mem_realloc_eval [OF assms(1), of offset len]
  by (auto simp: Let_def mem_abs_def split: if_splits option.splits)

text \<open>An access succeeds exactly when its end, rounded up to a word, is within 64 KiB.\<close>

lemma mem_realloc_succeeds:
  assumes "mem_inv m"
  shows "fst (mem_realloc offset len m) = Ok () \<longleftrightarrow> round32 (offset + len) \<le> 65536"
proof (cases "round32 (offset + len) \<le> 65536")
  case True
  let ?n = "round32 (offset + len)"
  have "offset + len \<le> 65536" using True round32_ge [of "offset + len"] by simp
  moreover obtain p where "checked_next_power_of_two ?n = Some p" "p \<le> 65536"
    using next_power_of_two_le [of ?n 16] True by auto
  ultimately show ?thesis using True by (simp add: mem_realloc_eval [OF assms] Let_def)
next
  case False
  let ?n = "round32 (offset + len)"
  have "c > 65536" if "checked_next_power_of_two ?n = Some c" for c
    using next_power_of_two_ge [OF that] False by simp
  then show ?thesis using False mem_inv_consts [OF assms]
    by (auto simp: mem_realloc_eval [OF assms] Let_def split: option.splits)
qed

subsection \<open>Reading and writing\<close>

text \<open>The specification of a write on the promised byte function.\<close>

definition mem_update :: "nat \<Rightarrow> nat \<Rightarrow> (nat \<Rightarrow> u8) \<Rightarrow> (nat \<Rightarrow> u8) \<Rightarrow> nat \<Rightarrow> u8" where
  "mem_update offset len f g = (\<lambda>i. if offset \<le> i \<and> i < offset + len then f (i - offset) else g i)"

lemma mem_store_inv:
  assumes "mem_inv m" and "offset + length bs \<le> msize m"
  shows "mem_inv (m\<lparr>mdata := write_at offset bs (mdata m)\<rparr>)"
    and "mem_abs (m\<lparr>mdata := write_at offset bs (mdata m)\<rparr>)
           = mem_update offset (length bs) ((!) bs) (mem_abs m)"
proof -
  have "msize m \<le> capacity m" using assms(1) by (simp add: mem_inv_def)
  then show "mem_abs (m\<lparr>mdata := write_at offset bs (mdata m)\<rparr>)
      = mem_update offset (length bs) ((!) bs) (mem_abs m)"
    using assms(2) by (auto simp: mem_abs_def mem_update_def write_at_def fun_eq_iff)
  show "mem_inv (m\<lparr>mdata := write_at offset bs (mdata m)\<rparr>)"
    using assms by (auto simp: mem_inv_def write_at_def)
qed

text \<open>Every write is a growth followed by a store of the same length.\<close>

lemma mem_grow_store_Ok:
  assumes "mem_inv m" and "length bs = len"
    and "and_then (mem_realloc offset len) (\<lambda>_. mem_store offset bs) m = (Ok u, m')"
  shows "mem_inv m'" and "mem_abs m' = mem_update offset len ((!) bs) (mem_abs m)"
    and "msize m' = max (msize m) (round32 (offset + len))"
proof -
  obtain v m1 where r: "mem_realloc offset len m = (Ok v, m1)"
    and m': "m' = m1\<lparr>mdata := write_at offset bs (mdata m1)\<rparr>"
    using assms(3) by (auto simp: mem_store_def modify_def elim: and_then_OkE)
  note grow = mem_realloc_Ok [OF assms(1) r]
  have fits: "offset + length bs \<le> msize m1" using grow(5) assms(2) by simp
  show "mem_inv m'" unfolding m' by (rule mem_store_inv(1) [OF grow(1) fits])
  show "mem_abs m' = mem_update offset len ((!) bs) (mem_abs m)"
    unfolding m' using mem_store_inv(2) [OF grow(1) fits] assms(2) grow(3) by simp
  show "msize m' = max (msize m) (round32 (offset + len))" using m' grow(4) by simp
qed

lemma read_at_mem_abs: "offset + len \<le> capacity m \<Longrightarrow> read_at offset len (mdata m) = read_at offset len (mem_abs m)"
  by (auto simp: read_at_def mem_abs_def)

lemma mem_read_Ok:
  assumes "mem_inv m" and "mem_read offset len m = (Ok bs, m')"
  shows "mem_inv m'" and "mem_abs m' = mem_abs m" and "bs = read_at offset len (mem_abs m)"
    and "len \<noteq> 0 \<Longrightarrow> msize m' = max (msize m) (round32 (offset + len))"
proof -
  have *: "mem_inv m' \<and> mem_abs m' = mem_abs m \<and> bs = read_at offset len (mem_abs m)
    \<and> (len \<noteq> 0 \<longrightarrow> msize m' = max (msize m) (round32 (offset + len)))"
  proof (cases "len = 0")
    case True
    then show ?thesis using assms by (simp add: mem_read_def ret_def read_at_def)
  next
    case False
    then obtain v where r: "mem_realloc offset len m = (Ok v, m')"
      and bs: "bs = read_at offset len (mdata m')"
      using assms(2) by (auto simp: mem_read_def gets_def elim: and_then_OkE)
    note grow = mem_realloc_Ok [OF assms(1) r]
    have "bs = read_at offset len (mem_abs m)"
      unfolding bs using grow(2,3) read_at_mem_abs [of offset len m'] by simp
    then show ?thesis using grow by simp
  qed
  then show "mem_inv m'" and "mem_abs m' = mem_abs m" and "bs = read_at offset len (mem_abs m)"
    and "len \<noteq> 0 \<Longrightarrow> msize m' = max (msize m) (round32 (offset + len))" by auto
qed

lemma mem_read_32_Ok:
  assumes "mem_inv m" and "mem_read_32 offset m = (Ok w, m')"
  shows "mem_inv m'" and "mem_abs m' = mem_abs m" and "w = from_be (read_at offset 32 (mem_abs m))"
proof -
  obtain v where r: "mem_realloc offset 32 m = (Ok v, m')"
    and w: "w = from_be (read_at offset 32 (mdata m'))"
    using assms(2) by (auto simp: mem_read_32_def gets_def elim: and_then_OkE)
  note grow = mem_realloc_Ok [OF assms(1) r]
  show "mem_inv m'" and "mem_abs m' = mem_abs m" by (fact grow)+
  show "w = from_be (read_at offset 32 (mem_abs m))"
    unfolding w using grow(2,3) read_at_mem_abs [of offset 32 m'] by simp
qed

lemma mem_write_32_Ok:
  assumes "mem_inv m" and "mem_write_32 offset w m = (Ok u, m')"
  shows "mem_inv m'" and "mem_abs m' = mem_update offset 32 ((!) (be_bytes 32 w)) (mem_abs m)"
  using mem_grow_store_Ok [OF assms(1) _ assms(2) [unfolded mem_write_32_def]] by simp_all

lemma mem_write_byte_Ok:
  assumes "mem_inv m" and "mem_write_byte offset b m = (Ok u, m')"
  shows "mem_inv m'" and "mem_abs m' = (mem_abs m)(offset := b)"
proof -
  note * = mem_grow_store_Ok [OF assms(1) _ assms(2) [unfolded mem_write_byte_def], simplified]
  show "mem_inv m'" by (fact *)
  show "mem_abs m' = (mem_abs m)(offset := b)"
    unfolding *(2) by (auto simp: mem_update_def fun_eq_iff)
qed

text \<open>
  \<open>write_buffer\<close> copies \<open>length\<close> bytes of the source from \<open>source_offset\<close> on, and zeros where the
  source has ended; the wrapping sum in its guard never matters, because \<open>realloc\<close> has bounded
  \<open>length\<close>.
\<close>

definition padded :: "bytes \<Rightarrow> nat \<Rightarrow> nat \<Rightarrow> u8" where
  "padded source so = (\<lambda>i. if so + i < length source then source ! (so + i) else 0)"

lemma mem_write_buffer_unfold:
  assumes "len \<noteq> 0" and "length source < usize_bound - 65536"
    and "mem_inv m"
  shows "mem_write_buffer offset len source so m =
    and_then (mem_realloc offset len) (\<lambda>_. mem_store offset (map (padded source so) [0..<len])) m"
proof (cases "mem_realloc offset len m")
  case (Pair r m1)
  show ?thesis
  proof (cases "r = Ok ()")
    case False
    then have "\<exists>e. r = Err e" using mem_realloc_not_Ok(1) [OF assms(3) Pair] by blast
    then show ?thesis using assms(1) Pair by (auto simp: mem_write_buffer_def and_then_apply)
  next
    case True
    then have "offset + len \<le> 65536"
      using mem_realloc_Ok [OF assms(3), of offset len] Pair mem_inv_consts by fastforce
    then have nowrap: "so < length source \<Longrightarrow> usize_wrap (so + len) = so + len"
      using assms(2) by simp
    let ?bs = "if so \<ge> length source then replicate len 0
       else if so + len > length source
         then drop so source @ replicate (len - length (drop so source)) 0
       else take len (drop so source)"
    have "?bs = map (padded source so) [0..<len]"
      by (rule nth_equalityI) (auto simp: padded_def nth_append)
    moreover have "mem_write_buffer offset len source so m = mem_store offset ?bs m1"
      using assms(1) Pair True nowrap
      by (auto simp: mem_write_buffer_def and_then_apply slice_get_def Let_def not_le)
    ultimately show ?thesis using Pair True by (simp add: and_then_apply)
  qed
qed

lemma mem_write_buffer_Ok:
  assumes "mem_inv m" and "length source < usize_bound - 65536"
    and "mem_write_buffer offset len source so m = (Ok u, m')"
  shows "mem_inv m'" and "mem_abs m' = mem_update offset len (padded source so) (mem_abs m)"
proof -
  have *: "mem_inv m' \<and> mem_abs m' = mem_update offset len (padded source so) (mem_abs m)"
  proof (cases "len = 0")
    case True
    then show ?thesis using assms by (auto simp: mem_write_buffer_def ret_def mem_update_def fun_eq_iff)
  next
    case False
    have "and_then (mem_realloc offset len) (\<lambda>_. mem_store offset (map (padded source so) [0..<len])) m = (Ok u, m')"
      using mem_write_buffer_unfold [OF False assms(2,1)] assms(3) by simp
    note w = mem_grow_store_Ok [OF assms(1) _ this]
    have "mem_update offset len ((!) (map (padded source so) [0..<len])) (mem_abs m)
        = mem_update offset len (padded source so) (mem_abs m)"
      by (auto simp: mem_update_def fun_eq_iff)
    then show ?thesis using w by simp
  qed
  then show "mem_inv m'" and "mem_abs m' = mem_update offset len (padded source so) (mem_abs m)" by auto
qed

subsection \<open>Suspending and resuming\<close>

lemma mem_serialize_deserialize:
  assumes "mem_inv m"
  shows "\<exists>bs m'. mem_serialize m = Ok bs \<and> mem_deserialize bs = Ok m' \<and> mem_inv m'
    \<and> mem_abs m' = mem_abs m \<and> msize m' = msize m"
proof -
  have inv: "msize m \<le> capacity m" "capacity m \<le> 65536" "msize m mod 32 = 0"
    "\<And>i. msize m \<le> i \<Longrightarrow> i < capacity m \<Longrightarrow> mdata m i = 0"
    using assms by (auto simp: mem_inv_def memory_consts)
  let ?bs = "read_at 0 (msize m) (mdata m)"
  obtain p where p: "checked_next_power_of_two (msize m) = Some p" "p \<le> 65536"
    using next_power_of_two_le [of "msize m" 16] inv by auto
  let ?m = "\<lparr>mdata = write_at 0 ?bs (\<lambda>_. 0), capacity = max p MEMORY_CAPACITY, msize = msize m\<rparr>"
  have pm: "msize m \<le> p" by (rule next_power_of_two_ge [OF p(1)])
  have "mem_serialize m = Ok ?bs" "mem_deserialize ?bs = Ok ?m"
    using inv p by (simp_all add: mem_serialize_def mem_deserialize_def mem_from_buffer_def)
  moreover have "mem_inv ?m"
    using inv p pm by (auto simp: mem_inv_def memory_consts write_at_def)
  moreover have "mem_abs ?m = mem_abs m"
    using inv pm by (auto simp: mem_abs_def write_at_def fun_eq_iff not_less)
  ultimately show ?thesis by (metis memory.select_convs(3))
qed

section \<open>Properties\<close>

lemma mem_write_buffer_grows:
  assumes "mem_inv m" and "length source < usize_bound - 65536" and "len \<noteq> 0"
  shows "fst (mem_write_buffer offset len source so m)
      = (if round32 (offset + len) \<le> 65536 then Ok () else Err (EvmError (MemoryAccessOutOfLimits offset len)))"
    and "mem_write_buffer offset len source so m = (Ok (), m') \<Longrightarrow> msize m' = max (msize m) (round32 (offset + len))"
    and "mem_write_buffer offset len source so m = (Err e, m') \<Longrightarrow> mem_abs m' = mem_abs m"
proof -
  note unfolded = mem_write_buffer_unfold [OF assms(3,2,1), of offset so]
  obtain r m1 where run: "mem_realloc offset len m = (r, m1)" by fastforce
  show "fst (mem_write_buffer offset len source so m)
      = (if round32 (offset + len) \<le> 65536 then Ok () else Err (EvmError (MemoryAccessOutOfLimits offset len)))"
    using mem_realloc_succeeds [OF assms(1), of offset len] mem_realloc_not_Ok(1) [OF assms(1) run] run
    by (cases "r = Ok ()") (auto simp: unfolded and_then_apply mem_store_def modify_apply split: result.splits)
  show "msize m' = max (msize m) (round32 (offset + len))" if "mem_write_buffer offset len source so m = (Ok (), m')"
    using mem_grow_store_Ok(3) [OF assms(1) _ that [unfolded unfolded]] by simp
  show "mem_abs m' = mem_abs m" if "mem_write_buffer offset len source so m = (Err e, m')"
    using that mem_realloc_not_Ok(2) [OF assms(1) run] run
    by (auto simp: unfolded and_then_apply mem_store_def modify_apply split: result.splits)
qed

text \<open>C17: a write of \<open>len\<close> bytes of a source from an offset on, which is how calldata, code and return data are copied,
  in a well-formed memory and for a source at least 64 KiB shorter than the address space.  When
  it is empty nothing changes.  Otherwise it succeeds exactly when the end of its range, rounded up to a word, is within 64
  KiB; then it changes exactly the bytes of its range, to the source's bytes and to zeros past the source's end, and the
  size is the larger of what it was and the end of the range rounded up to a word.  Else it is the error of the limit, and
  no byte has changed.\<close>

theorem memory_copy_correct:
  assumes "mem_inv m" and "length source < usize_bound - 65536"
  shows "let (r, m') = mem_write_buffer offset len source so m in
    if len = 0 then r = Ok () \<and> m' = m
    else if round32 (offset + len) \<le> 65536
    then r = Ok () \<and> mem_inv m' \<and> mem_abs m' = mem_update offset len (padded source so) (mem_abs m)
      \<and> msize m' = max (msize m) (round32 (offset + len))
    else r = Err (EvmError (MemoryAccessOutOfLimits offset len)) \<and> mem_abs m' = mem_abs m"
proof (cases "len = 0")
  case True
  then show ?thesis by (simp add: mem_write_buffer_def ret_def)
next
  case False
  obtain r m' where run: "mem_write_buffer offset len source so m = (r, m')" by fastforce
  note grows = mem_write_buffer_grows [OF assms False, of offset so, unfolded run, simplified]
  show ?thesis
    using mem_write_buffer_Ok [OF assms, of offset len so] run grows False by (auto simp: Let_def)
qed

theorem memory_copy_correct_witness:
  "\<exists>m'. mem_write_buffer 2 3 [9, 8, 7] 1 mem_new = (Ok (), m')
     \<and> mem_abs m' 2 = 8 \<and> mem_abs m' 3 = 7 \<and> mem_abs m' 4 = 0 \<and> msize m' = 32"
proof -
  have "round32 (2 + 3) = 32" by (simp add: round32_def)
  with memory_copy_correct [OF mem_inv_new, of "[9, 8, 7]" 2 3 1] show ?thesis
    by (cases "mem_write_buffer 2 3 [9, 8, 7] 1 mem_new")
      (simp add: mem_update_def padded_def mem_new_def mem_with_capacity_def)
qed

text \<open>A non-empty read succeeds exactly when its end, rounded up to a word, is within the 64 KiB
  limit.  Then it returns the bytes of the memory, zeros where nothing was written; otherwise it
  reports the limit and no byte of the memory has changed.\<close>

theorem memory_read_limit:
  assumes "mem_inv m" and "0 < len"
  shows "if round32 (offset + len) \<le> 65536
    then \<exists>m'. mem_read offset len m = (Ok (read_at offset len (mem_abs m)), m') \<and> mem_inv m'
      \<and> mem_abs m' = mem_abs m \<and> msize m' = max (msize m) (round32 (offset + len))
    else \<exists>m'. mem_read offset len m = (Err (EvmError (MemoryAccessOutOfLimits offset len)), m')
      \<and> mem_abs m' = mem_abs m"
proof (cases "mem_realloc offset len m")
  case (Pair r m')
  show ?thesis
  proof (cases "r = Ok ()")
    case True
    then have "mem_read offset len m = (Ok (read_at offset len (mdata m')), m')"
      using assms(2) Pair by (simp add: mem_read_def and_then_apply gets_apply)
    moreover from mem_read_Ok [OF assms(1) this] assms(2) this
    have "mem_read offset len m = (Ok (read_at offset len (mem_abs m)), m') \<and> mem_inv m'
      \<and> mem_abs m' = mem_abs m \<and> msize m' = max (msize m) (round32 (offset + len))" by simp
    ultimately show ?thesis
      using mem_realloc_succeeds [OF assms(1), of offset len] Pair True by auto
  next
    case False
    from mem_realloc_not_Ok [OF assms(1) Pair this] this show ?thesis
      using mem_realloc_succeeds [OF assms(1), of offset len] Pair assms(2)
      by (simp add: mem_read_def and_then_apply)
  qed
qed

theorem memory_read_limit_witness:
  "(\<exists>m'. mem_read 65504 32 mem_new = (Ok (read_at 65504 32 (\<lambda>_. 0)), m'))
   \<and> (\<exists>m'. mem_read 65505 32 mem_new = (Err (EvmError (MemoryAccessOutOfLimits 65505 32)), m'))"
  using memory_read_limit [OF mem_inv_new, of 32 65504] memory_read_limit [OF mem_inv_new, of 32 65505]
  by (auto simp: round32_def)

text \<open>A memory that is suspended and resumed holds the same bytes and reports the same size.\<close>

theorem memory_suspend_resume:
  assumes "mem_inv m"
  shows "\<exists>bs m'. mem_serialize m = Ok bs \<and> mem_deserialize bs = Ok m' \<and> mem_inv m'
    \<and> mem_abs m' = mem_abs m \<and> msize m' = msize m"
  using assms by (rule mem_serialize_deserialize)

theorem memory_suspend_resume_witness:
  "\<exists>bs m'. mem_serialize mem_new = Ok bs \<and> mem_deserialize bs = Ok m' \<and> mem_abs m' = (\<lambda>_. 0)"
  using memory_suspend_resume [OF mem_inv_new] by auto

end
