(* ===== verification/Buffer.thy ===== *)
theory Buffer
  imports Memory
begin

text \<open>
  \<open>Buffer\<close> (\<open>program/src/evm/buffer.rs\<close>): the byte strings the interpreter holds - code, call data,
  return data.  A buffer owns its bytes, or is a window on the data of a Solana account, or is such a
  window whose account has not been bound yet because the buffer has just been deserialized.

  The data of an account window is the account's data when the buffer was made; no account is
  written while the interpreter runs (changes are applied after it, from the list of actions).
\<close>

datatype buffer =
    Empty
  | Owned bytes
  | Account pubkey bytes "usize \<times> usize"
  | AccountUninit pubkey "usize \<times> usize"

text \<open>\<open>Buffer::new\<close> with \<open>Deref\<close>: the slice that \<open>ptr\<close> and \<open>len\<close> describe\<close>

fun buf_bytes :: "buffer \<Rightarrow> bytes" where
  "buf_bytes Empty = []"
| "buf_bytes (Owned v) = v"
| "buf_bytes (Account key data (b, e)) = take (e - b) (drop b data)"
| "buf_bytes (AccountUninit key r) = []"

definition buf_len :: "buffer \<Rightarrow> usize" where
  "buf_len b = length (buf_bytes b)"

definition buf_from_account :: "pubkey \<Rightarrow> bytes \<Rightarrow> usize \<times> usize \<Rightarrow> buffer" where
  "buf_from_account key data r = Account key data r"

definition buf_from_slice :: "bytes \<Rightarrow> buffer" where
  "buf_from_slice v = (if v = [] then Empty else Owned v)"

definition buf_empty :: buffer where
  "buf_empty = Empty"

definition buf_is_initialized :: "buffer \<Rightarrow> bool" where
  "buf_is_initialized b = (case b of AccountUninit _ _ \<Rightarrow> False | _ \<Rightarrow> True)"

definition buf_uninit_data :: "buffer \<Rightarrow> (pubkey \<times> usize \<times> usize) option" where
  "buf_uninit_data b = (case b of AccountUninit key r \<Rightarrow> Some (key, r) | _ \<Rightarrow> None)"

definition get_or_default :: "bytes \<Rightarrow> usize \<Rightarrow> u8" where
  "get_or_default bs i = (if i < length bs then bs ! i else 0)"

definition get_u16_or_default :: "bytes \<Rightarrow> usize \<Rightarrow> u16" where
  "get_u16_or_default bs i = (if length bs < i + 2 then 0 else from_be (take 2 (drop i bs)))"

text \<open>The signed reading of the same two bytes\<close>

definition get_i16_or_default :: "bytes \<Rightarrow> usize \<Rightarrow> int" where
  "get_i16_or_default bs i =
     (if length bs < i + 2 then 0 else sint (from_be (take 2 (drop i bs)) :: u16))"

text \<open>Cloning copies the bytes of an owned buffer and keeps the window of any other.\<close>

fun buf_clone :: "buffer \<Rightarrow> buffer" where
  "buf_clone Empty = Empty"
| "buf_clone (Owned v) = buf_from_slice v"
| "buf_clone (Account key data r) = Account key data r"
| "buf_clone (AccountUninit key r) = AccountUninit key r"

text \<open>
  Serialization writes an owned buffer with its bytes and an account window without them; reading an
  account window back gives an unbound one (\<open>visit_seq\<close>).  An unbound window is never serialized.
\<close>

datatype buffer_image = ImgEmpty | ImgOwned bytes | ImgAccount pubkey "usize \<times> usize"

fun buf_serialize :: "buffer \<Rightarrow> buffer_image result" where
  "buf_serialize Empty = Ok ImgEmpty"
| "buf_serialize (Owned v) = Ok (ImgOwned v)"
| "buf_serialize (Account key data r) = Ok (ImgAccount key r)"
| "buf_serialize (AccountUninit key r) = Panic"

fun buf_deserialize :: "buffer_image \<Rightarrow> buffer" where
  "buf_deserialize ImgEmpty = buf_empty"
| "buf_deserialize (ImgOwned v) = buf_from_slice v"
| "buf_deserialize (ImgAccount key r) = AccountUninit key r"

text \<open>\<open>reinit_buffer\<close> of \<open>Machine::deserialize_from\<close>: \<open>account\<close> gives the data of a Solana account.\<close>

definition reinit_buffer :: "(pubkey \<Rightarrow> bytes) \<Rightarrow> buffer \<Rightarrow> buffer" where
  "reinit_buffer account b = (case buf_uninit_data b of
     Some (key, r) \<Rightarrow> buf_from_account key (account key) r
   | None \<Rightarrow> b)"

lemma buf_bytes_from_slice [simp]: "buf_bytes (buf_from_slice v) = v"
  by (simp add: buf_from_slice_def)

lemma buf_bytes_empty [simp]: "buf_bytes buf_empty = []"
  by (simp add: buf_empty_def)

lemma buf_bytes_clone [simp]: "buf_bytes (buf_clone b) = buf_bytes b"
  by (cases b) auto

lemma buf_clone_initialized [simp]: "buf_is_initialized (buf_clone b) = buf_is_initialized b"
  by (cases b) (auto simp: buf_is_initialized_def buf_from_slice_def)

lemma buf_initialized_simps [simp]:
  "buf_is_initialized buf_empty" "buf_is_initialized (buf_from_slice v)"
  "buf_is_initialized Empty" "buf_is_initialized (Owned v)"
  by (auto simp: buf_is_initialized_def buf_empty_def buf_from_slice_def)

text \<open>
  A buffer whose account still has the data it was made from comes back with the same bytes.
\<close>

definition buf_backed :: "(pubkey \<Rightarrow> bytes) \<Rightarrow> buffer \<Rightarrow> bool" where
  "buf_backed account b = (case b of Account key data r \<Rightarrow> account key = data | _ \<Rightarrow> True)"

lemma buf_suspend_resume:
  assumes "buf_is_initialized b" and "buf_backed account b"
  obtains img where "buf_serialize b = Ok img"
    and "buf_bytes (reinit_buffer account (buf_deserialize img)) = buf_bytes b"
    and "buf_is_initialized (reinit_buffer account (buf_deserialize img))"
proof (cases b)
  case Empty
  then show ?thesis using that by (simp add: reinit_buffer_def buf_uninit_data_def buf_empty_def)
next
  case (Owned v)
  then show ?thesis
    using that by (simp add: reinit_buffer_def buf_uninit_data_def buf_from_slice_def)
next
  case (Account key data r)
  then show ?thesis using that assms(2)
    by (simp add: reinit_buffer_def buf_uninit_data_def buf_from_account_def buf_is_initialized_def
        buf_backed_def)
next
  case (AccountUninit key r)
  then show ?thesis using assms(1) by (simp add: buf_is_initialized_def)
qed

text \<open>A buffer that is suspended and resumed has the same bytes, also when it is a window into a
  Solana account, whose data is not copied but looked up again, provided that account still holds the
  data it had.\<close>

theorem buffer_suspend_resume:
  assumes "buf_is_initialized b" and "buf_backed account b"
  shows "\<exists>img. buf_serialize b = Ok img
    \<and> buf_bytes (reinit_buffer account (buf_deserialize img)) = buf_bytes b
    \<and> buf_is_initialized (reinit_buffer account (buf_deserialize img))"
  using buf_suspend_resume [OF assms] by metis

theorem buffer_suspend_resume_witness:
  "\<exists>img. buf_serialize (Account 5 [1, 2, 3, 4] (1, 3)) = Ok img
    \<and> buf_bytes (reinit_buffer (\<lambda>k. if k = 5 then [1, 2, 3, 4] else []) (buf_deserialize img))
        = buf_bytes (Account 5 [1, 2, 3, 4] (1, 3))"
  using buffer_suspend_resume [of "Account 5 [1, 2, 3, 4] (1, 3)" "\<lambda>k. if k = 5 then [1, 2, 3, 4] else []"]
  by (auto simp: buf_is_initialized_def buf_backed_def)

end
