(* ===== verification/Eof.thy ===== *)
theory Eof
  imports Buffer
begin

text \<open>
  The EOF container format (\<open>program/src/evm/eof.rs\<close>): the parser that turns bytecode with the magic
  \<open>EF 00\<close> into function signatures, code sections and data, and its inverse.

  Sizes read from the header are \<open>u16\<close>; the expected length of the container is computed with \<open>u16\<close>
  additions, which wrap in a release build (the workspace has no profile that turns overflow checks
  on).  A slice or index out of range is a panic.
\<close>

definition OFFSET_TYPES_KIND :: usize where
  "OFFSET_TYPES_KIND = 3"

definition OFFSET_CODE_KIND :: usize where
  "OFFSET_CODE_KIND = 6"

definition EOF1_VERSION :: u8 where
  "EOF1_VERSION = 1"

definition EOF_MAGIC :: bytes where
  "EOF_MAGIC = [0xef, 0x00]"

definition HEADER_LEN_WITHOUT_TERMINATOR :: usize where
  "HEADER_LEN_WITHOUT_TERMINATOR = 14"

definition SECTION_LEN :: usize where
  "SECTION_LEN = 3"

lemmas eof_consts = OFFSET_TYPES_KIND_def OFFSET_CODE_KIND_def EOF1_VERSION_def EOF_MAGIC_def
  HEADER_LEN_WITHOUT_TERMINATOR_def SECTION_LEN_def

record function_metadata =
  inputs :: u8
  outputs :: u8
  max_stack_height :: u16

record container =
  ctypes :: "function_metadata list"
  ccode :: "buffer list"
  cdata :: buffer

datatype section_kind = TypeSection | CodeSection | DataSection

primrec section_kind_byte :: "section_kind \<Rightarrow> u8" where
  "section_kind_byte TypeSection = 1"
| "section_kind_byte CodeSection = 2"
| "section_kind_byte DataSection = 3"

definition section_kind_of :: "u8 \<Rightarrow> section_kind result" where
  "section_kind_of kind =
    (if kind = section_kind_byte TypeSection then Ok TypeSection
     else if kind = section_kind_byte CodeSection then Ok CodeSection
     else if kind = section_kind_byte DataSection then Ok DataSection
     else Err (EofError (UnknownSectionHeader kind)))"

definition section_kind_assert :: "section_kind \<Rightarrow> section_kind \<Rightarrow> unit result" where
  "section_kind_assert kind expected = rensure (kind = expected)
     (EofError (MissingSectionHeader (section_kind_byte expected) (section_kind_byte kind)))"

section \<open>Parsing\<close>

definition assert_eof_version_1 :: "bytes \<Rightarrow> unit result" where
  "assert_eof_version_1 bs =
    (if 2 < length bs \<and> bs ! 2 = EOF1_VERSION then Ok ()
     else rbind (index_at bs 2) (\<lambda>v. Err (EofError (InvalidVersion v))))"

definition has_eof_magic :: "bytes \<Rightarrow> bool" where
  "has_eof_magic bs \<longleftrightarrow> length EOF_MAGIC \<le> length bs \<and> take (length EOF_MAGIC) bs = EOF_MAGIC"

definition metadata_assert_valid :: "function_metadata \<Rightarrow> u8 \<Rightarrow> unit result" where
  "metadata_assert_valid m section_index =
    rbind (rensure (inputs m \<le> 127) (EofError (TooManyInputs section_index (inputs m)))) (\<lambda>_.
    rbind (rensure (outputs m \<le> 127) (EofError (TooManyOutputs section_index (inputs m)))) (\<lambda>_.
    rensure (max_stack_height m \<le> 1023) (EofError (TooLargeMaxStackHeight section_index (inputs m)))))"

definition metadata_to_bytes :: "function_metadata \<Rightarrow> bytes" where
  "metadata_to_bytes m = [inputs m, outputs m,
     ucast (drop_bit 8 (max_stack_height m)), ucast (max_stack_height m AND 0x00ff)]"

definition section_parse :: "bytes \<Rightarrow> usize \<Rightarrow> (section_kind \<times> u16) result" where
  "section_parse bs idx =
    (if idx + SECTION_LEN \<ge> length bs then Err (EofError UnexpectedEndOfFile)
     else rbind (index_at bs idx) (\<lambda>k. rbind (section_kind_of k) (\<lambda>kind.
       Ok (kind, get_u16_or_default bs (idx + 1)))))"

definition parse_list :: "bytes \<Rightarrow> usize \<Rightarrow> u16 list result" where
  "parse_list bs idx =
    (if length bs < idx + 2 then Err (EofError UnexpectedEndOfFile)
     else
       let count = unat (get_u16_or_default bs idx) in
       if length bs \<le> idx + 2 + count * 2 then Err (EofError UnexpectedEndOfFile)
       else Ok (map (\<lambda>i. get_u16_or_default bs (idx + 2 + 2 * i)) [0..<count]))"

definition section_list_parse :: "bytes \<Rightarrow> usize \<Rightarrow> (section_kind \<times> u16 list) result" where
  "section_list_parse bs idx =
    (if idx \<ge> length bs then Err (EofError UnexpectedEndOfFile)
     else rbind (index_at bs idx) (\<lambda>k. rbind (section_kind_of k) (\<lambda>kind.
       rbind (parse_list bs (idx + 1)) (\<lambda>l. Ok (kind, l)))))"

definition total_size :: "u16 list \<Rightarrow> u16" where
  "total_size l = sum_list l"

text \<open>The closure of \<open>unmarshal_binary\<close> that reads one signature\<close>

definition parse_signature :: "bytes \<Rightarrow> usize \<Rightarrow> nat \<Rightarrow> function_metadata result" where
  "parse_signature bs idx section_index =
    rbind (index_at bs (idx + section_index * 4)) (\<lambda>i.
    rbind (index_at bs (idx + section_index * 4 + 1)) (\<lambda>out.
    let signature = \<lparr>inputs = i, outputs = out,
          max_stack_height = get_u16_or_default bs (idx + section_index * 4 + 2)\<rparr> in
    rbind (metadata_assert_valid signature (of_nat section_index)) (\<lambda>_. Ok signature)))"

text \<open>\<open>collect::<Result<Vec<_>>>\<close>: the first failure ends it.\<close>

fun collect :: "('a \<Rightarrow> 'b result) \<Rightarrow> 'a list \<Rightarrow> 'b list result" where
  "collect f [] = Ok []"
| "collect f (x # xs) = rbind (f x) (\<lambda>y. rbind (collect f xs) (\<lambda>ys. Ok (y # ys)))"

text \<open>The loop over the code sections; \<open>i\<close> is the index of the first size in the list.\<close>

fun parse_code :: "bytes \<Rightarrow> usize \<Rightarrow> nat \<Rightarrow> u16 list \<Rightarrow> (bytes list \<times> usize) result" where
  "parse_code bs idx i [] = Ok ([], idx)"
| "parse_code bs idx i (sz # szs) =
    (if sz = 0 then Err (EofError (InvalidCodeSize i))
     else rbind (unwrap (slice_get bs idx (idx + unat sz))) (\<lambda>c.
       rbind (parse_code bs (idx + unat sz) (Suc i) szs) (\<lambda>(cs, idx'). Ok (c # cs, idx'))))"

definition unmarshal_binary :: "bytes \<Rightarrow> container result" where
  "unmarshal_binary bs =
    (if \<not> has_eof_magic bs then Err (EofError InvalidMagic)
     else if length bs < HEADER_LEN_WITHOUT_TERMINATOR then Err (EofError UnexpectedEndOfFile)
     else
       rbind (assert_eof_version_1 bs) (\<lambda>_.
       rbind (section_parse bs OFFSET_TYPES_KIND) (\<lambda>(type_kind, type_size).
       rbind (section_kind_assert type_kind TypeSection) (\<lambda>_.
       if type_size < 4 \<or> type_size mod 4 \<noteq> 0
       then Err (EofError (InvalidTypeSizeMustBeDivisibleBy4 type_size))
       else
         let type_section_size = unat (type_size div 4) in
         if type_section_size > 1024 then Err (EofError (InvalidTypeSizeExceed type_size))
         else
           rbind (section_list_parse bs OFFSET_CODE_KIND) (\<lambda>(code_kind, code_list).
           rbind (section_kind_assert code_kind CodeSection) (\<lambda>_.
           if length code_list \<noteq> type_section_size
           then Err (EofError (MismatchCodeSize type_section_size (length code_list)))
           else
             let offset_data_kind = OFFSET_CODE_KIND + 2 + 2 * length code_list + 1 in
             rbind (section_parse bs offset_data_kind) (\<lambda>(data_kind, data_size).
             rbind (section_kind_assert data_kind DataSection) (\<lambda>_.
             let offset_terminator = offset_data_kind + 3 in
             if length bs \<le> offset_terminator then Err (EofError UnexpectedEndOfFile)
             else if bs ! offset_terminator \<noteq> 0
             then Err (EofError (MissingTerminator (bs ! offset_terminator)))
             else
               let expected_size = unat ((of_nat offset_terminator :: u16) + type_size
                     + total_size code_list + data_size + 1) in
               if length bs \<noteq> expected_size
               then Err (EofError (InvalidContainerSize (length bs) expected_size))
               else
                 let idx = offset_terminator + 1 in
                 rbind (collect (parse_signature bs idx) [0..<type_section_size]) (\<lambda>types.
                 rbind (index_at types 0) (\<lambda>t0.
                 if inputs t0 \<noteq> 0 \<or> outputs t0 \<noteq> 0
                 then Err (EofError (InvalidSection0Type (inputs t0) (outputs t0)))
                 else
                   rbind (parse_code bs (idx + unat type_size) 0 code_list) (\<lambda>(code, idx).
                   rbind (unwrap (slice_get bs idx (idx + unat data_size))) (\<lambda>data.
                   Ok \<lparr>ctypes = types, ccode = map buf_from_slice code, cdata = buf_from_slice data\<rparr>))))))))))))"

section \<open>Printing\<close>

definition marshal_binary :: "container \<Rightarrow> bytes" where
  "marshal_binary c =
     EOF_MAGIC @ [EOF1_VERSION]
     @ [section_kind_byte TypeSection] @ be_bytes 2 (of_nat (length (ctypes c) * 4) :: u16)
     @ [section_kind_byte CodeSection] @ be_bytes 2 (of_nat (length (ccode c)) :: u16)
     @ concat (map (\<lambda>b. be_bytes 2 (of_nat (buf_len b) :: u16)) (ccode c))
     @ [section_kind_byte DataSection] @ be_bytes 2 (of_nat (buf_len (cdata c)) :: u16)
     @ [0]
     @ concat (map metadata_to_bytes (ctypes c))
     @ concat (map buf_bytes (ccode c))
     @ buf_bytes (cdata c)"

section \<open>Parsing what was printed\<close>

lemma get_u16_at: "get_u16_or_default (pre @ be_bytes 2 (w :: u16) @ post) (length pre) = w"
  by (simp add: get_u16_or_default_def from_be_be_bytes)

lemma get_u16_concat:
  "i < length ws \<Longrightarrow>
   get_u16_or_default (pre @ concat (map (be_bytes 2) (ws :: u16 list)) @ post) (length pre + 2 * i) = ws ! i"
proof (induction ws arbitrary: pre i)
  case (Cons w ws)
  show ?case
  proof (cases i)
    case 0
    then show ?thesis using get_u16_at [of pre w] by simp
  next
    case (Suc j)
    then show ?thesis using Cons.IH [of j "pre @ be_bytes 2 w"] Cons.prems by simp
  qed
qed simp

lemma index_at_append: "index_at (pre @ x # post) (length pre) = Ok x"
  by (simp add: index_at_def)

lemma section_kind_of_byte [simp]: "section_kind_of (section_kind_byte k) = Ok k"
  by (cases k) (simp_all add: section_kind_of_def)

lemma section_parse_at:
  assumes "bs = pre @ section_kind_byte k # be_bytes 2 (w :: u16) @ post" and "post \<noteq> []"
    and idx: "idx = length pre"
  shows "section_parse bs idx = Ok (k, w)"
proof -
  have "get_u16_or_default bs (length pre + 1) = w"
    using get_u16_at [of "pre @ [section_kind_byte k]" w post] assms(1) by simp
  moreover have "length pre + SECTION_LEN < length bs"
    using assms by (cases post) (simp_all add: SECTION_LEN_def)
  ultimately show ?thesis
    using assms(1) by (simp add: section_parse_def index_at_append idx)
qed

lemma section_list_parse_at:
  assumes "bs = pre @ section_kind_byte k # be_bytes 2 (of_nat (length ws) :: u16)
      @ concat (map (be_bytes 2) ws) @ post"
    and "post \<noteq> []" and "length ws < 65536" and idx: "idx = length pre"
  shows "section_list_parse bs idx = Ok (k, ws)"
proof -
  have count: "get_u16_or_default bs (length pre + 1) = of_nat (length ws)"
    using get_u16_at [of "pre @ [section_kind_byte k]" "of_nat (length ws)"] assms(1) by simp
  have n: "unat (of_nat (length ws) :: u16) = length ws"
    using assms(3) by (simp add: unsigned_of_nat take_bit_eq_mod)
  have len: "length bs = length pre + 3 + 2 * length ws + length post"
    using assms(1) by (simp add: length_concat_be_bytes)
  have "get_u16_or_default bs (length pre + 1 + 2 + 2 * i) = ws ! i" if "i < length ws" for i
    using get_u16_concat [OF that, of "pre @ section_kind_byte k # be_bytes 2 (of_nat (length ws) :: u16)" post]
      assms(1) by (simp add: add.commute add.left_commute)
  then have "map (\<lambda>i. get_u16_or_default bs (length pre + 1 + 2 + 2 * i)) [0..<length ws] = ws"
    by (intro map_upt_eqI) auto
  then have "parse_list bs (length pre + 1) = Ok ws"
    using assms(2) len by (cases post) (simp_all add: parse_list_def count [simplified] n Let_def)
  then show ?thesis
    using assms(1) len by (simp add: section_list_parse_def index_at_append idx)
qed

lemma collect_Ok: "(\<And>x. x \<in> set xs \<Longrightarrow> f x = Ok (g x)) \<Longrightarrow> collect f xs = Ok (map g xs)"
  by (induction xs) auto

lemma length_metadata_to_bytes [simp]: "length (metadata_to_bytes m) = 4"
  by (simp add: metadata_to_bytes_def)

lemma length_concat_metadata [simp]: "length (concat (map metadata_to_bytes ms)) = 4 * length ms"
  by (induction ms) auto

lemma be_bytes_u16: "be_bytes 2 (w :: u16) = [ucast (drop_bit 8 w), ucast (w AND 0x00ff)]"
proof -
  have m: "w AND 0x00ff = take_bit 8 w"
    using take_bit_eq_mask [of 8 w] by (simp add: mask_eq_exp_minus_1)
  have "(word_of_nat (unat w div 256) :: u8) = ucast (drop_bit 8 w)"
    by (simp add: word_unat_eq_iff unsigned_ucast_eq unsigned_of_nat drop_bit_eq_div unat_div)
  moreover have "(word_of_nat (unat w) :: u8) = ucast (take_bit 8 w)"
    by (simp add: word_unat_eq_iff unsigned_ucast_eq unsigned_of_nat unsigned_take_bit_eq)
  ultimately show ?thesis
    by (simp add: be_bytes_def numeral_2_eq_2 m)
qed

lemma metadata_to_bytes_eq: "metadata_to_bytes m = [inputs m, outputs m] @ be_bytes 2 (max_stack_height m)"
  by (simp add: metadata_to_bytes_def be_bytes_u16)

lemma concat_metadata_split:
  "i < length ms \<Longrightarrow> concat (map metadata_to_bytes ms)
     = concat (map metadata_to_bytes (take i ms)) @ metadata_to_bytes (ms ! i)
       @ concat (map metadata_to_bytes (drop (Suc i) ms))"
  by (subst id_take_nth_drop [of i ms]) simp_all

lemma metadata_eta: "\<lparr>inputs = inputs m, outputs = outputs m, max_stack_height = max_stack_height m\<rparr> = m"
  by (cases m) simp

lemma parse_signature_at:
  assumes "bs = pre @ concat (map metadata_to_bytes ms) @ post" and "i < length ms"
    and "metadata_assert_valid (ms ! i) (of_nat i) = Ok ()"
  shows "parse_signature bs (length pre) i = Ok (ms ! i)"
proof -
  define a where "a = pre @ concat (map metadata_to_bytes (take i ms))"
  define z where "z = concat (map metadata_to_bytes (drop (Suc i) ms)) @ post"
  have bs: "bs = a @ inputs (ms ! i) # outputs (ms ! i) # be_bytes 2 (max_stack_height (ms ! i)) @ z"
    using assms(1,2) concat_metadata_split [OF assms(2)] by (simp add: a_def z_def metadata_to_bytes_eq)
  have la: "length pre + i * 4 = length a" using assms(2) by (simp add: a_def)
  have "index_at bs (length a) = Ok (inputs (ms ! i))" "index_at bs (length a + 1) = Ok (outputs (ms ! i))"
    by (simp_all add: bs index_at_def nth_append)
  moreover have "get_u16_or_default bs (length a + 2) = max_stack_height (ms ! i)"
    using get_u16_at [of "a @ [inputs (ms ! i), outputs (ms ! i)]"] by (simp add: bs)
  ultimately show ?thesis
    using assms(3) by (simp add: parse_signature_def la Let_def metadata_eta del: index_at_Ok)
qed

lemma parse_code_at:
  assumes "\<forall>c \<in> set cs. c \<noteq> [] \<and> length c < 65536"
  shows "parse_code (pre @ concat cs @ post) (length pre) i (map (\<lambda>c. of_nat (length c)) cs)
     = Ok (cs, length pre + length (concat cs))"
  using assms
proof (induction cs arbitrary: pre i)
  case (Cons c cs)
  have u: "unat (of_nat (length c) :: u16) = length c"
    using Cons.prems by (simp add: unsigned_of_nat take_bit_eq_mod)
  moreover have "(of_nat (length c) :: u16) \<noteq> 0"
    using u Cons.prems by (auto simp del: of_nat_eq_0_iff)
  moreover have "slice_get (pre @ concat (c # cs) @ post) (length pre) (length pre + length c) = Some c"
    by (simp add: slice_get_def)
  moreover have "parse_code (pre @ concat (c # cs) @ post) (length pre + length c) (Suc i)
      (map (\<lambda>c. of_nat (length c)) cs) = Ok (cs, length pre + length c + length (concat cs))"
    using Cons.IH [of "pre @ c" "Suc i"] Cons.prems by simp
  ultimately show ?case by simp
qed simp

lemma total_size_of_nat: "total_size (map (\<lambda>c. of_nat (length c)) cs) = of_nat (length (concat cs))"
  by (induction cs) (simp_all add: total_size_def)

text \<open>The containers that the format can describe\<close>

definition wf_container :: "container \<Rightarrow> bool" where
  "wf_container c \<longleftrightarrow>
     ctypes c \<noteq> [] \<and> length (ctypes c) = length (ccode c) \<and> length (ctypes c) \<le> 1024
     \<and> inputs (ctypes c ! 0) = 0 \<and> outputs (ctypes c ! 0) = 0
     \<and> (\<forall>m \<in> set (ctypes c). inputs m \<le> 127 \<and> outputs m \<le> 127 \<and> max_stack_height m \<le> 1023)
     \<and> (\<forall>b \<in> set (ccode c). buf_bytes b \<noteq> [])
     \<and> length (marshal_binary c) < 65536"

definition norm_container :: "container \<Rightarrow> container" where
  "norm_container c = \<lparr>ctypes = ctypes c, ccode = map (buf_from_slice \<circ> buf_bytes) (ccode c),
     cdata = buf_from_slice (buf_bytes (cdata c))\<rparr>"

lemma unmarshal_marshal:
  assumes "wf_container c"
  shows "unmarshal_binary (marshal_binary c) = Ok (norm_container c)"
proof -
  define n where "n = length (ctypes c)"
  define cs where "cs = map buf_bytes (ccode c)"
  define ws where "ws = map (\<lambda>b. of_nat (length b) :: u16) cs"
  define d where "d = buf_bytes (cdata c)"
  define tw where "tw = (of_nat (n * 4) :: u16)"
  define dw where "dw = (of_nat (length d) :: u16)"
  define bs where "bs = marshal_binary c"
  define ts where "ts = concat (map metadata_to_bytes (ctypes c))"
  have wf: "ctypes c \<noteq> []" "length (ccode c) = n" "n \<le> 1024" "1 \<le> n" "length bs < 65536"
    "inputs (ctypes c ! 0) = 0" "outputs (ctypes c ! 0) = 0"
    using assms by (auto simp: wf_container_def n_def bs_def Suc_le_eq)
  have lens: "length cs = n" "length ws = n" "length ts = 4 * n"
    using wf by (simp_all add: cs_def ws_def ts_def n_def)
  have bs: "bs = [0xef, 0x00, 0x01] @ section_kind_byte TypeSection # be_bytes 2 tw
     @ section_kind_byte CodeSection # be_bytes 2 (of_nat (length ws) :: u16)
     @ concat (map (be_bytes 2) ws) @ section_kind_byte DataSection # be_bytes 2 dw
     @ 0 # ts @ concat cs @ d"
    using wf by (simp add: bs_def marshal_binary_def eof_consts tw_def dw_def ws_def cs_def d_def ts_def
        n_def o_def buf_len_def del: section_kind_byte.simps)
  let ?h = "[0xef, 0x00, 0x01] @ section_kind_byte TypeSection # be_bytes 2 tw
     @ section_kind_byte CodeSection # be_bytes 2 (of_nat (length ws) :: u16) @ concat (map (be_bytes 2) ws)"
  have h: "length ?h = 9 + 2 * n" by (simp add: length_concat_be_bytes lens)
  have len: "length bs = 13 + 2 * n + 4 * n + length (concat cs) + length d"
    unfolding bs by (simp add: length_concat_be_bytes lens)
  have type_sec: "section_parse bs 3 = Ok (TypeSection, tw)"
    by (rule section_parse_at [OF bs]) simp_all
  have code_sec: "section_list_parse bs 6 = Ok (CodeSection, ws)"
  proof (rule section_list_parse_at)
    show "bs = ([0xef, 0x00, 0x01] @ section_kind_byte TypeSection # be_bytes 2 tw)
       @ section_kind_byte CodeSection # be_bytes 2 (of_nat (length ws) :: u16)
       @ concat (map (be_bytes 2) ws) @ section_kind_byte DataSection # be_bytes 2 dw
       @ 0 # ts @ concat cs @ d" unfolding bs by simp
  qed (use lens wf in simp_all)
  have data_sec: "section_parse bs (9 + 2 * n) = Ok (DataSection, dw)"
  proof (rule section_parse_at)
    show "bs = ?h @ section_kind_byte DataSection # be_bytes 2 dw @ 0 # ts @ concat cs @ d"
      unfolding bs by simp
  qed (use h in simp_all)
  have tw: "unat tw = n * 4" and dw: "unat dw = length d"
    using wf len by (simp_all add: tw_def dw_def unsigned_of_nat take_bit_eq_mod del: of_nat_mult)
  have tw_ok: "\<not> (tw < 4 \<or> tw mod 4 \<noteq> 0)" "unat (tw div 4) = n"
    using tw wf by (simp_all add: word_less_nat_alt unat_div word_unat_eq_iff [of "tw mod 4"] unat_mod)
  have zero: "bs ! (12 + 2 * n) = 0"
    unfolding bs using h by (simp add: nth_append length_concat_be_bytes lens)
  let ?p = "?h @ section_kind_byte DataSection # be_bytes 2 dw @ [0]"
  have p: "length ?p = 13 + 2 * n" using h by simp
  define pre where "pre = ?p @ ts"
  have pre: "bs = pre @ concat cs @ d" "length pre = 13 + 2 * n + 4 * n"
    using bs p lens by (simp_all add: pre_def)
  have sigs: "collect (parse_signature bs (13 + 2 * n)) [0..<n] = Ok (ctypes c)"
  proof -
    have "parse_signature bs (13 + 2 * n) i = Ok (ctypes c ! i)" if "i < n" for i
    proof -
      have "ctypes c ! i \<in> set (ctypes c)" using that by (simp add: n_def)
      then have "metadata_assert_valid (ctypes c ! i) (of_nat i) = Ok ()"
        using assms by (simp add: wf_container_def metadata_assert_valid_def)
      then show ?thesis
        using parse_signature_at [of bs ?p "ctypes c" "concat cs @ d" i] that p bs
        by (simp add: ts_def n_def)
    qed
    then have "collect (parse_signature bs (13 + 2 * n)) [0..<n] = Ok (map ((!) (ctypes c)) [0..<n])"
      by (intro collect_Ok) simp
    then show ?thesis by (simp add: n_def map_nth)
  qed
  have codes: "parse_code bs (13 + 2 * n + 4 * n) 0 ws = Ok (cs, 13 + 2 * n + 4 * n + length (concat cs))"
  proof -
    have "\<forall>x \<in> set cs. x \<noteq> [] \<and> length x < 65536"
    proof
      fix x assume x: "x \<in> set cs"
      then have "length x \<le> length (concat cs)"
        by (simp add: length_concat member_le_sum_list)
      then show "x \<noteq> [] \<and> length x < 65536"
        using x len wf assms by (auto simp: cs_def wf_container_def)
    qed
    then show ?thesis
      using parse_code_at [of cs pre d 0] unfolding pre(1) [symmetric] pre(2) ws_def by simp
  qed
  have dat: "slice_get bs (13 + 2 * n + 4 * n + length (concat cs))
      (13 + 2 * n + 4 * n + length (concat cs) + length d) = Some d"
    using pre by (simp add: slice_get_def)
  have expected: "unat ((of_nat (12 + 2 * n) :: u16) + tw + total_size ws + dw + 1) = length bs"
  proof -
    have "(of_nat (12 + 2 * n) :: u16) + tw + total_size ws + dw + 1 = of_nat (length bs)"
      by (simp add: len ws_def total_size_of_nat tw_def dw_def)
    then show ?thesis using wf by (simp add: unsigned_of_nat take_bit_eq_mod)
  qed
  have magic: "has_eof_magic bs" "assert_eof_version_1 bs = Ok ()"
    unfolding bs by (simp_all add: has_eof_magic_def assert_eof_version_1_def eof_consts)
  show ?thesis
    unfolding bs_def [symmetric] unmarshal_binary_def
    using magic type_sec code_sec data_sec tw_ok wf lens zero sigs codes dat len expected
    by (simp add: Let_def eof_consts section_kind_assert_def norm_container_def cs_def d_def tw dw
        add.commute index_at_def o_def)
qed

section \<open>Properties\<close>

text \<open>C19: reading back the binary form of a well-formed container gives that container, with its code
  and data in owned buffers.\<close>

theorem container_roundtrip:
  assumes "wf_container c"
  shows "unmarshal_binary (marshal_binary c) = Ok (norm_container c)"
  using assms by (rule unmarshal_marshal)

theorem container_roundtrip_witness:
  "unmarshal_binary (marshal_binary \<lparr>ctypes = [\<lparr>inputs = 0, outputs = 0, max_stack_height = 1\<rparr>],
     ccode = [Owned [0x60, 0x42, 0x00]], cdata = Owned [1, 2, 3]\<rparr>)
   = Ok \<lparr>ctypes = [\<lparr>inputs = 0, outputs = 0, max_stack_height = 1\<rparr>],
     ccode = [buf_from_slice [0x60, 0x42, 0x00]], cdata = buf_from_slice [1, 2, 3]\<rparr>"
  using container_roundtrip [of "\<lparr>ctypes = [\<lparr>inputs = 0, outputs = 0, max_stack_height = 1\<rparr>],
     ccode = [Owned [0x60, 0x42, 0x00]], cdata = Owned [1, 2, 3]\<rparr>"]
  by (simp add: wf_container_def norm_container_def marshal_binary_def metadata_to_bytes_def Let_def EOF_MAGIC_def)

end
