(* ===== verification/Opcode_Table.thy ===== *)
theory Opcode_Table
  imports Buffer
begin

text \<open>
  The opcode numbers and the static information about each opcode that code validation uses
  (\<open>program/src/evm/opcode_table.rs\<close>).  The dispatch tables of the same file are in the theories of
  the interpreter.

  \<open>OPCODE_INFO\<close> is an array of 256 optional entries that a constant expression fills in; here it is
  the list of the assignments, in the order of the source, read with \<open>map_of\<close> (no opcode is assigned
  twice, see \<open>opcode_info_entries_distinct\<close>).  The runs PUSH0-PUSH32, DUP1-DUP16, SWAP1-SWAP16 and
  LOG0-LOG4 of the source are written as runs.
\<close>

section \<open>Opcode numbers\<close>

abbreviation (input) OP_STOP :: u8 where "OP_STOP \<equiv> 0x00"
abbreviation (input) OP_ADD :: u8 where "OP_ADD \<equiv> 0x01"
abbreviation (input) OP_MUL :: u8 where "OP_MUL \<equiv> 0x02"
abbreviation (input) OP_SUB :: u8 where "OP_SUB \<equiv> 0x03"
abbreviation (input) OP_DIV :: u8 where "OP_DIV \<equiv> 0x04"
abbreviation (input) OP_SDIV :: u8 where "OP_SDIV \<equiv> 0x05"
abbreviation (input) OP_MOD :: u8 where "OP_MOD \<equiv> 0x06"
abbreviation (input) OP_SMOD :: u8 where "OP_SMOD \<equiv> 0x07"
abbreviation (input) OP_ADDMOD :: u8 where "OP_ADDMOD \<equiv> 0x08"
abbreviation (input) OP_MULMOD :: u8 where "OP_MULMOD \<equiv> 0x09"
abbreviation (input) OP_EXP :: u8 where "OP_EXP \<equiv> 0x0A"
abbreviation (input) OP_SIGNEXTEND :: u8 where "OP_SIGNEXTEND \<equiv> 0x0B"
abbreviation (input) OP_LT :: u8 where "OP_LT \<equiv> 0x10"
abbreviation (input) OP_GT :: u8 where "OP_GT \<equiv> 0x11"
abbreviation (input) OP_SLT :: u8 where "OP_SLT \<equiv> 0x12"
abbreviation (input) OP_SGT :: u8 where "OP_SGT \<equiv> 0x13"
abbreviation (input) OP_EQ :: u8 where "OP_EQ \<equiv> 0x14"
abbreviation (input) OP_ISZERO :: u8 where "OP_ISZERO \<equiv> 0x15"
abbreviation (input) OP_AND :: u8 where "OP_AND \<equiv> 0x16"
abbreviation (input) OP_OR :: u8 where "OP_OR \<equiv> 0x17"
abbreviation (input) OP_XOR :: u8 where "OP_XOR \<equiv> 0x18"
abbreviation (input) OP_NOT :: u8 where "OP_NOT \<equiv> 0x19"
abbreviation (input) OP_BYTE :: u8 where "OP_BYTE \<equiv> 0x1A"
abbreviation (input) OP_SHL :: u8 where "OP_SHL \<equiv> 0x1B"
abbreviation (input) OP_SHR :: u8 where "OP_SHR \<equiv> 0x1C"
abbreviation (input) OP_SAR :: u8 where "OP_SAR \<equiv> 0x1D"
abbreviation (input) OP_KECCAK256 :: u8 where "OP_KECCAK256 \<equiv> 0x20"
abbreviation (input) OP_ADDRESS :: u8 where "OP_ADDRESS \<equiv> 0x30"
abbreviation (input) OP_BALANCE :: u8 where "OP_BALANCE \<equiv> 0x31"
abbreviation (input) OP_ORIGIN :: u8 where "OP_ORIGIN \<equiv> 0x32"
abbreviation (input) OP_CALLER :: u8 where "OP_CALLER \<equiv> 0x33"
abbreviation (input) OP_CALLVALUE :: u8 where "OP_CALLVALUE \<equiv> 0x34"
abbreviation (input) OP_CALLDATALOAD :: u8 where "OP_CALLDATALOAD \<equiv> 0x35"
abbreviation (input) OP_CALLDATASIZE :: u8 where "OP_CALLDATASIZE \<equiv> 0x36"
abbreviation (input) OP_CALLDATACOPY :: u8 where "OP_CALLDATACOPY \<equiv> 0x37"
abbreviation (input) OP_CODESIZE :: u8 where "OP_CODESIZE \<equiv> 0x38"
abbreviation (input) OP_CODECOPY :: u8 where "OP_CODECOPY \<equiv> 0x39"
abbreviation (input) OP_GASPRICE :: u8 where "OP_GASPRICE \<equiv> 0x3A"
abbreviation (input) OP_EXTCODESIZE :: u8 where "OP_EXTCODESIZE \<equiv> 0x3B"
abbreviation (input) OP_EXTCODECOPY :: u8 where "OP_EXTCODECOPY \<equiv> 0x3C"
abbreviation (input) OP_RETURNDATASIZE :: u8 where "OP_RETURNDATASIZE \<equiv> 0x3D"
abbreviation (input) OP_RETURNDATACOPY :: u8 where "OP_RETURNDATACOPY \<equiv> 0x3E"
abbreviation (input) OP_EXTCODEHASH :: u8 where "OP_EXTCODEHASH \<equiv> 0x3F"
abbreviation (input) OP_BLOCKHASH :: u8 where "OP_BLOCKHASH \<equiv> 0x40"
abbreviation (input) OP_COINBASE :: u8 where "OP_COINBASE \<equiv> 0x41"
abbreviation (input) OP_TIMESTAMP :: u8 where "OP_TIMESTAMP \<equiv> 0x42"
abbreviation (input) OP_NUMBER :: u8 where "OP_NUMBER \<equiv> 0x43"
abbreviation (input) OP_DIFFICULTY :: u8 where "OP_DIFFICULTY \<equiv> 0x44"
abbreviation (input) OP_GASLIMIT :: u8 where "OP_GASLIMIT \<equiv> 0x45"
abbreviation (input) OP_CHAINID :: u8 where "OP_CHAINID \<equiv> 0x46"
abbreviation (input) OP_SELFBALANCE :: u8 where "OP_SELFBALANCE \<equiv> 0x47"
abbreviation (input) OP_BASEFEE :: u8 where "OP_BASEFEE \<equiv> 0x48"
abbreviation (input) OP_POP :: u8 where "OP_POP \<equiv> 0x50"
abbreviation (input) OP_MLOAD :: u8 where "OP_MLOAD \<equiv> 0x51"
abbreviation (input) OP_MSTORE :: u8 where "OP_MSTORE \<equiv> 0x52"
abbreviation (input) OP_MSTORE8 :: u8 where "OP_MSTORE8 \<equiv> 0x53"
abbreviation (input) OP_SLOAD :: u8 where "OP_SLOAD \<equiv> 0x54"
abbreviation (input) OP_SSTORE :: u8 where "OP_SSTORE \<equiv> 0x55"
abbreviation (input) OP_JUMP :: u8 where "OP_JUMP \<equiv> 0x56"
abbreviation (input) OP_JUMPI :: u8 where "OP_JUMPI \<equiv> 0x57"
abbreviation (input) OP_PC :: u8 where "OP_PC \<equiv> 0x58"
abbreviation (input) OP_MSIZE :: u8 where "OP_MSIZE \<equiv> 0x59"
abbreviation (input) OP_GAS :: u8 where "OP_GAS \<equiv> 0x5A"
abbreviation (input) OP_JUMPDEST :: u8 where "OP_JUMPDEST \<equiv> 0x5B"
abbreviation (input) OP_RJUMP :: u8 where "OP_RJUMP \<equiv> 0x5C"
abbreviation (input) OP_RJUMPI :: u8 where "OP_RJUMPI \<equiv> 0x5D"
abbreviation (input) OP_RJUMPV :: u8 where "OP_RJUMPV \<equiv> 0x5E"
abbreviation (input) OP_PUSH0 :: u8 where "OP_PUSH0 \<equiv> 0x5F"
abbreviation (input) OP_PUSH1 :: u8 where "OP_PUSH1 \<equiv> 0x60"
abbreviation (input) OP_PUSH32 :: u8 where "OP_PUSH32 \<equiv> 0x7F"
abbreviation (input) OP_DUP1 :: u8 where "OP_DUP1 \<equiv> 0x80"
abbreviation (input) OP_DUP16 :: u8 where "OP_DUP16 \<equiv> 0x8F"
abbreviation (input) OP_SWAP1 :: u8 where "OP_SWAP1 \<equiv> 0x90"
abbreviation (input) OP_SWAP16 :: u8 where "OP_SWAP16 \<equiv> 0x9F"
abbreviation (input) OP_LOG0 :: u8 where "OP_LOG0 \<equiv> 0xA0"
abbreviation (input) OP_LOG4 :: u8 where "OP_LOG4 \<equiv> 0xA4"
abbreviation (input) OP_CALLF :: u8 where "OP_CALLF \<equiv> 0xB0"
abbreviation (input) OP_RETF :: u8 where "OP_RETF \<equiv> 0xB1"
abbreviation (input) OP_CREATE :: u8 where "OP_CREATE \<equiv> 0xF0"
abbreviation (input) OP_CALL :: u8 where "OP_CALL \<equiv> 0xF1"
abbreviation (input) OP_CALLCODE :: u8 where "OP_CALLCODE \<equiv> 0xF2"
abbreviation (input) OP_RETURN :: u8 where "OP_RETURN \<equiv> 0xF3"
abbreviation (input) OP_DELEGATECALL :: u8 where "OP_DELEGATECALL \<equiv> 0xF4"
abbreviation (input) OP_CREATE2 :: u8 where "OP_CREATE2 \<equiv> 0xF5"
abbreviation (input) OP_STATICCALL :: u8 where "OP_STATICCALL \<equiv> 0xFA"
abbreviation (input) OP_REVERT :: u8 where "OP_REVERT \<equiv> 0xFD"
abbreviation (input) OP_INVALID :: u8 where "OP_INVALID \<equiv> 0xFE"
abbreviation (input) OP_SELFDESTRUCT :: u8 where "OP_SELFDESTRUCT \<equiv> 0xFF"
abbreviation (input) OP_TLOAD :: u8 where "OP_TLOAD \<equiv> 0xB3"
abbreviation (input) OP_TSTORE :: u8 where "OP_TSTORE \<equiv> 0xB4"

section \<open>Stack effects\<close>

definition STACK_LIMIT :: nat where
  "STACK_LIMIT = 1024"

record opcode_info =
  min_stack :: usize
  max_stack :: usize
  terminal :: bool

definition max_stack_of :: "nat \<Rightarrow> nat \<Rightarrow> usize" where
  "max_stack_of pop push = STACK_LIMIT + pop - push"

definition create_dup_opcode_info :: "nat \<Rightarrow> opcode_info" where
  "create_dup_opcode_info n = \<lparr>min_stack = n, max_stack = max_stack_of n (n + 1), terminal = False\<rparr>"

definition create_swap_opcode_info :: "nat \<Rightarrow> opcode_info" where
  "create_swap_opcode_info n = \<lparr>min_stack = n, max_stack = max_stack_of n n, terminal = False\<rparr>"

definition create_log_opcode_info :: "nat \<Rightarrow> opcode_info" where
  "create_log_opcode_info n = \<lparr>min_stack = n, max_stack = max_stack_of n 0, terminal = False\<rparr>"

definition push_info :: opcode_info where
  "push_info = \<lparr>min_stack = 0, max_stack = max_stack_of 0 1, terminal = False\<rparr>"

definition info_arith :: "(u8 \<times> opcode_info) list" where
  "info_arith = [
     (OP_STOP, \<lparr>min_stack = 0, max_stack = max_stack_of 0 0, terminal = True\<rparr>),
     (OP_ADD, \<lparr>min_stack = 2, max_stack = max_stack_of 2 1, terminal = False\<rparr>),
     (OP_MUL, \<lparr>min_stack = 2, max_stack = max_stack_of 2 1, terminal = False\<rparr>),
     (OP_SUB, \<lparr>min_stack = 2, max_stack = max_stack_of 2 1, terminal = False\<rparr>),
     (OP_DIV, \<lparr>min_stack = 2, max_stack = max_stack_of 2 1, terminal = False\<rparr>),
     (OP_SDIV, \<lparr>min_stack = 2, max_stack = max_stack_of 2 1, terminal = False\<rparr>),
     (OP_MOD, \<lparr>min_stack = 2, max_stack = max_stack_of 2 1, terminal = False\<rparr>),
     (OP_SMOD, \<lparr>min_stack = 2, max_stack = max_stack_of 2 1, terminal = False\<rparr>),
     (OP_ADDMOD, \<lparr>min_stack = 3, max_stack = max_stack_of 3 1, terminal = False\<rparr>),
     (OP_MULMOD, \<lparr>min_stack = 3, max_stack = max_stack_of 3 1, terminal = False\<rparr>),
     (OP_EXP, \<lparr>min_stack = 2, max_stack = max_stack_of 2 1, terminal = False\<rparr>),
     (OP_SIGNEXTEND, \<lparr>min_stack = 2, max_stack = max_stack_of 2 1, terminal = False\<rparr>),
     (OP_LT, \<lparr>min_stack = 2, max_stack = max_stack_of 2 1, terminal = False\<rparr>),
     (OP_GT, \<lparr>min_stack = 2, max_stack = max_stack_of 2 1, terminal = False\<rparr>),
     (OP_SLT, \<lparr>min_stack = 2, max_stack = max_stack_of 2 1, terminal = False\<rparr>),
     (OP_SGT, \<lparr>min_stack = 2, max_stack = max_stack_of 2 1, terminal = False\<rparr>),
     (OP_EQ, \<lparr>min_stack = 2, max_stack = max_stack_of 2 1, terminal = False\<rparr>),
     (OP_ISZERO, \<lparr>min_stack = 1, max_stack = max_stack_of 1 1, terminal = False\<rparr>),
     (OP_AND, \<lparr>min_stack = 2, max_stack = max_stack_of 2 1, terminal = False\<rparr>),
     (OP_OR, \<lparr>min_stack = 2, max_stack = max_stack_of 2 1, terminal = False\<rparr>),
     (OP_XOR, \<lparr>min_stack = 2, max_stack = max_stack_of 2 1, terminal = False\<rparr>),
     (OP_NOT, \<lparr>min_stack = 1, max_stack = max_stack_of 1 1, terminal = False\<rparr>),
     (OP_BYTE, \<lparr>min_stack = 2, max_stack = max_stack_of 2 1, terminal = False\<rparr>),
     (OP_SHL, \<lparr>min_stack = 2, max_stack = max_stack_of 2 1, terminal = False\<rparr>),
     (OP_SHR, \<lparr>min_stack = 2, max_stack = max_stack_of 2 1, terminal = False\<rparr>),
     (OP_SAR, \<lparr>min_stack = 2, max_stack = max_stack_of 2 1, terminal = False\<rparr>),
     (OP_KECCAK256, \<lparr>min_stack = 2, max_stack = max_stack_of 2 1, terminal = False\<rparr>)]"

definition info_env :: "(u8 \<times> opcode_info) list" where
  "info_env = [
     (OP_ADDRESS, \<lparr>min_stack = 0, max_stack = max_stack_of 0 1, terminal = False\<rparr>),
     (OP_BALANCE, \<lparr>min_stack = 1, max_stack = max_stack_of 1 1, terminal = False\<rparr>),
     (OP_ORIGIN, \<lparr>min_stack = 0, max_stack = max_stack_of 0 1, terminal = False\<rparr>),
     (OP_CALLER, \<lparr>min_stack = 0, max_stack = max_stack_of 0 1, terminal = False\<rparr>),
     (OP_CALLVALUE, \<lparr>min_stack = 0, max_stack = max_stack_of 0 1, terminal = False\<rparr>),
     (OP_CALLDATALOAD, \<lparr>min_stack = 1, max_stack = max_stack_of 1 1, terminal = False\<rparr>),
     (OP_CALLDATASIZE, \<lparr>min_stack = 0, max_stack = max_stack_of 0 1, terminal = False\<rparr>),
     (OP_CALLDATACOPY, \<lparr>min_stack = 3, max_stack = max_stack_of 3 0, terminal = False\<rparr>),
     (OP_CODESIZE, \<lparr>min_stack = 0, max_stack = max_stack_of 0 1, terminal = False\<rparr>),
     (OP_CODECOPY, \<lparr>min_stack = 3, max_stack = max_stack_of 3 0, terminal = False\<rparr>),
     (OP_GASPRICE, \<lparr>min_stack = 0, max_stack = max_stack_of 0 1, terminal = False\<rparr>),
     (OP_EXTCODESIZE, \<lparr>min_stack = 1, max_stack = max_stack_of 1 1, terminal = False\<rparr>),
     (OP_EXTCODECOPY, \<lparr>min_stack = 4, max_stack = max_stack_of 4 0, terminal = False\<rparr>),
     (OP_RETURNDATASIZE, \<lparr>min_stack = 0, max_stack = max_stack_of 0 1, terminal = False\<rparr>),
     (OP_RETURNDATACOPY, \<lparr>min_stack = 3, max_stack = max_stack_of 3 0, terminal = False\<rparr>),
     (OP_EXTCODEHASH, \<lparr>min_stack = 1, max_stack = max_stack_of 1 1, terminal = False\<rparr>),
     (OP_BLOCKHASH, \<lparr>min_stack = 1, max_stack = max_stack_of 1 1, terminal = False\<rparr>),
     (OP_COINBASE, \<lparr>min_stack = 0, max_stack = max_stack_of 0 1, terminal = False\<rparr>),
     (OP_TIMESTAMP, \<lparr>min_stack = 0, max_stack = max_stack_of 0 1, terminal = False\<rparr>),
     (OP_NUMBER, \<lparr>min_stack = 0, max_stack = max_stack_of 0 1, terminal = False\<rparr>),
     (OP_DIFFICULTY, \<lparr>min_stack = 0, max_stack = max_stack_of 0 1, terminal = False\<rparr>),
     (OP_GASLIMIT, \<lparr>min_stack = 0, max_stack = max_stack_of 0 1, terminal = False\<rparr>),
     (OP_CHAINID, \<lparr>min_stack = 0, max_stack = max_stack_of 0 1, terminal = False\<rparr>),
     (OP_SELFBALANCE, \<lparr>min_stack = 0, max_stack = max_stack_of 0 1, terminal = False\<rparr>),
     (OP_BASEFEE, \<lparr>min_stack = 0, max_stack = max_stack_of 0 1, terminal = False\<rparr>)]"

definition info_memory :: "(u8 \<times> opcode_info) list" where
  "info_memory = [
     (OP_POP, \<lparr>min_stack = 1, max_stack = max_stack_of 1 0, terminal = False\<rparr>),
     (OP_MLOAD, \<lparr>min_stack = 1, max_stack = max_stack_of 1 1, terminal = False\<rparr>),
     (OP_MSTORE, \<lparr>min_stack = 2, max_stack = max_stack_of 2 0, terminal = False\<rparr>),
     (OP_MSTORE8, \<lparr>min_stack = 2, max_stack = max_stack_of 2 0, terminal = False\<rparr>),
     (OP_SLOAD, \<lparr>min_stack = 1, max_stack = max_stack_of 1 1, terminal = False\<rparr>),
     (OP_SSTORE, \<lparr>min_stack = 2, max_stack = max_stack_of 2 0, terminal = False\<rparr>),
     (OP_JUMP, \<lparr>min_stack = 1, max_stack = max_stack_of 1 0, terminal = False\<rparr>),
     (OP_JUMPI, \<lparr>min_stack = 2, max_stack = max_stack_of 2 0, terminal = False\<rparr>),
     (OP_PC, \<lparr>min_stack = 0, max_stack = max_stack_of 0 1, terminal = False\<rparr>),
     (OP_MSIZE, \<lparr>min_stack = 0, max_stack = max_stack_of 0 1, terminal = False\<rparr>),
     (OP_GAS, \<lparr>min_stack = 0, max_stack = max_stack_of 0 1, terminal = False\<rparr>),
     (OP_JUMPDEST, \<lparr>min_stack = 0, max_stack = max_stack_of 0 0, terminal = False\<rparr>)]"

definition info_push :: "(u8 \<times> opcode_info) list" where
  "info_push = map (\<lambda>n. (OP_PUSH0 + of_nat n, push_info)) [0..<33]"

definition info_dup_swap_log :: "(u8 \<times> opcode_info) list" where
  "info_dup_swap_log =
     map (\<lambda>n. (OP_DUP1 + of_nat (n - 1), create_dup_opcode_info n)) [1..<17]
     @ map (\<lambda>n. (OP_SWAP1 + of_nat (n - 1), create_swap_opcode_info (n + 1))) [1..<17]
     @ map (\<lambda>n. (OP_LOG0 + of_nat n, create_log_opcode_info (n + 2))) [0..<5]"

definition info_call :: "(u8 \<times> opcode_info) list" where
  "info_call = [
     (OP_CREATE, \<lparr>min_stack = 3, max_stack = max_stack_of 3 1, terminal = False\<rparr>),
     (OP_CALL, \<lparr>min_stack = 7, max_stack = max_stack_of 7 1, terminal = False\<rparr>),
     (OP_CALLCODE, \<lparr>min_stack = 7, max_stack = max_stack_of 7 1, terminal = False\<rparr>),
     (OP_RETURN, \<lparr>min_stack = 2, max_stack = max_stack_of 2 0, terminal = True\<rparr>),
     (OP_DELEGATECALL, \<lparr>min_stack = 6, max_stack = max_stack_of 6 1, terminal = False\<rparr>),
     (OP_CREATE2, \<lparr>min_stack = 4, max_stack = max_stack_of 4 1, terminal = False\<rparr>),
     (OP_STATICCALL, \<lparr>min_stack = 6, max_stack = max_stack_of 6 1, terminal = False\<rparr>),
     (OP_REVERT, \<lparr>min_stack = 2, max_stack = max_stack_of 2 0, terminal = True\<rparr>),
     (OP_INVALID, \<lparr>min_stack = 0, max_stack = max_stack_of 0 0, terminal = True\<rparr>),
     (OP_SELFDESTRUCT, \<lparr>min_stack = 1, max_stack = max_stack_of 1 0, terminal = False\<rparr>),
     (OP_RJUMP, \<lparr>min_stack = 0, max_stack = max_stack_of 0 0, terminal = True\<rparr>),
     (OP_RJUMPI, \<lparr>min_stack = 1, max_stack = max_stack_of 1 0, terminal = False\<rparr>),
     (OP_RJUMPV, \<lparr>min_stack = 1, max_stack = max_stack_of 1 0, terminal = False\<rparr>),
     (OP_CALLF, \<lparr>min_stack = 0, max_stack = max_stack_of 0 0, terminal = False\<rparr>),
     (OP_RETF, \<lparr>min_stack = 0, max_stack = max_stack_of 0 0, terminal = True\<rparr>)]"

definition opcode_info_entries :: "(u8 \<times> opcode_info) list" where
  "opcode_info_entries = info_arith @ info_env @ info_memory @ info_push @ info_dup_swap_log @ info_call"

definition OPCODE_INFO :: "u8 \<Rightarrow> opcode_info option" where
  "OPCODE_INFO op = map_of opcode_info_entries op"

definition is_opcode_valid :: "u8 \<Rightarrow> bool" where
  "is_opcode_valid op = (OPCODE_INFO op \<noteq> None)"

definition assert_opcode_valid :: "u8 \<Rightarrow> unit result" where
  "assert_opcode_valid op = rensure (OPCODE_INFO op \<noteq> None) (ValidationError (UnsupportedOpcode op))"

definition is_terminal_opcode :: "u8 \<Rightarrow> bool" where
  "is_terminal_opcode op = (case OPCODE_INFO op of Some info \<Rightarrow> terminal info | None \<Rightarrow> False)"

lemmas opcode_info_defs = info_arith_def info_env_def info_memory_def info_push_def
  info_dup_swap_log_def info_call_def

lemma opcode_info_entries_distinct: "distinct (map fst opcode_info_entries)"
  unfolding opcode_info_entries_def opcode_info_defs by (simp add: upt_rec)

text \<open>
  Validation tracks the stack height as \<open>height + STACK_LIMIT - max_stack\<close>: for every opcode that is
  the height after popping and pushing, so \<open>max_stack\<close> never exceeds what the subtraction can bear.
\<close>

lemma max_stack_le: "(op, i) \<in> set opcode_info_entries \<Longrightarrow> max_stack i \<le> STACK_LIMIT + min_stack i"
  unfolding opcode_info_entries_def opcode_info_defs set_append
  by (auto simp: max_stack_of_def STACK_LIMIT_def push_info_def create_dup_opcode_info_def
      create_swap_opcode_info_def create_log_opcode_info_def)

lemma OPCODE_INFO_max_stack:
  "OPCODE_INFO op = Some i \<Longrightarrow> max_stack i \<le> STACK_LIMIT + min_stack i"
  unfolding OPCODE_INFO_def by (drule map_of_SomeD) (rule max_stack_le)

end
