(* ===== verification/Analysis.thy ===== *)
theory Analysis
  imports Opcode_Table
begin

text \<open>
  The bitmap of immediate bytes of a code section (\<open>program/src/evm/analysis.rs\<close>), which tells a
  jump destination from the data of an instruction.  A write outside the vector is a panic; the
  theory shows that none happens, and that the bitmap marks exactly the bytes that are not the start
  of an instruction, as long as no jump table of an instruction has more than 127 entries (\<open>count * 2 + 1\<close> is computed
  in \<open>u8\<close>).
\<close>

type_synonym bitvec = bytes

definition BITS_MASK :: "u16 list" where
  "BITS_MASK = [0, 1, 0x3, 0x7, 0xF, 0x1F, 0x3F, 0x7F]"

definition bitvec_new :: "usize \<Rightarrow> bitvec" where
  "bitvec_new n = replicate n 0"

definition upd_byte :: "bitvec \<Rightarrow> usize \<Rightarrow> (u8 \<Rightarrow> u8) \<Rightarrow> bitvec result" where
  "upd_byte bits i f = (if i < length bits then Ok (bits[i := f (bits ! i)]) else Panic)"

definition set_n :: "bitvec \<Rightarrow> u16 \<Rightarrow> usize \<Rightarrow> bitvec result" where
  "set_n bits flag pos =
    (let a = push_bit (pos mod 8) flag; b = ucast (drop_bit 8 a) :: u8 in
     rbind (upd_byte bits (pos div 8) (\<lambda>x. x OR ucast a)) (\<lambda>bits.
     if b \<noteq> 0 then upd_byte bits (pos div 8 + 1) (\<lambda>_. b) else Ok bits))"

definition set8 :: "bitvec \<Rightarrow> usize \<Rightarrow> bitvec result" where
  "set8 bits pos =
    (let a = ucast (push_bit (pos mod 8) (0xFF :: u32)) :: u8 in
     rbind (upd_byte bits (pos div 8) (\<lambda>x. x OR a)) (\<lambda>bits.
     upd_byte bits (pos div 8 + 1) (\<lambda>_. NOT a)))"

definition set16 :: "bitvec \<Rightarrow> usize \<Rightarrow> bitvec result" where
  "set16 bits pos =
    (let a = ucast (push_bit (pos mod 8) (0xFF :: u32)) :: u8 in
     rbind (upd_byte bits (pos div 8) (\<lambda>x. x OR a)) (\<lambda>bits.
     rbind (upd_byte bits (pos div 8 + 1) (\<lambda>_. 0xFF)) (\<lambda>bits.
     upd_byte bits (pos div 8 + 2) (\<lambda>_. NOT a))))"

definition is_code_segment :: "bitvec \<Rightarrow> usize \<Rightarrow> bool result" where
  "is_code_segment bits pos =
    rbind (index_at bits (pos div 8)) (\<lambda>x. Ok (drop_bit (pos mod 8) x AND 1 = 0))"

text \<open>The two \<open>while\<close> loops and the last \<open>if\<close> of the body: mark \<open>numbits\<close> positions from \<open>pc\<close> on.\<close>

fun mark_bits :: "bitvec \<Rightarrow> nat \<Rightarrow> usize \<Rightarrow> (bitvec \<times> usize) result" where
  "mark_bits bits numbits pc =
    (if 16 \<le> numbits then rbind (set16 bits pc) (\<lambda>bits. mark_bits bits (numbits - 16) (pc + 16))
     else if 8 \<le> numbits then rbind (set8 bits pc) (\<lambda>bits. mark_bits bits (numbits - 8) (pc + 8))
     else if 1 \<le> numbits then rbind (set_n bits (BITS_MASK ! numbits) pc) (\<lambda>bits. Ok (bits, pc + numbits))
     else Ok (bits, pc))"

declare mark_bits.simps [simp del]

text \<open>
  The \<open>match\<close> on the opcode: the number of bytes to mark at \<open>pc\<close>, just behind the opcode; \<open>None\<close> is
  the early return.  The size of a jump table is computed in \<open>u8\<close>.
\<close>

definition immediate_bits :: "bytes \<Rightarrow> u8 \<Rightarrow> usize \<Rightarrow> u8 option" where
  "immediate_bits code op pc =
    (if OP_PUSH1 \<le> op \<and> op \<le> OP_PUSH32 then Some (op - OP_PUSH1 + 1)
     else if op = OP_RJUMP \<or> op = OP_RJUMPI \<or> op = OP_CALLF then Some 2
     else if op = OP_RJUMPV then
       (if length code \<le> pc then None
        else
          let numbits = get_or_default code pc * 2 + 1 in
          if length code < pc + unat numbits then Some (of_nat (length code - pc)) else Some numbits)
     else Some 0)"

lemma mark_bits_pc: "mark_bits bits n pc = Ok (bits', pc') \<Longrightarrow> pc' = pc + n"
proof (induction bits n pc arbitrary: bits' pc' rule: mark_bits.induct)
  case (1 bits n pc)
  show ?case
  proof (cases "16 \<le> n")
    case True
    then obtain b where "mark_bits b (n - 16) (pc + 16) = Ok (bits', pc')"
      using 1(3) by (subst (asm) mark_bits.simps) (auto simp: rbind_Ok_iff)
    from 1(1) [OF True this] True show ?thesis by simp
  next
    case no16: False
    show ?thesis
    proof (cases "8 \<le> n")
      case True
      then obtain b where "mark_bits b (n - 8) (pc + 8) = Ok (bits', pc')"
        using 1(3) no16 by (subst (asm) mark_bits.simps) (auto simp: rbind_Ok_iff)
      from 1(2) [OF no16 True this] True show ?thesis by simp
    next
      case False
      then show ?thesis
        using 1(3) no16 by (subst (asm) mark_bits.simps) (auto simp: rbind_Ok_iff split: if_splits)
    qed
  qed
qed

lemma rbind_cong [fundef_cong]:
  "r = r' \<Longrightarrow> (\<And>x. r' = Ok x \<Longrightarrow> f x = f' x) \<Longrightarrow> rbind r f = rbind r' f'"
  by (cases r') auto

function (sequential) eof_code_bitmap_internal :: "bytes \<Rightarrow> bitvec \<Rightarrow> usize \<Rightarrow> bitvec result" where
  "eof_code_bitmap_internal code bits pc =
    (if pc < length code then
       (case immediate_bits code (get_or_default code pc) (pc + 1) of
          None \<Rightarrow> Ok bits
        | Some numbits \<Rightarrow>
            rbind (mark_bits bits (unat numbits) (pc + 1))
              (\<lambda>(bits, pc). eof_code_bitmap_internal code bits pc))
     else Ok bits)"
  by pat_completeness auto
termination
  by (relation "measure (\<lambda>(code, bits, pc). length code - pc)") (auto dest!: mark_bits_pc)

declare eof_code_bitmap_internal.simps [simp del]

definition eof_code_bitmap :: "bytes \<Rightarrow> bitvec result" where
  "eof_code_bitmap code =
     eof_code_bitmap_internal code (bitvec_new (length code div 8 + 1 + 4)) 0"

section \<open>The marked positions\<close>

text \<open>Bit \<open>q\<close> of the vector\<close>

definition marked :: "bitvec \<Rightarrow> nat \<Rightarrow> bool" where
  "marked bits q \<longleftrightarrow> bit (bits ! (q div 8)) (q mod 8)"

lemma is_code_segment_marked:
  "q < 8 * length bits \<Longrightarrow> is_code_segment bits q = Ok (\<not> marked bits q)"
proof -
  assume "q < 8 * length bits"
  then have i: "q div 8 < length bits" by (simp add: less_mult_imp_div_less mult.commute)
  have "(drop_bit k x AND 1 = 0) = (\<not> bit x k)" for x :: u8 and k
    by (simp add: bit_iff_odd_drop_bit and_one_eq odd_iff_mod_2_eq_one)
  with i show ?thesis by (simp add: is_code_segment_def marked_def index_at_def)
qed

text \<open>
  \<open>extends bits n pc bits'\<close>: \<open>bits'\<close> has the marks of \<open>bits\<close> and those from \<open>pc\<close> to \<open>pc + n\<close>.
\<close>

definition extends :: "bitvec \<Rightarrow> nat \<Rightarrow> nat \<Rightarrow> bitvec \<Rightarrow> bool" where
  "extends bits n pc bits' \<longleftrightarrow> length bits' = length bits
     \<and> (\<forall>q < 8 * length bits. marked bits' q \<longleftrightarrow> marked bits q \<or> pc \<le> q \<and> q < pc + n)"

definition clear_from :: "bitvec \<Rightarrow> nat \<Rightarrow> bool" where
  "clear_from bits pc \<longleftrightarrow> (\<forall>q < 8 * length bits. pc \<le> q \<longrightarrow> \<not> marked bits q)"

lemma clear_from_byte:
  assumes "clear_from bits pc" and "i < length bits" and "pc \<le> 8 * i + j" and "j < 8"
  shows "\<not> bit (bits ! i) j"
proof -
  have "8 * i + j < 8 * length bits" using assms(2,4) by linarith
  then have "\<not> marked bits (8 * i + j)"
    using assms(1,3) by (simp add: clear_from_def)
  then show ?thesis using assms(4) by (simp add: marked_def)
qed

lemma set8_a: "bit (ucast (push_bit k (0xFF :: u32)) :: u8) j \<longleftrightarrow> k \<le> j \<and> j < 8"
proof -
  have m: "(0xFF :: u32) = mask 8" by (simp add: mask_eq_exp_minus_1)
  show ?thesis unfolding m by (auto simp: bit_simps)
qed

lemma BITS_MASK_mask: "n < 8 \<Longrightarrow> BITS_MASK ! n = mask n"
proof -
  assume "n < 8"
  then have "n \<in> {0, 1, 2, 3, 4, 5, 6, 7}" by auto
  then show ?thesis by (auto simp: BITS_MASK_def mask_eq_exp_minus_1)
qed

text \<open>A write of the bits from \<open>pc\<close> on, byte by byte\<close>

lemma extends_bytes:
  assumes len: "length bits' = length bits"
    and bytes: "\<And>i j. i < length bits \<Longrightarrow> j < 8 \<Longrightarrow>
      bit (bits' ! i) j \<longleftrightarrow> bit (bits ! i) j \<or> pc \<le> 8 * i + j \<and> 8 * i + j < pc + n"
  shows "extends bits n pc bits'"
  unfolding extends_def
proof (intro conjI allI impI)
  fix q assume "q < 8 * length bits"
  then have "q div 8 < length bits" by (simp add: less_mult_imp_div_less mult.commute)
  then show "marked bits' q \<longleftrightarrow> marked bits q \<or> pc \<le> q \<and> q < pc + n"
    using bytes [of "q div 8" "q mod 8"] by (simp add: marked_def)
qed (rule len)

lemma div_mod_8: obtains p r where "pc = 8 * p + r" "r < (8::nat)" "pc div 8 = p" "pc mod 8 = r"
  by (rule that [of "pc div 8" "pc mod 8"]) simp_all

lemma set8_extends:
  assumes "clear_from bits pc" and "pc div 8 + 1 < length bits"
  obtains bits' where "set8 bits pc = Ok bits'" "extends bits 8 pc bits'"
proof -
  obtain p r where pc: "pc = 8 * p + r" "r < 8" "pc div 8 = p" "pc mod 8 = r" by (rule div_mod_8)
  define a where "a = (ucast (push_bit r (0xFF :: u32)) :: u8)"
  have a: "bit a j \<longleftrightarrow> r \<le> j \<and> j < 8" for j by (simp add: a_def set8_a)
  let ?b = "bits[p := bits ! p OR a, p + 1 := NOT a]"
  have "set8 bits pc = Ok ?b"
    using assms(2) by (simp add: set8_def upd_byte_def Let_def a_def pc)
  moreover have "extends bits 8 pc ?b"
  proof (rule extends_bytes)
    fix i j :: nat assume i: "i < length bits" and j: "j < 8"
    consider "i = p" | "i = p + 1" | "i < p" | "p + 1 < i" by linarith
    then show "bit (?b ! i) j \<longleftrightarrow> bit (bits ! i) j \<or> pc \<le> 8 * i + j \<and> 8 * i + j < pc + 8"
    proof cases
      case 2
      have "\<not> bit (bits ! i) j"
        by (rule clear_from_byte [OF assms(1) i _ j]) (use 2 pc in linarith)
      then show ?thesis using 2 i j pc by (auto simp: a bit_not_iff)
    qed (use i j pc assms(2) in \<open>auto simp: a bit_or_iff\<close>)
  qed simp
  ultimately show ?thesis by (rule that)
qed

lemma set16_extends:
  assumes "clear_from bits pc" and "pc div 8 + 2 < length bits"
  obtains bits' where "set16 bits pc = Ok bits'" "extends bits 16 pc bits'"
proof -
  obtain p r where pc: "pc = 8 * p + r" "r < 8" "pc div 8 = p" "pc mod 8 = r" by (rule div_mod_8)
  define a where "a = (ucast (push_bit r (0xFF :: u32)) :: u8)"
  have a: "bit a j \<longleftrightarrow> r \<le> j \<and> j < 8" for j by (simp add: a_def set8_a)
  have ff: "bit (255 :: int) j" if "j < 8" for j
  proof -
    have m: "(255 :: int) = mask 8" by (simp add: mask_eq_exp_minus_1)
    show ?thesis unfolding m using that by (simp add: bit_simps)
  qed
  let ?b = "bits[p := bits ! p OR a, p + 1 := 0xFF, p + 2 := NOT a]"
  have "set16 bits pc = Ok ?b"
    using assms(2) by (simp add: set16_def upd_byte_def Let_def a_def pc)
  moreover have "extends bits 16 pc ?b"
  proof (rule extends_bytes)
    fix i j :: nat assume i: "i < length bits" and j: "j < 8"
    consider "i = p" | "i = p + 1" | "i = p + 2" | "i < p" | "p + 2 < i" by linarith
    then show "bit (?b ! i) j \<longleftrightarrow> bit (bits ! i) j \<or> pc \<le> 8 * i + j \<and> 8 * i + j < pc + 16"
    proof cases
      case 3
      have "\<not> bit (bits ! i) j"
        by (rule clear_from_byte [OF assms(1) i _ j]) (use 3 pc in linarith)
      then show ?thesis using 3 i j pc by (auto simp: a bit_not_iff)
    qed (use i j pc assms(2) in \<open>auto simp: a ff bit_or_iff\<close>)
  qed simp
  ultimately show ?thesis by (rule that)
qed

lemma set_n_extends:
  assumes "clear_from bits pc" and room: "(pc + n) div 8 < length bits" and n: "n < 8"
  obtains bits' where "set_n bits (BITS_MASK ! n) pc = Ok bits'" "extends bits n pc bits'"
proof -
  obtain p r where pc: "pc = 8 * p + r" "r < 8" "pc div 8 = p" "pc mod 8 = r" by (rule div_mod_8)
  define a where "a = push_bit r (mask n :: u16)"
  define b where "b = (ucast (drop_bit 8 a) :: u8)"
  have a: "bit (ucast a :: u8) j \<longleftrightarrow> r \<le> j \<and> j < r + n \<and> j < 8" for j
    using n pc(2) by (auto simp: a_def bit_simps)
  have b: "bit b j \<longleftrightarrow> j < 8 \<and> 8 + j < r + n" for j
    using n pc(2) by (auto simp: b_def a_def bit_simps)
  have pb: "p < length bits" using room pc by linarith
  have b1: "p + 1 < length bits" if nz: "b \<noteq> 0"
  proof -
    obtain j where "bit b j" using nz by (metis bit_eqI bit_0_eq bot_apply bot_bool_def)
    then have "8 \<le> r + n" by (simp add: b)
    then show ?thesis using room pc by linarith
  qed
  let ?c = "bits[p := bits ! p OR ucast a]"
  let ?b = "if b \<noteq> 0 then ?c[p + 1 := b] else ?c"
  have "set_n bits (BITS_MASK ! n) pc = Ok ?b"
    using pb b1 by (simp add: set_n_def upd_byte_def Let_def a_def [symmetric] b_def [symmetric]
        pc BITS_MASK_mask [OF n])
  moreover have "extends bits n pc ?b"
  proof (rule extends_bytes)
    fix i j :: nat assume i: "i < length bits" and j: "j < 8"
    consider "i = p" | "i = p + 1" | "i < p" | "p + 1 < i" by linarith
    then show "bit (?b ! i) j \<longleftrightarrow> bit (bits ! i) j \<or> pc \<le> 8 * i + j \<and> 8 * i + j < pc + n"
    proof cases
      case 2
      have nb: "\<not> bit (bits ! i) j"
        by (rule clear_from_byte [OF assms(1) i _ j]) (use 2 pc in linarith)
      show ?thesis
      proof (cases "b = 0")
        case True
        then have "\<not> 8 + j < r + n" using b [of j] j by simp
        then show ?thesis using nb True 2 i pc by simp
      next
        case False
        then show ?thesis using nb 2 i j pc by (auto simp: b)
      qed
    qed (use i j pc pb n in \<open>auto simp: a bit_or_iff\<close>)
  qed simp
  ultimately show ?thesis by (rule that)
qed

lemma extends_clear: "extends bits n pc bits' \<Longrightarrow> clear_from bits pc \<Longrightarrow> clear_from bits' (pc + n)"
  by (auto simp: extends_def clear_from_def)

lemma extends_trans:
  "extends bits m pc bits' \<Longrightarrow> extends bits' n (pc + m) bits'' \<Longrightarrow> extends bits (m + n) pc bits''"
  by (auto simp: extends_def)

lemma mark_bits_extends:
  "clear_from bits pc \<Longrightarrow> (pc + n) div 8 < length bits \<Longrightarrow>
   \<exists>bits'. mark_bits bits n pc = Ok (bits', pc + n) \<and> extends bits n pc bits'"
proof (induction bits n pc rule: mark_bits.induct)
  case (1 bits n pc)
  have room: "16 \<le> n \<Longrightarrow> pc div 8 + 2 < length bits" "8 \<le> n \<Longrightarrow> pc div 8 + 1 < length bits"
    using 1(4) by linarith+
  consider "16 \<le> n" | "8 \<le> n" "n < 16" | "1 \<le> n" "n < 8" | "n = 0" by linarith
  then show ?case
  proof cases
    case 1: 1
    obtain b where b: "set16 bits pc = Ok b" "extends bits 16 pc b"
      using set16_extends [OF \<open>clear_from bits pc\<close> room(1) [OF 1]] by blast
    then have "length b = length bits" by (simp add: extends_def)
    then obtain b' where "mark_bits b (n - 16) (pc + 16) = Ok (b', pc + 16 + (n - 16))"
        "extends b (n - 16) (pc + 16) b'"
      using "1.IH"(1) [OF 1, of b] extends_clear [OF b(2) "1.prems"(1)] "1.prems"(2) 1 by auto
    then show ?thesis
      using b 1 extends_trans [OF b(2)] by (subst mark_bits.simps) fastforce
  next
    case 2
    obtain b where b: "set8 bits pc = Ok b" "extends bits 8 pc b"
      using set8_extends [OF \<open>clear_from bits pc\<close> room(2) [OF 2(1)]] by blast
    then have "length b = length bits" by (simp add: extends_def)
    then obtain b' where "mark_bits b (n - 8) (pc + 8) = Ok (b', pc + 8 + (n - 8))"
        "extends b (n - 8) (pc + 8) b'"
      using "1.IH"(2) [of b] extends_clear [OF b(2) "1.prems"(1)] "1.prems"(2) 2 by auto
    then show ?thesis
      using b 2 extends_trans [OF b(2)] by (subst mark_bits.simps) fastforce
  next
    case 3
    then obtain b where "set_n bits (BITS_MASK ! n) pc = Ok b" "extends bits n pc b"
      using set_n_extends [OF \<open>clear_from bits pc\<close>, of n] "1.prems"(2) by auto
    then show ?thesis using 3 by (subst mark_bits.simps) simp
  next
    case 4
    then show ?thesis by (subst mark_bits.simps) (auto simp: extends_def)
  qed
qed

section \<open>The bitmap against the instructions\<close>

text \<open>
  The size of the immediate of the instruction at \<open>pc\<close>, by its definition (EIP-3670, EIP-4200,
  EIP-4750), cut at the end of the code.
\<close>

definition immediate_size :: "bytes \<Rightarrow> nat \<Rightarrow> nat" where
  "immediate_size code pc =
    (let op = code ! pc in
     if OP_PUSH1 \<le> op \<and> op \<le> OP_PUSH32 then unat op - 0x5F
     else if op = OP_RJUMP \<or> op = OP_RJUMPI \<or> op = OP_CALLF then 2
     else if op = OP_RJUMPV \<and> pc + 1 < length code then 1 + 2 * unat (code ! (pc + 1))
     else 0)"

inductive instr_start :: "bytes \<Rightarrow> nat \<Rightarrow> bool" for code where
  instr_first: "instr_start code 0"
| instr_next: "instr_start code pc \<Longrightarrow> pc < length code
    \<Longrightarrow> instr_start code (pc + 1 + immediate_size code pc)"

text \<open>The jump tables of the code: only the bytes where an instruction starts count, not those of immediates.\<close>

definition small_jump_tables :: "bytes \<Rightarrow> bool" where
  "small_jump_tables code \<longleftrightarrow>
    (\<forall>pc < length code. instr_start code pc \<longrightarrow> code ! pc = OP_RJUMPV \<longrightarrow> unat (get_or_default code (pc + 1)) < 128)"

lemma word_range_unat: "(a :: u8) \<le> op \<Longrightarrow> unat (op - a + 1) = (unat op - unat a + 1) mod 256"
  by (simp add: unat_word_ariths unat_sub)

lemma immediate_bits_size:
  assumes "small_jump_tables code" and "pc < length code" and "instr_start code pc"
  shows "(immediate_bits code (get_or_default code pc) (pc + 1) = None
      \<and> immediate_size code pc = 0 \<and> pc + 1 = length code)
    \<or> (\<exists>n. immediate_bits code (get_or_default code pc) (pc + 1) = Some n
        \<and> (unat n = immediate_size code pc \<and> pc + 1 + unat n \<le> length code + 32
           \<or> length code = pc + 1 + unat n \<and> length code \<le> pc + 1 + immediate_size code pc))"
proof -
  define op where "op = code ! pc"
  have op: "get_or_default code pc = op" using assms(2) by (simp add: get_or_default_def op_def)
  consider "OP_PUSH1 \<le> op" "op \<le> OP_PUSH32" | "op = OP_RJUMP \<or> op = OP_RJUMPI \<or> op = OP_CALLF"
    | "op = OP_RJUMPV" | "\<not> (OP_PUSH1 \<le> op \<and> op \<le> OP_PUSH32)"
      "\<not> (op = OP_RJUMP \<or> op = OP_RJUMPI \<or> op = OP_CALLF)" "op \<noteq> OP_RJUMPV" by blast
  then show ?thesis
  proof cases
    case 1
    then have "unat op \<le> 0x7F" "0x60 \<le> unat op" by (simp_all add: word_le_nat_alt)
    then have "unat (op - OP_PUSH1 + 1) = unat op - 0x5F"
      using word_range_unat [OF 1(1)] by simp
    then show ?thesis
      using 1 \<open>unat op \<le> 0x7F\<close> assms(2)
      by (simp add: immediate_bits_def immediate_size_def op op_def [symmetric]) linarith
  next
    case 2
    then show ?thesis using assms(2) by (auto simp: immediate_bits_def immediate_size_def op op_def [symmetric])
  next
    case 3
    define c where "c = get_or_default code (pc + 1)"
    have c: "unat c < 128" using assms 3 by (simp add: small_jump_tables_def op_def c_def)
    then have n: "unat (c * 2 + 1) = 1 + 2 * unat c"
      by (simp add: unat_word_ariths)
    show ?thesis
    proof (cases "length code \<le> pc + 1")
      case True
      then show ?thesis
        using 3 assms(2) by (simp add: immediate_bits_def immediate_size_def op op_def [symmetric])
    next
      case False
      have cc: "code ! Suc pc = c" "get_or_default code (Suc pc) = c"
        using False by (simp_all add: c_def get_or_default_def)
      have u: "unat (of_nat (length code - (pc + 1)) :: u8) = length code - (pc + 1)"
        if "length code < pc + 1 + unat (c * 2 + 1)"
        using that c n by (simp add: unat_word_of_nat_u8 del: of_nat_diff)
      show ?thesis
      proof (cases "length code < pc + 1 + unat (c * 2 + 1)")
        case True
        then have "length code = pc + 1 + (length code - (pc + 1))"
            "length code \<le> pc + 1 + (1 + 2 * unat c)"
          using False n by simp_all
        with True show ?thesis using 3 False u n cc
          by (simp add: immediate_bits_def immediate_size_def op op_def [symmetric]
              Let_def del: of_nat_diff)
      next
        case F: False
        then show ?thesis using 3 False n cc
          by (simp add: immediate_bits_def immediate_size_def op op_def [symmetric] Let_def)
      qed
    qed
  next
    case 4
    then show ?thesis using assms(2) by (auto simp: immediate_bits_def immediate_size_def op op_def [symmetric])
  qed
qed

lemma instr_start_apart:
  "instr_start code a \<Longrightarrow> instr_start code b \<Longrightarrow> a < b \<Longrightarrow> a + 1 + immediate_size code a \<le> b"
proof (induction "a + b" arbitrary: a b rule: less_induct)
  case less
  from less.prems(2) show ?case
  proof cases
    case instr_first
    then show ?thesis using less.prems(3) by simp
  next
    case (instr_next b')
    then consider "b' < a" | "b' = a" | "a < b'" by linarith
    then show ?thesis
    proof cases
      case 1
      then show ?thesis
        using less.hyps [of b' a] less.prems instr_next by simp
    next
      case 3
      then show ?thesis
        using less.hyps [of a b'] less.prems instr_next by simp
    qed (use instr_next in simp)
  qed
qed

definition marks_immediates :: "bytes \<Rightarrow> bitvec \<Rightarrow> nat \<Rightarrow> bool" where
  "marks_immediates code bits pc \<longleftrightarrow>
    (\<forall>q < min pc (length code). marked bits q \<longleftrightarrow> \<not> instr_start code q)"

lemma marks_immediates_step:
  assumes "marks_immediates code bits pc" and "instr_start code pc" and "clear_from bits pc"
    and "extends bits n (pc + 1) bits'" and "length code \<le> 8 * length bits"
    and "n \<le> immediate_size code pc"
  shows "marks_immediates code bits' (pc + 1 + n)"
  unfolding marks_immediates_def
proof (intro allI impI)
  fix q assume q: "q < min (pc + 1 + n) (length code)"
  then have m: "marked bits' q \<longleftrightarrow> marked bits q \<or> pc < q"
    using assms(4,5) by (auto simp: extends_def)
  consider "q < pc" | "q = pc" | "pc < q" by linarith
  then show "marked bits' q \<longleftrightarrow> \<not> instr_start code q"
  proof cases
    case 1
    then show ?thesis using m q assms(1) by (simp add: marks_immediates_def)
  next
    case 2
    then show ?thesis using m q assms(2,3,5) by (simp add: clear_from_def)
  next
    case 3
    then show ?thesis using m q assms(6) instr_start_apart [OF assms(2) _ 3] by auto
  qed
qed

lemma bitmap_internal:
  assumes "small_jump_tables code"
  shows "clear_from bits pc \<Longrightarrow> instr_start code pc \<Longrightarrow> marks_immediates code bits pc
    \<Longrightarrow> length bits = length code div 8 + 5
    \<Longrightarrow> \<exists>bits'. eof_code_bitmap_internal code bits pc = Ok bits' \<and> length bits' = length bits
      \<and> marks_immediates code bits' (length code)"
  using assms
proof (induction code bits pc rule: eof_code_bitmap_internal.induct)
  case (1 code bits pc)
  show ?case
  proof (cases "pc < length code")
    case False
    then show ?thesis using "1.prems"
      by (subst eof_code_bitmap_internal.simps) (auto simp: marks_immediates_def)
  next
    case pc: True
    have len: "length code \<le> 8 * length bits" using "1.prems"(4) by linarith
    have clear: "clear_from bits (pc + 1)" using "1.prems"(1) by (auto simp: clear_from_def)
    from immediate_bits_size [OF "1.prems"(5) pc "1.prems"(2)] show ?thesis
    proof (elim disjE conjE exE)
      assume none: "immediate_bits code (get_or_default code pc) (pc + 1) = None"
        and z: "immediate_size code pc = 0" "pc + 1 = length code"
      have "marks_immediates code bits (pc + 1 + 0)"
        by (rule marks_immediates_step [OF "1.prems"(3,2,1)]) (use len in \<open>auto simp: extends_def\<close>)
      then show ?thesis
        using none pc z by (subst eof_code_bitmap_internal.simps) simp
    next
      fix n assume n: "immediate_bits code (get_or_default code pc) (pc + 1) = Some n"
        and size: "unat n = immediate_size code pc" "pc + 1 + unat n \<le> length code + 32"
      have "(pc + 1 + unat n) div 8 < length bits" using size(2) "1.prems"(4) by linarith
      then obtain b where b: "mark_bits bits (unat n) (pc + 1) = Ok (b, pc + 1 + unat n)"
          "extends bits (unat n) (pc + 1) b"
        using mark_bits_extends [of bits "pc + 1" "unat n"] clear by auto
      have "instr_start code (pc + 1 + unat n)"
        using instr_next [OF "1.prems"(2) pc] size by simp
      then obtain b' where "eof_code_bitmap_internal code b (pc + 1 + unat n) = Ok b'"
          "length b' = length b" "marks_immediates code b' (length code)"
        using "1.IH" [OF pc n b(1) refl] extends_clear [OF b(2) clear] size "1.prems"
          marks_immediates_step [OF "1.prems"(3,2,1) b(2) len] b(2) by (auto simp: extends_def)
      then show ?thesis
        using n pc b by (subst eof_code_bitmap_internal.simps) (simp add: extends_def)
    next
      fix n assume n: "immediate_bits code (get_or_default code pc) (pc + 1) = Some n"
        and size: "length code = pc + 1 + unat n" "length code \<le> pc + 1 + immediate_size code pc"
      have "(pc + 1 + unat n) div 8 < length bits" using size(1) "1.prems"(4) by linarith
      then obtain b where b: "mark_bits bits (unat n) (pc + 1) = Ok (b, pc + 1 + unat n)"
          "extends bits (unat n) (pc + 1) b"
        using mark_bits_extends [of bits "pc + 1" "unat n"] clear by auto
      have "marks_immediates code b (length code)"
        using marks_immediates_step [OF "1.prems"(3,2,1) b(2) len] size by simp
      then show ?thesis
        using n pc b size(1)
        by (subst eof_code_bitmap_internal.simps)
           (simp add: extends_def eof_code_bitmap_internal.simps)
    qed
  qed
qed

lemma bitvec_new_clear: "clear_from (bitvec_new n) pc"
  by (simp add: clear_from_def marked_def bitvec_new_def less_mult_imp_div_less mult.commute)

lemma length_bitvec_new [simp]: "length (bitvec_new n) = n"
  by (simp add: bitvec_new_def)

section \<open>Properties\<close>

lemma eof_code_bitmap_marks:
  assumes "small_jump_tables code"
  shows "\<exists>bits. eof_code_bitmap code = Ok bits
    \<and> (\<forall>q < length code. is_code_segment bits q = Ok (instr_start code q))"
proof -
  let ?b = "bitvec_new (length code div 8 + 1 + 4)"
  obtain bits where bits: "eof_code_bitmap_internal code ?b 0 = Ok bits"
      "length bits = length code div 8 + 5" "marks_immediates code bits (length code)"
    using bitmap_internal [OF assms, of ?b 0] instr_first [of code] bitvec_new_clear
    by (auto simp: marks_immediates_def)
  have "is_code_segment bits q = Ok (instr_start code q)" if "q < length code" for q
  proof -
    have "q < 8 * length bits" using that bits(2) by linarith
    then show ?thesis
      using is_code_segment_marked [of q bits] bits(3) that by (simp add: marks_immediates_def)
  qed
  then show ?thesis using bits(1) by (auto simp: eof_code_bitmap_def)
qed

text \<open>C18: the bit map of a code section marks exactly its immediate bytes: when no jump table of an instruction has 128 or
  more entries (where the code's arithmetic in eight bits wraps), the map is built without a panic and a position of the
  code is a code segment in it exactly when an instruction starts there.  Bytes of immediates that look like jump tables
  do not matter.\<close>

theorem eof_code_bitmap_correct:
  assumes "\<forall>pc < length code. instr_start code pc \<longrightarrow> code ! pc = OP_RJUMPV \<longrightarrow> unat (get_or_default code (pc + 1)) < 128"
  shows "\<exists>bits. eof_code_bitmap code = Ok bits
    \<and> (\<forall>q < length code. is_code_segment bits q = Ok (instr_start code q))"
  by (rule eof_code_bitmap_marks) (use assms in \<open>simp add: small_jump_tables_def\<close>)

text \<open>The immediate of the push looks like a jump table of 200 entries.\<close>

theorem eof_code_bitmap_correct_witness:
  "\<exists>bits. eof_code_bitmap [0x60, 0x5E, 200] = Ok bits
    \<and> (\<forall>q < 3. is_code_segment bits q = Ok (instr_start [0x60, 0x5E, 200] q))"
proof -
  let ?code = "[0x60, 0x5E, 200] :: bytes"
  have "\<not> instr_start ?code 1"
    using instr_start_apart [OF instr_first, of ?code 1] by (auto simp: immediate_size_def)
  then have "\<forall>pc < length ?code. instr_start ?code pc \<longrightarrow> ?code ! pc = OP_RJUMPV \<longrightarrow> unat (get_or_default ?code (pc + 1)) < 128"
    by (auto simp: less_Suc_eq)
  moreover have "(3::nat) = length ?code" by simp
  ultimately show ?thesis using eof_code_bitmap_correct by metis
qed

text \<open>Whatever the code, the bitmap is built: no write of the loop is out of range.\<close>

lemma immediate_bits_room:
  assumes "immediate_bits code op (pc + 1) = Some n" and "pc < length code"
  shows "pc + 1 + unat n \<le> length code + 32"
proof -
  have small: "unat (k - OP_PUSH1 + 1) \<le> 32" if "OP_PUSH1 \<le> k" "k \<le> OP_PUSH32" for k :: u8
  proof -
    have "unat k \<le> 0x7F" "0x60 \<le> unat k" using that by (simp_all add: word_le_nat_alt)
    then show ?thesis using word_range_unat [OF that(1)] by simp
  qed
  have "unat (of_nat k :: u8) \<le> k" for k by (simp add: unat_word_of_nat_u8)
  then have "unat (of_nat (length code - (pc + 1)) :: u8) \<le> length code - (pc + 1)" .
  then show ?thesis
    using assms small [of op]
    by (auto simp: immediate_bits_def Let_def split: if_splits simp del: of_nat_diff)
qed

lemma bitmap_internal_total:
  "clear_from bits pc \<Longrightarrow> length bits = length code div 8 + 5
    \<Longrightarrow> \<exists>bits'. eof_code_bitmap_internal code bits pc = Ok bits' \<and> length bits' = length bits"
proof (induction code bits pc rule: eof_code_bitmap_internal.induct)
  case (1 code bits pc)
  show ?case
  proof (cases "pc < length code \<and> immediate_bits code (get_or_default code pc) (pc + 1) \<noteq> None")
    case False
    then show ?thesis by (subst eof_code_bitmap_internal.simps) auto
  next
    case True
    then obtain n where n: "immediate_bits code (get_or_default code pc) (pc + 1) = Some n"
      and pc: "pc < length code" by auto
    have clear: "clear_from bits (pc + 1)" using "1.prems"(1) by (auto simp: clear_from_def)
    have "(pc + 1 + unat n) div 8 < length bits"
      using immediate_bits_room [OF n pc] "1.prems"(2) by linarith
    then obtain b where b: "mark_bits bits (unat n) (pc + 1) = Ok (b, pc + 1 + unat n)"
        "extends bits (unat n) (pc + 1) b"
      using mark_bits_extends [of bits "pc + 1" "unat n"] clear by auto
    then show ?thesis
      using "1.IH" [OF pc n b(1) refl] extends_clear [OF b(2) clear] n pc "1.prems"
      by (subst eof_code_bitmap_internal.simps) (simp add: extends_def)
  qed
qed

lemma eof_code_bitmap_total:
  "\<exists>bits. eof_code_bitmap code = Ok bits \<and> length bits = length code div 8 + 5"
  using bitmap_internal_total [OF bitvec_new_clear, of "length code div 8 + 1 + 4" code 0]
  by (simp add: eof_code_bitmap_def add.commute)

end
