(* ===== verification/Validate.thy ===== *)
theory Validate
  imports Analysis Eof
begin

text \<open>
  Validation of the code sections of an EOF container (\<open>program/src/evm/validate.rs\<close>): a scan over
  the instructions of a section, then an abstract execution over (position, stack height) pairs driven
  by a worklist.  \<open>isize\<close> values are \<open>int\<close>; a position computed from a negative offset wraps.
\<close>

definition CONTAINER_STACK_LIMIT :: nat where
  "CONTAINER_STACK_LIMIT = 1024"

definition LOC_UNVISITED :: int where
  "LOC_UNVISITED = - 1"

definition DEPRECATED_OPCODES :: "u8 list" where
  "DEPRECATED_OPCODES = [OP_CALLCODE, OP_SELFDESTRUCT, OP_JUMP, OP_JUMPI, OP_PC]"

section \<open>The scan over the instructions\<close>

definition check_dest :: "bytes \<Rightarrow> bitvec option \<Rightarrow> usize \<Rightarrow> usize \<Rightarrow> usize \<Rightarrow> bitvec result" where
  "check_dest code analysis_option imm from len =
    (if length code < imm + 2 then Err (EofError UnexpectedEndOfFile)
     else
       rbind (case analysis_option of Some a \<Rightarrow> Ok a | None \<Rightarrow> eof_code_bitmap code) (\<lambda>analysis.
       let offset = get_i16_or_default code imm;
           dest = usize_of_int (int from + offset) in
       if len \<le> dest then Err (ValidationError (ValidationInvalidJumpDest offset dest imm))
       else rbind (is_code_segment analysis dest) (\<lambda>c.
         if \<not> c then Err (ValidationError (ValidationInvalidJumpDest offset dest imm))
         else Ok analysis)))"

text \<open>The loop over the entries \<open>j\<close> of a jump table\<close>

fun check_table :: "bytes \<Rightarrow> usize \<Rightarrow> nat \<Rightarrow> nat list \<Rightarrow> bitvec option \<Rightarrow> bitvec option result" where
  "check_table code i count [] analysis = Ok analysis"
| "check_table code i count (j # js) analysis =
    rbind (check_dest code analysis (i + 2 + j * 2) (i + 2 * count + 2) (length code))
      (\<lambda>a. check_table code i count js (Some a))"

record scan =
  s_i :: usize
  s_count :: nat
  s_analysis :: "bitvec option"
  s_opcode :: u8

text \<open>One turn of the loop: the four groups of instructions with an immediate exclude each other.\<close>

definition scan_step :: "bytes \<Rightarrow> function_metadata list \<Rightarrow> scan \<Rightarrow> scan result" where
  "scan_step code metadata s =
    (let i = s_i s; opcode = get_or_default code i;
         s = s\<lparr>s_count := s_count s + 1, s_opcode := opcode\<rparr> in
     if \<not> is_opcode_valid opcode \<and> opcode \<in> set DEPRECATED_OPCODES
     then Err (ValidationError (ValidationUndefinedInstruction opcode i))
     else if OP_PUSH0 < opcode \<and> opcode \<le> OP_PUSH32 then
       (let sz = unat (opcode - OP_PUSH0) in
        if length code \<le> i + sz then Err (ValidationError (ValidationTruncatedImmediate opcode i))
        else Ok (s\<lparr>s_i := i + sz + 1\<rparr>))
     else if opcode = OP_RJUMP \<or> opcode = OP_RJUMPI then
       (if length code \<le> i + 2 then Err (ValidationError (ValidationTruncatedImmediate opcode i))
        else rbind (check_dest code (s_analysis s) (i + 1) (i + 3) (length code)) (\<lambda>a.
          Ok (s\<lparr>s_analysis := Some a, s_i := i + 2 + 1\<rparr>)))
     else if opcode = OP_RJUMPV then
       (if length code \<le> i + 1 then Err (ValidationError (ValidationTruncatedImmediate opcode i))
        else
          let count = unat (get_or_default code (i + 1)) in
          if count = 0 then Err (ValidationError (ValidationInvalidBranchCount i))
          else if length code \<le> i + count
          then Err (ValidationError (ValidationTruncatedImmediate opcode i))
          else rbind (check_table code i count [0..<count] (s_analysis s)) (\<lambda>a.
            Ok (s\<lparr>s_count := count, s_analysis := a, s_i := i + (1 + 2 * count) + 1\<rparr>)))
     else if opcode = OP_CALLF then
       (if length code \<le> i + 2 then Err (ValidationError (ValidationTruncatedImmediate opcode i))
        else
          let arg = get_u16_or_default code (i + 1) in
          if length metadata \<le> unat arg
          then Err (ValidationError (ValidationInvalidSectionArgument arg (length metadata) i))
          else Ok (s\<lparr>s_i := i + 2 + 1\<rparr>))
     else Ok (s\<lparr>s_i := i + 1\<rparr>))"

lemma scan_step_i: "scan_step code metadata s = Ok s' \<Longrightarrow> s_i s < s_i s'"
  by (auto simp: scan_step_def Let_def rbind_Ok_iff split: if_splits)

function (sequential) scan_code :: "bytes \<Rightarrow> function_metadata list \<Rightarrow> scan \<Rightarrow> scan result" where
  "scan_code code metadata s =
    (if s_i s < length code
     then rbind (scan_step code metadata s) (\<lambda>s. scan_code code metadata s)
     else Ok s)"
  by pat_completeness auto
termination
  by (relation "measure (\<lambda>(code, metadata, s). length code - s_i s)") (auto dest!: scan_step_i)

declare scan_code.simps [simp del]

section \<open>The control flow\<close>

record flow =
  heights :: "int list"
  height_update :: nat
  worklist :: "(usize \<times> usize) list"
  max_height :: usize

text \<open>
  The body of the inner loop behind the test for a visited position: the checks of the instruction at
  \<open>pos\<close>, and what the \<open>match\<close> does - \<open>None\<close> for the branches that leave the loop, otherwise the next
  position and height and the items that are pushed on the worklist, the last of them first.
\<close>

definition cf_instr :: "bytes \<Rightarrow> function_metadata list \<Rightarrow> function_metadata \<Rightarrow> usize \<Rightarrow> usize
    \<Rightarrow> ((usize \<times> usize) list \<times> usize \<times> usize) option result" where
  "cf_instr code metadata current pos height =
    (let op = code ! pos in
     rbind (assert_opcode_valid op) (\<lambda>_.
     rbind (unwrap (OPCODE_INFO op)) (\<lambda>info.
     if height < min_stack info then Err (EvmError StackUnderflow)
     else if max_stack info < height then Err (EvmError StackOverflow)
     else
       let height = height + CONTAINER_STACK_LIMIT - max_stack info in
       if op = OP_CALLF then
         (let arg = unat (get_u16_or_default code (pos + 1)) in
          if length metadata \<le> arg then Err (ValidationError (FunctionMetadataNotFound arg))
          else
            let input = unat (inputs (metadata ! arg)); out = unat (outputs (metadata ! arg)) in
            if height < input then Err (EvmError StackUnderflow)
            else if CONTAINER_STACK_LIMIT < out + height then Err (EvmError StackOverflow)
            else Ok (Some ([], pos + 3, height - input + out)))
       else if op = OP_RETF then
         (if unat (outputs current) \<noteq> height
          then Err (ValidationError (ValidationInvalidOutputs (outputs current) height pos))
          else Ok None)
       else if op = OP_RJUMP then
         Ok (Some ([], usize_of_int (int pos + 3 + get_i16_or_default code (pos + 1)), height))
       else if op = OP_RJUMPI then
         Ok (Some ([(usize_of_int (int pos + 3 + get_i16_or_default code (pos + 1)), height)],
           pos + 3, height))
       else if op = OP_RJUMPV then
         (let count = unat (get_or_default code (pos + 1)) in
          Ok (Some (rev (map (\<lambda>i. (usize_of_int (int pos + 2 + 2 * int count
                + get_i16_or_default code (pos + 2 + 2 * i)), height)) [0..<count]),
            pos + (2 + 2 * count), height)))
       else if OP_PUSH1 \<le> op \<and> op \<le> OP_PUSH32 then
         Ok (Some ([], pos + (1 + unat (op - OP_PUSH0)), height))
       else if terminal info then Ok None
       else Ok (Some ([], pos + 1, height)))))"

definition unvisited :: "flow \<Rightarrow> nat" where
  "unvisited f = length (filter (\<lambda>h. h = LOC_UNVISITED) (heights f))"

definition visit :: "usize \<Rightarrow> usize \<Rightarrow> flow \<Rightarrow> flow" where
  "visit pos height f =
     f\<lparr>heights := (heights f)[pos := int height], height_update := height_update f + 1\<rparr>"

lemma unvisited_visit:
  assumes "pos < length (heights f)" and "heights f ! pos = LOC_UNVISITED"
  shows "unvisited (visit pos height f) < unvisited f"
proof -
  define a z where "a = take pos (heights f)" and "z = drop (Suc pos) (heights f)"
  have "heights f = a @ LOC_UNVISITED # z"
    using id_take_nth_drop [OF assms(1)] assms(2) by (simp add: a_def z_def)
  moreover have "(heights f)[pos := int height] = a @ int height # z"
    using assms(1) by (simp add: upd_conv_take_nth_drop a_def z_def)
  ultimately show ?thesis
    by (simp add: unvisited_def visit_def LOC_UNVISITED_def)
qed

text \<open>The inner loop; the result is the flow state with the pushed items and the maximum height.\<close>

function (sequential) cf_path :: "bytes \<Rightarrow> function_metadata list \<Rightarrow> function_metadata \<Rightarrow> usize \<Rightarrow> usize
    \<Rightarrow> flow \<Rightarrow> flow result" where
  "cf_path code metadata current pos height f =
    (if pos < length code \<and> pos < length (heights f) then
       let want = heights f ! pos in
       if want \<noteq> LOC_UNVISITED then
         (if nat want \<noteq> height
          then Err (ValidationError (ValidationConflictingStack height (nat want)))
          else Ok f)
       else
         rbind (cf_instr code metadata current pos height) (\<lambda>r. case r of
           None \<Rightarrow> Ok (visit pos height f)
         | Some (items, pos', height') \<Rightarrow>
             cf_path code metadata current pos' height'
               ((visit pos height f)\<lparr>worklist := items @ worklist f, max_height := max (max_height f) height'\<rparr>))
     else if pos < length code then Panic
     else Ok f)"
  by pat_completeness auto
termination
  by (relation "measure (\<lambda>(code, metadata, current, pos, height, f). unvisited f)")
     (auto dest: unvisited_visit simp: unvisited_def)

declare cf_path.simps [simp del]

lemma cf_path_progress:
  "cf_path code metadata current pos height f = Ok f' \<Longrightarrow>
     f' = f \<or> unvisited f' < unvisited f"
proof (induction code metadata current pos height f arbitrary: f' rule: cf_path.induct)
  case (1 code metadata current pos height f)
  show ?case
  proof (cases "pos < length code \<and> pos < length (heights f) \<and> heights f ! pos = LOC_UNVISITED")
    case False
    then show ?thesis using "1.prems" by (subst (asm) cf_path.simps) (auto simp: Let_def split: if_splits)
  next
    case True
    then have v: "unvisited (visit pos height f) < unvisited f" by (simp add: unvisited_visit)
    from True "1.prems" obtain r where r: "cf_instr code metadata current pos height = Ok r"
      by (subst (asm) cf_path.simps) (auto simp: rbind_Ok_iff)
    show ?thesis
    proof (cases r)
      case None
      then show ?thesis using r True "1.prems" v by (subst (asm) cf_path.simps) auto
    next
      case (Some q)
      obtain items pos' height' where q: "q = (items, pos', height')" by (cases q)
      let ?g = "(visit pos height f)\<lparr>worklist := items @ worklist f, max_height := max (max_height f) height'\<rparr>"
      have "cf_path code metadata current pos' height' ?g = Ok f'"
        using r True "1.prems" Some q by (subst (asm) cf_path.simps) simp
      moreover have "unvisited ?g = unvisited (visit pos height f)" by (simp add: unvisited_def)
      ultimately show ?thesis
        using "1.IH" [OF _ refl _ r Some q [symmetric] refl, of f'] True v by fastforce
    qed
  qed
qed

text \<open>The outer loop: the worklist is a stack.\<close>

function (sequential) cf_loop :: "bytes \<Rightarrow> function_metadata list \<Rightarrow> function_metadata \<Rightarrow> flow \<Rightarrow> flow result" where
  "cf_loop code metadata current f =
    (case worklist f of
       [] \<Rightarrow> Ok f
     | (pos, height) # rest \<Rightarrow>
         rbind (cf_path code metadata current pos height (f\<lparr>worklist := rest\<rparr>))
           (\<lambda>f. cf_loop code metadata current f))"
  by pat_completeness auto
termination
  by (relation "measures [\<lambda>(code, metadata, current, f). unvisited f,
        \<lambda>(code, metadata, current, f). length (worklist f)]")
     (auto dest!: cf_path_progress simp: unvisited_def)

declare cf_loop.simps [simp del]

definition validate_control_flow :: "bytes \<Rightarrow> nat \<Rightarrow> function_metadata list \<Rightarrow> nat result" where
  "validate_control_flow code section metadata =
    (if length metadata \<le> section then Err (ValidationError (FunctionMetadataNotFound section))
     else
       let current = metadata ! section in
       rbind (cf_loop code metadata current
           \<lparr>heights = replicate (length code) LOC_UNVISITED, height_update = 0,
            worklist = [(0, unat (inputs current))], max_height = unat (inputs current)\<rparr>) (\<lambda>f.
       if max_height f \<noteq> unat (max_stack_height current)
       then Err (ValidationError (ValidationInvalidMaxStackHeight section (max_height f)
              (max_stack_height current)))
       else Ok (height_update f)))"

definition validate_code :: "bytes \<Rightarrow> nat \<Rightarrow> function_metadata list \<Rightarrow> unit result" where
  "validate_code code section metadata =
    rbind (scan_code code metadata \<lparr>s_i = 0, s_count = 0, s_analysis = None, s_opcode = 0\<rparr>) (\<lambda>s.
    if \<not> is_terminal_opcode (s_opcode s)
    then Err (ValidationError (ValidationInvalidCodeTermination (s_opcode s) (s_i s)))
    else rbind (validate_control_flow code section metadata) (\<lambda>path.
      if path \<noteq> s_count s then Err (ValidationError ValidationUnreachableCode) else Ok ()))"

fun validate_sections :: "container \<Rightarrow> nat \<Rightarrow> bytes list \<Rightarrow> unit result" where
  "validate_sections c section [] = Ok ()"
| "validate_sections c section (code # codes) =
    rbind (validate_code code section (ctypes c)) (\<lambda>_. validate_sections c (Suc section) codes)"

definition validate_container :: "container \<Rightarrow> unit result" where
  "validate_container c = validate_sections c 0 (map buf_bytes (ccode c))"

section \<open>What a validated section guarantees\<close>

lemma OPCODE_INFO_CALLF: "OPCODE_INFO OP_CALLF = Some \<lparr>min_stack = 0, max_stack = 1024, terminal = False\<rparr>"
  and OPCODE_INFO_RETF: "OPCODE_INFO OP_RETF = Some \<lparr>min_stack = 0, max_stack = 1024, terminal = True\<rparr>"
  by (simp_all add: OPCODE_INFO_def opcode_info_entries_def opcode_info_defs upt_rec max_stack_of_def
      STACK_LIMIT_def)

text \<open>
  The operations of the code as a step relation on (position, stack height), by the description of
  each instruction: \<open>height_after\<close> is the height behind an instruction that takes \<open>min_stack\<close> items,
  and \<open>jump_target\<close> the destination of the relative jump whose offset is at \<open>imm\<close>.
\<close>

definition height_after :: "opcode_info \<Rightarrow> nat \<Rightarrow> nat" where
  "height_after info h = h + CONTAINER_STACK_LIMIT - max_stack info"

definition jump_target :: "bytes \<Rightarrow> nat \<Rightarrow> nat \<Rightarrow> nat" where
  "jump_target code base imm = usize_of_int (int base + get_i16_or_default code imm)"

inductive flow_step :: "bytes \<Rightarrow> function_metadata list \<Rightarrow> nat \<times> nat \<Rightarrow> nat \<times> nat \<Rightarrow> bool"
  for code metadata where
  step_callf: "code ! pos = OP_CALLF \<Longrightarrow> m = metadata ! unat (get_u16_or_default code (pos + 1))
    \<Longrightarrow> flow_step code metadata (pos, h) (pos + 3, h - unat (inputs m) + unat (outputs m))"
| step_rjump: "code ! pos = OP_RJUMP \<Longrightarrow> OPCODE_INFO OP_RJUMP = Some info
    \<Longrightarrow> flow_step code metadata (pos, h) (jump_target code (pos + 3) (pos + 1), height_after info h)"
| step_rjumpi: "code ! pos = OP_RJUMPI \<Longrightarrow> OPCODE_INFO OP_RJUMPI = Some info
    \<Longrightarrow> p \<in> {pos + 3, jump_target code (pos + 3) (pos + 1)}
    \<Longrightarrow> flow_step code metadata (pos, h) (p, height_after info h)"
| step_rjumpv: "code ! pos = OP_RJUMPV \<Longrightarrow> OPCODE_INFO OP_RJUMPV = Some info
    \<Longrightarrow> n = unat (get_or_default code (pos + 1))
    \<Longrightarrow> p = pos + 2 + 2 * n \<or> (\<exists>i < n. p = jump_target code (pos + 2 + 2 * n) (pos + 2 + 2 * i))
    \<Longrightarrow> flow_step code metadata (pos, h) (p, height_after info h)"
| step_simple: "OPCODE_INFO (code ! pos) = Some info \<Longrightarrow> \<not> terminal info
    \<Longrightarrow> code ! pos \<notin> {OP_CALLF, OP_RETF, OP_RJUMP, OP_RJUMPI, OP_RJUMPV}
    \<Longrightarrow> flow_step code metadata (pos, h) (pos + 1 + immediate_size code pos, height_after info h)"

inductive flow_reach :: "bytes \<Rightarrow> function_metadata list \<Rightarrow> function_metadata \<Rightarrow> nat \<Rightarrow> nat \<Rightarrow> bool"
  for code metadata current where
  reach_first: "flow_reach code metadata current 0 (unat (inputs current))"
| reach_next: "flow_reach code metadata current pos h \<Longrightarrow> pos < length code
    \<Longrightarrow> flow_step code metadata (pos, h) (pos', h') \<Longrightarrow> flow_reach code metadata current pos' h'"

text \<open>The instruction at a position can run with the stack height it is reached with.\<close>

definition instr_ok :: "bytes \<Rightarrow> function_metadata list \<Rightarrow> function_metadata \<Rightarrow> nat \<Rightarrow> nat \<Rightarrow> bool" where
  "instr_ok code metadata current pos h \<longleftrightarrow>
    (\<exists>info. OPCODE_INFO (code ! pos) = Some info \<and> min_stack info \<le> h \<and> h \<le> max_stack info)
    \<and> (code ! pos = OP_RETF \<longrightarrow> h = unat (outputs current))
    \<and> (code ! pos = OP_CALLF \<longrightarrow> (let arg = unat (get_u16_or_default code (pos + 1)) in
        arg < length metadata \<and> unat (inputs (metadata ! arg)) \<le> h
        \<and> h + unat (outputs (metadata ! arg)) \<le> 1024))"

lemma cf_instr_ok:
  "cf_instr code metadata current pos h = Ok r \<Longrightarrow> instr_ok code metadata current pos h"
  by (auto simp: cf_instr_def instr_ok_def Let_def rbind_Ok_iff OPCODE_INFO_CALLF OPCODE_INFO_RETF
      CONTAINER_STACK_LIMIT_def unwrap_def split: if_splits option.splits)

lemma immediate_size_PUSH:
  "OP_PUSH1 \<le> code ! pos \<Longrightarrow> code ! pos \<le> OP_PUSH32
    \<Longrightarrow> immediate_size code pos = unat (code ! pos - OP_PUSH0)"
proof -
  assume "OP_PUSH1 \<le> code ! pos" "code ! pos \<le> OP_PUSH32"
  moreover from this have "OP_PUSH0 \<le> code ! pos" by (simp add: word_le_nat_alt)
  ultimately show ?thesis by (simp add: immediate_size_def Let_def unat_sub)
qed

lemma immediate_size_simple:
  "code ! pos \<notin> {OP_CALLF, OP_RETF, OP_RJUMP, OP_RJUMPI, OP_RJUMPV}
    \<Longrightarrow> \<not> (OP_PUSH1 \<le> code ! pos \<and> code ! pos \<le> OP_PUSH32) \<Longrightarrow> immediate_size code pos = 0"
  by (auto simp: immediate_size_def Let_def)

lemma cf_instr_steps:
  assumes "cf_instr code metadata current pos h = Ok r" and "flow_step code metadata (pos, h) (pos', h')"
  obtains items p where "r = Some (items, p, h')" "(pos', h') \<in> set ((p, h') # items)"
  using assms(2)
proof cases
  case step_callf
  then show ?thesis using assms(1) that
    by (auto simp: cf_instr_def Let_def rbind_Ok_iff OPCODE_INFO_CALLF CONTAINER_STACK_LIMIT_def
        split: if_splits)
next
  case step_rjump
  then show ?thesis using assms(1) that
    by (auto simp: cf_instr_def Let_def rbind_Ok_iff height_after_def jump_target_def split: if_splits)
next
  case step_rjumpi
  then show ?thesis using assms(1) that
    by (auto simp: cf_instr_def Let_def rbind_Ok_iff height_after_def jump_target_def split: if_splits)
next
  case (step_rjumpv info n)
  define items where "items = rev (map (\<lambda>i. (usize_of_int (int pos + 2 + 2 * int n
      + get_i16_or_default code (pos + 2 + 2 * i)), h')) [0..<n])"
  have r: "r = Some (items, pos + (2 + 2 * n), h')"
    unfolding items_def step_rjumpv(4) using assms(1) step_rjumpv(1-3)
    by (auto simp: cf_instr_def Let_def rbind_Ok_iff height_after_def split: if_splits)
  have "(usize_of_int (int pos + 2 + 2 * int n + get_i16_or_default code (pos + 2 + 2 * i)), h')
      \<in> set items" if "i < n" for i
    using that by (auto simp: items_def)
  then have "(pos', h') \<in> set ((pos + (2 + 2 * n), h') # items)"
    using step_rjumpv(5) by (fastforce simp: jump_target_def algebra_simps)
  with r show ?thesis by (rule that)
next
  case (step_simple info)
  show ?thesis
  proof (cases "OP_PUSH1 \<le> code ! pos \<and> code ! pos \<le> OP_PUSH32")
    case True
    then show ?thesis using assms(1) that step_simple immediate_size_PUSH [of code pos]
      by (auto simp: cf_instr_def Let_def rbind_Ok_iff height_after_def split: if_splits)
  next
    case False
    then show ?thesis using assms(1) that step_simple immediate_size_simple [of code pos]
      by (auto simp: cf_instr_def Let_def rbind_Ok_iff height_after_def split: if_splits)
  qed
qed

lemma cf_instr_items:
  "cf_instr code metadata current pos h = Ok (Some (items, p, h')) \<Longrightarrow> (q, k) \<in> set items \<Longrightarrow> k = h'"
  by (auto simp: cf_instr_def Let_def rbind_Ok_iff split: if_splits)

text \<open>
  The invariant of the worklist algorithm; \<open>P\<close> holds the pairs that are still to be followed.  A pair
  is \<open>covered\<close> when it is pending, outside the code, or already visited with its height.
\<close>

definition covered :: "bytes \<Rightarrow> flow \<Rightarrow> (nat \<times> nat) set \<Rightarrow> nat \<Rightarrow> nat \<Rightarrow> bool" where
  "covered code f P p h \<longleftrightarrow> (p, h) \<in> P \<or> length code \<le> p \<or> heights f ! p = int h"

definition flow_inv :: "bytes \<Rightarrow> function_metadata list \<Rightarrow> function_metadata \<Rightarrow> flow
    \<Rightarrow> (nat \<times> nat) set \<Rightarrow> bool" where
  "flow_inv code metadata current f P \<longleftrightarrow> length (heights f) = length code
     \<and> (\<forall>pos < length code. heights f ! pos = LOC_UNVISITED \<or> 0 \<le> heights f ! pos)
     \<and> (\<forall>(p, h) \<in> P. h \<le> max_height f)
     \<and> (\<forall>pos < length code. \<forall>h. heights f ! pos = int h \<longrightarrow>
          instr_ok code metadata current pos h \<and> h \<le> max_height f
          \<and> (\<forall>p h'. flow_step code metadata (pos, h) (p, h') \<longrightarrow> covered code f P p h'))"

lemma covered_drop:
  "covered code f (insert (pos, h) P) p h' \<Longrightarrow> length code \<le> pos \<or> heights f ! pos = int h
    \<Longrightarrow> covered code f P p h'"
  by (auto simp: covered_def)

lemma flow_inv_drop:
  "flow_inv code metadata current f (insert (pos, h) P) \<Longrightarrow> length code \<le> pos \<or> heights f ! pos = int h
    \<Longrightarrow> flow_inv code metadata current f P"
  unfolding flow_inv_def by (blast intro: covered_drop)

lemma flow_inv_visit:
  assumes inv: "flow_inv code metadata current f (insert (pos, h) P)"
    and pos: "pos < length code" "heights f ! pos = LOC_UNVISITED"
    and ok: "instr_ok code metadata current pos h"
    and succ: "\<And>p h'. flow_step code metadata (pos, h) (p, h') \<Longrightarrow> (p, h') \<in> Q"
    and Q: "\<And>p h'. (p, h') \<in> Q \<Longrightarrow> h' \<le> max_height g"
    and g: "heights g = (heights f)[pos := int h]" "max_height f \<le> max_height g"
  shows "flow_inv code metadata current g (P \<union> Q)"
    and "covered code f (insert (pos, h) P) p k \<Longrightarrow> covered code g (P \<union> Q) p k"
proof -
  have len: "length (heights f) = length code"
    and v: "\<forall>q < length code. heights f ! q = LOC_UNVISITED \<or> 0 \<le> heights f ! q"
    using inv by (simp_all add: flow_inv_def)
  have cov: "covered code g (P \<union> Q) p k" if "covered code f (insert (pos, h) P) p k" for p k
    using that pos len
    by (cases "p = pos") (auto simp: covered_def g LOC_UNVISITED_def nth_list_update)
  show "covered code f (insert (pos, h) P) p k \<Longrightarrow> covered code g (P \<union> Q) p k" by (rule cov)
  have "instr_ok code metadata current q k \<and> k \<le> max_height g
      \<and> (\<forall>p h'. flow_step code metadata (q, k) (p, h') \<longrightarrow> covered code g (P \<union> Q) p h')"
    if q: "q < length code" "heights g ! q = int k" for q k
  proof (cases "q = pos")
    case True
    then have "k = h" using q g pos len by simp
    moreover have "h \<le> max_height g"
      using inv g(2) by (auto simp: flow_inv_def)
    ultimately show ?thesis using True ok succ by (auto simp: covered_def)
  next
    case False
    then have "heights f ! q = int k" using q g by simp
    then show ?thesis
      using inv q(1) g(2) cov unfolding flow_inv_def by (meson order_trans)
  qed
  moreover have "\<forall>(p, k) \<in> P \<union> Q. k \<le> max_height g"
    using inv Q g(2) by (fastforce simp: flow_inv_def)
  moreover have "\<forall>q < length code. heights g ! q = LOC_UNVISITED \<or> 0 \<le> heights g ! q"
    using v g len pos(1) by (auto simp: nth_list_update)
  ultimately show "flow_inv code metadata current g (P \<union> Q)"
    using len g unfolding flow_inv_def by simp
qed

lemma cf_path_inv:
  "cf_path code metadata current pos height f = Ok f'
   \<Longrightarrow> flow_inv code metadata current f (insert (pos, height) (set (worklist f)))
   \<Longrightarrow> flow_inv code metadata current f' (set (worklist f'))
     \<and> (\<forall>p h. covered code f (insert (pos, height) (set (worklist f))) p h
          \<longrightarrow> covered code f' (set (worklist f')) p h)"
proof (induction code metadata current pos height f arbitrary: f' rule: cf_path.induct)
  case (1 code metadata current pos height f)
  have len: "length (heights f) = length code" using "1.prems"(2) by (simp add: flow_inv_def)
  consider "length code \<le> pos" | "pos < length code" "heights f ! pos \<noteq> LOC_UNVISITED"
    | "pos < length code" "heights f ! pos = LOC_UNVISITED" by linarith
  then show ?case
  proof cases
    case 1
    then have "f' = f" using "1.prems"(1) by (subst (asm) cf_path.simps) simp
    then show ?thesis using "1.prems"(2) 1 flow_inv_drop covered_drop by blast
  next
    case 2
    then have "0 \<le> heights f ! pos" using "1.prems"(2) by (auto simp: flow_inv_def)
    moreover have "f' = f \<and> nat (heights f ! pos) = height"
      using "1.prems"(1) 2 len by (subst (asm) cf_path.simps) (simp add: Let_def split: if_splits)
    ultimately have "f' = f" "heights f ! pos = int height" by auto
    then show ?thesis using "1.prems"(2) flow_inv_drop covered_drop by blast
  next
    case 3
    obtain r where r: "cf_instr code metadata current pos height = Ok r"
      using "1.prems"(1) 3 len by (subst (asm) cf_path.simps) (auto simp: rbind_Ok_iff)
    note ok = cf_instr_ok [OF r]
    note visit = flow_inv_visit [OF "1.prems"(2) 3 ok]
    show ?thesis
    proof (cases r)
      case None
      have no: "\<not> flow_step code metadata (pos, height) (p, k)" for p k
        using cf_instr_steps [OF r] None by (metis option.distinct(1))
      have f': "f' = visit pos height f"
        using "1.prems"(1) r 3 len None by (subst (asm) cf_path.simps) simp
      show ?thesis
        using visit [of "{}" f'] no by (simp add: f' visit_def)
    next
      case (Some q)
      obtain items pos' height' where q: "q = (items, pos', height')" by (cases q)
      let ?g = "(visit pos height f)\<lparr>worklist := items @ worklist f, max_height := max (max_height f) height'\<rparr>"
      let ?Q = "set ((pos', height') # items)"
      have path: "cf_path code metadata current pos' height' ?g = Ok f'"
        using r 3 len "1.prems"(1) Some q by (subst (asm) cf_path.simps) simp
      have Q: "k \<le> max_height ?g" if "(p, k) \<in> ?Q" for p k
        using that cf_instr_items [OF r [unfolded Some q]] by fastforce
      have succ: "(p, h') \<in> ?Q" if "flow_step code metadata (pos, height) (p, h')" for p h'
        using cf_instr_steps [OF r that] Some q by fastforce
      have eq: "insert (pos', height') (set (worklist ?g)) = set (worklist f) \<union> ?Q" by auto
      note step = visit [of ?Q ?g, OF succ Q]
      have IH: "flow_inv code metadata current ?g (set (worklist f) \<union> ?Q)
          \<Longrightarrow> flow_inv code metadata current f' (set (worklist f'))
           \<and> (\<forall>p h. covered code ?g (set (worklist f) \<union> ?Q) p h \<longrightarrow> covered code f' (set (worklist f')) p h)"
        using "1.IH" [OF _ refl _ r Some q [symmetric] refl path, unfolded eq] 3 len by simp
      show ?thesis using IH step by (simp add: visit_def)
    qed
  qed
qed

lemma cf_loop_inv:
  "cf_loop code metadata current f = Ok f' \<Longrightarrow> flow_inv code metadata current f (set (worklist f))
   \<Longrightarrow> flow_inv code metadata current f' {}
     \<and> (\<forall>p h. covered code f (set (worklist f)) p h \<longrightarrow> covered code f' {} p h)"
proof (induction code metadata current f arbitrary: f' rule: cf_loop.induct)
  case (1 code metadata current f)
  show ?case
  proof (cases "worklist f")
    case Nil
    then show ?thesis using "1.prems" by (subst (asm) cf_loop.simps) simp
  next
    case (Cons item rest)
    obtain pos h where item: "item = (pos, h)" by (cases item)
    let ?f = "f\<lparr>worklist := rest\<rparr>"
    obtain g where g: "cf_path code metadata current pos h ?f = Ok g"
        "cf_loop code metadata current g = Ok f'"
      using "1.prems"(1) Cons item by (subst (asm) cf_loop.simps) (auto simp: rbind_Ok_iff)
    have "flow_inv code metadata current ?f (insert (pos, h) (set (worklist ?f)))"
      using "1.prems"(2) Cons item by (simp add: flow_inv_def covered_def)
    from cf_path_inv [OF g(1) this] "1.IH" [OF Cons item [symmetric] g(1) g(2)]
    show ?thesis using Cons item by (auto simp: covered_def)
  qed
qed

text \<open>
  The verdict of the control-flow check: every pair that execution can reach satisfies the
  requirements of its instruction, a position is reached with one height only, and no height exceeds
  the declared maximum.
\<close>

lemma control_flow_sound:
  assumes "validate_control_flow code section metadata = Ok n"
    and reach: "flow_reach code metadata (metadata ! section) pos h" and "pos < length code"
  shows "instr_ok code metadata (metadata ! section) pos h"
    and "h \<le> unat (max_stack_height (metadata ! section))"
    and "flow_reach code metadata (metadata ! section) pos h' \<Longrightarrow> h' = h"
proof -
  let ?m = "metadata ! section"
  let ?f = "\<lparr>heights = replicate (length code) LOC_UNVISITED, height_update = 0,
            worklist = [(0, unat (inputs ?m))], max_height = unat (inputs ?m)\<rparr>"
  obtain f where f: "cf_loop code metadata ?m ?f = Ok f" "max_height f = unat (max_stack_height ?m)"
    using assms(1) by (auto simp: validate_control_flow_def Let_def rbind_Ok_iff split: if_splits)
  have "flow_inv code metadata ?m ?f (set (worklist ?f))"
    by (simp add: flow_inv_def LOC_UNVISITED_def)
  from cf_loop_inv [OF f(1) this]
  have inv: "flow_inv code metadata ?m f {}" and first: "covered code f {} 0 (unat (inputs ?m))"
    by (auto simp: covered_def)
  have cov: "covered code f {} p k" if "flow_reach code metadata ?m p k" for p k
    using that
  proof induction
    case (reach_next pos h pos' h')
    then have "heights f ! pos = int h" by (simp add: covered_def)
    then show ?case using reach_next inv unfolding flow_inv_def by blast
  qed (rule first)
  then have h: "heights f ! pos = int h"
    using reach assms(3) by (fastforce simp: covered_def)
  show "instr_ok code metadata ?m pos h" "h \<le> unat (max_stack_height ?m)"
    using inv h assms(3) f(2) unfolding flow_inv_def by auto
  show "h' = h" if "flow_reach code metadata ?m pos h'"
    using cov [OF that] h assms(3) by (simp add: covered_def)
qed

section \<open>What the scan guarantees\<close>

definition dest_ok :: "bytes \<Rightarrow> nat \<Rightarrow> bool" where
  "dest_ok code p \<longleftrightarrow> p < length code \<and> instr_start code p"

definition scan_ok :: "bytes \<Rightarrow> nat \<Rightarrow> bool" where
  "scan_ok code q \<longleftrightarrow> q + 1 + immediate_size code q \<le> length code
     \<and> (code ! q \<in> {OP_RJUMP, OP_RJUMPI} \<longrightarrow> dest_ok code (jump_target code (q + 3) (q + 1)))
     \<and> (code ! q = OP_RJUMPV \<longrightarrow> (\<forall>i < unat (get_or_default code (q + 1)).
          dest_ok code (jump_target code (q + 2 + 2 * unat (get_or_default code (q + 1))) (q + 2 + 2 * i))))"

definition analysis_ok :: "bytes \<Rightarrow> bitvec option \<Rightarrow> bool" where
  "analysis_ok code an \<longleftrightarrow> (\<forall>a. an = Some a \<longrightarrow> eof_code_bitmap code = Ok a)"

lemma check_dest_ok:
  assumes "small_jump_tables code" and "analysis_ok code an"
    and "check_dest code an imm base (length code) = Ok a"
  shows "imm + 2 \<le> length code" and "dest_ok code (jump_target code base imm)"
    and "analysis_ok code (Some a)"
proof -
  show imm: "imm + 2 \<le> length code"
    using assms(3) by (auto simp: check_dest_def split: if_splits)
  let ?d = "jump_target code base imm"
  have an: "eof_code_bitmap code = Ok a" and d: "?d < length code" "is_code_segment a ?d = Ok True"
    using assms(2,3)
    by (auto simp: check_dest_def analysis_ok_def Let_def jump_target_def rbind_Ok_iff
        split: if_splits option.splits)
  show "analysis_ok code (Some a)" using an by (simp add: analysis_ok_def)
  from eof_code_bitmap_marks [OF assms(1)] an d show "dest_ok code ?d"
    by (auto simp: dest_ok_def)
qed

lemma check_table_ok:
  assumes "small_jump_tables code"
  shows "check_table code i n js an = Ok an' \<Longrightarrow> analysis_ok code an \<Longrightarrow>
     analysis_ok code an' \<and> (\<forall>j \<in> set js. i + 2 + j * 2 + 2 \<le> length code
       \<and> dest_ok code (jump_target code (i + 2 * n + 2) (i + 2 + j * 2)))"
proof (induction js arbitrary: an)
  case (Cons j js)
  then obtain a where "check_dest code an (i + 2 + j * 2) (i + 2 * n + 2) (length code) = Ok a"
      "check_table code i n js (Some a) = Ok an'" by (auto simp: rbind_Ok_iff)
  then show ?case
    using check_dest_ok [OF assms Cons.prems(2)] Cons.IH [of "Some a"] by auto
qed simp

lemma OPCODE_INFO_branch:
  "OPCODE_INFO OP_RJUMPI = Some \<lparr>min_stack = 1, max_stack = 1025, terminal = False\<rparr>"
  "OPCODE_INFO OP_RJUMPV = Some \<lparr>min_stack = 1, max_stack = 1025, terminal = False\<rparr>"
  by (simp_all add: OPCODE_INFO_def opcode_info_entries_def opcode_info_defs upt_rec max_stack_of_def
      STACK_LIMIT_def)

lemma jump_tables_flow:
  "immediate_size code q = 2" if "code ! q \<in> {OP_RJUMP, OP_RJUMPI, OP_CALLF}"
  using that by (auto simp: immediate_size_def)

definition scan_inv :: "bytes \<Rightarrow> scan \<Rightarrow> bool" where
  "scan_inv code s \<longleftrightarrow> analysis_ok code (s_analysis s) \<and> instr_start code (s_i s) \<and> s_i s \<le> length code
     \<and> (\<forall>q < s_i s. instr_start code q \<longrightarrow> scan_ok code q)
     \<and> (0 < s_i s \<longrightarrow> (\<exists>q < s_i s. instr_start code q \<and> s_opcode s = code ! q
          \<and> s_i s = q + 1 + immediate_size code q))"

lemma scan_step_ok:
  assumes "small_jump_tables code" and "scan_step code metadata s = Ok s'" and "s_i s < length code"
    and "analysis_ok code (s_analysis s)"
  shows "s_i s' = s_i s + 1 + immediate_size code (s_i s)" "scan_ok code (s_i s)"
    "analysis_ok code (s_analysis s')" "s_opcode s' = code ! s_i s"
proof -
  let ?i = "s_i s" let ?op = "code ! ?i"
  have op: "get_or_default code ?i = ?op" using assms(3) by (simp add: get_or_default_def)
  note step = assms(2) [unfolded scan_step_def Let_def op]
  have "s_i s' = ?i + 1 + immediate_size code ?i \<and> scan_ok code ?i
      \<and> analysis_ok code (s_analysis s') \<and> s_opcode s' = ?op"
  proof (cases "OP_PUSH0 < ?op \<and> ?op \<le> OP_PUSH32")
    case True
    then have "OP_PUSH1 \<le> ?op" by (simp add: word_le_nat_alt word_less_nat_alt)
    then have "immediate_size code ?i = unat (?op - OP_PUSH0)" using True by (simp add: immediate_size_PUSH)
    moreover have "?op \<notin> {OP_RJUMP, OP_RJUMPI, OP_RJUMPV, OP_CALLF}" using True by auto
    ultimately show ?thesis
      using step True assms(4) by (auto simp: scan_ok_def split: if_splits)
  next
    case no_push: False
    consider "?op \<in> {OP_RJUMP, OP_RJUMPI}" | "?op = OP_RJUMPV" | "?op = OP_CALLF"
      | "?op \<notin> {OP_RJUMP, OP_RJUMPI, OP_RJUMPV, OP_CALLF}" by blast
    then show ?thesis
    proof cases
      case 1
      then obtain a where a: "check_dest code (s_analysis s) (?i + 1) (?i + 3) (length code) = Ok a"
        and s': "s' = s\<lparr>s_count := s_count s + 1, s_opcode := ?op, s_analysis := Some a, s_i := ?i + 3\<rparr>"
        using step no_push by (auto simp: rbind_Ok_iff split: if_splits)
      have "immediate_size code ?i = 2" using 1 by (intro jump_tables_flow) auto
      with 1 show ?thesis
        using check_dest_ok [OF assms(1,4) a] s' by (auto simp: scan_ok_def)
    next
      case 2
      define n where "n = unat (get_or_default code (?i + 1))"
      obtain a where a: "check_table code ?i n [0..<n] (s_analysis s) = Ok a" and n: "0 < n"
        and s': "s' = s\<lparr>s_count := n, s_opcode := ?op, s_analysis := a, s_i := ?i + (1 + 2 * n) + 1\<rparr>"
        and len: "?i + 1 < length code"
        using step 2 no_push by (auto simp: rbind_Ok_iff n_def split: if_splits)
      have size: "immediate_size code ?i = 1 + 2 * n"
        using 2 len by (simp add: immediate_size_def n_def get_or_default_def)
      have table: "analysis_ok code a" "\<And>j. j < n \<Longrightarrow> ?i + 2 + j * 2 + 2 \<le> length code"
          "\<And>j. j < n \<Longrightarrow> dest_ok code (jump_target code (?i + 2 + 2 * n) (?i + 2 + 2 * j))"
        using check_table_ok [OF assms(1) a assms(4)] by (auto simp: algebra_simps)
      have "?i + 1 + (1 + 2 * n) \<le> length code" using table(2) [of "n - 1"] n by simp
      then show ?thesis using 2 s' size table by (simp add: scan_ok_def n_def)
    next
      case 3
      then show ?thesis
        using step no_push assms(4) jump_tables_flow [of code ?i]
        by (auto simp: scan_ok_def split: if_splits)
    next
      case 4
      have "\<not> (OP_PUSH1 \<le> ?op \<and> ?op \<le> OP_PUSH32)"
        using no_push by (auto simp: word_le_nat_alt word_less_nat_alt)
      then have "immediate_size code ?i = 0" using 4 by (auto simp: immediate_size_def Let_def)
      then show ?thesis
        using step no_push 4 assms(3,4) by (auto simp: scan_ok_def split: if_splits)
    qed
  qed
  then show "s_i s' = s_i s + 1 + immediate_size code (s_i s)" "scan_ok code (s_i s)"
    "analysis_ok code (s_analysis s')" "s_opcode s' = code ! s_i s" by auto
qed

lemma scan_code_inv:
  assumes "small_jump_tables code"
  shows "scan_code code metadata s = Ok s' \<Longrightarrow> scan_inv code s \<Longrightarrow> scan_inv code s' \<and> s_i s' = length code"
proof (induction "length code - s_i s" arbitrary: s rule: less_induct)
  case less
  show ?case
  proof (cases "s_i s < length code")
    case False
    then have "s' = s" using less.prems(1) by (subst (asm) scan_code.simps) simp
    moreover have "s_i s = length code" using False less.prems(2) by (simp add: scan_inv_def)
    ultimately show ?thesis using less.prems(2) by simp
  next
    case True
    then obtain t where t: "scan_step code metadata s = Ok t" "scan_code code metadata t = Ok s'"
      using less.prems(1) by (subst (asm) scan_code.simps) (auto simp: rbind_Ok_iff)
    have start: "instr_start code (s_i s)" and an: "analysis_ok code (s_analysis s)"
      using less.prems(2) by (auto simp: scan_inv_def)
    note step = scan_step_ok [OF assms t(1) True an]
    have next_start: "instr_start code (s_i t)" using instr_next [OF start True] step(1) by simp
    have ok: "scan_ok code q" if "instr_start code q" "q < s_i t" for q
    proof (cases "q < s_i s")
      case True
      then show ?thesis using that less.prems(2) by (simp add: scan_inv_def)
    next
      case False
      then have "q = s_i s" using instr_start_apart [OF start that(1)] that(2) step(1) by linarith
      then show ?thesis using step(2) by simp
    qed
    have "\<exists>q < s_i t. instr_start code q \<and> s_opcode t = code ! q \<and> s_i t = q + 1 + immediate_size code q"
      using step start by (intro exI [of _ "s_i s"]) simp
    moreover have "s_i t \<le> length code" using step(1,2) by (simp add: scan_ok_def)
    ultimately have "scan_inv code t" using step(3) ok next_start by (simp add: scan_inv_def)
    then show ?thesis using less.hyps [of t] t(2) True step(1) by simp
  qed
qed

text \<open>
  Execution of a validated section stays on the instructions of the section: it neither jumps into
  an immediate nor runs off the end.
\<close>

lemma validated_reach:
  assumes small: "small_jump_tables code" and "code \<noteq> []"
    and ok: "validate_code code section metadata = Ok ()"
    and "flow_reach code metadata (metadata ! section) pos h"
  shows "pos < length code \<and> instr_start code pos"
proof -
  let ?s = "\<lparr>s_i = 0, s_count = 0, s_analysis = None, s_opcode = 0\<rparr>"
  obtain s where s: "scan_code code metadata ?s = Ok s" and fin: "is_terminal_opcode (s_opcode s)"
    using ok by (auto simp: validate_code_def rbind_Ok_iff split: if_splits)
  have "scan_inv code ?s" by (simp add: scan_inv_def analysis_ok_def instr_first)
  from scan_code_inv [OF small s this] have inv: "scan_inv code s" and len: "s_i s = length code" by auto
  have scan: "scan_ok code q" if "instr_start code q" "q < length code" for q
    using inv len that by (simp add: scan_inv_def)
  obtain q where q: "instr_start code q" "s_opcode s = code ! q" "q + 1 + immediate_size code q = length code"
    using inv len assms(2) by (auto simp: scan_inv_def)
  have forward: "pos + 1 + immediate_size code pos < length code
      \<and> instr_start code (pos + 1 + immediate_size code pos)"
    if "instr_start code pos" "pos < length code" "\<not> is_terminal_opcode (code ! pos)" for pos
  proof -
    have "pos \<noteq> q" using that(3) fin q(2) by auto
    then have "pos < q" using instr_start_apart [OF q(1) that(1)] that(2) q(3) by linarith
    then show ?thesis
      using instr_start_apart [OF that(1) q(1)] instr_next [OF that(1,2)] q(3) by simp
  qed
  from assms(4) show ?thesis
  proof induction
    case reach_first
    show ?case using assms(2) by (simp add: instr_first)
  next
    case (reach_next pos h pos' h')
    then have start: "instr_start code pos" and so: "scan_ok code pos" using scan by auto
    from reach_next(3) show ?case
    proof cases
      case (step_callf m)
      then show ?thesis
        using forward [OF start reach_next(2)] jump_tables_flow [of code pos]
        by (simp add: is_terminal_opcode_def OPCODE_INFO_CALLF numeral_3_eq_3)
    next
      case step_rjump
      then show ?thesis using so by (simp add: scan_ok_def dest_ok_def)
    next
      case step_rjumpi
      then show ?thesis
        using forward [OF start reach_next(2)] jump_tables_flow [of code pos] so
        by (auto simp: is_terminal_opcode_def OPCODE_INFO_branch scan_ok_def dest_ok_def numeral_3_eq_3)
    next
      case (step_rjumpv info n)
      have "\<not> is_terminal_opcode (code ! pos)"
        by (simp add: step_rjumpv(2) is_terminal_opcode_def OPCODE_INFO_branch)
      note next_pos = forward [OF start reach_next(2) this]
      then have "pos + 1 < length code" by simp
      then have "immediate_size code pos = 1 + 2 * n"
        using step_rjumpv by (simp add: immediate_size_def get_or_default_def)
      then show ?thesis
        using step_rjumpv next_pos so by (auto simp: scan_ok_def dest_ok_def)
    next
      case (step_simple info)
      then show ?thesis
        using forward [OF start reach_next(2)] by (simp add: is_terminal_opcode_def)
    qed
  qed
qed

section \<open>Validation never panics\<close>

definition analysis_wf :: "bytes \<Rightarrow> bitvec option \<Rightarrow> bool" where
  "analysis_wf code an \<longleftrightarrow> (\<forall>a. an = Some a \<longrightarrow> length a = length code div 8 + 5)"

lemma check_dest_total:
  assumes "analysis_wf code an"
  shows "check_dest code an imm base (length code) \<noteq> Panic"
    and "check_dest code an imm base (length code) = Ok a \<Longrightarrow> analysis_wf code (Some a)"
proof -
  obtain b where b: "eof_code_bitmap code = Ok b" "length b = length code div 8 + 5"
    using eof_code_bitmap_total by blast
  have seg: "is_code_segment a p \<noteq> Panic" if "length a = length code div 8 + 5" "p < length code" for a p
  proof -
    have "p < 8 * length a" using that by linarith
    then show ?thesis by (simp add: is_code_segment_marked)
  qed
  obtain a0 where a: "(case an of Some a \<Rightarrow> Ok a | None \<Rightarrow> eof_code_bitmap code) = Ok a0"
      "length a0 = length code div 8 + 5"
    using b assms by (cases an) (auto simp: analysis_wf_def)
  show "check_dest code an imm base (length code) \<noteq> Panic"
  proof
    assume panic: "check_dest code an imm base (length code) = Panic"
    define d where "d = usize_of_int (int base + get_i16_or_default code imm)"
    have "d < length code" "rbind (is_code_segment a0 d) (\<lambda>c. if \<not> c
        then Err (ValidationError (ValidationInvalidJumpDest (get_i16_or_default code imm) d imm))
        else Ok a0) = Panic"
      unfolding d_def using panic a by (auto simp: check_dest_def Let_def split: if_splits)
    then show False using seg [OF a(2), of d] by (cases "is_code_segment a0 d") (auto split: if_splits)
  qed
  show "analysis_wf code (Some a)" if "check_dest code an imm base (length code) = Ok a"
    using that a by (auto simp: check_dest_def analysis_wf_def Let_def rbind_Ok_iff split: if_splits)
qed

lemma check_table_total:
  "analysis_wf code an \<Longrightarrow> check_table code i n js an \<noteq> Panic
     \<and> (\<forall>an'. check_table code i n js an = Ok an' \<longrightarrow> analysis_wf code an')"
proof (induction js arbitrary: an)
  case (Cons j js)
  then show ?case
    using check_dest_total [OF Cons.prems, of "i + 2 + j * 2" "i + 2 * n + 2"]
    by (cases "check_dest code an (i + 2 + j * 2) (i + 2 * n + 2) (length code)") auto
qed simp

lemma scan_step_total:
  assumes "analysis_wf code (s_analysis s)"
  shows "scan_step code metadata s \<noteq> Panic"
    and "scan_step code metadata s = Ok s' \<Longrightarrow> analysis_wf code (s_analysis s')"
proof -
  have rb: "rbind r (\<lambda>a. Ok (f a)) \<noteq> Panic" if "r \<noteq> Panic" for r :: "'x result" and f :: "'x \<Rightarrow> 'y"
    using that by (cases r) auto
  show "scan_step code metadata s \<noteq> Panic"
    using check_dest_total(1) [OF assms] check_table_total [OF assms]
    by (simp add: scan_step_def Let_def rb)
  show "analysis_wf code (s_analysis s')" if "scan_step code metadata s = Ok s'"
    using that check_dest_total(2) [OF assms] check_table_total [OF assms] assms
    by (auto simp: scan_step_def Let_def rbind_Ok_iff split: if_splits)
qed

lemma scan_code_total: "analysis_wf code (s_analysis s) \<Longrightarrow> scan_code code metadata s \<noteq> Panic"
proof (induction "length code - s_i s" arbitrary: s rule: less_induct)
  case less
  show ?case
  proof (cases "s_i s < length code")
    case True
    then show ?thesis
      using less.hyps scan_step_i [of code metadata s] scan_step_total [OF less.prems, of metadata]
      by (subst scan_code.simps, cases "scan_step code metadata s") auto
  qed (simp add: scan_code.simps)
qed

lemma cf_instr_total: "cf_instr code metadata current pos h \<noteq> Panic"
  by (cases "OPCODE_INFO (code ! pos)") (auto simp: cf_instr_def Let_def assert_opcode_valid_def rensure_def)

lemma cf_path_total:
  "length (heights f) = length code \<Longrightarrow> cf_path code metadata current pos height f \<noteq> Panic
    \<and> (\<forall>f'. cf_path code metadata current pos height f = Ok f' \<longrightarrow> length (heights f') = length code)"
proof (induction code metadata current pos height f rule: cf_path.induct)
  case (1 code metadata current pos height f)
  show ?case
  proof (cases "pos < length code \<and> heights f ! pos = LOC_UNVISITED")
    case False
    then show ?thesis using "1.prems" by (subst (1 2) cf_path.simps) (auto simp: Let_def)
  next
    case True
    note IH = "1.IH" [OF _ refl _ _ _ _ refl]
    show ?thesis
    proof (cases "cf_instr code metadata current pos height")
      case (Ok r)
      show ?thesis
      proof (cases r)
        case None
        then show ?thesis using True Ok "1.prems" by (subst (1 2) cf_path.simps) (auto simp: visit_def)
      next
        case (Some q)
        obtain items pos' height' where q: "q = (items, pos', height')" by (cases q)
        show ?thesis
          using IH [OF _ _ Ok Some q [symmetric]] True Ok Some q "1.prems"
          by (subst (1 2) cf_path.simps) (simp add: visit_def)
      qed
    next
      case (Err e)
      then show ?thesis using True "1.prems" by (subst (1 2) cf_path.simps) simp
    next
      case Panic
      then show ?thesis using cf_instr_total by blast
    qed
  qed
qed

lemma cf_loop_total:
  "length (heights f) = length code \<Longrightarrow> cf_loop code metadata current f \<noteq> Panic"
proof (induction code metadata current f rule: cf_loop.induct)
  case (1 code metadata current f)
  show ?case
  proof (cases "worklist f")
    case (Cons item rest)
    obtain pos h where item: "item = (pos, h)" by (cases item)
    show ?thesis
      using cf_path_total [of "f\<lparr>worklist := rest\<rparr>" code metadata current pos h] "1.prems"
        "1.IH" [OF Cons item [symmetric]] Cons item
      by (subst cf_loop.simps, cases "cf_path code metadata current pos h (f\<lparr>worklist := rest\<rparr>)") auto
  qed (simp add: cf_loop.simps)
qed

lemma validate_code_total: "validate_code code section metadata \<noteq> Panic"
proof -
  let ?s = "\<lparr>s_i = 0, s_count = 0, s_analysis = None, s_opcode = 0\<rparr>"
  have scan: "scan_code code metadata ?s \<noteq> Panic"
    by (rule scan_code_total) (simp add: analysis_wf_def)
  have flow: "validate_control_flow code section metadata \<noteq> Panic"
  proof -
    have "cf_loop code metadata current \<lparr>heights = replicate (length code) LOC_UNVISITED,
        height_update = 0, worklist = w, max_height = m\<rparr> \<noteq> Panic" for current w m
      by (rule cf_loop_total) simp
    then show ?thesis
      by (auto simp: validate_control_flow_def Let_def rbind_def split: result.splits)
  qed
  show ?thesis
    using scan flow
    by (cases "scan_code code metadata ?s"; cases "validate_control_flow code section metadata")
       (auto simp: validate_code_def)
qed

lemma validate_sections_total: "validate_sections c sec codes \<noteq> Panic"
proof (induction codes arbitrary: sec)
  case (Cons code codes)
  then show ?case
    using validate_code_total [of code sec "ctypes c"]
    by (cases "validate_code code sec (ctypes c)") auto
qed simp

lemma validate_container_total: "validate_container c \<noteq> Panic"
  by (simp add: validate_container_def validate_sections_total)

lemma validate_sections_Ok:
  "validate_sections c sec codes = Ok () \<Longrightarrow> i < length codes
    \<Longrightarrow> validate_code (codes ! i) (sec + i) (ctypes c) = Ok ()"
proof (induction codes arbitrary: sec i)
  case (Cons code codes)
  then show ?case by (cases i) (fastforce simp: rbind_Ok_iff)+
qed simp

lemma validate_container_Ok:
  "validate_container c = Ok () \<Longrightarrow> i < length (ccode c)
    \<Longrightarrow> validate_code (buf_bytes (ccode c ! i)) i (ctypes c) = Ok ()"
  using validate_sections_Ok [of c 0 "map buf_bytes (ccode c)" i] by (simp add: validate_container_def)

text \<open>C1: non-empty code that the validator accepts, with no jump table of 128 or more entries (where the analysis of the code
  wraps), is safe to run by its own rules: every position that the control flow reaches is the start of an instruction inside
  the code, the instruction finds the operands and the room on the stack that it needs (the section it calls exists, the
  section it returns from has its declared outputs), the stack never exceeds the declared maximum, and it has the same
  height whichever way the position is reached.\<close>

theorem validated_code_safe:
  assumes "small_jump_tables code" and "code \<noteq> []" and "validate_code code section metadata = Ok ()"
    and "flow_reach code metadata (metadata ! section) pos h"
  shows "pos < length code \<and> instr_start code pos \<and> instr_ok code metadata (metadata ! section) pos h
     \<and> h \<le> unat (max_stack_height (metadata ! section))
     \<and> (\<forall>h'. flow_reach code metadata (metadata ! section) pos h' \<longrightarrow> h' = h)"
proof -
  obtain n where flow: "validate_control_flow code section metadata = Ok n"
    using assms(3) by (auto simp: validate_code_def rbind_Ok_iff split: if_splits)
  have "pos < length code \<and> instr_start code pos" by (rule validated_reach [OF assms])
  then show ?thesis using control_flow_sound [OF flow assms(4)] by blast
qed

lemma no_jump_table: "OP_RJUMPV \<notin> set code \<Longrightarrow> small_jump_tables code"
  unfolding small_jump_tables_def by (metis nth_mem)

text \<open>Evaluation of the validator on concrete code\<close>

lemmas validate_eval = validate_code_def scan_code.simps scan_step_def Let_def get_or_default_def
  is_opcode_valid_def DEPRECATED_OPCODES_def is_terminal_opcode_def OPCODE_INFO_def
  opcode_info_entries_def opcode_info_defs upt_rec max_stack_of_def STACK_LIMIT_def
  validate_control_flow_def LOC_UNVISITED_def cf_loop.simps cf_path.simps cf_instr_def
  assert_opcode_valid_def CONTAINER_STACK_LIMIT_def visit_def push_info_def
  check_dest_def get_i16_or_default_def from_be_def usize_of_int_def

lemma replicate_numeral:
  "replicate (numeral n) x = x # replicate (pred_numeral n) x"
  by (simp add: numeral_eq_Suc)

lemmas bitmap_eval = eof_code_bitmap_def bitvec_new_def eof_code_bitmap_internal.simps
  immediate_bits_def mark_bits.simps set_n_def upd_byte_def BITS_MASK_def is_code_segment_def index_at_def
  replicate_numeral

abbreviation (input) branch_code :: bytes where
  "branch_code \<equiv> [OP_PUSH1, 1, OP_RJUMPI, 0, 1, OP_STOP, OP_STOP]"

lemma branch_code_bitmap: "eof_code_bitmap branch_code = Ok [0x1A, 0, 0, 0, 0]"
  by (simp add: bitmap_eval Let_def get_or_default_def)

lemma branch_code_valid:
  "validate_code branch_code 0 [\<lparr>inputs = 0, outputs = 0, max_stack_height = 1\<rparr>] = Ok ()"
  by (simp add: validate_eval branch_code_bitmap is_code_segment_def index_at_def)

theorem validated_code_safe_witness:
  "small_jump_tables branch_code \<and> 6 < length branch_code \<and> instr_start branch_code 6
     \<and> instr_ok branch_code [\<lparr>inputs = 0, outputs = 0, max_stack_height = 1\<rparr>]
         \<lparr>inputs = 0, outputs = 0, max_stack_height = 1\<rparr> 6 0"
proof -
  let ?m = "\<lparr>inputs = 0, outputs = 0, max_stack_height = 1\<rparr>"
  have small: "small_jump_tables branch_code"
    by (rule no_jump_table) simp
  have push: "OPCODE_INFO OP_PUSH1 = Some push_info"
    by (simp add: OPCODE_INFO_def opcode_info_entries_def opcode_info_defs upt_rec)
  have "flow_reach branch_code [?m] ?m 0 0"
    using reach_first [of branch_code "[?m]" ?m] by simp
  then have "flow_reach branch_code [?m] ?m 2 1"
  proof (rule reach_next)
    have "0 + 1 + immediate_size branch_code 0 = 2" by (simp add: immediate_size_def)
    moreover have "height_after push_info 0 = 1"
      by (simp add: height_after_def push_info_def max_stack_of_def STACK_LIMIT_def CONTAINER_STACK_LIMIT_def)
    moreover have "flow_step branch_code [?m] (0, 0)
        (0 + 1 + immediate_size branch_code 0, height_after push_info 0)"
      by (rule step_simple) (simp_all add: push push_info_def)
    ultimately show "flow_step branch_code [?m] (0, 0) (2, 1)" by (simp only:)
  qed simp
  then have "flow_reach branch_code [?m] ?m 6 0"
  proof (rule reach_next)
    have "flow_step branch_code [?m] (2, 1)
        (6, height_after \<lparr>min_stack = 1, max_stack = 1025, terminal = False\<rparr> 1)"
      by (rule step_rjumpi [OF _ OPCODE_INFO_branch(1)])
         (simp_all add: jump_target_def get_i16_or_default_def from_be_def usize_of_int_def)
    then show "flow_step branch_code [?m] (2, 1) (6, 0)"
      by (simp add: height_after_def CONTAINER_STACK_LIMIT_def)
  qed simp
  from validated_code_safe [OF small _ branch_code_valid, simplified, OF this] small
  show ?thesis by simp
qed

text \<open>
  Three ways in which the scan differs from the rules it implements (EIP-3670, EIP-4200): the branch
  count of a jump table overwrites the number of instructions, so that a table whose code is all
  reachable is rejected and code with an unreachable instruction is accepted; and the test for a
  deprecated opcode is a conjunction that no opcode satisfies.
\<close>

lemma rjumpv_table_rejected:
  "validate_code [OP_PUSH0, OP_RJUMPV, 1, 0, 0, OP_STOP] 0
      [\<lparr>inputs = 0, outputs = 0, max_stack_height = 1\<rparr>] = Err (ValidationError ValidationUnreachableCode)"
proof -
  have b: "eof_code_bitmap [OP_PUSH0, OP_RJUMPV, 1, 0, 0, OP_STOP] = Ok [0x1C, 0, 0, 0, 0]"
    by (simp add: bitmap_eval Let_def get_or_default_def)
  show ?thesis by (simp add: validate_eval b is_code_segment_def index_at_def)
qed

lemma rjumpv_unreachable_accepted:
  "validate_code [OP_PUSH0, OP_RJUMPV, 1, 0, 0, OP_STOP, OP_STOP] 0
      [\<lparr>inputs = 0, outputs = 0, max_stack_height = 1\<rparr>] = Ok ()"
proof -
  have b: "eof_code_bitmap [OP_PUSH0, OP_RJUMPV, 1, 0, 0, OP_STOP, OP_STOP] = Ok [0x1C, 0, 0, 0, 0]"
    by (simp add: bitmap_eval Let_def get_or_default_def)
  show ?thesis by (simp add: validate_eval b is_code_segment_def index_at_def)
qed

lemma deprecated_accepted:
  "validate_code [0x58, OP_POP, OP_STOP] 0 [\<lparr>inputs = 0, outputs = 0, max_stack_height = 1\<rparr>] = Ok ()"
  by (simp add: validate_eval)

section \<open>Properties\<close>

text \<open>C22: validation ends for every container, with success or with an error, and never with a panic:
  both the scan and the search over the control flow stay inside the code.\<close>

theorem validation_never_panics: "validate_container c = Ok () \<or> (\<exists>e. validate_container c = Err e)"
  using validate_container_total [of c] by (cases "validate_container c") auto

text \<open>The branch count of a jump table overwrites the number of instructions that the control flow
  is compared with: a table whose code is all reachable is rejected as unreachable, and code whose last
  instruction is unreachable passes.\<close>

theorem jump_table_count_mistaken:
  "validate_code [OP_PUSH0, OP_RJUMPV, 1, 0, 0, OP_STOP] 0
      [\<lparr>inputs = 0, outputs = 0, max_stack_height = 1\<rparr>] = Err (ValidationError ValidationUnreachableCode)
   \<and> validate_code [OP_PUSH0, OP_RJUMPV, 1, 0, 0, OP_STOP, OP_STOP] 0
      [\<lparr>inputs = 0, outputs = 0, max_stack_height = 1\<rparr>] = Ok ()"
  by (simp only: rjumpv_table_rejected rjumpv_unreachable_accepted simp_thms)

end
