(* ===== verification/Transaction.thy ===== *)
theory Transaction
  imports Buffer
begin

text \<open>
  Ethereum transactions (\<open>program/src/types/transaction.rs\<close>): the two payloads that the program
  accepts and the accessors that the machine reads them with.
\<close>

record legacy_tx =
  l_nonce :: u64
  l_gas_price :: u256
  l_gas_limit :: u256
  l_target :: "address option"
  l_value :: u256
  l_call_data :: buffer
  l_v :: u256
  l_r :: u256
  l_s :: u256
  l_chain_id :: "u256 option"
  l_recovery_id :: u8

record access_list_tx =
  a_nonce :: u64
  a_gas_price :: u256
  a_gas_limit :: u256
  a_target :: "address option"
  a_value :: u256
  a_call_data :: buffer
  a_r :: u256
  a_s :: u256
  a_chain_id :: u256
  a_recovery_id :: u8
  a_access_list :: "(address \<times> bytes32 list) list"

datatype transaction_payload = Legacy legacy_tx | AccessList access_list_tx

record transaction =
  tx_payload :: transaction_payload
  tx_byte_len :: usize
  tx_hash :: bytes32
  tx_signed_hash :: bytes32

definition trx_nonce :: "transaction \<Rightarrow> u64" where
  "trx_nonce t = (case tx_payload t of Legacy l \<Rightarrow> l_nonce l | AccessList a \<Rightarrow> a_nonce a)"

definition trx_gas_price :: "transaction \<Rightarrow> u256" where
  "trx_gas_price t = (case tx_payload t of Legacy l \<Rightarrow> l_gas_price l | AccessList a \<Rightarrow> a_gas_price a)"

definition trx_gas_limit :: "transaction \<Rightarrow> u256" where
  "trx_gas_limit t = (case tx_payload t of Legacy l \<Rightarrow> l_gas_limit l | AccessList a \<Rightarrow> a_gas_limit a)"

definition trx_target :: "transaction \<Rightarrow> address option" where
  "trx_target t = (case tx_payload t of Legacy l \<Rightarrow> l_target l | AccessList a \<Rightarrow> a_target a)"

definition trx_value :: "transaction \<Rightarrow> u256" where
  "trx_value t = (case tx_payload t of Legacy l \<Rightarrow> l_value l | AccessList a \<Rightarrow> a_value a)"

definition trx_call_data :: "transaction \<Rightarrow> buffer" where
  "trx_call_data t = (case tx_payload t of Legacy l \<Rightarrow> l_call_data l | AccessList a \<Rightarrow> a_call_data a)"

text \<open>\<open>extract_call_data\<close> takes the buffer and leaves an empty one.\<close>

definition trx_extract_call_data :: "transaction \<Rightarrow> buffer \<times> transaction" where
  "trx_extract_call_data t =
    (trx_call_data t,
     t\<lparr>tx_payload := (case tx_payload t of
         Legacy l \<Rightarrow> Legacy (l\<lparr>l_call_data := buf_empty\<rparr>)
       | AccessList a \<Rightarrow> AccessList (a\<lparr>a_call_data := buf_empty\<rparr>))\<rparr>)"

definition trx_r :: "transaction \<Rightarrow> u256" where
  "trx_r t = (case tx_payload t of Legacy l \<Rightarrow> l_r l | AccessList a \<Rightarrow> a_r a)"

definition trx_s :: "transaction \<Rightarrow> u256" where
  "trx_s t = (case tx_payload t of Legacy l \<Rightarrow> l_s l | AccessList a \<Rightarrow> a_s a)"

definition trx_chain_id :: "transaction \<Rightarrow> u256 option" where
  "trx_chain_id t = (case tx_payload t of Legacy l \<Rightarrow> l_chain_id l | AccessList a \<Rightarrow> Some (a_chain_id a))"

definition trx_recovery_id :: "transaction \<Rightarrow> u8" where
  "trx_recovery_id t = (case tx_payload t of Legacy l \<Rightarrow> l_recovery_id l | AccessList a \<Rightarrow> a_recovery_id a)"

end
