(* ===== verification/Built_Ins.thy ===== *)
theory Built_Ins
  imports Errors
begin

text \<open>
  The built-in contracts (\<open>program/src/evm/precompile\<close>): which addresses they have, what they do with an input that is too
  short or too long, and the compression function of BLAKE2b in full.  The hash functions, the recovery of a public key and
  the arithmetic of big numbers and curves are of other crates (\<open>crypto\<close>).
\<close>

unbundle bit_operations_syntax

record crypto =
  cr_sha256 :: "bytes \<Rightarrow> bytes32"
  cr_ripemd160 :: "bytes \<Rightarrow> 160 word"
  cr_recover :: "bytes \<Rightarrow> u8 \<Rightarrow> bytes \<Rightarrow> bytes option"
  cr_big_mod_exp :: "bytes \<Rightarrow> bytes \<Rightarrow> bytes \<Rightarrow> bytes"
  cr_bn_addition :: "bytes \<Rightarrow> bytes option"
  cr_bn_multiplication :: "bytes \<Rightarrow> bytes option"
  cr_bn_pairing :: "bytes \<Rightarrow> bytes option"
  cr_addition_len :: usize
  cr_multiplication_len :: usize
  cr_pairing_element_len :: usize

section \<open>Hashes and signatures\<close>

definition sha256 :: "crypto \<Rightarrow> bytes \<Rightarrow> bytes" where
  "sha256 K input = be_bytes 32 (cr_sha256 K input)"

definition ripemd160 :: "crypto \<Rightarrow> bytes \<Rightarrow> bytes" where
  "ripemd160 K input = replicate 12 0 @ be_bytes 20 (cr_ripemd160 K input)"

definition datacopy :: "bytes \<Rightarrow> bytes" where
  "datacopy input = input"

text \<open>The first \<open>n\<close> bytes of the input, or all of it with zeros behind\<close>

definition fit :: "nat \<Rightarrow> bytes \<Rightarrow> bytes" where
  "fit n input = (if n \<le> length input then take n input else input @ replicate (n - length input) 0)"

definition ecrecover :: "(bytes \<Rightarrow> bytes32) \<Rightarrow> crypto \<Rightarrow> bytes \<Rightarrow> bytes" where
  "ecrecover keccak K input =
    (let input = fit 128 input;
         msg = take 32 input;
         v = from_be (take 32 (drop 32 input)) :: u256;
         sig = drop 64 input in
     if \<not> (27 \<le> v \<and> v \<le> 30) then []
     else
       let recovery_id = (ucast v :: u8) - 27 in
       case cr_recover K msg recovery_id sig of
         None \<Rightarrow> []
       | Some public_key \<Rightarrow> replicate 12 0 @ drop 12 (be_bytes 32 (keccak public_key)))"

section \<open>Big numbers\<close>

text \<open>\<open>slice::split_at\<close> panics behind the end.\<close>

definition split_slice :: "nat \<Rightarrow> bytes \<Rightarrow> (bytes \<times> bytes) result" where
  "split_slice n bs = (if n \<le> length bs then Ok (take n bs, drop n bs) else Panic)"

text \<open>\<open>usize::try_from(U256)\<close>\<close>

definition usize_of_u256 :: "u256 \<Rightarrow> usize option" where
  "usize_of_u256 v = (if unat v < usize_bound then Some (unat v) else None)"

definition big_mod_exp :: "crypto \<Rightarrow> bytes \<Rightarrow> bytes result" where
  "big_mod_exp K input =
    (if length input < 96 then Ok []
     else
       let base_len = from_be (take 32 input) :: u256;
           exp_len = from_be (take 32 (drop 32 input)) :: u256;
           mod_len = from_be (take 32 (drop 64 input)) :: u256;
           rest = drop 96 input in
       case usize_of_u256 base_len of None \<Rightarrow> Ok []
       | Some base_len \<Rightarrow>
      (case usize_of_u256 exp_len of None \<Rightarrow> Ok []
       | Some exp_len \<Rightarrow>
      (case usize_of_u256 mod_len of None \<Rightarrow> Ok []
       | Some mod_len \<Rightarrow>
           if base_len = 0 \<and> mod_len = 0 then Ok (replicate 32 0)
           else
             rbind (split_slice base_len rest) (\<lambda>(base_val, rest).
             rbind (split_slice exp_len rest) (\<lambda>(exp_val, rest).
             rbind (split_slice mod_len rest) (\<lambda>(mod_val, _).
             Ok (cr_big_mod_exp K base_val exp_val mod_val)))))))"

section \<open>The curve bn256\<close>

definition bn256_add :: "crypto \<Rightarrow> bytes \<Rightarrow> bytes result" where
  "bn256_add K input = unwrap (cr_bn_addition K (fit (cr_addition_len K) input))"

definition bn256_scalar_mul :: "crypto \<Rightarrow> bytes \<Rightarrow> bytes result" where
  "bn256_scalar_mul K input = unwrap (cr_bn_multiplication K (fit (cr_multiplication_len K) input))"

definition bn256_pairing :: "crypto \<Rightarrow> bytes \<Rightarrow> bytes result" where
  "bn256_pairing K input =
    (if input = [] then Ok (be_bytes 32 (1 :: u256))
     else if length input mod cr_pairing_element_len K \<noteq> 0 then Ok (be_bytes 32 (0 :: u256))
     else unwrap (cr_bn_pairing K input))"

section \<open>BLAKE2b\<close>

definition BLAKE2_SIGMA :: "nat list list" where
  "BLAKE2_SIGMA =
    [[0, 1, 2, 3, 4, 5, 6, 7, 8, 9, 10, 11, 12, 13, 14, 15],
     [14, 10, 4, 8, 9, 15, 13, 6, 1, 12, 0, 2, 11, 7, 5, 3],
     [11, 8, 12, 0, 5, 2, 15, 13, 10, 14, 3, 6, 7, 1, 9, 4],
     [7, 9, 3, 1, 13, 12, 11, 14, 2, 6, 5, 10, 4, 0, 15, 8],
     [9, 0, 5, 7, 2, 4, 10, 15, 14, 1, 11, 12, 6, 8, 3, 13],
     [2, 12, 6, 10, 0, 11, 8, 3, 4, 13, 7, 5, 15, 14, 1, 9],
     [12, 5, 1, 15, 14, 13, 4, 10, 0, 7, 6, 3, 9, 2, 8, 11],
     [13, 11, 7, 14, 12, 1, 3, 9, 5, 0, 15, 4, 8, 6, 2, 10],
     [6, 15, 14, 9, 11, 3, 0, 8, 12, 2, 13, 7, 1, 4, 10, 5],
     [10, 2, 8, 4, 7, 6, 1, 5, 15, 11, 9, 14, 3, 12, 13, 0]]"

definition BLAKE2_IV :: "u64 list" where
  "BLAKE2_IV = [0x6a09e667f3bcc908, 0xbb67ae8584caa73b, 0x3c6ef372fe94f82b, 0xa54ff53a5f1d36f1,
     0x510e527fade682d1, 0x9b05688c2b3e6c1f, 0x1f83d9abfb41bd6b, 0x5be0cd19137e2179]"

text \<open>The closure \<open>g\<close>, assignment by assignment\<close>

definition blake2_g :: "nat \<Rightarrow> nat \<Rightarrow> nat \<Rightarrow> nat \<Rightarrow> u64 \<Rightarrow> u64 \<Rightarrow> u64 list \<Rightarrow> u64 list" where
  "blake2_g a b c d x y v =
    (let v = v[a := v ! a + v ! b + x];
         v = v[d := word_rotr 32 (v ! d XOR v ! a)];
         v = v[c := v ! c + v ! d];
         v = v[b := word_rotr 24 (v ! b XOR v ! c)];
         v = v[a := v ! a + v ! b + y];
         v = v[d := word_rotr 16 (v ! d XOR v ! a)];
         v = v[c := v ! c + v ! d];
         v = v[b := word_rotr 63 (v ! b XOR v ! c)] in v)"

definition blake2_round :: "u64 list \<Rightarrow> u64 list \<Rightarrow> nat \<Rightarrow> u64 list" where
  "blake2_round m v i =
    (let s = BLAKE2_SIGMA ! (i mod 10);
         v = blake2_g 0 4 8 12 (m ! (s ! 0)) (m ! (s ! 1)) v;
         v = blake2_g 1 5 9 13 (m ! (s ! 2)) (m ! (s ! 3)) v;
         v = blake2_g 2 6 10 14 (m ! (s ! 4)) (m ! (s ! 5)) v;
         v = blake2_g 3 7 11 15 (m ! (s ! 6)) (m ! (s ! 7)) v;
         v = blake2_g 0 5 10 15 (m ! (s ! 8)) (m ! (s ! 9)) v;
         v = blake2_g 1 6 11 12 (m ! (s ! 10)) (m ! (s ! 11)) v;
         v = blake2_g 2 7 8 13 (m ! (s ! 12)) (m ! (s ! 13)) v;
         v = blake2_g 3 4 9 14 (m ! (s ! 14)) (m ! (s ! 15)) v in v)"

definition blake2_compress :: "u64 list \<Rightarrow> u64 list \<Rightarrow> u64 \<Rightarrow> u64 \<Rightarrow> bool \<Rightarrow> nat \<Rightarrow> u64 list" where
  "blake2_compress h m t0 t1 f rounds =
    (let v = h @ BLAKE2_IV;
         v = v[12 := v ! 12 XOR t0];
         v = v[13 := v ! 13 XOR t1];
         v = (if f then v[14 := NOT (v ! 14)] else v);
         v = foldl (blake2_round m) v [0..<rounds] in
     map (\<lambda>i. h ! i XOR (v ! i XOR v ! (i + 8))) [0..<8])"

text \<open>\<open>n\<close> little-endian words of eight bytes\<close>

definition read_words :: "nat \<Rightarrow> bytes \<Rightarrow> u64 list" where
  "read_words n bs = map (\<lambda>i. from_le (take 8 (drop (i * 8) bs))) [0..<n]"

definition BLAKE2_F_ARG_LEN :: usize where
  "BLAKE2_F_ARG_LEN = 213"

definition blake2_f :: "bytes \<Rightarrow> bytes" where
  "blake2_f input =
    (if length input \<noteq> BLAKE2_F_ARG_LEN then []
     else
       let rounds = from_be (take 4 input) :: u32; input = drop 4 input;
           h = read_words 8 (take 64 input); input = drop 64 input;
           m = read_words 16 (take 128 input); input = drop 128 input;
           t_0 = from_le (take 8 input) :: u64; input = drop 8 input;
           t_1 = from_le (take 8 input) :: u64; input = drop 8 input in
       if input ! 0 = 1 then concat (map (le_bytes 8) (blake2_compress h m t_0 t_1 True (unat rounds)))
       else if input ! 0 = 0 then concat (map (le_bytes 8) (blake2_compress h m t_0 t_1 False (unat rounds)))
       else [])"

section \<open>Their addresses\<close>

definition is_precompile_address :: "address \<Rightarrow> bool" where
  "is_precompile_address a \<longleftrightarrow> a = 1 \<or> a = 2 \<or> a = 3 \<or> a = 4 \<or> a = 5 \<or> a = 6 \<or> a = 7 \<or> a = 8 \<or> a = 9"

definition precompile :: "(bytes \<Rightarrow> bytes32) \<Rightarrow> crypto \<Rightarrow> address \<Rightarrow> bytes \<Rightarrow> bytes option result" where
  "precompile keccak K a data =
    (if a = 1 then Ok (Some (ecrecover keccak K data))
     else if a = 2 then Ok (Some (sha256 K data))
     else if a = 3 then Ok (Some (ripemd160 K data))
     else if a = 4 then Ok (Some (datacopy data))
     else if a = 5 then rbind (big_mod_exp K data) (\<lambda>r. Ok (Some r))
     else if a = 6 then rbind (bn256_add K data) (\<lambda>r. Ok (Some r))
     else if a = 7 then rbind (bn256_scalar_mul K data) (\<lambda>r. Ok (Some r))
     else if a = 8 then rbind (bn256_pairing K data) (\<lambda>r. Ok (Some r))
     else if a = 9 then Ok (Some (blake2_f data))
     else Ok None)"

section \<open>The compression function of RFC 7693\<close>

text \<open>The mixing function on four words; the working vector as a matrix of four rows, whose columns, and then whose
  diagonals, are mixed independently of each other.\<close>

definition mixed :: "u64 \<Rightarrow> u64 \<Rightarrow> u64 \<Rightarrow> u64 \<Rightarrow> u64 \<Rightarrow> u64 \<Rightarrow> u64 \<times> u64 \<times> u64 \<times> u64" where
  "mixed a b c d x y =
    (let a1 = a + b + x; d1 = word_rotr 32 (d XOR a1); c1 = c + d1; b1 = word_rotr 24 (b XOR c1);
         a2 = a1 + b1 + y; d2 = word_rotr 16 (d1 XOR a2); c2 = c1 + d2 in
     (a2, word_rotr 63 (b1 XOR c2), c2, d2))"

definition in_row :: "nat \<Rightarrow> u64 \<times> u64 \<times> u64 \<times> u64 \<Rightarrow> u64" where
  "in_row r q = (case q of (a, b, c, d) \<Rightarrow> if r = 0 then a else if r = 1 then b else if r = 2 then c else d)"

text \<open>Row \<open>r\<close> is read and written turned left by \<open>r * turn\<close> places.\<close>

definition mix_columns :: "nat \<Rightarrow> (nat \<Rightarrow> u64) \<Rightarrow> (nat \<Rightarrow> u64) \<Rightarrow> u64 list \<Rightarrow> u64 list" where
  "mix_columns turn x y v = map (\<lambda>i.
     let r = i div 4; k = (i mod 4 + (4 - r * turn)) mod 4;
         at = (\<lambda>r. v ! (4 * r + (k + r * turn) mod 4)) in
     in_row r (mixed (at 0) (at 1) (at 2) (at 3) (x k) (y k))) [0..<16]"

definition spec_round :: "u64 list \<Rightarrow> u64 list \<Rightarrow> nat \<Rightarrow> u64 list" where
  "spec_round m v i =
    (let word = (\<lambda>k. m ! (BLAKE2_SIGMA ! (i mod 10) ! k)) in
     mix_columns 1 (\<lambda>k. word (8 + 2 * k)) (\<lambda>k. word (9 + 2 * k))
       (mix_columns 0 (\<lambda>k. word (2 * k)) (\<lambda>k. word (2 * k + 1)) v))"

definition blake2_spec :: "u64 list \<Rightarrow> u64 list \<Rightarrow> u64 \<Rightarrow> u64 \<Rightarrow> bool \<Rightarrow> nat \<Rightarrow> u64 list" where
  "blake2_spec h m t0 t1 f rounds =
    (let low = BLAKE2_IV ! 4 XOR t0; high = BLAKE2_IV ! 5 XOR t1; last = (if f then NOT (BLAKE2_IV ! 6) else BLAKE2_IV ! 6);
         v = foldl (spec_round m) (h @ take 4 BLAKE2_IV @ [low, high, last, BLAKE2_IV ! 7]) [0..<rounds] in
     map (\<lambda>i. h ! i XOR v ! i XOR v ! (i + 8)) [0..<8])"

lemma updates_overwrite:
  assumes "distinct [a, b, c, d]" and "a < length v" "b < length v" "c < length v" "d < length v"
  shows "v[a := p, d := q, c := r, b := t, a := p', d := q', c := r', b := t'] = v[a := p', b := t', c := r', d := q']"
  using assms by (intro nth_equalityI) (auto simp: nth_list_update)

lemma blake2_g_mixed:
  assumes "distinct [a, b, c, d]" and "a < length v" "b < length v" "c < length v" "d < length v"
  shows "blake2_g a b c d x y v = (let q = mixed (v ! a) (v ! b) (v ! c) (v ! d) x y in
    v[a := in_row 0 q, b := in_row 1 q, c := in_row 2 q, d := in_row 3 q])"
  using assms by (simp add: blake2_g_def mixed_def in_row_def Let_def updates_overwrite)

lemma list16:
  assumes "length v = 16"
  shows "v = [v ! 0, v ! 1, v ! 2, v ! 3, v ! 4, v ! 5, v ! 6, v ! 7, v ! 8, v ! 9, v ! 10, v ! 11, v ! 12, v ! 13, v ! 14, v ! 15]"
  using assms by (intro nth_equalityI) (auto simp: less_Suc_eq numeral_eq_Suc)

lemma upt16: "[0..<16] = [0, 1, 2, 3, 4, 5, 6, 7, 8, 9, 10, 11, 12, 13, 14, 15 :: nat]"
  by (simp add: upt_rec)

lemma case_nat_1: "(case 1 of 0 \<Rightarrow> a | Suc j \<Rightarrow> f j) = f 0"
  by simp

lemma mix_columns_eq:
  assumes "length v = 16"
  shows "blake2_g 3 7 11 15 (x 3) (y 3) (blake2_g 2 6 10 14 (x 2) (y 2) (blake2_g 1 5 9 13 (x 1) (y 1)
      (blake2_g 0 4 8 12 (x 0) (y 0) v))) = mix_columns 0 x y v"
  by (subst (1 2) list16 [OF assms]) (simp del: One_nat_def add: blake2_g_mixed mix_columns_def Let_def upt16 case_nat_1)

lemma mix_diagonals_eq:
  assumes "length v = 16"
  shows "blake2_g 3 4 9 14 (x 3) (y 3) (blake2_g 2 7 8 13 (x 2) (y 2) (blake2_g 1 6 11 12 (x 1) (y 1)
      (blake2_g 0 5 10 15 (x 0) (y 0) v))) = mix_columns 1 x y v"
  by (subst (1 2) list16 [OF assms]) (simp del: One_nat_def add: blake2_g_mixed mix_columns_def Let_def upt16 case_nat_1, simp add: numeral_2_eq_2)

lemma length_mix_columns [simp]: "length (mix_columns t x y v) = 16"
  by (simp add: mix_columns_def)

lemma blake2_round_eq: "length v = 16 \<Longrightarrow> blake2_round m v i = spec_round m v i"
  using mix_columns_eq [of v "\<lambda>k. m ! (BLAKE2_SIGMA ! (i mod 10) ! (2 * k))" "\<lambda>k. m ! (BLAKE2_SIGMA ! (i mod 10) ! (2 * k + 1))"]
    mix_diagonals_eq [of "mix_columns 0 (\<lambda>k. m ! (BLAKE2_SIGMA ! (i mod 10) ! (2 * k))) (\<lambda>k. m ! (BLAKE2_SIGMA ! (i mod 10) ! (2 * k + 1))) v"
      "\<lambda>k. m ! (BLAKE2_SIGMA ! (i mod 10) ! (8 + 2 * k))" "\<lambda>k. m ! (BLAKE2_SIGMA ! (i mod 10) ! (9 + 2 * k))"]
  by (simp add: blake2_round_def spec_round_def Let_def)

lemma length_spec_round [simp]: "length (spec_round m v i) = 16"
  by (simp add: spec_round_def Let_def)

lemma blake2_rounds_eq: "length v = 16 \<Longrightarrow> foldl (blake2_round m) v is = foldl (spec_round m) v is"
  by (induction "is" arbitrary: v) (simp_all add: blake2_round_eq)

lemma blake2_compress_eq:
  assumes "length h = 8"
  shows "blake2_compress h m t0 t1 f rounds = blake2_spec h m t0 t1 f rounds"
proof -
  have start: "(let v = h @ BLAKE2_IV; v = v[12 := v ! 12 XOR t0]; v = v[13 := v ! 13 XOR t1] in if f then v[14 := NOT (v ! 14)] else v)
      = h @ take 4 BLAKE2_IV @ [BLAKE2_IV ! 4 XOR t0, BLAKE2_IV ! 5 XOR t1, if f then NOT (BLAKE2_IV ! 6) else BLAKE2_IV ! 6, BLAKE2_IV ! 7]"
    using assms by (simp add: BLAKE2_IV_def Let_def list_update_append nth_append)
  have len: "length (h @ take 4 BLAKE2_IV @ [BLAKE2_IV ! 4 XOR t0, BLAKE2_IV ! 5 XOR t1, b, BLAKE2_IV ! 7]) = 16" for b
    using assms by (simp add: BLAKE2_IV_def)
  show ?thesis
    unfolding blake2_compress_def blake2_spec_def Let_def start [unfolded Let_def] blake2_rounds_eq [OF len] by (simp add: xor.assoc)
qed

lemma read_words_back: "length ws = n \<Longrightarrow> read_words n (concat (map (le_bytes 8) ws)) = ws"
proof (induction ws arbitrary: n)
  case (Cons w ws)
  then obtain k where n: "n = Suc k" "length ws = k" by auto
  have "read_words (Suc k) (le_bytes 8 w @ concat (map (le_bytes 8) ws)) = w # read_words k (concat (map (le_bytes 8) ws))"
    by (simp add: read_words_def upt_conv_Cons map_Suc_upt [symmetric] codec del: upt_Suc)
  then show ?case using Cons.IH [OF n(2)] n(1) by simp
qed (simp add: read_words_def)

lemma length_concat_words [simp]: "length (concat (map (le_bytes 8) ws)) = 8 * length ws"
  by (induction ws) auto

text \<open>C8: the compression contract computes the function \<open>F\<close> of RFC 7693 on the words that its input encodes, and answers
  an input of another length, or with another flag, with no bytes.\<close>

theorem blake2_f_correct:
  assumes "length h = 8" and "length m = 16"
  shows "(let input = be_bytes 4 (rounds :: u32) @ concat (map (le_bytes 8) h) @ concat (map (le_bytes 8) m)
            @ le_bytes 8 t0 @ le_bytes 8 t1 @ [flag] in
      blake2_f input = (if flag = 0 \<or> flag = 1 then concat (map (le_bytes 8) (blake2_spec h m t0 t1 (flag = 1) (unat rounds))) else []))
    \<and> (length other \<noteq> 213 \<longrightarrow> blake2_f other = [])"
proof -
  have "length (be_bytes 4 rounds @ concat (map (le_bytes 8) h) @ concat (map (le_bytes 8) m) @ le_bytes 8 t0 @ le_bytes 8 t1 @ [flag])
      = BLAKE2_F_ARG_LEN"
    using assms by (simp add: BLAKE2_F_ARG_LEN_def)
  then show ?thesis
    using assms by (simp add: blake2_f_def Let_def codec read_words_back blake2_compress_eq BLAKE2_F_ARG_LEN_def)
qed

theorem blake2_f_correct_witness:
  "blake2_f (be_bytes 4 (0 :: u32) @ concat (map (le_bytes 8) (replicate 8 (0 :: u64))) @ concat (map (le_bytes 8) (replicate 16 (0 :: u64)))
      @ le_bytes 8 (7 :: u64) @ le_bytes 8 (0 :: u64) @ [0])
    = concat (map (le_bytes 8) [0x6a09e667f3bcc908 :: u64, 0xbb67ae8584caa73b, 0x3c6ef372fe94f82b, 0xa54ff53a5f1d36f1,
        0x510e527fade682d6, 0x9b05688c2b3e6c1f, 0x1f83d9abfb41bd6b, 0x5be0cd19137e2179])
    \<and> blake2_f [1] = []"
  using blake2_f_correct [of "replicate 8 0" "replicate 16 0" 0 7 0 0 "[1]"] 
  by (simp add: blake2_spec_def BLAKE2_IV_def Let_def upt_rec nth_append)

text \<open>Lengths that point behind the end of the input are not padded with zeros: they panic.\<close>

lemma big_mod_exp_short_input:
  assumes "length input = 96" and "0 < unat (from_be (take 32 input) :: u256)"
    and "unat (from_be (take 32 input) :: u256) < usize_bound"
    and "unat (from_be (take 32 (drop 32 input)) :: u256) < usize_bound"
    and "unat (from_be (take 32 (drop 64 input)) :: u256) < usize_bound"
  shows "big_mod_exp K input = Panic"
  using assms by (simp add: big_mod_exp_def usize_of_u256_def split_slice_def Let_def)

text \<open>A built-in address always has an answer, or panics; any other address has none.\<close>

lemma precompile_None: "precompile keccak K a data = Ok None \<longleftrightarrow> \<not> is_precompile_address a"
  by (auto simp: precompile_def is_precompile_address_def rbind_Ok_iff)

lemma split_slice_no_error [simp]: "split_slice n bs \<noteq> Err e"
  by (simp add: split_slice_def)

lemma unwrap_no_error [simp]: "unwrap x \<noteq> Err e"
  by (cases x) simp_all

lemma rbind_no_error: "r \<noteq> Err e \<Longrightarrow> (\<And>x. f x \<noteq> Err e) \<Longrightarrow> rbind r f \<noteq> Err e"
  by (cases r) simp_all

lemma rbind_Err_iff: "rbind r f = Err e \<longleftrightarrow> r = Err e \<or> (\<exists>x. r = Ok x \<and> f x = Err e)"
  by (cases r) auto

lemma big_mod_exp_no_error: "big_mod_exp K input \<noteq> Err e"
  unfolding big_mod_exp_def Let_def by (auto simp: rbind_Err_iff split: option.split)

lemma precompile_no_error: "precompile keccak K a data \<noteq> Err e"
proof -
  have "bn256_add K data \<noteq> Err e" "bn256_scalar_mul K data \<noteq> Err e" "bn256_pairing K data \<noteq> Err e"
    by (simp_all add: bn256_add_def bn256_scalar_mul_def bn256_pairing_def)
  then show ?thesis by (simp add: precompile_def rbind_no_error big_mod_exp_no_error)
qed

end
