(* ===== verification/Machine.thy ===== *)
theory Machine
  imports Eof Validate Transaction Built_Ins
begin

text \<open>
  The state of the virtual machine and the operations on its call frames
  (\<open>program/src/evm/mod.rs\<close>, \<open>program/src/evm/database.rs\<close>, \<open>program/src/types/address.rs\<close>).

  In the source a \<open>Machine\<close> is one call frame that owns its caller through \<open>parent\<close>; \<open>self\<close> is always
  the innermost frame.  Here the frame is \<open>machine\<close> and the chain of boxes is the list \<open>parents\<close>
  of the state \<open>vm\<close>, which also carries the database that every operation receives by \<open>&mut\<close> and the
  data that was logged with \<open>sol_log_data\<close>.
\<close>

section \<open>The database interface\<close>

record call_context =
  ctx_caller :: address
  ctx_contract :: address
  ctx_value :: u256
  ctx_code_address :: "address option"

text \<open>
  The trait \<open>Database\<close>: reads take \<open>&self\<close>, the other operations \<open>&mut self\<close>.  \<open>precompile_extension\<close>
  returns \<open>None\<close> for an address that is not an extension.
\<close>

record 'b database =
  db_chain_id :: "'b \<Rightarrow> u256"
  db_nonce :: "address \<Rightarrow> 'b \<Rightarrow> u64 result"
  db_increment_nonce :: "address \<Rightarrow> ('b, unit) exec"
  db_balance :: "address \<Rightarrow> 'b \<Rightarrow> u256 result"
  db_transfer :: "address \<Rightarrow> address \<Rightarrow> u256 \<Rightarrow> ('b, unit) exec"
  db_code_size :: "address \<Rightarrow> 'b \<Rightarrow> usize result"
  db_code_hash :: "address \<Rightarrow> 'b \<Rightarrow> bytes32 result"
  db_code :: "address \<Rightarrow> 'b \<Rightarrow> buffer result"
  db_set_code :: "address \<Rightarrow> buffer \<Rightarrow> ('b, unit) exec"
  db_selfdestruct :: "address \<Rightarrow> ('b, unit) exec"
  db_storage :: "address \<Rightarrow> u256 \<Rightarrow> 'b \<Rightarrow> bytes32 result"
  db_set_storage :: "address \<Rightarrow> u256 \<Rightarrow> bytes32 \<Rightarrow> ('b, unit) exec"
  db_block_hash :: "u256 \<Rightarrow> 'b \<Rightarrow> bytes32 result"
  db_block_number :: "'b \<Rightarrow> u256 result"
  db_block_timestamp :: "'b \<Rightarrow> u256 result"
  db_snapshot :: "('b, unit) exec"
  db_revert_snapshot :: "('b, unit) exec"
  db_commit_snapshot :: "('b, unit) exec"
  db_precompile_extension :: "call_context \<Rightarrow> address \<Rightarrow> bytes \<Rightarrow> bool \<Rightarrow> ('b, bytes option) exec"

text \<open>
  What the machine uses of code outside the repository: the hash function, the RLP encoding of an
  address with a nonce, and the text of an error (\<open>thiserror\<close>); and what the built-in contracts use.
\<close>

record env =
  env_keccak :: "bytes \<Rightarrow> bytes32"
  env_rlp_create :: "address \<Rightarrow> u64 \<Rightarrow> bytes"
  env_error_string :: "error \<Rightarrow> bytes"
  env_crypto :: crypto

section \<open>Addresses\<close>

definition from_create :: "env \<Rightarrow> address \<Rightarrow> u64 \<Rightarrow> address" where
  "from_create E source nonce = ucast (env_keccak E (env_rlp_create E source nonce))"

definition from_create2 :: "env \<Rightarrow> address \<Rightarrow> bytes32 \<Rightarrow> bytes \<Rightarrow> address" where
  "from_create2 E source salt initialization_code =
     ucast (env_keccak E ([0xFF] @ be_bytes 20 source @ be_bytes 32 salt
       @ be_bytes 32 (env_keccak E initialization_code)))"

section \<open>The machine\<close>

datatype reason = Call | Create

record return_context =
  rc_section :: usize
  rc_pc :: usize
  rc_stack_height :: usize

record machine =
  m_origin :: address
  m_context :: call_context
  m_gas_price :: u256
  m_gas_limit :: u256
  m_execution_code :: buffer
  m_container :: "container option"
  m_call_data :: buffer
  m_return_data :: buffer
  m_return_range :: "usize \<times> usize"
  m_stack :: evm_stack
  m_memory :: memory
  m_pc :: usize
  m_code_section :: usize
  m_return_stack :: "return_context list"
  m_is_static :: bool
  m_reason :: reason

record 'b vm =
  cur :: machine
  parents :: "machine list"
  db :: 'b
  logs :: "bytes list list"

datatype action =
    ActContinue
  | ActJump usize
  | ActStop
  | ActReturn bytes
  | ActRevert bytes
  | ActCodeSection usize usize
  | ActSuicide
  | ActNoop

datatype exit_status =
    ExitStop
  | ExitReturn bytes
  | ExitRevert bytes
  | ExitSuicide
  | ExitStepLimit

definition is_succeed :: "exit_status \<Rightarrow> bool option" where
  "is_succeed st = (case st of ExitStop \<Rightarrow> Some True | ExitReturn _ \<Rightarrow> Some True | ExitSuicide \<Rightarrow> Some True
     | ExitRevert _ \<Rightarrow> Some False | ExitStepLimit \<Rightarrow> None)"

definition into_result :: "exit_status \<Rightarrow> bytes option" where
  "into_result st = (case st of ExitReturn v \<Rightarrow> Some v | ExitRevert v \<Rightarrow> Some v | _ \<Rightarrow> None)"

text \<open>A \<open>Vec\<close> that is used as a stack grows at its end; the lists here grow at the head.\<close>

definition first_return_stack :: "return_context list" where
  "first_return_stack = [\<lparr>rc_section = 0, rc_pc = 0, rc_stack_height = 0\<rparr>]"

subsection \<open>Access to the parts of the state\<close>

definition on_stack :: "(evm_stack, 'a) exec \<Rightarrow> ('b vm, 'a) exec" where
  "on_stack = zoom (\<lambda>s. m_stack (cur s)) (\<lambda>x s. s\<lparr>cur := (cur s)\<lparr>m_stack := x\<rparr>\<rparr>)"

definition on_memory :: "(memory, 'a) exec \<Rightarrow> ('b vm, 'a) exec" where
  "on_memory = zoom (\<lambda>s. m_memory (cur s)) (\<lambda>x s. s\<lparr>cur := (cur s)\<lparr>m_memory := x\<rparr>\<rparr>)"

definition on_db :: "('b, 'a) exec \<Rightarrow> ('b vm, 'a) exec" where
  "on_db = zoom db (\<lambda>x s. s\<lparr>db := x\<rparr>)"

definition from_db :: "('b \<Rightarrow> 'a result) \<Rightarrow> ('b vm, 'a) exec" where
  "from_db f = reads (\<lambda>s. f (db s))"

definition self :: "(machine \<Rightarrow> 'a) \<Rightarrow> ('b vm, 'a) exec" where
  "self f = gets (\<lambda>s. f (cur s))"

definition set_self :: "(machine \<Rightarrow> machine) \<Rightarrow> ('b vm, unit) exec" where
  "set_self f = modify (\<lambda>s. s\<lparr>cur := f (cur s)\<rparr>)"

definition sol_log_data :: "bytes list \<Rightarrow> ('b vm, unit) exec" where
  "sol_log_data d = modify (\<lambda>s. s\<lparr>logs := logs s @ [d]\<rparr>)"

definition ascii :: "string \<Rightarrow> bytes" where
  "ascii s = map of_char s"

lemmas vm_access = on_stack_def on_memory_def on_db_def from_db_def self_def set_self_def sol_log_data_def

subsection \<open>Frames\<close>

definition get_code_of :: "machine \<Rightarrow> bytes result" where
  "get_code_of m = (case m_container m of
     None \<Rightarrow> Ok (buf_bytes (m_execution_code m))
   | Some c \<Rightarrow> rbind (index_at (ccode c) (m_code_section m)) (\<lambda>b. Ok (buf_bytes b)))"

definition get_code :: "('b vm, bytes) exec" where
  "get_code = reads (\<lambda>s. get_code_of (cur s))"

definition read_container :: "reason \<Rightarrow> buffer \<Rightarrow> container option result" where
  "read_container rsn execution_code =
    (if has_eof_magic (buf_bytes execution_code) then
       rbind (unmarshal_binary (buf_bytes execution_code)) (\<lambda>c.
       rbind (if rsn = Create then validate_container c else Ok ()) (\<lambda>_. Ok (Some c)))
     else Ok None)"

definition fork :: "reason \<Rightarrow> call_context \<Rightarrow> buffer \<Rightarrow> buffer \<Rightarrow> u256 option \<Rightarrow> ('b vm, unit) exec" where
  "fork rsn ctx execution_code call_data gas_limit =
    and_then (lift (read_container rsn execution_code)) (\<lambda>c.
    modify (\<lambda>s.
      let m = cur s;
          other = \<lparr>m_origin = m_origin m, m_context = ctx, m_gas_price = m_gas_price m,
            m_gas_limit = (case gas_limit of Some g \<Rightarrow> g | None \<Rightarrow> m_gas_limit m),
            m_execution_code = execution_code, m_container = c, m_call_data = call_data,
            m_return_data = buf_empty, m_return_range = (0, 0), m_stack = [], m_memory = mem_new,
            m_pc = 0, m_code_section = 0, m_return_stack = first_return_stack,
            m_is_static = m_is_static m, m_reason = rsn\<rparr>
      in s\<lparr>cur := other, parents := m # parents s\<rparr>))"

definition join :: "('b vm, machine) exec" where
  "join = (\<lambda>s. case parents s of
     [] \<Rightarrow> (Panic, s)
   | p # ps \<Rightarrow> (Ok (cur s), s\<lparr>cur := p, parents := ps\<rparr>))"

definition has_no_parent :: "('b vm, bool) exec" where
  "has_no_parent = gets (\<lambda>s. parents s = [])"

subsection \<open>The first frame\<close>

text \<open>
  \<open>Machine::new\<close>: it runs before there is a machine, so its state is the database and the log.  The
  transaction is taken by \<open>&mut\<close> to move the call data out of it.
\<close>

type_synonym 'b boot = "'b \<times> bytes list list"

definition boot_db :: "('b, 'a) exec \<Rightarrow> ('b boot, 'a) exec" where
  "boot_db = zoom fst (\<lambda>x s. (x, snd s))"

definition boot_read :: "('b \<Rightarrow> 'a result) \<Rightarrow> ('b boot, 'a) exec" where
  "boot_read f = reads (\<lambda>s. f (fst s))"

definition boot_log :: "bytes list \<Rightarrow> ('b boot, unit) exec" where
  "boot_log d = modify (\<lambda>s. (fst s, snd s @ [d]))"

definition first_frame :: "transaction \<Rightarrow> address \<Rightarrow> call_context \<Rightarrow> buffer \<Rightarrow> container option \<Rightarrow> buffer
    \<Rightarrow> reason \<Rightarrow> machine" where
  "first_frame trx origin ctx execution_code c call_data rsn =
    \<lparr>m_origin = origin, m_context = ctx, m_gas_price = trx_gas_price trx, m_gas_limit = trx_gas_limit trx,
     m_execution_code = execution_code, m_container = c, m_call_data = call_data,
     m_return_data = buf_empty, m_return_range = (0, 0), m_stack = [], m_memory = mem_new,
     m_pc = 0, m_code_section = 0, m_return_stack = first_return_stack,
     m_is_static = False, m_reason = rsn\<rparr>"

definition new_call :: "'b database \<Rightarrow> transaction \<Rightarrow> address \<Rightarrow> ('b boot, machine) exec" where
  "new_call D trx origin =
    and_then (lift (unwrap (trx_target trx))) (\<lambda>target.
    and_then (boot_log [ascii ''ENTER'', ascii ''CALL'', be_bytes 20 target]) (\<lambda>_.
    and_then (boot_db (db_increment_nonce D origin)) (\<lambda>_.
    and_then (boot_db (db_snapshot D)) (\<lambda>_.
    and_then (boot_db (db_transfer D origin target (trx_value trx))) (\<lambda>_.
    and_then (boot_read (db_code D target)) (\<lambda>execution_code.
    and_then (lift (read_container Call execution_code)) (\<lambda>c.
    ret (first_frame trx origin \<lparr>ctx_caller = origin, ctx_contract = target, ctx_value = trx_value trx,
        ctx_code_address = Some target\<rparr> execution_code c (trx_call_data trx) Call))))))))"

definition new_create :: "env \<Rightarrow> 'b database \<Rightarrow> transaction \<Rightarrow> address \<Rightarrow> ('b boot, machine) exec" where
  "new_create E D trx origin =
    and_then (lift (rassert (trx_target trx = None))) (\<lambda>_.
    let target = from_create E origin (trx_nonce trx) in
    and_then (boot_log [ascii ''ENTER'', ascii ''CREATE'', be_bytes 20 target]) (\<lambda>_.
    and_then (boot_read (db_nonce D target)) (\<lambda>n.
    and_then (if n \<noteq> 0 then ret True
        else and_then (boot_read (db_code_size D target)) (\<lambda>sz. ret (sz \<noteq> 0))) (\<lambda>exists.
    if exists then raise (DeployToExistingAccount target origin)
    else
      and_then (boot_db (db_increment_nonce D origin)) (\<lambda>_.
      and_then (boot_db (db_snapshot D)) (\<lambda>_.
      and_then (boot_db (db_increment_nonce D target)) (\<lambda>_.
      and_then (boot_db (db_transfer D origin target (trx_value trx))) (\<lambda>_.
      and_then (lift (read_container Create (trx_call_data trx))) (\<lambda>c.
      ret (first_frame trx origin \<lparr>ctx_caller = origin, ctx_contract = target,
          ctx_value = trx_value trx, ctx_code_address = None\<rparr> (trx_call_data trx) c buf_empty Create))))))))))"

definition machine_new :: "env \<Rightarrow> 'b database \<Rightarrow> transaction \<Rightarrow> address \<Rightarrow> ('b boot, machine) exec" where
  "machine_new E D trx origin =
    and_then (boot_read (db_nonce D origin)) (\<lambda>origin_nonce.
    if origin_nonce = - 1 then raise (NonceOverflow origin)
    else if origin_nonce \<noteq> trx_nonce trx
    then raise (InvalidTransactionNonce origin origin_nonce (trx_nonce trx))
    else
      and_then (boot_read (\<lambda>b. Ok (db_chain_id D b))) (\<lambda>id.
      and_then (case trx_chain_id trx of
          Some c \<Rightarrow> ensure (id = c) (InvalidChainId c) | None \<Rightarrow> ret ()) (\<lambda>_.
      and_then (boot_read (db_balance D origin)) (\<lambda>balance.
      if balance < trx_value trx then raise (InsufficientBalance origin (trx_value trx))
      else
        and_then (boot_read (db_code_size D origin)) (\<lambda>sz.
        if sz \<noteq> 0 then raise (SenderHasDeployedCode origin)
        else if trx_target trx \<noteq> None then new_call D trx origin
        else new_create E D trx origin)))))"

section \<open>A frame for examples\<close>

text \<open>A call frame with the given stack and code, on which the witnesses of the properties run.\<close>

definition demo_frame :: "evm_stack \<Rightarrow> bytes \<Rightarrow> machine" where
  "demo_frame xs code = \<lparr>m_origin = 1, m_context = \<lparr>ctx_caller = 0x1001, ctx_contract = 0x1002, ctx_value = 0,
      ctx_code_address = Some 0x1002\<rparr>, m_gas_price = 0, m_gas_limit = 0, m_execution_code = Owned code, m_container = None,
      m_call_data = Empty, m_return_data = Empty, m_return_range = (0, 0), m_stack = xs, m_memory = mem_new,
      m_pc = 0, m_code_section = 0, m_return_stack = first_return_stack, m_is_static = False, m_reason = Call\<rparr>"

definition demo_vm :: "evm_stack \<Rightarrow> bytes \<Rightarrow> unit vm" where
  "demo_vm xs code = \<lparr>cur = demo_frame xs code, parents = [], db = (), logs = []\<rparr>"

lemma demo_vm_stack [simp]: "m_stack (cur (demo_vm xs code)) = xs"
  by (simp add: demo_vm_def demo_frame_def)

end
