(* ===== verification/Executor.thy ===== *)
theory Executor
  imports Machine
begin

text \<open>
  The state in which a transaction runs (\<open>program/src/executor/state.rs\<close>, \<open>action.rs\<close>, \<open>cache.rs\<close>):
  the accounts of the Solana transaction are not written while the interpreter runs; every change is
  appended to a log of actions, a read replays the log over the value of the backend, and a snapshot
  of a call frame is the length that the log had.

  The backend (the trait \<open>AccountStorage\<close>) is a record of functions; an address whose account was not
  provided with the transaction is a panic of the backend, so these functions have a result.
\<close>

section \<open>Solana accounts and instructions\<close>

record account_meta =
  am_pubkey :: pubkey
  am_is_signer :: bool
  am_is_writable :: bool

record instruction =
  ins_program_id :: pubkey
  ins_accounts :: "account_meta list"
  ins_data :: bytes

record owned_account =
  oa_key :: pubkey
  oa_is_signer :: bool
  oa_is_writable :: bool
  oa_lamports :: u64
  oa_data :: bytes
  oa_owner :: pubkey
  oa_executable :: bool
  oa_rent_epoch :: u64

record account_storage =
  as_neon_token_mint :: pubkey
  as_program_id :: pubkey
  as_operator :: pubkey
  as_block_number :: u256
  as_block_timestamp :: u256
  as_block_hash :: "u64 \<Rightarrow> bytes32 result"
  as_chain_id :: u64
  as_nonce :: "address \<Rightarrow> u64 result"
  as_balance :: "address \<Rightarrow> u256 result"
  as_code_size :: "address \<Rightarrow> usize result"
  as_code_hash :: "address \<Rightarrow> bytes32 result"
  as_code :: "address \<Rightarrow> buffer result"
  as_storage :: "address \<Rightarrow> u256 \<Rightarrow> bytes32 result"
  as_clone_solana_account :: "pubkey \<Rightarrow> owned_account result"
  as_map_solana_account :: "pubkey \<Rightarrow> owned_account result"
  as_solana_address :: "address \<Rightarrow> pubkey \<times> u8"

section \<open>The log of actions\<close>

datatype journal_action =
    ExternalInstruction pubkey "account_meta list" bytes "bytes list" u64
  | NeonTransfer address address u256
  | NeonWithdraw address u256
  | EvmSetStorage address u256 bytes32
  | EvmIncrementNonce address
  | EvmSetCode address buffer
  | EvmSelfDestruct address

record cache =
  c_solana_accounts :: "pubkey \<Rightarrow> owned_account option"
  c_block_number :: u256
  c_block_timestamp :: u256

text \<open>\<open>ex_stack\<close> is the vector of snapshots, with the newest at the head.\<close>

record executor =
  ex_cache :: cache
  ex_actions :: "journal_action list"
  ex_stack :: "usize list"
  ex_exit_status :: "exit_status option"

definition executor_new :: "account_storage \<Rightarrow> executor" where
  "executor_new B = \<lparr>ex_cache = \<lparr>c_solana_accounts = Map.empty, c_block_number = as_block_number B,
      c_block_timestamp = as_block_timestamp B\<rparr>, ex_actions = [], ex_stack = [], ex_exit_status = None\<rparr>"

definition into_actions :: "executor \<Rightarrow> journal_action list result" where
  "into_actions x = rbind (rassert (ex_stack x = [])) (\<lambda>_. Ok (ex_actions x))"

definition set_exit_status :: "exit_status \<Rightarrow> executor \<Rightarrow> executor" where
  "set_exit_status st x = x\<lparr>ex_exit_status := Some st\<rparr>"

definition call_depth :: "executor \<Rightarrow> usize" where
  "call_depth x = length (ex_stack x)"

definition push_action :: "journal_action \<Rightarrow> (executor, unit) exec" where
  "push_action a = modify (\<lambda>x. x\<lparr>ex_actions := ex_actions x @ [a]\<rparr>)"

definition withdraw_neons :: "address \<Rightarrow> u256 \<Rightarrow> (executor, unit) exec" where
  "withdraw_neons source v = push_action (NeonWithdraw source v)"

definition queue_external_instruction :: "instruction \<Rightarrow> bytes list \<Rightarrow> u64 \<Rightarrow> (executor, unit) exec" where
  "queue_external_instruction i seeds fee =
     push_action (ExternalInstruction (ins_program_id i) (ins_accounts i) (ins_data i) seeds fee)"

section \<open>Reading through the log\<close>

definition checked_sub_u256 :: "u256 \<Rightarrow> u256 \<Rightarrow> u256 result" where
  "checked_sub_u256 a b = (if b \<le> a then Ok (a - b) else Err IntegerOverflow)"

definition checked_add_u256 :: "u256 \<Rightarrow> u256 \<Rightarrow> u256 result" where
  "checked_add_u256 a b = (if a \<le> a + b then Ok (a + b) else Err IntegerOverflow)"

fun nonce_after :: "address \<Rightarrow> journal_action list \<Rightarrow> u64 \<Rightarrow> u64 result" where
  "nonce_after a [] n = Ok n"
| "nonce_after a (act # acts) n =
    (case act of
       EvmIncrementNonce addr \<Rightarrow>
         if a = addr then (if n = - 1 then Err IntegerOverflow else nonce_after a acts (n + 1))
         else nonce_after a acts n
     | _ \<Rightarrow> nonce_after a acts n)"

definition ex_nonce :: "account_storage \<Rightarrow> address \<Rightarrow> executor \<Rightarrow> u64 result" where
  "ex_nonce B a x = rbind (as_nonce B a) (nonce_after a (ex_actions x))"

definition ex_increment_nonce :: "address \<Rightarrow> (executor, unit) exec" where
  "ex_increment_nonce a = push_action (EvmIncrementNonce a)"

fun balance_after :: "address \<Rightarrow> journal_action list \<Rightarrow> u256 \<Rightarrow> u256 result" where
  "balance_after a [] n = Ok n"
| "balance_after a (act # acts) n =
    (case act of
       NeonTransfer source target v \<Rightarrow>
         rbind (if a = source then checked_sub_u256 n v else Ok n) (\<lambda>n.
         rbind (if a = target then checked_add_u256 n v else Ok n) (\<lambda>n.
         balance_after a acts n))
     | NeonWithdraw source v \<Rightarrow>
         rbind (if a = source then checked_sub_u256 n v else Ok n) (\<lambda>n.
         balance_after a acts n)
     | _ \<Rightarrow> balance_after a acts n)"

definition ex_balance :: "account_storage \<Rightarrow> address \<Rightarrow> executor \<Rightarrow> u256 result" where
  "ex_balance B a x = rbind (as_balance B a) (balance_after a (ex_actions x))"

definition ex_transfer :: "account_storage \<Rightarrow> address \<Rightarrow> address \<Rightarrow> u256 \<Rightarrow> (executor, unit) exec" where
  "ex_transfer B source target v =
    (if v = 0 then ret ()
     else if source = target then ret ()
     else
       and_then (reads (ex_balance B source)) (\<lambda>balance.
       if balance < v then raise (InsufficientBalance source v)
       else push_action (NeonTransfer source target v)))"

definition is_precompile_extension :: "address \<Rightarrow> bool" where
  "is_precompile_extension a \<longleftrightarrow>
     a = 0xff00000000000000000000000000000000000002
   \<or> a = 0xff00000000000000000000000000000000000003
   \<or> a = 0xff00000000000000000000000000000000000004
   \<or> a = 0xff00000000000000000000000000000000000005"

text \<open>The first action that sets the code of the address\<close>

fun find_code :: "address \<Rightarrow> journal_action list \<Rightarrow> buffer option" where
  "find_code a [] = None"
| "find_code a (act # acts) =
    (case act of EvmSetCode addr code \<Rightarrow> if a = addr then Some code else find_code a acts
     | _ \<Rightarrow> find_code a acts)"

definition ex_code_size :: "account_storage \<Rightarrow> address \<Rightarrow> executor \<Rightarrow> usize result" where
  "ex_code_size B a x =
    (if is_precompile_extension a then Ok 1
     else case find_code a (ex_actions x) of
       Some code \<Rightarrow> Ok (buf_len code)
     | None \<Rightarrow> as_code_size B a)"

definition ex_code_hash :: "env \<Rightarrow> account_storage \<Rightarrow> address \<Rightarrow> executor \<Rightarrow> bytes32 result" where
  "ex_code_hash E B a x =
    (case find_code a (ex_actions x) of
       Some code \<Rightarrow> Ok (env_keccak E (buf_bytes code))
     | None \<Rightarrow> as_code_hash B a)"

definition ex_code :: "account_storage \<Rightarrow> address \<Rightarrow> executor \<Rightarrow> buffer result" where
  "ex_code B a x =
    (case find_code a (ex_actions x) of
       Some code \<Rightarrow> Ok (buf_clone code)
     | None \<Rightarrow> as_code B a)"

definition ex_set_code :: "address \<Rightarrow> buffer \<Rightarrow> (executor, unit) exec" where
  "ex_set_code a code =
    (if 0x6000 < buf_len code then raise (ContractCodeSizeLimit a (buf_len code))
     else push_action (EvmSetCode a code))"

definition ex_selfdestruct :: "address \<Rightarrow> (executor, unit) exec" where
  "ex_selfdestruct a = push_action (EvmSelfDestruct a)"

text \<open>The last action that sets the storage cell: the list is searched from its end.\<close>

fun find_storage :: "address \<Rightarrow> u256 \<Rightarrow> journal_action list \<Rightarrow> bytes32 option" where
  "find_storage a i [] = None"
| "find_storage a i (act # acts) =
    (case act of EvmSetStorage addr index v \<Rightarrow> if a = addr \<and> i = index then Some v else find_storage a i acts
     | _ \<Rightarrow> find_storage a i acts)"

definition ex_storage :: "account_storage \<Rightarrow> address \<Rightarrow> u256 \<Rightarrow> executor \<Rightarrow> bytes32 result" where
  "ex_storage B a i x =
    (case find_storage a i (rev (ex_actions x)) of
       Some v \<Rightarrow> Ok v
     | None \<Rightarrow> as_storage B a i)"

definition ex_set_storage :: "address \<Rightarrow> u256 \<Rightarrow> bytes32 \<Rightarrow> (executor, unit) exec" where
  "ex_set_storage a i v = push_action (EvmSetStorage a i v)"

definition ex_block_hash :: "account_storage \<Rightarrow> u256 \<Rightarrow> executor \<Rightarrow> bytes32 result" where
  "ex_block_hash B number x =
    (if 18446744073709551615 \<le> number then Ok 0
     else
       let number = ucast number :: u64;
           block_slot = ucast (c_block_number (ex_cache x)) :: u64;
           lower_block_slot = (if block_slot < 257 then 0 else block_slot - 256)
       in if block_slot \<le> number \<or> number < lower_block_slot then Ok 0
          else as_block_hash B number)"

section \<open>Snapshots\<close>

definition ex_snapshot :: "(executor, unit) exec" where
  "ex_snapshot = modify (\<lambda>x. x\<lparr>ex_stack := length (ex_actions x) # ex_stack x\<rparr>)"

definition is_increment_nonce :: "journal_action \<Rightarrow> bool" where
  "is_increment_nonce a = (case a of EvmIncrementNonce _ \<Rightarrow> True | _ \<Rightarrow> False)"

definition ex_revert_snapshot :: "(executor, unit) exec" where
  "ex_revert_snapshot = (\<lambda>x. case ex_stack x of
     [] \<Rightarrow> (Panic, x)
   | len # rest \<Rightarrow>
       let x = x\<lparr>ex_stack := rest, ex_actions := take len (ex_actions x)\<rparr> in
       if rest = [] then
         (rbind (rassert (length (ex_actions x) = 1)) (\<lambda>_.
          rbind (index_at (ex_actions x) 0) (\<lambda>a. rassert (is_increment_nonce a))), x)
       else (Ok (), x))"

definition ex_commit_snapshot :: "(executor, unit) exec" where
  "ex_commit_snapshot = (\<lambda>x. case ex_stack x of
     [] \<Rightarrow> (Panic, x)
   | len # rest \<Rightarrow> (Ok (), x\<lparr>ex_stack := rest\<rparr>))"

section \<open>What the log means\<close>

text \<open>
  The state of the accounts that a list of actions stands for, as a record of functions, and the effect of one
  more action on it.  A balance or nonce that leaves its range is an error of the read.
\<close>

record world =
  w_nonce :: "address \<Rightarrow> u64 result"
  w_balance :: "address \<Rightarrow> u256 result"
  w_code :: "address \<Rightarrow> buffer option"
  w_storage :: "address \<Rightarrow> u256 \<Rightarrow> bytes32 result"

definition world_of :: "account_storage \<Rightarrow> journal_action list \<Rightarrow> world" where
  "world_of B acts =
    \<lparr>w_nonce = (\<lambda>a. rbind (as_nonce B a) (nonce_after a acts)),
     w_balance = (\<lambda>a. rbind (as_balance B a) (balance_after a acts)),
     w_code = (\<lambda>a. find_code a acts),
     w_storage = (\<lambda>a i. case find_storage a i (rev acts) of Some v \<Rightarrow> Ok v | None \<Rightarrow> as_storage B a i)\<rparr>"

fun world_step :: "journal_action \<Rightarrow> world \<Rightarrow> world" where
  "world_step (NeonTransfer s t v) w = w\<lparr>w_balance := (\<lambda>a. rbind (w_balance w a) (\<lambda>n.
     rbind (if a = s then checked_sub_u256 n v else Ok n) (\<lambda>n.
     if a = t then checked_add_u256 n v else Ok n)))\<rparr>"
| "world_step (NeonWithdraw s v) w = w\<lparr>w_balance := (\<lambda>a. rbind (w_balance w a) (\<lambda>n.
     if a = s then checked_sub_u256 n v else Ok n))\<rparr>"
| "world_step (EvmSetStorage a i v) w = w\<lparr>w_storage := (w_storage w)(a := (w_storage w a)(i := Ok v))\<rparr>"
| "world_step (EvmIncrementNonce a) w = w\<lparr>w_nonce := (w_nonce w)(a := rbind (w_nonce w a) (\<lambda>n.
     if n = - 1 then Err IntegerOverflow else Ok (n + 1)))\<rparr>"
| "world_step (EvmSetCode a c) w = w\<lparr>w_code := (\<lambda>b. case w_code w b of None \<Rightarrow> if b = a then Some c else None | Some d \<Rightarrow> Some d)\<rparr>"
| "world_step (EvmSelfDestruct a) w = w"
| "world_step (ExternalInstruction p m d s f) w = w"

lemma rbind_if: "rbind (if c then r else r') f = (if c then rbind r f else rbind r' f)"
  by simp

lemma nonce_after_append:
  "nonce_after a (xs @ ys) = (\<lambda>n. rbind (nonce_after a xs n) (nonce_after a ys))"
proof (induction xs arbitrary: a)
  case (Cons x xs)
  show ?case by (rule ext, cases x) (simp_all add: Cons.IH)
qed simp

lemma balance_after_append:
  "balance_after a (xs @ ys) = (\<lambda>n. rbind (balance_after a xs n) (balance_after a ys))"
proof (induction xs arbitrary: a)
  case (Cons x xs)
  show ?case by (rule ext, cases x) (simp_all add: Cons.IH rbind_assoc)
qed simp

lemma find_code_append:
  "find_code a (xs @ ys) = (case find_code a xs of Some c \<Rightarrow> Some c | None \<Rightarrow> find_code a ys)"
  by (induction xs) (auto split: journal_action.splits)

lemma find_storage_append:
  "find_storage a i (xs @ ys) = (case find_storage a i xs of Some v \<Rightarrow> Some v | None \<Rightarrow> find_storage a i ys)"
  by (induction xs) (auto split: journal_action.splits)

text \<open>Appending an action to the log is one step of the world.\<close>

lemma rbind_Ok_right [simp]: "rbind r Ok = r"
  by (cases r) auto

lemma balance_after_Nil: "balance_after a [] = Ok"
  by (rule ext) simp

lemma nonce_after_Nil: "nonce_after a [] = Ok"
  by (rule ext) simp

lemma world_of_append: "world_of B (acts @ [act]) = world_step act (world_of B acts)"
proof -
  have n: "nonce_after a [act] = (\<lambda>n. case act of EvmIncrementNonce addr \<Rightarrow>
      if a = addr then if n = - 1 then Err IntegerOverflow else Ok (n + 1) else Ok n | _ \<Rightarrow> Ok n)" for a act
    by (rule ext) (simp split: journal_action.split)
  have b: "balance_after a [act] = (\<lambda>n. case act of
      NeonTransfer s t v \<Rightarrow> rbind (if a = s then checked_sub_u256 n v else Ok n)
        (\<lambda>n. if a = t then checked_add_u256 n v else Ok n)
    | NeonWithdraw s v \<Rightarrow> if a = s then checked_sub_u256 n v else Ok n | _ \<Rightarrow> Ok n)" for a act
    by (rule ext) (simp add: balance_after_Nil cong: if_cong split: journal_action.split)
  show ?thesis
    by (cases act) (auto simp: world_of_def nonce_after_append balance_after_append n b find_code_append
      fun_eq_iff rbind_assoc [symmetric] split: option.split)
qed

end
