(* ===== verification/External_Programs.thy ===== *)
theory External_Programs
  imports Executor
begin

text \<open>
  The Solana programs that an Ethereum contract can call through the precompiled extensions, and their
  emulation over a copy of the accounts (\<open>program/src/external_programs\<close>).  The instructions that a
  transaction queues are run by Solana after the interpreter has ended; the interpreter sees their effect by
  replaying them here.

  The crates of these programs are not part of the repository: the constructors of their instructions, the
  decoders, the processor of the token program and the emulation of Metaplex (whose body only composes
  functions of the crate \<open>mpl_token_metadata\<close>) are the record \<open>solana\<close>, a parameter of the model.
\<close>

section \<open>What the crates provide\<close>

type_synonym account_map = "pubkey \<Rightarrow> owned_account option"

datatype system_instruction =
    SysCreateAccount u64 u64 pubkey
  | SysAssign pubkey
  | SysTransfer u64
  | SysAllocate u64
  | SysOther

datatype system_request =
    MakeTransfer pubkey pubkey u64
  | MakeAllocate pubkey u64
  | MakeAssign pubkey pubkey

datatype ata_instruction = AtaCreate | AtaCreateIdempotent | AtaRecoverNested

datatype token_instruction =
    TokInitializeMint u8 pubkey "pubkey option"
  | TokInitializeMint2 u8 pubkey "pubkey option"
  | TokInitializeAccount
  | TokInitializeAccount2 pubkey
  | TokInitializeAccount3 pubkey
  | TokInitializeMultisig u8
  | TokInitializeMultisig2 u8
  | TokTransfer u64
  | TokApprove u64
  | TokRevoke
  | TokSetAuthority u8 "pubkey option"
  | TokMintTo u64
  | TokBurn u64
  | TokCloseAccount
  | TokFreezeAccount
  | TokThawAccount
  | TokTransferChecked u64 u8
  | TokApproveChecked u64 u8
  | TokMintToChecked u64 u8
  | TokBurnChecked u64 u8
  | TokSyncNative
  | TokOther

text \<open>The functions of \<open>spl_token::processor::Processor\<close> that the emulation calls, with their arguments\<close>

datatype token_call =
    ProcInitializeMint u8 pubkey "pubkey option"
  | ProcInitializeMint2 u8 pubkey "pubkey option"
  | ProcInitializeAccount pubkey
  | ProcInitializeAccount2 pubkey pubkey
  | ProcInitializeAccount3 pubkey pubkey
  | ProcInitializeMultisig u8
  | ProcInitializeMultisig2 u8
  | ProcTransfer pubkey u64 "u8 option"
  | ProcApprove pubkey u64 "u8 option"
  | ProcRevoke pubkey
  | ProcSetAuthority pubkey u8 "pubkey option"
  | ProcMintTo pubkey u64 "u8 option"
  | ProcBurn pubkey u64 "u8 option"
  | ProcCloseAccount pubkey
  | ProcToggleFreeze pubkey bool
  | ProcSyncNative pubkey

text \<open>The constructors of \<open>spl_token::instruction\<close>, without the list of signers, which is always empty\<close>

datatype token_request =
    MakeInitializeMint pubkey pubkey "pubkey option" u8
  | MakeInitializeAccount2 pubkey pubkey pubkey
  | MakeInitializeAccount3 pubkey pubkey pubkey
  | MakeCloseAccount pubkey pubkey pubkey
  | MakeApprove pubkey pubkey pubkey u64
  | MakeRevoke pubkey pubkey
  | MakeTokenTransfer pubkey pubkey pubkey u64
  | MakeTransferChecked pubkey pubkey pubkey pubkey u64 u8
  | MakeMintTo pubkey pubkey pubkey u64
  | MakeBurn pubkey pubkey pubkey u64
  | MakeFreezeAccount pubkey pubkey pubkey
  | MakeThawAccount pubkey pubkey pubkey

record creator =
  cr_address :: pubkey
  cr_verified :: bool
  cr_share :: u8

datatype metaplex_request =
    MakeMetadataV3 pubkey pubkey pubkey pubkey pubkey pubkey bytes bytes bytes "creator list option" u16 bool bool
  | MakeMasterEditionV3 pubkey pubkey pubkey pubkey pubkey pubkey pubkey "u64 option"

record token_account =
  ta_mint :: pubkey
  ta_owner :: pubkey
  ta_amount :: u64
  ta_delegate :: "pubkey option"
  ta_state :: u8
  ta_delegated_amount :: u64
  ta_close_authority :: "pubkey option"

record token_mint =
  tm_mint_authority :: "pubkey option"
  tm_supply :: u64
  tm_decimals :: u8
  tm_is_initialized :: bool
  tm_freeze_authority :: "pubkey option"

datatype token_standard = NonFungible | OtherStandard

record token_metadata =
  md_name :: bytes
  md_symbol :: bytes
  md_uri :: bytes
  md_token_standard :: "token_standard option"

record solana =
  sol_system_id :: pubkey
  sol_token_id :: pubkey
  sol_ata_id :: pubkey
  sol_metaplex_id :: pubkey
  sol_rent :: "(usize \<Rightarrow> u64) result"
  sol_find_program_address :: "bytes list \<Rightarrow> pubkey \<Rightarrow> pubkey \<times> u8"
  sol_associated_token :: "pubkey \<Rightarrow> pubkey \<Rightarrow> pubkey"
  sol_pubkey_text :: "pubkey \<Rightarrow> string"
  sol_system_decode :: "bytes \<Rightarrow> system_instruction option"
  sol_system_make :: "system_request \<Rightarrow> instruction"
  sol_ata_decode :: "bytes \<Rightarrow> ata_instruction option"
  sol_ata_make :: "pubkey \<Rightarrow> pubkey \<Rightarrow> pubkey \<Rightarrow> pubkey \<Rightarrow> instruction"
  sol_token_unpack :: "bytes \<Rightarrow> token_instruction result"
  sol_token_make :: "pubkey \<Rightarrow> token_request \<Rightarrow> instruction result"
  sol_token_process :: "token_call \<Rightarrow> account_meta list \<Rightarrow> (account_map, unit) exec"
  sol_token_account_len :: usize
  sol_token_account_unpack :: "bytes \<Rightarrow> token_account result"
  sol_token_account_default :: token_account
  sol_token_mint_len :: usize
  sol_token_mint_unpack :: "bytes \<Rightarrow> token_mint result"
  sol_token_mint_default :: token_mint
  sol_metaplex_emulate :: "bytes \<Rightarrow> account_meta list \<Rightarrow> (account_map, unit) exec"
  sol_metaplex_make :: "metaplex_request \<Rightarrow> instruction"
  sol_metadata_account :: "pubkey \<Rightarrow> pubkey"
  sol_edition_account :: "pubkey \<Rightarrow> pubkey"
  sol_metadata_read :: "bytes \<Rightarrow> token_metadata option"
  sol_max_metadata_len :: usize
  sol_max_edition_len :: usize
  sol_create_fee :: u64

section \<open>The copy of the accounts\<close>

definition get_mut :: "pubkey \<Rightarrow> (account_map, owned_account) exec" where
  "get_mut k = reads (\<lambda>a. unwrap (a k))"

definition put_account :: "pubkey \<Rightarrow> owned_account \<Rightarrow> (account_map, unit) exec" where
  "put_account k v = modify (\<lambda>a. a(k \<mapsto> v))"

definition meta_key :: "account_meta list \<Rightarrow> nat \<Rightarrow> (account_map, pubkey) exec" where
  "meta_key meta i = and_then (lift (index_at meta i)) (\<lambda>m. ret (am_pubkey m))"

text \<open>\<open>Vec::resize\<close>\<close>

definition resize :: "nat \<Rightarrow> bytes \<Rightarrow> bytes" where
  "resize n bs = take n bs @ replicate (n - length bs) 0"

lemma length_resize [simp]: "length (resize n bs) = n"
  by (simp add: resize_def)

definition saturating_sub :: "u64 \<Rightarrow> u64 \<Rightarrow> u64" where
  "saturating_sub a b = (if b \<le> a then a - b else 0)"

section \<open>The system program\<close>

definition system_create_account :: "solana \<Rightarrow> u64 \<Rightarrow> u64 \<Rightarrow> pubkey \<Rightarrow> account_meta list \<Rightarrow> (account_map, unit) exec" where
  "system_create_account L lamports space owner meta =
    and_then (meta_key meta 0) (\<lambda>funder_key.
    and_then (meta_key meta 1) (\<lambda>account_key.
    and_then (get_mut funder_key) (\<lambda>funder.
    if oa_lamports funder < lamports then raise (ProgramError InsufficientFunds)
    else
      and_then (put_account funder_key (funder\<lparr>oa_lamports := oa_lamports funder - lamports\<rparr>)) (\<lambda>_.
      and_then (get_mut account_key) (\<lambda>account.
      if 0 < oa_lamports account \<or> oa_data account \<noteq> [] \<or> oa_owner account \<noteq> sol_system_id L
      then raise (ProgramError InvalidInstructionData)
      else put_account account_key (account\<lparr>oa_lamports := lamports, oa_owner := owner,
             oa_data := resize (unat space) (oa_data account)\<rparr>))))))"

definition system_assign :: "solana \<Rightarrow> pubkey \<Rightarrow> account_meta list \<Rightarrow> (account_map, unit) exec" where
  "system_assign L owner meta =
    and_then (meta_key meta 0) (\<lambda>account_key.
    and_then (get_mut account_key) (\<lambda>account.
    if oa_owner account \<noteq> sol_system_id L then raise (ProgramError InvalidInstructionData)
    else put_account account_key (account\<lparr>oa_owner := owner\<rparr>)))"

definition system_transfer :: "solana \<Rightarrow> u64 \<Rightarrow> account_meta list \<Rightarrow> (account_map, unit) exec" where
  "system_transfer L lamports meta =
    and_then (meta_key meta 0) (\<lambda>from_key.
    and_then (meta_key meta 1) (\<lambda>to_key.
    and_then (get_mut from_key) (\<lambda>source.
    if oa_data source \<noteq> [] then raise (ProgramError InvalidArgument)
    else if oa_lamports source < lamports then raise (ProgramError InsufficientFunds)
    else if oa_owner source \<noteq> sol_system_id L then raise (ProgramError InsufficientFunds)
    else
      and_then (put_account from_key (source\<lparr>oa_lamports := oa_lamports source - lamports\<rparr>)) (\<lambda>_.
      and_then (get_mut to_key) (\<lambda>target.
      put_account to_key (target\<lparr>oa_lamports := oa_lamports target + lamports\<rparr>))))))"

definition system_allocate :: "solana \<Rightarrow> u64 \<Rightarrow> account_meta list \<Rightarrow> (account_map, unit) exec" where
  "system_allocate L space meta =
    and_then (meta_key meta 0) (\<lambda>account_key.
    and_then (get_mut account_key) (\<lambda>account.
    if oa_data account \<noteq> [] \<or> oa_owner account \<noteq> sol_system_id L
    then raise (ProgramError InvalidInstructionData)
    else put_account account_key (account\<lparr>oa_data := resize (unat space) (oa_data account)\<rparr>)))"

definition system_emulate :: "solana \<Rightarrow> bytes \<Rightarrow> account_meta list \<Rightarrow> (account_map, unit) exec" where
  "system_emulate L code meta =
    and_then (lift (unwrap (sol_system_decode L code))) (\<lambda>i. case i of
      SysCreateAccount lamports space owner \<Rightarrow> system_create_account L lamports space owner meta
    | SysAssign owner \<Rightarrow> system_assign L owner meta
    | SysTransfer lamports \<Rightarrow> system_transfer L lamports meta
    | SysAllocate space \<Rightarrow> system_allocate L space meta
    | SysOther \<Rightarrow> raise (ProgramError InvalidInstructionData))"

section \<open>The token program\<close>

definition token_call_of :: "solana \<Rightarrow> token_instruction \<Rightarrow> token_call option" where
  "token_call_of L i = (let id = sol_token_id L in case i of
      TokInitializeMint decimals mint_authority freeze_authority \<Rightarrow> Some (ProcInitializeMint decimals mint_authority freeze_authority)
    | TokInitializeMint2 decimals mint_authority freeze_authority \<Rightarrow> Some (ProcInitializeMint2 decimals mint_authority freeze_authority)
    | TokInitializeAccount \<Rightarrow> Some (ProcInitializeAccount id)
    | TokInitializeAccount2 owner \<Rightarrow> Some (ProcInitializeAccount2 id owner)
    | TokInitializeAccount3 owner \<Rightarrow> Some (ProcInitializeAccount3 id owner)
    | TokInitializeMultisig m \<Rightarrow> Some (ProcInitializeMultisig m)
    | TokInitializeMultisig2 m \<Rightarrow> Some (ProcInitializeMultisig2 m)
    | TokTransfer amount \<Rightarrow> Some (ProcTransfer id amount None)
    | TokApprove amount \<Rightarrow> Some (ProcApprove id amount None)
    | TokRevoke \<Rightarrow> Some (ProcRevoke id)
    | TokSetAuthority authority_type new_authority \<Rightarrow> Some (ProcSetAuthority id authority_type new_authority)
    | TokMintTo amount \<Rightarrow> Some (ProcMintTo id amount None)
    | TokBurn amount \<Rightarrow> Some (ProcBurn id amount None)
    | TokCloseAccount \<Rightarrow> Some (ProcCloseAccount id)
    | TokFreezeAccount \<Rightarrow> Some (ProcToggleFreeze id True)
    | TokThawAccount \<Rightarrow> Some (ProcToggleFreeze id False)
    | TokTransferChecked amount decimals \<Rightarrow> Some (ProcTransfer id amount (Some decimals))
    | TokApproveChecked amount decimals \<Rightarrow> Some (ProcApprove id amount (Some decimals))
    | TokMintToChecked amount decimals \<Rightarrow> Some (ProcMintTo id amount (Some decimals))
    | TokBurnChecked amount decimals \<Rightarrow> Some (ProcBurn id amount (Some decimals))
    | TokSyncNative \<Rightarrow> Some (ProcSyncNative id)
    | TokOther \<Rightarrow> None)"

text \<open>
  The processor receives, for each account of the instruction, a view of the account in the copy with the flags of the
  instruction: an account that is not in the copy is a panic of the indexing.
\<close>

fun metas_present :: "account_meta list \<Rightarrow> (account_map, unit) exec" where
  "metas_present [] = ret ()"
| "metas_present (m # ms) = and_then (get_mut (am_pubkey m)) (\<lambda>_. metas_present ms)"

definition token_emulate :: "solana \<Rightarrow> bytes \<Rightarrow> account_meta list \<Rightarrow> (account_map, unit) exec" where
  "token_emulate L code meta =
    and_then (metas_present meta) (\<lambda>_.
    and_then (lift (sol_token_unpack L code)) (\<lambda>i. case token_call_of L i of
      Some c \<Rightarrow> sol_token_process L c meta
    | None \<Rightarrow> raise (ProgramError InvalidInstructionData)))"

section \<open>Associated token accounts\<close>

definition ata_emulate :: "solana \<Rightarrow> bytes \<Rightarrow> account_meta list \<Rightarrow> (account_map, unit) exec" where
  "ata_emulate L code meta =
    and_then (if code = [] then ret AtaCreate
        else lift (ok_or (sol_ata_decode L code) (ProgramError InvalidInstructionData))) (\<lambda>i.
    if i \<noteq> AtaCreate then raise (ProgramError InvalidInstructionData)
    else
      and_then (meta_key meta 0) (\<lambda>funder_key.
      and_then (meta_key meta 1) (\<lambda>token_key.
      and_then (meta_key meta 2) (\<lambda>wallet_key.
      and_then (meta_key meta 3) (\<lambda>mint_key.
      and_then (meta_key meta 5) (\<lambda>program_key.
      and_then (get_mut token_key) (\<lambda>token.
      and_then (lift (sol_rent L)) (\<lambda>minimum_balance.
      let required = saturating_sub (max (minimum_balance (sol_token_account_len L)) 1) (oa_lamports token) in
      and_then (get_mut funder_key) (\<lambda>funder.
      if oa_lamports funder < required then raise (ProgramError InsufficientFunds)
      else
        and_then (put_account funder_key (funder\<lparr>oa_lamports := oa_lamports funder - required\<rparr>)) (\<lambda>_.
        and_then (get_mut token_key) (\<lambda>token.
        if oa_owner token \<noteq> sol_system_id L then raise (ProgramError InvalidInstructionData)
        else
          and_then (put_account token_key (token\<lparr>oa_lamports := oa_lamports token + required,
              oa_owner := sol_token_id L, oa_data := resize (sol_token_account_len L) (oa_data token)\<rparr>)) (\<lambda>_.
          and_then (lift (sol_token_make L program_key (MakeInitializeAccount3 token_key mint_key wallet_key))) (\<lambda>ins.
          token_emulate L (ins_data ins) (ins_accounts ins))))))))))))))"

end
