(* ===== verification/Extensions.thy ===== *)
theory Extensions
  imports External_Programs Machine
begin

text \<open>
  The precompiled contracts that reach Solana (\<open>program/src/executor/precompile_extension\<close>): reads of Solana
  accounts, the withdrawal of NEON to an SPL token account, the operations of the token program and the metadata of
  Metaplex.  None of them changes an account: each queues the Solana instructions it stands for in the log of
  actions, and \<open>external_account\<close> shows an account as the queued instructions will leave it.
\<close>

section \<open>Reading the arguments\<close>

text \<open>\<open>&input[n..]\<close>, \<open>split_at\<close> and \<open>array_ref!\<close> panic when the slice is too short.\<close>

definition slice_from :: "nat \<Rightarrow> bytes \<Rightarrow> bytes result" where
  "slice_from n bs = (if n \<le> length bs then Ok (drop n bs) else Panic)"

definition split_at :: "nat \<Rightarrow> bytes \<Rightarrow> (bytes \<times> bytes) result" where
  "split_at n bs = (if n \<le> length bs then Ok (take n bs, drop n bs) else Panic)"

definition array_32 :: "bytes \<Rightarrow> u256 result" where
  "array_32 bs = (if 32 \<le> length bs then Ok (from_be (take 32 bs)) else Panic)"

definition usize_of_u256 :: "u256 \<Rightarrow> usize result" where
  "usize_of_u256 w = (if unat w < usize_bound then Ok (unat w) else Err TryFromIntError)"

definition u64_of_u256 :: "u256 \<Rightarrow> u64 result" where
  "u64_of_u256 w = (if unat w < usize_bound then Ok (ucast w) else Err TryFromIntError)"

definition u8_of_u256 :: "u256 \<Rightarrow> u8 result" where
  "u8_of_u256 w = (if unat w < 256 then Ok (ucast w) else Err TryFromIntError)"

definition read_u8 :: "bytes \<Rightarrow> u8 result" where
  "read_u8 input = rbind (array_32 input) u8_of_u256"

definition read_u64 :: "bytes \<Rightarrow> u64 result" where
  "read_u64 input = rbind (array_32 input) u64_of_u256"

definition read_pubkey :: "bytes \<Rightarrow> pubkey result" where
  "read_pubkey input = (if length input < 32 then Err OutOfBounds else array_32 input)"

definition read_salt :: "bytes \<Rightarrow> bytes result" where
  "read_salt input = (if length input < 32 then Err OutOfBounds else Ok (take 32 input))"

definition true_word :: bytes where
  "true_word = replicate 31 0 @ [1]"

definition ACCOUNT_SEED_VERSION :: u8 where
  "ACCOUNT_SEED_VERSION = 3"

definition token_mint_decimals :: u8 where
  "token_mint_decimals = 9"

section \<open>Solana accounts as the queued instructions leave them\<close>

fun queued_metas :: "journal_action list \<Rightarrow> account_meta list" where
  "queued_metas [] = []"
| "queued_metas (a # as) =
    (case a of ExternalInstruction _ metas _ _ _ \<Rightarrow> metas @ queued_metas as | _ \<Rightarrow> queued_metas as)"

definition cached_account :: "pubkey \<Rightarrow> (executor, owned_account) exec" where
  "cached_account k = reads (\<lambda>x. unwrap (c_solana_accounts (ex_cache x) k))"

definition insert_account_if_not_present :: "account_storage \<Rightarrow> pubkey \<Rightarrow> (executor, unit) exec" where
  "insert_account_if_not_present B k =
    and_then (gets (\<lambda>x. c_solana_accounts (ex_cache x) k)) (\<lambda>known.
    if known \<noteq> None then ret ()
    else
      and_then (lift (as_clone_solana_account B k)) (\<lambda>v.
      modify (\<lambda>x. x\<lparr>ex_cache := (ex_cache x)\<lparr>c_solana_accounts := (c_solana_accounts (ex_cache x))(k \<mapsto> v)\<rparr>\<rparr>)))"

fun collect_accounts :: "account_storage \<Rightarrow> account_meta list \<Rightarrow> account_map \<Rightarrow> (executor, account_map) exec" where
  "collect_accounts B [] accounts = ret accounts"
| "collect_accounts B (m # ms) accounts =
    and_then (insert_account_if_not_present B (am_pubkey m)) (\<lambda>_.
    and_then (cached_account (am_pubkey m)) (\<lambda>v.
    collect_accounts B ms (accounts(am_pubkey m \<mapsto> v))))"

definition emulate_instruction :: "solana \<Rightarrow> pubkey \<Rightarrow> bytes \<Rightarrow> account_meta list \<Rightarrow> (account_map, unit) exec" where
  "emulate_instruction L program code metas =
    (if program = sol_system_id L then system_emulate L code metas
     else if program = sol_token_id L then token_emulate L code metas
     else if program = sol_ata_id L then ata_emulate L code metas
     else if program = sol_metaplex_id L then sol_metaplex_emulate L code metas
     else raise (Custom (''Unknown external program: '' @ sol_pubkey_text L program)))"

fun replay :: "solana \<Rightarrow> journal_action list \<Rightarrow> (account_map, unit) exec" where
  "replay L [] = ret ()"
| "replay L (a # as) =
    (case a of
       ExternalInstruction program metas code seeds fee \<Rightarrow>
         and_then (emulate_instruction L program code metas) (\<lambda>_. replay L as)
     | _ \<Rightarrow> replay L as)"

definition external_account :: "solana \<Rightarrow> account_storage \<Rightarrow> pubkey \<Rightarrow> (executor, owned_account) exec" where
  "external_account L B k =
    and_then (gets ex_actions) (\<lambda>actions.
    let metas = queued_metas actions in
    if \<not> (\<exists>m\<in>set metas. am_pubkey m = k \<and> am_is_writable m) then
      and_then (insert_account_if_not_present B k) (\<lambda>_. cached_account k)
    else
      and_then (collect_accounts B metas Map.empty) (\<lambda>accounts.
      case replay L actions accounts of
        (Ok _, after) \<Rightarrow> lift (unwrap (after k))
      | (Err e, _) \<Rightarrow> raise e
      | (Panic, _) \<Rightarrow> panic))"

section \<open>The NEON token\<close>

definition withdraw :: "solana \<Rightarrow> account_storage \<Rightarrow> address \<Rightarrow> pubkey \<Rightarrow> u256 \<Rightarrow> (executor, unit) exec" where
  "withdraw L B source target v =
    (if v = 0 then raise (Custom ''Neon Withdraw: value == 0'')
     else
       let min_amount = 10 ^ unat (18 - token_mint_decimals);
           spl_amount = v div min_amount;
           remainder = v mod min_amount in
       if 18446744073709551615 < spl_amount then raise (Custom ''Neon Withdraw: value exceeds u64::max'')
       else if remainder \<noteq> 0 then raise (Custom ''Neon Withdraw: value must be divisible by 10^9'')
       else
         let target_token = sol_associated_token L target (as_neon_token_mint B) in
         and_then (external_account L B target_token) (\<lambda>account.
         and_then (if oa_owner account \<noteq> sol_token_id L then
             and_then (lift (sol_rent L)) (\<lambda>minimum_balance.
             queue_external_instruction
               (sol_ata_make L (as_operator B) target (as_neon_token_mint B) (sol_token_id L)) []
               (minimum_balance (sol_token_account_len L)))
           else ret ()) (\<lambda>_.
         let (authority, bump_seed) = sol_find_program_address L [ascii ''Deposit''] (as_program_id B);
             pool = sol_associated_token L authority (as_neon_token_mint B) in
         and_then (lift (sol_token_make L (sol_token_id L) (MakeTransferChecked pool (as_neon_token_mint B)
             target_token authority (ucast spl_amount) token_mint_decimals))) (\<lambda>transfer.
         and_then (queue_external_instruction transfer [ascii ''Deposit'', [bump_seed]] 0) (\<lambda>_.
         withdraw_neons source v)))))"

definition neon_token :: "solana \<Rightarrow> account_storage \<Rightarrow> address \<Rightarrow> bytes \<Rightarrow> call_context \<Rightarrow> bool
    \<Rightarrow> (executor, bytes) exec" where
  "neon_token L B addr input ctx is_static =
    (if ctx_contract ctx \<noteq> addr then raise (Custom ''Withdraw: callcode or delegatecall is not allowed'')
     else
       and_then (lift (split_at 4 input)) (\<lambda>(method_id, rest).
       if method_id = [0x8e, 0x19, 0x89, 0x9e] then
         if is_static then raise (EvmError (StaticModeViolation addr))
         else
           and_then (lift (array_32 rest)) (\<lambda>destination.
           and_then (withdraw L B (ctx_contract ctx) destination (ctx_value ctx)) (\<lambda>_.
           ret true_word))
       else raise (UnknownPrecompileMethodSelector addr method_id)))"

section \<open>Queries of Solana accounts\<close>

definition word_bytes :: "u256 \<Rightarrow> bytes" where
  "word_bytes w = be_bytes 32 w"

definition account_owner :: "account_storage \<Rightarrow> pubkey \<Rightarrow> bytes result" where
  "account_owner B k = rbind (as_map_solana_account B k) (\<lambda>info. Ok (word_bytes (oa_owner info)))"

definition account_lamports :: "account_storage \<Rightarrow> pubkey \<Rightarrow> bytes result" where
  "account_lamports B k = rbind (as_map_solana_account B k) (\<lambda>info. Ok (word_bytes (ucast (oa_lamports info))))"

definition account_rent_epoch :: "account_storage \<Rightarrow> pubkey \<Rightarrow> bytes result" where
  "account_rent_epoch B k = rbind (as_map_solana_account B k) (\<lambda>info. Ok (word_bytes (ucast (oa_rent_epoch info))))"

definition account_is_executable :: "account_storage \<Rightarrow> pubkey \<Rightarrow> bytes result" where
  "account_is_executable B k = rbind (as_map_solana_account B k) (\<lambda>info. Ok (word_bytes (of_bool (oa_executable info))))"

definition account_data_length :: "account_storage \<Rightarrow> pubkey \<Rightarrow> bytes result" where
  "account_data_length B k = rbind (as_map_solana_account B k) (\<lambda>info. Ok (word_bytes (of_nat (length (oa_data info)))))"

definition account_data :: "account_storage \<Rightarrow> pubkey \<Rightarrow> usize \<Rightarrow> usize \<Rightarrow> bytes result" where
  "account_data B k offset len =
    (if len = 0 then Err (Custom ''Query Account: data() - length == 0'')
     else rbind (as_map_solana_account B k) (\<lambda>info.
       ok_or (slice_get (oa_data info) offset (usize_wrap (offset + len)))
         (Custom ''Query Account: data() - out of bounds'')))"

definition to_solidity_account_value :: "owned_account \<Rightarrow> bytes" where
  "to_solidity_account_value info =
     be_bytes 32 (oa_key info) @ replicate 24 0 @ be_bytes 8 (oa_lamports info) @ be_bytes 32 (oa_owner info)
     @ replicate 31 0 @ [of_bool (oa_executable info)] @ replicate 24 0 @ be_bytes 8 (oa_rent_epoch info)"

definition account_info :: "account_storage \<Rightarrow> pubkey \<Rightarrow> bytes result" where
  "account_info B k = rbind (as_map_solana_account B k) (\<lambda>info. Ok (to_solidity_account_value info))"

definition query_account :: "account_storage \<Rightarrow> address \<Rightarrow> bytes \<Rightarrow> call_context \<Rightarrow> bool \<Rightarrow> (executor, bytes) exec" where
  "query_account B addr input ctx is_static =
    (if ctx_value ctx \<noteq> 0 then raise (Custom ''Query Account: value != 0'')
     else
       and_then (lift (split_at 4 input)) (\<lambda>(method_id, rest).
       and_then (lift (split_at 32 rest)) (\<lambda>(key, rest).
       let k = from_be key in
       if method_id = [0x2b, 0x3c, 0x83, 0x22] then ret []
       else if method_id = [0xa1, 0x23, 0xc3, 0x3e] \<or> method_id = [0x02, 0x57, 0x1b, 0xe3] then lift (account_owner B k)
       else if method_id = [0xaa, 0x8b, 0x99, 0xd2] \<or> method_id = [0xa9, 0xdb, 0xaf, 0x25] then lift (account_data_length B k)
       else if method_id = [0x74, 0x8f, 0x2d, 0x8a] \<or> method_id = [0x62, 0x73, 0x44, 0x8f] then lift (account_lamports B k)
       else if method_id = [0xc2, 0x19, 0xa7, 0x85] \<or> method_id = [0xe6, 0xbe, 0xf4, 0x88] then lift (account_is_executable B k)
       else if method_id = [0xc4, 0xd3, 0x69, 0xb5] \<or> method_id = [0x8b, 0xb9, 0xe6, 0xf4] then lift (account_rent_epoch B k)
       else if method_id = [0x43, 0xca, 0x51, 0x61] \<or> method_id = [0x7d, 0xd6, 0xc1, 0xa0] then
         lift (rbind (rassert (64 \<le> length rest)) (\<lambda>_.
           rbind (usize_of_u256 (from_be (take 32 rest))) (\<lambda>offset.
           rbind (usize_of_u256 (from_be (take 32 (drop 32 rest)))) (\<lambda>len.
           account_data B k offset len))))
       else if method_id = [0xb6, 0x4a, 0x09, 0x7e] then lift (account_info B k)
       else raise (UnknownPrecompileMethodSelector addr method_id))))"

end
