(* ===== verification/Extension_Token.thy ===== *)
theory Extension_Token
  imports Extensions
begin

text \<open>
  The extension for the SPL token program (\<open>program/src/executor/precompile_extension/spl_token.rs\<close>): every
  method that changes an account queues one or more instructions, signed for by an address derived from the
  caller; the four views answer from \<open>external_account\<close>.
\<close>

text \<open>The seeds with which the program signs for its caller\<close>

definition signer_of :: "account_storage \<Rightarrow> call_context \<Rightarrow> pubkey \<times> bytes list" where
  "signer_of B ctx = (let (signer_pubkey, bump_seed) = as_solana_address B (ctx_caller ctx)
     in (signer_pubkey, [[ACCOUNT_SEED_VERSION], be_bytes 20 (ctx_caller ctx), [bump_seed]]))"

definition contract_data_seeds :: "call_context \<Rightarrow> bytes \<Rightarrow> bytes list" where
  "contract_data_seeds ctx seed =
     [[ACCOUNT_SEED_VERSION], ascii ''ContractData'', be_bytes 20 (ctx_caller ctx), seed]"

definition queue_token :: "solana \<Rightarrow> token_request \<Rightarrow> bytes list \<Rightarrow> (executor, unit) exec" where
  "queue_token L req seeds = and_then (lift (sol_token_make L (sol_token_id L) req)) (\<lambda>i.
     queue_external_instruction i seeds 0)"

definition create_account :: "solana \<Rightarrow> account_storage \<Rightarrow> owned_account \<Rightarrow> usize \<Rightarrow> bytes list \<Rightarrow> (executor, unit) exec" where
  "create_account L B account space seeds =
    and_then (lift (sol_rent L)) (\<lambda>minimum_balance.
    let required_lamports = saturating_sub (minimum_balance space) (oa_lamports account) in
    and_then (if 0 < required_lamports then
        queue_external_instruction
          (sol_system_make L (MakeTransfer (as_operator B) (oa_key account) required_lamports)) [] required_lamports
      else ret ()) (\<lambda>_.
    and_then (queue_external_instruction (sol_system_make L (MakeAllocate (oa_key account) (of_nat space))) seeds 0) (\<lambda>_.
    queue_external_instruction (sol_system_make L (MakeAssign (oa_key account) (sol_token_id L))) seeds 0)))"

definition initialize_mint :: "solana \<Rightarrow> account_storage \<Rightarrow> call_context \<Rightarrow> bytes \<Rightarrow> u8 \<Rightarrow> pubkey option
    \<Rightarrow> pubkey option \<Rightarrow> (executor, bytes) exec" where
  "initialize_mint L B ctx seed decimals mint_authority freeze_authority =
    (let (signer_pubkey, _) = as_solana_address B (ctx_caller ctx);
         (mint_key, bump_seed) = sol_find_program_address L (contract_data_seeds ctx seed) (as_program_id B) in
     and_then (external_account L B mint_key) (\<lambda>account.
     if oa_owner account \<noteq> sol_system_id L
     then raise (AccountError (AccountInvalidOwner mint_key (sol_system_id L)))
     else
       and_then (create_account L B account (sol_token_mint_len L) (contract_data_seeds ctx seed @ [[bump_seed]])) (\<lambda>_.
       and_then (queue_token L (MakeInitializeMint mint_key (case mint_authority of Some k \<Rightarrow> k | None \<Rightarrow> signer_pubkey)
           (Some (case freeze_authority of Some k \<Rightarrow> k | None \<Rightarrow> signer_pubkey)) decimals) []) (\<lambda>_.
       ret (be_bytes 32 mint_key)))))"

definition initialize_account :: "solana \<Rightarrow> account_storage \<Rightarrow> call_context \<Rightarrow> bytes \<Rightarrow> pubkey \<Rightarrow> pubkey option
    \<Rightarrow> (executor, bytes) exec" where
  "initialize_account L B ctx seed mint owner =
    (let (signer_pubkey, _) = as_solana_address B (ctx_caller ctx);
         (account_key, bump_seed) = sol_find_program_address L (contract_data_seeds ctx seed) (as_program_id B) in
     and_then (external_account L B account_key) (\<lambda>account.
     if oa_owner account \<noteq> sol_system_id L
     then raise (AccountError (AccountInvalidOwner account_key (sol_system_id L)))
     else
       and_then (create_account L B account (sol_token_account_len L) (contract_data_seeds ctx seed @ [[bump_seed]])) (\<lambda>_.
       and_then (queue_token L (MakeInitializeAccount2 account_key mint
           (case owner of Some k \<Rightarrow> k | None \<Rightarrow> signer_pubkey)) []) (\<lambda>_.
       ret (be_bytes 32 account_key)))))"

text \<open>The operations that sign with the account of the caller\<close>

definition close_account :: "solana \<Rightarrow> account_storage \<Rightarrow> call_context \<Rightarrow> pubkey \<Rightarrow> (executor, bytes) exec" where
  "close_account L B ctx account = (let (signer_pubkey, seeds) = signer_of B ctx in
     and_then (queue_token L (MakeCloseAccount account (as_operator B) signer_pubkey) seeds) (\<lambda>_. ret []))"

definition token_approve :: "solana \<Rightarrow> account_storage \<Rightarrow> call_context \<Rightarrow> pubkey \<Rightarrow> pubkey \<Rightarrow> u64 \<Rightarrow> (executor, bytes) exec" where
  "token_approve L B ctx source target amount = (let (signer_pubkey, seeds) = signer_of B ctx in
     and_then (queue_token L (MakeApprove source target signer_pubkey amount) seeds) (\<lambda>_. ret []))"

definition token_revoke :: "solana \<Rightarrow> account_storage \<Rightarrow> call_context \<Rightarrow> pubkey \<Rightarrow> (executor, bytes) exec" where
  "token_revoke L B ctx account = (let (signer_pubkey, seeds) = signer_of B ctx in
     and_then (queue_token L (MakeRevoke account signer_pubkey) seeds) (\<lambda>_. ret []))"

definition token_transfer :: "solana \<Rightarrow> account_storage \<Rightarrow> call_context \<Rightarrow> pubkey \<Rightarrow> pubkey \<Rightarrow> u64 \<Rightarrow> (executor, bytes) exec" where
  "token_transfer L B ctx source target amount = (let (signer_pubkey, seeds) = signer_of B ctx in
     and_then (queue_token L (MakeTokenTransfer source target signer_pubkey amount) seeds) (\<lambda>_. ret []))"

definition transfer_with_seed :: "solana \<Rightarrow> account_storage \<Rightarrow> call_context \<Rightarrow> bytes \<Rightarrow> pubkey \<Rightarrow> pubkey \<Rightarrow> u64
    \<Rightarrow> (executor, bytes) exec" where
  "transfer_with_seed L B ctx seed source target amount =
    (let seeds = [[ACCOUNT_SEED_VERSION], ascii ''AUTH'', be_bytes 20 (ctx_caller ctx), seed];
         (signer_pubkey, signer_seed) = sol_find_program_address L seeds (as_program_id B) in
     and_then (queue_token L (MakeTokenTransfer source target signer_pubkey amount) (seeds @ [[signer_seed]])) (\<lambda>_.
     ret []))"

definition mint_to :: "solana \<Rightarrow> account_storage \<Rightarrow> call_context \<Rightarrow> pubkey \<Rightarrow> pubkey \<Rightarrow> u64 \<Rightarrow> (executor, bytes) exec" where
  "mint_to L B ctx mint target amount = (let (signer_pubkey, seeds) = signer_of B ctx in
     and_then (queue_token L (MakeMintTo mint target signer_pubkey amount) seeds) (\<lambda>_. ret []))"

definition token_burn :: "solana \<Rightarrow> account_storage \<Rightarrow> call_context \<Rightarrow> pubkey \<Rightarrow> pubkey \<Rightarrow> u64 \<Rightarrow> (executor, bytes) exec" where
  "token_burn L B ctx mint source amount = (let (signer_pubkey, seeds) = signer_of B ctx in
     and_then (queue_token L (MakeBurn source mint signer_pubkey amount) seeds) (\<lambda>_. ret []))"

definition token_freeze :: "solana \<Rightarrow> account_storage \<Rightarrow> call_context \<Rightarrow> pubkey \<Rightarrow> pubkey \<Rightarrow> (executor, bytes) exec" where
  "token_freeze L B ctx mint target = (let (signer_pubkey, seeds) = signer_of B ctx in
     and_then (queue_token L (MakeFreezeAccount target mint signer_pubkey) seeds) (\<lambda>_. ret []))"

definition token_thaw :: "solana \<Rightarrow> account_storage \<Rightarrow> call_context \<Rightarrow> pubkey \<Rightarrow> pubkey \<Rightarrow> (executor, bytes) exec" where
  "token_thaw L B ctx mint target = (let (signer_pubkey, seeds) = signer_of B ctx in
     and_then (queue_token L (MakeThawAccount target mint signer_pubkey) seeds) (\<lambda>_. ret []))"

text \<open>The views\<close>

definition find_account :: "solana \<Rightarrow> account_storage \<Rightarrow> call_context \<Rightarrow> bytes \<Rightarrow> (executor, bytes) exec" where
  "find_account L B ctx seed =
     ret (be_bytes 32 (fst (sol_find_program_address L (contract_data_seeds ctx seed) (as_program_id B))))"

definition is_system_account :: "solana \<Rightarrow> account_storage \<Rightarrow> pubkey \<Rightarrow> (executor, bytes) exec" where
  "is_system_account L B k = and_then (external_account L B k) (\<lambda>account.
     if oa_owner account = sol_system_id L then ret true_word else ret (replicate 32 0))"

definition optional_key :: "pubkey option \<Rightarrow> bytes" where
  "optional_key k = (case k of Some p \<Rightarrow> be_bytes 32 p | None \<Rightarrow> replicate 32 0)"

definition solidity_token_account :: "token_account \<Rightarrow> bytes" where
  "solidity_token_account t =
     be_bytes 32 (ta_mint t) @ be_bytes 32 (ta_owner t) @ replicate 24 0 @ be_bytes 8 (ta_amount t)
     @ optional_key (ta_delegate t) @ replicate 24 0 @ be_bytes 8 (ta_delegated_amount t)
     @ optional_key (ta_close_authority t) @ replicate 31 0 @ [ta_state t]"

definition get_account :: "solana \<Rightarrow> account_storage \<Rightarrow> pubkey \<Rightarrow> (executor, bytes) exec" where
  "get_account L B k = and_then (external_account L B k) (\<lambda>account.
     and_then (if oa_owner account = sol_token_id L then lift (sol_token_account_unpack L (oa_data account))
         else if oa_owner account = sol_system_id L then ret (sol_token_account_default L)
         else raise (ProgramError IllegalOwner)) (\<lambda>token.
     ret (solidity_token_account token)))"

definition solidity_mint :: "token_mint \<Rightarrow> bytes" where
  "solidity_mint t =
     replicate 24 0 @ be_bytes 8 (tm_supply t) @ replicate 31 0 @ [tm_decimals t]
     @ replicate 31 0 @ [of_bool (tm_is_initialized t)]
     @ optional_key (tm_freeze_authority t) @ optional_key (tm_mint_authority t)"

definition get_mint :: "solana \<Rightarrow> account_storage \<Rightarrow> pubkey \<Rightarrow> (executor, bytes) exec" where
  "get_mint L B k = and_then (external_account L B k) (\<lambda>account.
     and_then (if oa_owner account = sol_token_id L then lift (sol_token_mint_unpack L (oa_data account))
         else if oa_owner account = sol_system_id L then ret (sol_token_mint_default L)
         else raise (ProgramError IllegalOwner)) (\<lambda>mint.
     ret (solidity_mint mint)))"

section \<open>The methods\<close>

definition read_arg :: "(bytes \<Rightarrow> 'a result) \<Rightarrow> nat \<Rightarrow> bytes \<Rightarrow> (executor, 'a) exec" where
  "read_arg f n input = lift (rbind (slice_from n input) f)"

text \<open>The methods that change an account; all of them are refused in a static call.\<close>

definition spl_token_writes :: "bytes list" where
  "spl_token_writes = [[0xb1, 0x1e, 0xcc, 0x50], [0xc3, 0xf3, 0xf2, 0xf2], [0xda, 0xa1, 0x2c, 0x5c], [0xfc, 0x86, 0xb7, 0x17],
     [0x57, 0x82, 0xa0, 0x43], [0xa9, 0xc1, 0x58, 0x06], [0xb7, 0x5c, 0x7d, 0xc6], [0x78, 0x42, 0x3b, 0xcf],
     [0x7c, 0x0e, 0xb8, 0x10], [0xc9, 0xd0, 0xe2, 0xfd], [0xc0, 0x67, 0xee, 0xbb], [0x44, 0xef, 0x32, 0x44],
     [0x3d, 0x71, 0x8c, 0x9a]]"

definition spl_token_write :: "solana \<Rightarrow> account_storage \<Rightarrow> call_context \<Rightarrow> bytes \<Rightarrow> bytes \<Rightarrow> (executor, bytes) exec" where
  "spl_token_write L B ctx selector input =
    (if selector = [0xb1, 0x1e, 0xcc, 0x50] then
       and_then (lift (read_salt input)) (\<lambda>seed.
       and_then (read_arg read_u8 32 input) (\<lambda>decimals.
       initialize_mint L B ctx seed decimals None None))
     else if selector = [0xc3, 0xf3, 0xf2, 0xf2] then
       and_then (lift (read_salt input)) (\<lambda>seed.
       and_then (read_arg read_u8 32 input) (\<lambda>decimals.
       and_then (read_arg read_pubkey 64 input) (\<lambda>mint_authority.
       and_then (read_arg read_pubkey 96 input) (\<lambda>freeze_authority.
       initialize_mint L B ctx seed decimals (Some mint_authority) (Some freeze_authority)))))
     else if selector = [0xda, 0xa1, 0x2c, 0x5c] then
       and_then (lift (read_salt input)) (\<lambda>seed.
       and_then (read_arg read_pubkey 32 input) (\<lambda>mint.
       initialize_account L B ctx seed mint None))
     else if selector = [0xfc, 0x86, 0xb7, 0x17] then
       and_then (lift (read_salt input)) (\<lambda>seed.
       and_then (read_arg read_pubkey 32 input) (\<lambda>mint.
       and_then (read_arg read_pubkey 64 input) (\<lambda>owner.
       initialize_account L B ctx seed mint (Some owner))))
     else if selector = [0x57, 0x82, 0xa0, 0x43] then
       and_then (lift (read_pubkey input)) (\<lambda>account. close_account L B ctx account)
     else if selector = [0xa9, 0xc1, 0x58, 0x06] then
       and_then (lift (read_pubkey input)) (\<lambda>source.
       and_then (read_arg read_pubkey 32 input) (\<lambda>target.
       and_then (read_arg read_u64 64 input) (\<lambda>amount.
       token_approve L B ctx source target amount)))
     else if selector = [0xb7, 0x5c, 0x7d, 0xc6] then
       and_then (lift (read_pubkey input)) (\<lambda>source. token_revoke L B ctx source)
     else if selector = [0x78, 0x42, 0x3b, 0xcf] then
       and_then (lift (read_pubkey input)) (\<lambda>source.
       and_then (read_arg read_pubkey 32 input) (\<lambda>target.
       and_then (read_arg read_u64 64 input) (\<lambda>amount.
       token_transfer L B ctx source target amount)))
     else if selector = [0x7c, 0x0e, 0xb8, 0x10] then
       and_then (lift (read_salt input)) (\<lambda>seed.
       and_then (read_arg read_pubkey 32 input) (\<lambda>source.
       and_then (read_arg read_pubkey 64 input) (\<lambda>target.
       and_then (read_arg read_u64 96 input) (\<lambda>amount.
       transfer_with_seed L B ctx seed source target amount))))
     else if selector = [0xc9, 0xd0, 0xe2, 0xfd] then
       and_then (lift (read_pubkey input)) (\<lambda>mint.
       and_then (read_arg read_pubkey 32 input) (\<lambda>account.
       and_then (read_arg read_u64 64 input) (\<lambda>amount.
       mint_to L B ctx mint account amount)))
     else if selector = [0xc0, 0x67, 0xee, 0xbb] then
       and_then (lift (read_pubkey input)) (\<lambda>mint.
       and_then (read_arg read_pubkey 32 input) (\<lambda>account.
       and_then (read_arg read_u64 64 input) (\<lambda>amount.
       token_burn L B ctx mint account amount)))
     else if selector = [0x44, 0xef, 0x32, 0x44] then
       and_then (lift (read_pubkey input)) (\<lambda>mint.
       and_then (read_arg read_pubkey 32 input) (\<lambda>account.
       token_freeze L B ctx mint account))
     else
       and_then (lift (read_pubkey input)) (\<lambda>mint.
       and_then (read_arg read_pubkey 32 input) (\<lambda>account.
       token_thaw L B ctx mint account)))"

definition spl_token :: "solana \<Rightarrow> account_storage \<Rightarrow> address \<Rightarrow> bytes \<Rightarrow> call_context \<Rightarrow> bool \<Rightarrow> (executor, bytes) exec" where
  "spl_token L B addr input ctx is_static =
    (if ctx_value ctx \<noteq> 0 then raise (Custom ''SplToken: value != 0'')
     else if ctx_contract ctx \<noteq> addr then raise (Custom ''SplToken: callcode or delegatecall is not allowed'')
     else
       and_then (lift (split_at 4 input)) (\<lambda>(selector, input).
       if selector \<in> set spl_token_writes then
         if is_static then raise (EvmError (StaticModeViolation addr))
         else spl_token_write L B ctx selector input
       else if selector = [0xeb, 0x7d, 0xa7, 0x8c] then
         and_then (lift (read_salt input)) (\<lambda>seed. find_account L B ctx seed)
       else if selector = [0x6d, 0xa9, 0xde, 0x75] then
         and_then (lift (read_pubkey input)) (\<lambda>account. is_system_account L B account)
       else if selector = [0xd1, 0xde, 0x50, 0x11] then
         and_then (lift (read_pubkey input)) (\<lambda>account. get_account L B account)
       else if selector = [0xa2, 0xce, 0x9c, 0x1f] then
         and_then (lift (read_pubkey input)) (\<lambda>account. get_mint L B account)
       else raise (UnknownPrecompileMethodSelector addr selector)))"

end
