(* ===== verification/Extension_Metaplex.thy ===== *)
theory Extension_Metaplex
  imports Extension_Token
begin

text \<open>
  The extension for Metaplex metadata (\<open>program/src/executor/precompile_extension/metaplex.rs\<close>) and the
  dispatch over the four extensions (\<open>precompile_extension/mod.rs\<close>).
\<close>

section \<open>Arguments and results\<close>

definition read_u64_checked :: "bytes \<Rightarrow> u64 result" where
  "read_u64_checked input = (if length input < 32 then Err OutOfBounds else rbind (array_32 input) u64_of_u256)"

text \<open>The argument at \<open>offset_position\<close> is the offset of the string's length.\<close>

definition read_string :: "bytes \<Rightarrow> usize \<Rightarrow> usize \<Rightarrow> bytes result" where
  "read_string input offset_position max_length =
    (if length input < offset_position + 32 then Err OutOfBounds
     else
       rbind (usize_of_u256 (from_be (take 32 (drop offset_position input)))) (\<lambda>offset.
       if length input < saturating_add_usize offset 32 then Err OutOfBounds
       else
         rbind (rbind (rbind (slice_from offset input) array_32) usize_of_u256) (\<lambda>len.
         if max_length < len then Err OutOfBounds
         else
           let begin' = saturating_add_usize offset 32;
               end' = saturating_add_usize begin' len in
           if length input < end' then Err OutOfBounds
           else
             rbind (unwrap (slice_get input begin' end')) (\<lambda>s.
             if utf8_valid s then Ok s else Err (Custom ''Invalid utf8 string'')))))"

definition to_solidity_bool :: "bool \<Rightarrow> bytes" where
  "to_solidity_bool v = replicate 31 0 @ [of_bool v]"

definition to_solidity_string :: "bytes \<Rightarrow> bytes" where
  "to_solidity_string s =
    (let data_len = (if length s mod 32 = 0 then max (length s) 32 else (length s div 32 + 1) * 32)
     in replicate 31 0 @ [0x20] @ be_bytes 32 (of_nat (length s) :: u256) @ s @ replicate (data_len - length s) 0)"

definition trim_end_zeros :: "bytes \<Rightarrow> bytes" where
  "trim_end_zeros s = rev (dropWhile (\<lambda>b. b = 0) (rev s))"

section \<open>The methods\<close>

definition create_metadata :: "solana \<Rightarrow> account_storage \<Rightarrow> call_context \<Rightarrow> pubkey \<Rightarrow> bytes \<Rightarrow> bytes \<Rightarrow> bytes
    \<Rightarrow> (executor, bytes) exec" where
  "create_metadata L B ctx mint name symbol uri =
    (let (signer_pubkey, seeds) = signer_of B ctx;
         metadata_pubkey = sol_metadata_account L mint;
         ins = sol_metaplex_make L (MakeMetadataV3 (sol_metaplex_id L) metadata_pubkey mint signer_pubkey (as_operator B)
           signer_pubkey name symbol uri
           (Some [\<lparr>cr_address = as_program_id B, cr_verified = False, cr_share = 0\<rparr>,
             \<lparr>cr_address = signer_pubkey, cr_verified = True, cr_share = 100\<rparr>]) 0 True False) in
     and_then (lift (sol_rent L)) (\<lambda>minimum_balance.
     and_then (queue_external_instruction ins seeds (minimum_balance (sol_max_metadata_len L) + sol_create_fee L)) (\<lambda>_.
     ret (be_bytes 32 metadata_pubkey))))"

definition create_master_edition :: "solana \<Rightarrow> account_storage \<Rightarrow> call_context \<Rightarrow> pubkey \<Rightarrow> u64 option
    \<Rightarrow> (executor, bytes) exec" where
  "create_master_edition L B ctx mint max_supply =
    (let (signer_pubkey, seeds) = signer_of B ctx;
         metadata_pubkey = sol_metadata_account L mint;
         edition_pubkey = sol_edition_account L mint;
         ins = sol_metaplex_make L (MakeMasterEditionV3 (sol_metaplex_id L) edition_pubkey mint signer_pubkey signer_pubkey
           metadata_pubkey (as_operator B) max_supply) in
     and_then (lift (sol_rent L)) (\<lambda>minimum_balance.
     and_then (queue_external_instruction ins seeds (minimum_balance (sol_max_edition_len L) + sol_create_fee L)) (\<lambda>_.
     ret (be_bytes 32 edition_pubkey))))"

definition metadata :: "solana \<Rightarrow> account_storage \<Rightarrow> pubkey \<Rightarrow> (executor, token_metadata option) exec" where
  "metadata L B mint = and_then (external_account L B (sol_metadata_account L mint)) (\<lambda>account.
     ret (if oa_owner account = sol_metaplex_id L then sol_metadata_read L (oa_data account) else None))"

definition is_initialized :: "solana \<Rightarrow> account_storage \<Rightarrow> pubkey \<Rightarrow> (executor, bytes) exec" where
  "is_initialized L B mint = and_then (metadata L B mint) (\<lambda>m. ret (to_solidity_bool (m \<noteq> None)))"

definition is_nft :: "solana \<Rightarrow> account_storage \<Rightarrow> pubkey \<Rightarrow> (executor, bytes) exec" where
  "is_nft L B mint = and_then (metadata L B mint) (\<lambda>m.
     ret (to_solidity_bool (case m of Some d \<Rightarrow> md_token_standard d = Some NonFungible | None \<Rightarrow> False)))"

definition metadata_string :: "solana \<Rightarrow> account_storage \<Rightarrow> (token_metadata \<Rightarrow> bytes) \<Rightarrow> pubkey \<Rightarrow> (executor, bytes) exec" where
  "metadata_string L B field mint = and_then (metadata L B mint) (\<lambda>m.
     ret (to_solidity_string (trim_end_zeros (case m of Some d \<Rightarrow> field d | None \<Rightarrow> []))))"

definition token_uri :: "solana \<Rightarrow> account_storage \<Rightarrow> pubkey \<Rightarrow> (executor, bytes) exec" where
  "token_uri L B mint = metadata_string L B md_uri mint"

definition token_name :: "solana \<Rightarrow> account_storage \<Rightarrow> pubkey \<Rightarrow> (executor, bytes) exec" where
  "token_name L B mint = metadata_string L B md_name mint"

definition token_symbol :: "solana \<Rightarrow> account_storage \<Rightarrow> pubkey \<Rightarrow> (executor, bytes) exec" where
  "token_symbol L B mint = metadata_string L B md_symbol mint"

definition metaplex :: "solana \<Rightarrow> account_storage \<Rightarrow> address \<Rightarrow> bytes \<Rightarrow> call_context \<Rightarrow> bool \<Rightarrow> (executor, bytes) exec" where
  "metaplex L B addr input ctx is_static =
    (if ctx_value ctx \<noteq> 0 then raise (Custom ''Metaplex: value != 0'')
     else if ctx_contract ctx \<noteq> addr then raise (Custom ''Metaplex: callcode or delegatecall is not allowed'')
     else
       and_then (lift (split_at 4 input)) (\<lambda>(selector, input).
       if selector = [0xc5, 0x73, 0x50, 0xc6] then
         if is_static then raise (EvmError (StaticModeViolation addr))
         else
           and_then (lift (read_pubkey input)) (\<lambda>mint.
           and_then (lift (read_string input 32 256)) (\<lambda>name.
           and_then (lift (read_string input 64 256)) (\<lambda>symbol.
           and_then (lift (read_string input 96 1024)) (\<lambda>uri.
           create_metadata L B ctx mint name symbol uri))))
       else if selector = [0x4a, 0xe8, 0xb6, 0x6b] then
         if is_static then raise (EvmError (StaticModeViolation addr))
         else
           and_then (lift (read_pubkey input)) (\<lambda>mint.
           and_then (read_arg read_u64_checked 32 input) (\<lambda>max_supply.
           create_master_edition L B ctx mint (Some max_supply)))
       else if selector = [0xf7, 0xb6, 0x37, 0xbb] then and_then (lift (read_pubkey input)) (is_initialized L B)
       else if selector = [0x23, 0x5b, 0x2b, 0x94] then and_then (lift (read_pubkey input)) (is_nft L B)
       else if selector = [0x9e, 0xd1, 0x9d, 0xdb] then and_then (lift (read_pubkey input)) (token_uri L B)
       else if selector = [0x69, 0x1f, 0x34, 0x31] then and_then (lift (read_pubkey input)) (token_name L B)
       else if selector = [0x6b, 0xaa, 0x03, 0x30] then and_then (lift (read_pubkey input)) (token_symbol L B)
       else raise (UnknownPrecompileMethodSelector addr selector)))"

section \<open>Dispatch\<close>

definition call_precompile_extension :: "solana \<Rightarrow> account_storage \<Rightarrow> call_context \<Rightarrow> address \<Rightarrow> bytes \<Rightarrow> bool
    \<Rightarrow> (executor, bytes option) exec" where
  "call_precompile_extension L B ctx addr input is_static =
    (if addr = 0xff00000000000000000000000000000000000002 then
       and_then (query_account B addr input ctx is_static) (\<lambda>r. ret (Some r))
     else if addr = 0xff00000000000000000000000000000000000003 then
       and_then (neon_token L B addr input ctx is_static) (\<lambda>r. ret (Some r))
     else if addr = 0xff00000000000000000000000000000000000004 then
       and_then (spl_token L B addr input ctx is_static) (\<lambda>r. ret (Some r))
     else if addr = 0xff00000000000000000000000000000000000005 then
       and_then (metaplex L B addr input ctx is_static) (\<lambda>r. ret (Some r))
     else ret None)"

end
