(* ===== verification/Opcodes_Arith.thy ===== *)
theory Opcodes_Arith
  imports Machine "HOL-Library.Signed_Division"
begin

text \<open>
  The arithmetic, comparison, bitwise and shift instructions (\<open>program/src/evm/opcode.rs\<close>, from
  \<open>opcode_add\<close> to \<open>opcode_sar\<close>).  Each takes its operands from the stack of the current frame and
  pushes its result; the computation itself is a function of words, so that it can be compared with
  the mathematical operation it stands for.

  An \<open>I256\<close> is a word read with \<open>sint\<close>; \<open>sdiv\<close> and \<open>smod\<close> on \<open>int\<close> truncate towards zero as Rust
  does, and \<open>word_of_int\<close> is the wrap-around of \<open>wrapping_div\<close>.
\<close>

section \<open>The computations\<close>

definition calc_sdiv :: "u256 \<Rightarrow> u256 \<Rightarrow> u256" where
  "calc_sdiv a b = word_of_int (sint a sdiv sint b)"

definition calc_smod :: "u256 \<Rightarrow> u256 \<Rightarrow> u256" where
  "calc_smod a b = word_of_int (sint a smod sint b)"

definition calc_addmod :: "u256 \<Rightarrow> u256 \<Rightarrow> u256 \<Rightarrow> u256" where
  "calc_addmod a b m =
    (if b = 0 then a mod m
     else
       let a = a mod m; b = m - (b mod m) in
       if b \<le> a then a - b else (m - b) + a)"

lemma unat_drop_bit_1: "unat (drop_bit (Suc 0) (a :: u256)) = unat a div 2"
  by (simp add: drop_bit_eq_div unat_div_distrib)

lemma drop_bit_1_less: "a \<noteq> 0 \<Longrightarrow> unat (drop_bit (Suc 0) (a :: u256)) < unat a"
proof -
  assume "a \<noteq> 0"
  then have "0 < unat a" by (simp add: unat_gt_0)
  then show ?thesis by (simp add: unat_drop_bit_1)
qed

text \<open>The loop of \<open>mulmod\<close>: \<open>(result + a * b) mod m\<close> is invariant.\<close>

function (sequential) mulmod_loop :: "u256 \<Rightarrow> u256 \<Rightarrow> u256 \<Rightarrow> u256 \<Rightarrow> u256" where
  "mulmod_loop a b m result =
    (if a = 0 then result
     else
       let result = (if a AND 1 \<noteq> 0
             then (if m - result \<le> b then result - m else result) + b
             else result);
           temp_b = (if m - b \<le> b then b - m else b)
       in mulmod_loop (drop_bit 1 a) (b + temp_b) m result)"
  by pat_completeness auto
termination
  by (relation "measure (\<lambda>(a, b, m, result). unat a)") (simp_all add: drop_bit_1_less)

declare mulmod_loop.simps [simp del]

definition calc_mulmod :: "u256 \<Rightarrow> u256 \<Rightarrow> u256 \<Rightarrow> u256" where
  "calc_mulmod a b m =
    (let (a, b) = (if b < a then (b, a) else (a, b));
         b = (if m \<le> b then b mod m else b)
     in mulmod_loop a b m 0)"

text \<open>The loop of \<open>exp\<close>; the final bit of the exponent is dealt with after it.\<close>

function (sequential) exp_loop :: "u256 \<Rightarrow> u256 \<Rightarrow> u256 \<Rightarrow> u256" where
  "exp_loop a b result =
    (if 1 < b
     then exp_loop (a * a) (drop_bit 1 b) (if b AND 1 = 1 then result * a else result)
     else if b = 1 then result * a
     else result)"
  by pat_completeness auto
termination
proof (relation "measure (\<lambda>(a, b, result). unat b)", goal_cases)
  case (2 a b result)
  then have "b \<noteq> 0" by auto
  then show ?case by (simp add: drop_bit_1_less)
qed simp

declare exp_loop.simps [simp del]

definition calc_exp :: "u256 \<Rightarrow> u256 \<Rightarrow> u256" where
  "calc_exp a b = exp_loop a b 1"

definition calc_signextend :: "u256 \<Rightarrow> u256 \<Rightarrow> u256" where
  "calc_signextend b x =
    (if b < 32 then
       let bit_index = 8 * unat b + 7;
           has_bit = x AND push_bit bit_index 1 \<noteq> 0;
           msk = push_bit bit_index 1 - 1
       in if has_bit then x OR NOT msk else x AND msk
     else x)"

definition calc_byte :: "u256 \<Rightarrow> u256 \<Rightarrow> u8" where
  "calc_byte i x = (if 32 \<le> i then 0 else be_bytes 32 x ! unat i)"

section \<open>The instructions\<close>

definition pop2 :: "(u256 \<Rightarrow> u256 \<Rightarrow> ('b vm, 'a) exec) \<Rightarrow> ('b vm, 'a) exec" where
  "pop2 f = and_then (on_stack pop_u256) (\<lambda>a. and_then (on_stack pop_u256) (\<lambda>b. f a b))"

definition opcode_add :: "('b vm, action) exec" where
  "opcode_add = pop2 (\<lambda>a b. and_then (on_stack (push_u256 (a + b))) (\<lambda>_. ret ActContinue))"

definition opcode_mul :: "('b vm, action) exec" where
  "opcode_mul = pop2 (\<lambda>a b. and_then (on_stack (push_u256 (a * b))) (\<lambda>_. ret ActContinue))"

definition opcode_sub :: "('b vm, action) exec" where
  "opcode_sub = pop2 (\<lambda>a b. and_then (on_stack (push_u256 (a - b))) (\<lambda>_. ret ActContinue))"

definition opcode_div :: "('b vm, action) exec" where
  "opcode_div = pop2 (\<lambda>a b. and_then (on_stack (if b = 0 then push_zero else push_u256 (a div b)))
     (\<lambda>_. ret ActContinue))"

definition opcode_sdiv :: "('b vm, action) exec" where
  "opcode_sdiv = and_then (on_stack pop_i256) (\<lambda>a. and_then (on_stack pop_i256) (\<lambda>b.
     and_then (on_stack (if b = 0 then push_zero else push_i256 (calc_sdiv a b))) (\<lambda>_. ret ActContinue)))"

definition opcode_mod :: "('b vm, action) exec" where
  "opcode_mod = pop2 (\<lambda>a b. and_then (on_stack (if b = 0 then push_zero else push_u256 (a mod b)))
     (\<lambda>_. ret ActContinue))"

definition opcode_smod :: "('b vm, action) exec" where
  "opcode_smod = and_then (on_stack pop_i256) (\<lambda>a. and_then (on_stack pop_i256) (\<lambda>b.
     and_then (on_stack (if b = 0 then push_zero else push_i256 (calc_smod a b))) (\<lambda>_. ret ActContinue)))"

definition opcode_addmod :: "('b vm, action) exec" where
  "opcode_addmod = pop2 (\<lambda>a b. and_then (on_stack pop_u256) (\<lambda>m.
     and_then (on_stack (if m = 0 then push_zero else push_u256 (calc_addmod a b m))) (\<lambda>_. ret ActContinue)))"

definition opcode_mulmod :: "('b vm, action) exec" where
  "opcode_mulmod = pop2 (\<lambda>a b. and_then (on_stack pop_u256) (\<lambda>m.
     and_then (on_stack (if m = 0 then push_zero else push_u256 (calc_mulmod a b m))) (\<lambda>_. ret ActContinue)))"

definition opcode_exp :: "('b vm, action) exec" where
  "opcode_exp = pop2 (\<lambda>a b. and_then (on_stack (push_u256 (calc_exp a b))) (\<lambda>_. ret ActContinue))"

definition opcode_signextend :: "('b vm, action) exec" where
  "opcode_signextend = pop2 (\<lambda>b x. and_then (on_stack (push_u256 (calc_signextend b x))) (\<lambda>_. ret ActContinue))"

definition opcode_lt :: "('b vm, action) exec" where
  "opcode_lt = pop2 (\<lambda>a b. and_then (on_stack (push_bool (a < b))) (\<lambda>_. ret ActContinue))"

definition opcode_gt :: "('b vm, action) exec" where
  "opcode_gt = pop2 (\<lambda>a b. and_then (on_stack (push_bool (b < a))) (\<lambda>_. ret ActContinue))"

definition opcode_slt :: "('b vm, action) exec" where
  "opcode_slt = and_then (on_stack pop_i256) (\<lambda>a. and_then (on_stack pop_i256) (\<lambda>b.
     and_then (on_stack (push_bool (sint a < sint b))) (\<lambda>_. ret ActContinue)))"

definition opcode_sgt :: "('b vm, action) exec" where
  "opcode_sgt = and_then (on_stack pop_i256) (\<lambda>a. and_then (on_stack pop_i256) (\<lambda>b.
     and_then (on_stack (push_bool (sint b < sint a))) (\<lambda>_. ret ActContinue)))"

definition opcode_eq :: "('b vm, action) exec" where
  "opcode_eq = pop2 (\<lambda>a b. and_then (on_stack (push_bool (a = b))) (\<lambda>_. ret ActContinue))"

definition opcode_iszero :: "('b vm, action) exec" where
  "opcode_iszero = and_then (on_stack pop_array) (\<lambda>a.
     and_then (on_stack (push_bool (a = 0))) (\<lambda>_. ret ActContinue))"

definition opcode_and :: "('b vm, action) exec" where
  "opcode_and = pop2 (\<lambda>a b. and_then (on_stack (push_u256 (a AND b))) (\<lambda>_. ret ActContinue))"

definition opcode_or :: "('b vm, action) exec" where
  "opcode_or = pop2 (\<lambda>a b. and_then (on_stack (push_u256 (a OR b))) (\<lambda>_. ret ActContinue))"

definition opcode_xor :: "('b vm, action) exec" where
  "opcode_xor = pop2 (\<lambda>a b. and_then (on_stack (push_u256 (a XOR b))) (\<lambda>_. ret ActContinue))"

definition opcode_not :: "('b vm, action) exec" where
  "opcode_not = and_then (on_stack pop_u256) (\<lambda>a. and_then (on_stack (push_u256 (NOT a))) (\<lambda>_. ret ActContinue))"

definition opcode_byte :: "('b vm, action) exec" where
  "opcode_byte = and_then (on_stack pop_u256) (\<lambda>i. and_then (on_stack pop_array) (\<lambda>x.
     and_then (on_stack (push_byte (calc_byte i x))) (\<lambda>_. ret ActContinue)))"

definition opcode_shl :: "('b vm, action) exec" where
  "opcode_shl = pop2 (\<lambda>shift val. and_then (on_stack
     (if shift < 256 then push_u256 (push_bit (unat shift) val) else push_zero)) (\<lambda>_. ret ActContinue))"

definition opcode_shr :: "('b vm, action) exec" where
  "opcode_shr = pop2 (\<lambda>shift val. and_then (on_stack
     (if shift < 256 then push_u256 (drop_bit (unat shift) val) else push_zero)) (\<lambda>_. ret ActContinue))"

definition opcode_sar :: "('b vm, action) exec" where
  "opcode_sar = and_then (on_stack pop_u256) (\<lambda>shift. and_then (on_stack pop_i256) (\<lambda>val.
     and_then (on_stack (if shift < 256 then push_i256 (signed_drop_bit (unat shift) val) else push_zero))
       (\<lambda>_. ret ActContinue)))"

section \<open>The computations against arithmetic\<close>

lemma calc_addmod_spec:
  assumes "m \<noteq> 0"
  shows "unat (calc_addmod a b m) = (unat a + unat b) mod unat m"
proof -
  define x y n where "x = unat a mod unat m" and "y = unat b mod unat m" and "n = unat m"
  have n: "0 < n" using assms by (simp add: n_def unat_gt_0)
  have xy: "x < n" "y < n" using n by (simp_all add: x_def y_def n_def)
  have sum: "(unat a + unat b) mod n = (x + y) mod n"
    by (simp add: x_def y_def n_def mod_add_eq)
  have bm: "unat (m - b mod m) = n - y"
    by (subst unat_sub) (simp_all add: word_le_nat_alt unat_mod_distrib n_def y_def xy less_imp_le
        n [unfolded n_def])
  show ?thesis
  proof (cases "b = 0")
    case True
    then show ?thesis by (simp add: calc_addmod_def unat_mod_distrib)
  next
    case False
    show ?thesis
    proof (cases "n - y \<le> x")
      case True
      then have "m - b mod m \<le> a mod m"
        by (simp add: word_le_nat_alt bm unat_mod_distrib x_def n_def)
      then have "unat (calc_addmod a b m) = x - (n - y)"
        using False by (simp add: calc_addmod_def Let_def unat_sub bm unat_mod_distrib x_def n_def)
      also have "\<dots> = (x + y) mod n"
        using True xy by (simp add: le_mod_geq)
      finally show ?thesis using sum by (simp add: n_def)
    next
      case F: False
      then have g: "\<not> m - b mod m \<le> a mod m"
        by (simp add: word_le_nat_alt bm unat_mod_distrib x_def n_def)
      have "m - (m - b mod m) + a mod m = b mod m + a mod m" by simp
      moreover have "unat (b mod m + a mod m) = y + x"
      proof -
        have "y + x < 2 ^ 256" using F xy unat_less_2p [of m] by (simp add: n_def)
        then show ?thesis
          by (simp add: unat_word_ariths unat_mod_distrib x_def y_def n_def)
      qed
      ultimately have "unat (calc_addmod a b m) = y + x"
        using False g by (simp add: calc_addmod_def Let_def)
      also have "\<dots> = (x + y) mod n" using F xy by simp
      finally show ?thesis using sum by (simp add: n_def)
    qed
  qed
qed

text \<open>One addition modulo \<open>m\<close> as the loop does it, without a carry out of the word\<close>

lemma addmod_step:
  assumes "r < m" and "b < (m :: u256)"
  shows "unat ((if m - r \<le> b then r - m else r) + b) = (unat r + unat b) mod unat m"
    and "(if m - r \<le> b then r - m else r) + b < m"
proof -
  have lt: "unat r < unat m" "unat b < unat m" using assms by (simp_all add: word_less_nat_alt)
  have sub: "unat (m - r) = unat m - unat r" using lt by (simp add: unat_sub_if')
  have "unat ((if m - r \<le> b then r - m else r) + b) = (unat r + unat b) mod unat m"
  proof (cases "m - r \<le> b")
    case True
    then have le: "unat m - unat r \<le> unat b" using sub by (simp add: word_le_nat_alt)
    have "r - m + b = b - (m - r)" by simp
    also have "unat (b - (m - r)) = unat b - (unat m - unat r)" using True sub by (simp add: unat_sub)
    also have "\<dots> = unat r + unat b - unat m" using le lt by simp
    also have "\<dots> = (unat r + unat b) mod unat m" using le lt by (simp add: le_mod_geq)
    finally show ?thesis using True by simp
  next
    case False
    then have less: "unat r + unat b < unat m" using sub lt by (simp add: word_le_nat_alt)
    then have "unat r + unat b < 2 ^ 256" using unat_less_2p [of m] by simp
    then have "unat (r + b) = unat r + unat b" by (simp add: unat_word_ariths)
    then show ?thesis using False less by simp
  qed
  then show "unat ((if m - r \<le> b then r - m else r) + b) = (unat r + unat b) mod unat m"
    and "(if m - r \<le> b then r - m else r) + b < m"
    using lt by (auto simp: word_less_nat_alt)
qed

lemma odd_and_1: "(a :: u256) AND 1 \<noteq> 0 \<longleftrightarrow> odd (unat a)"
  by (simp add: and_one_eq odd_iff_mod_2_eq_one unat_eq_zero [symmetric] unat_mod_distrib)

lemma mulmod_loop_spec:
  "b < m \<Longrightarrow> r < m \<Longrightarrow> unat (mulmod_loop a b m r) = (unat r + unat a * unat b) mod unat m"
proof (induction a b m r rule: mulmod_loop.induct)
  case (1 a b m r)
  have lt: "unat r < unat m" using 1 by (simp add: word_less_nat_alt)
  show ?case
  proof (cases "a = 0")
    case True
    then show ?thesis using lt by (simp add: mulmod_loop.simps)
  next
    case False
    define r' where "r' = (if a AND 1 \<noteq> 0 then (if m - r \<le> b then r - m else r) + b else r)"
    define b' where "b' = b + (if m - b \<le> b then b - m else b)"
    have gen: "x + p * y + q * (y + y) = x + (p + 2 * q) * y" for x p q y :: nat
      by (simp add: algebra_simps)
    have b': "b' < m" "unat b' = (unat b + unat b) mod unat m"
      using addmod_step [OF "1.prems"(1) "1.prems"(1)] by (simp_all add: b'_def add.commute)
    have r': "r' < m" "unat r' = (unat r + unat a mod 2 * unat b) mod unat m"
      using addmod_step [OF "1.prems"(2,1)] "1.prems"(2) lt
      by (auto simp: r'_def odd_and_1 odd_iff_mod_2_eq_one even_iff_mod_2_eq_zero)
    have "mulmod_loop a b m r = mulmod_loop (drop_bit 1 a) b' m r'"
      using False by (subst mulmod_loop.simps) (simp add: Let_def r'_def b'_def)
    also have "unat \<dots> = (unat r' + unat a div 2 * unat b') mod unat m"
      using "1.IH" [OF False refl refl] b'(1) r'(1) by (simp add: Let_def r'_def b'_def unat_drop_bit_1)
    also have "\<dots> = (unat r + unat a mod 2 * unat b + unat a div 2 * (unat b + unat b)) mod unat m"
      unfolding b'(2) r'(2) by (rule mod_add_cong) (simp_all add: mod_mult_right_eq)
    also have "unat r + unat a mod 2 * unat b + unat a div 2 * (unat b + unat b)
        = unat r + (unat a mod 2 + 2 * (unat a div 2)) * unat b"
      by (rule gen)
    finally show ?thesis by simp
  qed
qed

lemma calc_mulmod_spec:
  assumes "m \<noteq> 0"
  shows "unat (calc_mulmod a b m) = (unat a * unat b) mod unat m"
proof -
  have m: "0 < m" using assms by (simp add: word_neq_0_conv)
  have "unat (mulmod_loop x (if m \<le> y then y mod m else y) m 0) = (unat x * unat y) mod unat m" for x y
  proof -
    have "(if m \<le> y then y mod m else y) < m"
      using m by (simp add: word_mod_less_divisor not_le)
    moreover have "unat (if m \<le> y then y mod m else y) mod unat m = unat y mod unat m"
      by (simp add: unat_mod_distrib)
    ultimately show ?thesis
      using m mod_mult_right_eq [of "unat x" "unat (if m \<le> y then y mod m else y)" "unat m"]
        mod_mult_right_eq [of "unat x" "unat y" "unat m"]
      by (simp only: mulmod_loop_spec [OF _ m] unsigned_0 add_0)
  qed
  then show ?thesis
    by (simp add: calc_mulmod_def Let_def mult.commute)
qed

lemma exp_loop_spec: "exp_loop a b r = r * a ^ unat b"
proof (induction a b r rule: exp_loop.induct)
  case (1 a b r)
  show ?case
  proof (cases "1 < b")
    case True
    have "exp_loop a b r = exp_loop (a * a) (drop_bit 1 b) (if b AND 1 = 1 then r * a else r)"
      using True by (subst exp_loop.simps) simp
    also have "\<dots> = (if b AND 1 = 1 then r * a else r) * (a * a) ^ (unat b div 2)"
      using "1.IH" [OF True] by (simp add: unat_drop_bit_1)
    also have "\<dots> = r * (a ^ (unat b mod 2) * a ^ (2 * (unat b div 2)))"
    proof -
      have "(b AND 1 = 1) = (unat b mod 2 = 1)"
        using odd_and_1 [of b] by (auto simp: and_one_eq odd_iff_mod_2_eq_one)
      then show ?thesis
        by (cases "unat b mod 2 = 1") (auto simp: power_mult power2_eq_square mult.assoc)
    qed
    also have "\<dots> = r * a ^ unat b"
      by (simp add: power_add [symmetric])
    finally show ?thesis .
  next
    case False
    then have "unat b \<le> 1" by (simp add: word_less_nat_alt)
    moreover have "b = 0" if "unat b = 0" using that by (simp add: unat_eq_zero)
    moreover have "b = 1" if "unat b = 1" using that word_unat_eq_iff [of b 1] by simp
    ultimately have "b = 0 \<or> b = 1" by (metis One_nat_def le_Suc_eq le_zero_eq)
    then show ?thesis by (subst exp_loop.simps) auto
  qed
qed

lemma calc_exp_spec: "calc_exp a b = a ^ unat b"
  by (simp add: calc_exp_def exp_loop_spec)

lemma calc_signextend_bits:
  assumes "b < 32"
  shows "bit (calc_signextend b x) n \<longleftrightarrow> n < 256 \<and> bit x (min n (8 * unat b + 7))"
proof -
  define k where "k = 8 * unat b + 7"
  have k: "k < 256" using assms by (simp add: k_def word_less_nat_alt)
  have msk: "(push_bit k 1 - 1 :: u256) = mask k" by (simp add: mask_eq_exp_minus_1 push_bit_eq_mult)
  have one: "(x AND push_bit k 1 \<noteq> 0) = bit x k"
  proof
    show "bit x k" if "x AND push_bit k 1 \<noteq> 0"
    proof (rule ccontr)
      assume "\<not> bit x k"
      then have "x AND push_bit k 1 = 0" by (intro bit_word_eqI) (auto simp: bit_simps)
      then show False using that by simp
    qed
    have "bit (x AND push_bit k 1) k = bit x k" using k by (simp add: bit_simps)
    then show "x AND push_bit k 1 \<noteq> 0" if "bit x k" using that by (metis bit_0_eq bot_apply bot_bool_def)
  qed
  show ?thesis
  proof (cases "bit x k")
    case True
    then have "calc_signextend b x = x OR NOT (mask k)"
      using assms one unfolding calc_signextend_def Let_def k_def [symmetric] msk by simp
    then show ?thesis
      using True k by (cases "n < k") (auto simp: bit_simps min_def k_def [symmetric] dest: bit_imp_le_length)
  next
    case False
    then have "calc_signextend b x = x AND mask k"
      using assms one unfolding calc_signextend_def Let_def k_def [symmetric] msk by simp
    then show ?thesis
      using False k by (cases "n < k") (auto simp: bit_simps min_def k_def [symmetric] dest: bit_imp_le_length)
  qed
qed

text \<open>The instructions as the yellow paper defines them\<close>

definition evm_addmod :: "u256 \<Rightarrow> u256 \<Rightarrow> u256 \<Rightarrow> u256" where
  "evm_addmod a b m = (if m = 0 then 0 else word_of_nat ((unat a + unat b) mod unat m))"

definition evm_mulmod :: "u256 \<Rightarrow> u256 \<Rightarrow> u256 \<Rightarrow> u256" where
  "evm_mulmod a b m = (if m = 0 then 0 else word_of_nat ((unat a * unat b) mod unat m))"

definition evm_exp :: "u256 \<Rightarrow> u256 \<Rightarrow> u256" where
  "evm_exp a b = word_of_nat (unat a ^ unat b)"

definition evm_signextend :: "u256 \<Rightarrow> u256 \<Rightarrow> u256" where
  "evm_signextend b x = (if b < 32 then word_of_int (signed_take_bit (8 * unat b + 7) (uint x)) else x)"

definition evm_sar :: "u256 \<Rightarrow> u256 \<Rightarrow> u256" where
  "evm_sar shift v = word_of_int (sint v div 2 ^ unat shift)"

lemma word_of_nat_unat_eq: "unat (w :: u256) = n \<Longrightarrow> w = word_of_nat n"
  by auto

lemma calc_addmod_evm: "m \<noteq> 0 \<Longrightarrow> calc_addmod a b m = evm_addmod a b m"
  unfolding evm_addmod_def by (simp add: word_of_nat_unat_eq [OF calc_addmod_spec])

lemma calc_mulmod_evm: "m \<noteq> 0 \<Longrightarrow> calc_mulmod a b m = evm_mulmod a b m"
  unfolding evm_mulmod_def by (simp add: word_of_nat_unat_eq [OF calc_mulmod_spec])

lemma calc_exp_evm: "calc_exp a b = evm_exp a b"
  by (simp add: calc_exp_spec evm_exp_def)

lemma calc_signextend_evm: "calc_signextend b x = evm_signextend b x"
proof (cases "b < 32")
  case True
  show ?thesis
    using True
    by (intro bit_word_eqI) (simp add: calc_signextend_bits evm_signextend_def bit_simps min_def)
next
  case False
  then show ?thesis by (simp add: calc_signextend_def evm_signextend_def)
qed

lemma signed_drop_bit_evm: "signed_drop_bit (unat shift) v = evm_sar shift v"
  by (simp add: evm_sar_def drop_bit_eq_div [symmetric] flip: sint_signed_drop_bit_eq)

section \<open>Running an instruction\<close>

definition with_stack :: "'b vm \<Rightarrow> evm_stack \<Rightarrow> 'b vm" where
  "with_stack s xs = s\<lparr>cur := (cur s)\<lparr>m_stack := xs\<rparr>\<rparr>"

lemma with_stack_stack [simp]: "m_stack (cur (with_stack s xs)) = xs"
  by (simp add: with_stack_def)

lemma with_stack_twice [simp]: "with_stack (with_stack s xs) ys = with_stack s ys"
  by (simp add: with_stack_def)

lemma on_stack_run: "m (m_stack (cur s)) = (r, xs) \<Longrightarrow> on_stack m s = (r, with_stack s xs)"
  by (simp add: on_stack_def zoom_apply with_stack_def)

lemma on_stack_then:
  "m (m_stack (cur s)) = (Ok x, xs) \<Longrightarrow> and_then (on_stack m) f s = f x (with_stack s xs)"
  by (simp add: and_then_eval(1) on_stack_run)

lemma pop_then:
  "m_stack (cur s) = x # xs \<Longrightarrow> and_then (on_stack pop_u256) f s = f x (with_stack s xs)"
  "m_stack (cur s) = x # xs \<Longrightarrow> and_then (on_stack pop_i256) f s = f x (with_stack s xs)"
  "m_stack (cur s) = x # xs \<Longrightarrow> and_then (on_stack pop_array) f s = f x (with_stack s xs)"
  by (simp_all add: on_stack_then pop_u256_def pop_i256_def pop_array_def)

lemma push_then:
  "length (m_stack (cur s)) < st_limit \<Longrightarrow>
    and_then (on_stack (push_u256 w)) f s = f () (with_stack s (w # m_stack (cur s)))"
  "length (m_stack (cur s)) < st_limit \<Longrightarrow>
    and_then (on_stack (push_i256 w)) f s = f () (with_stack s (w # m_stack (cur s)))"
  "length (m_stack (cur s)) < st_limit \<Longrightarrow>
    and_then (on_stack push_zero) f s = f () (with_stack s (0 # m_stack (cur s)))"
  by (simp_all add: on_stack_then push_u256_def push_i256_def push_zero_def push_array_def st_push_def)

lemma pop2_run:
  "m_stack (cur s) = a # b # xs \<Longrightarrow> pop2 f s = f a b (with_stack s xs)"
  by (simp add: pop2_def pop_then)

lemmas run_arith = pop2_run pop_then push_then ret_apply

text \<open>
  Each of these instructions replaces its operands by the value that the yellow paper gives, whatever
  the operands; the right shift of a signed number does so for a shift of less than 256 bits.
\<close>

lemma opcode_addmod_run:
  "m_stack (cur s) = a # b # m # xs \<Longrightarrow> length xs < st_limit \<Longrightarrow>
    opcode_addmod s = (Ok ActContinue, with_stack s (evm_addmod a b m # xs))"
  by (cases "m = 0") (simp_all add: opcode_addmod_def run_arith calc_addmod_evm, simp add: evm_addmod_def)

lemma opcode_mulmod_run:
  "m_stack (cur s) = a # b # m # xs \<Longrightarrow> length xs < st_limit \<Longrightarrow>
    opcode_mulmod s = (Ok ActContinue, with_stack s (evm_mulmod a b m # xs))"
  by (cases "m = 0") (simp_all add: opcode_mulmod_def run_arith calc_mulmod_evm, simp add: evm_mulmod_def)

lemma opcode_exp_run:
  "m_stack (cur s) = a # b # xs \<Longrightarrow> length xs < st_limit \<Longrightarrow>
    opcode_exp s = (Ok ActContinue, with_stack s (evm_exp a b # xs))"
  by (simp add: opcode_exp_def run_arith calc_exp_evm)

lemma opcode_signextend_run:
  "m_stack (cur s) = b # x # xs \<Longrightarrow> length xs < st_limit \<Longrightarrow>
    opcode_signextend s = (Ok ActContinue, with_stack s (evm_signextend b x # xs))"
  by (simp add: opcode_signextend_def run_arith calc_signextend_evm)

lemma opcode_sar_run:
  "m_stack (cur s) = shift # v # xs \<Longrightarrow> length xs < st_limit \<Longrightarrow>
    opcode_sar s = (Ok ActContinue, with_stack s ((if shift < 256 then evm_sar shift v else 0) # xs))"
  by (cases "shift < 256") (simp_all add: opcode_sar_def run_arith signed_drop_bit_evm)

text \<open>A larger shift of a negative number yields 0 where the yellow paper has -1.\<close>

lemma sar_large_shift: "sint v < 0 \<Longrightarrow> 256 \<le> shift \<Longrightarrow> evm_sar shift v = - 1"
proof -
  assume v: "sint v < 0" and "256 \<le> shift"
  then have sh: "256 \<le> unat shift" by (simp add: word_le_nat_alt)
  have "- (2 ^ 255) \<le> sint v" using sint_greater_eq [of v] by simp
  moreover have "(2 :: int) ^ 255 \<le> 2 ^ unat shift" using sh by (intro power_increasing) auto
  ultimately have "sint v div 2 ^ unat shift = - 1"
    using v by (intro int_div_pos_eq [of _ _ _ "sint v + 2 ^ unat shift"]) auto
  then show ?thesis by (simp add: evm_sar_def)
qed

section \<open>Properties\<close>

lemma with_stack_demo [simp]: "with_stack (demo_vm xs code) ys = demo_vm ys code"
  by (simp add: with_stack_def demo_vm_def demo_frame_def)

text \<open>ADDMOD, computed in 512-bit steps in the source, replaces its operands by \<open>(a + b) mod m\<close> of
  the unbounded sum, and by 0 for a zero modulus.\<close>

theorem addmod_correct:
  assumes "m_stack (cur s) = a # b # m # xs" and "length xs < st_limit"
  shows "opcode_addmod s = (Ok ActContinue, with_stack s (evm_addmod a b m # xs))"
  using assms by (rule opcode_addmod_run)

theorem addmod_correct_witness:
  "opcode_addmod (demo_vm [- 1, - 1, 10] []) = (Ok ActContinue, demo_vm [0] [])"
proof -
  have "evm_addmod (- 1) (- 1) 10 = 0" by (simp add: evm_addmod_def unsigned_minus_1_eq_mask mask_eq_exp_minus_1)
  then show ?thesis
    using addmod_correct [of "demo_vm [- 1, - 1, 10] []" "- 1" "- 1" 10 "[]"] by (simp add: st_limit_def)
qed

text \<open>C20: MULMOD, a loop of doublings in the source, replaces its operands by \<open>(a * b) mod m\<close> of the
  unbounded product, and by 0 for a zero modulus.\<close>

theorem mulmod_correct:
  assumes "m_stack (cur s) = a # b # m # xs" and "length xs < st_limit"
  shows "opcode_mulmod s = (Ok ActContinue, with_stack s (evm_mulmod a b m # xs))"
  using assms by (rule opcode_mulmod_run)

theorem mulmod_correct_witness:
  "opcode_mulmod (demo_vm [- 1, - 1, 12] []) = (Ok ActContinue, demo_vm [9] [])"
proof -
  have "evm_mulmod (- 1) (- 1) 12 = 9" by (simp add: evm_mulmod_def unsigned_minus_1_eq_mask mask_eq_exp_minus_1)
  then show ?thesis
    using mulmod_correct [of "demo_vm [- 1, - 1, 12] []" "- 1" "- 1" 12 "[]"] by (simp add: st_limit_def)
qed

text \<open>C21: EXP, a square-and-multiply loop in the source, replaces its operands by \<open>a ^ b\<close> modulo
  \<open>2 ^ 256\<close>.\<close>

theorem exp_correct:
  assumes "m_stack (cur s) = a # b # xs" and "length xs < st_limit"
  shows "opcode_exp s = (Ok ActContinue, with_stack s (evm_exp a b # xs))"
  using assms by (rule opcode_exp_run)

theorem exp_correct_witness:
  "opcode_exp (demo_vm [3, 5, 8] []) = (Ok ActContinue, demo_vm [243, 8] [])"
proof -
  have "evm_exp 3 5 = 243" by (simp add: evm_exp_def)
  then show ?thesis using exp_correct [of "demo_vm [3, 5, 8] []" 3 5 "[8]"] by (simp add: st_limit_def)
qed

text \<open>SIGNEXTEND replaces its operands by the value whose \<open>b + 1\<close> low bytes are read as a two's
  complement number, and leaves the value alone for \<open>b \<ge> 32\<close>.\<close>

theorem signextend_correct:
  assumes "m_stack (cur s) = b # x # xs" and "length xs < st_limit"
  shows "opcode_signextend s = (Ok ActContinue, with_stack s (evm_signextend b x # xs))"
  using assms by (rule opcode_signextend_run)

theorem signextend_correct_witness:
  "opcode_signextend (demo_vm [0, 0x1FE] []) = (Ok ActContinue, demo_vm [- 2] [])"
proof -
  have "evm_signextend 0 0x1FE = - 2"
    by (simp add: evm_signextend_def signed_take_bit_eq_if_negative take_bit_eq_mod bit_iff_odd mask_eq_exp_minus_1)
  then show ?thesis
    using signextend_correct [of "demo_vm [0, 0x1FE] []" 0 "0x1FE" "[]"] by (simp add: st_limit_def)
qed

text \<open>SAR shifts arithmetically by less than 256, but a shift by 256 or more yields 0 also for a
  negative value, for which the instruction is defined to yield -1.\<close>

theorem sar_large_shift_zero:
  assumes "m_stack (cur s) = shift # v # xs" and "length xs < st_limit" and "sint v < 0"
  shows "opcode_sar s = (Ok ActContinue, with_stack s ((if shift < 256 then evm_sar shift v else 0) # xs))
    \<and> (256 \<le> shift \<longrightarrow> evm_sar shift v = - 1)"
  using opcode_sar_run [OF assms(1,2)] sar_large_shift [OF assms(3)] by simp

theorem sar_large_shift_zero_witness:
  "opcode_sar (demo_vm [256, - 1] []) = (Ok ActContinue, demo_vm [0] []) \<and> evm_sar 256 (- 1) = - 1"
  using sar_large_shift_zero [of "demo_vm [256, - 1] []" 256 "- 1" "[]"] by (simp add: st_limit_def)

end
