(* ===== verification/Opcodes_Env.thy ===== *)
theory Opcodes_Env
  imports Opcodes_Arith
begin

text \<open>
  The instructions that read the environment, the memory and the storage, the jumps, the stack
  instructions and the log records (\<open>program/src/evm/opcode.rs\<close>, from \<open>opcode_sha3\<close> to
  \<open>opcode_retf\<close>).  \<open>tracing_event!\<close> is compiled out on the Solana target and has no counterpart.
\<close>

section \<open>Environment\<close>

definition opcode_sha3 :: "env \<Rightarrow> ('b vm, action) exec" where
  "opcode_sha3 E =
    and_then (on_stack pop_usize) (\<lambda>offset.
    and_then (on_stack pop_usize) (\<lambda>len.
    and_then (on_memory (mem_read offset len)) (\<lambda>data.
    and_then (on_stack (push_array (env_keccak E data))) (\<lambda>_. ret ActContinue))))"

definition opcode_address :: "('b vm, action) exec" where
  "opcode_address = and_then (self m_context) (\<lambda>c.
    and_then (on_stack (push_address (ctx_contract c))) (\<lambda>_. ret ActContinue))"

definition opcode_balance :: "'b database \<Rightarrow> ('b vm, action) exec" where
  "opcode_balance D =
    and_then (on_stack pop_address) (\<lambda>a.
    and_then (from_db (db_balance D a)) (\<lambda>balance.
    and_then (on_stack (push_u256 balance)) (\<lambda>_. ret ActContinue)))"

definition opcode_origin :: "('b vm, action) exec" where
  "opcode_origin = and_then (self m_origin) (\<lambda>a.
    and_then (on_stack (push_address a)) (\<lambda>_. ret ActContinue))"

definition opcode_caller :: "('b vm, action) exec" where
  "opcode_caller = and_then (self m_context) (\<lambda>c.
    and_then (on_stack (push_address (ctx_caller c))) (\<lambda>_. ret ActContinue))"

definition opcode_callvalue :: "('b vm, action) exec" where
  "opcode_callvalue = and_then (self m_context) (\<lambda>c.
    and_then (on_stack (push_u256 (ctx_value c))) (\<lambda>_. ret ActContinue))"

text \<open>The slice \<open>index..\<close> is empty when \<open>index\<close> is beyond the call data.\<close>

definition opcode_calldataload :: "('b vm, action) exec" where
  "opcode_calldataload =
    and_then (on_stack pop_usize) (\<lambda>index.
    and_then (self (\<lambda>m. buf_bytes (m_call_data m))) (\<lambda>data.
    case slice_get data index (usize_wrap (index + 32)) of
      Some buffer \<Rightarrow> and_then (on_stack (push_array (from_be buffer))) (\<lambda>_. ret ActContinue)
    | None \<Rightarrow>
        let source = (if index \<le> length data then drop index data else []) in
        and_then (lift (rassert (length source \<le> 32))) (\<lambda>_.
        and_then (on_stack (push_array (from_be (source @ replicate (32 - length source) 0))))
          (\<lambda>_. ret ActContinue))))"

definition opcode_calldatasize :: "('b vm, action) exec" where
  "opcode_calldatasize = and_then (self (\<lambda>m. buf_len (m_call_data m))) (\<lambda>n.
    and_then (on_stack (push_usize n)) (\<lambda>_. ret ActContinue))"

text \<open>The three copies from a buffer of the frame to memory share their operands.\<close>

definition pop_copy :: "(usize \<Rightarrow> usize \<Rightarrow> usize \<Rightarrow> ('b vm, 'a) exec) \<Rightarrow> ('b vm, 'a) exec" where
  "pop_copy f =
    and_then (on_stack pop_usize) (\<lambda>memory_offset.
    and_then (on_stack pop_usize) (\<lambda>data_offset.
    and_then (on_stack pop_usize) (\<lambda>len. f memory_offset data_offset len)))"

definition opcode_calldatacopy :: "('b vm, action) exec" where
  "opcode_calldatacopy = pop_copy (\<lambda>memory_offset data_offset len.
    and_then (self (\<lambda>m. buf_bytes (m_call_data m))) (\<lambda>data.
    and_then (on_memory (mem_write_buffer memory_offset len data data_offset)) (\<lambda>_. ret ActContinue)))"

definition opcode_codesize :: "('b vm, action) exec" where
  "opcode_codesize = and_then (self (\<lambda>m. buf_len (m_execution_code m))) (\<lambda>n.
    and_then (on_stack (push_usize n)) (\<lambda>_. ret ActContinue))"

definition opcode_codecopy :: "('b vm, action) exec" where
  "opcode_codecopy = pop_copy (\<lambda>memory_offset data_offset len.
    and_then (self (\<lambda>m. buf_bytes (m_execution_code m))) (\<lambda>code.
    and_then (on_memory (mem_write_buffer memory_offset len code data_offset)) (\<lambda>_. ret ActContinue)))"

definition opcode_gasprice :: "('b vm, action) exec" where
  "opcode_gasprice = and_then (self m_gas_price) (\<lambda>g.
    and_then (on_stack (push_u256 g)) (\<lambda>_. ret ActContinue))"

definition opcode_extcodesize :: "'b database \<Rightarrow> ('b vm, action) exec" where
  "opcode_extcodesize D =
    and_then (on_stack pop_address) (\<lambda>a.
    and_then (from_db (db_code_size D a)) (\<lambda>n.
    and_then (on_stack (push_usize n)) (\<lambda>_. ret ActContinue)))"

definition opcode_extcodecopy :: "'b database \<Rightarrow> ('b vm, action) exec" where
  "opcode_extcodecopy D =
    and_then (on_stack pop_address) (\<lambda>a.
    pop_copy (\<lambda>memory_offset data_offset len.
    and_then (from_db (db_code D a)) (\<lambda>code.
    and_then (on_memory (mem_write_buffer memory_offset len (buf_bytes code) data_offset))
      (\<lambda>_. ret ActContinue))))"

definition opcode_returndatasize :: "('b vm, action) exec" where
  "opcode_returndatasize = and_then (self (\<lambda>m. buf_len (m_return_data m))) (\<lambda>n.
    and_then (on_stack (push_usize n)) (\<lambda>_. ret ActContinue))"

definition opcode_returndatacopy :: "('b vm, action) exec" where
  "opcode_returndatacopy = pop_copy (\<lambda>memory_offset data_offset len.
    and_then (self (\<lambda>m. buf_bytes (m_return_data m))) (\<lambda>data.
    if length data < saturating_add_usize data_offset len
    then raise (EvmError (ReturnDataCopyOverflow data_offset len))
    else and_then (on_memory (mem_write_buffer memory_offset len data data_offset)) (\<lambda>_. ret ActContinue)))"

definition opcode_extcodehash :: "'b database \<Rightarrow> ('b vm, action) exec" where
  "opcode_extcodehash D =
    and_then (on_stack pop_address) (\<lambda>a.
    and_then (from_db (db_code_hash D a)) (\<lambda>h.
    and_then (on_stack (push_array h)) (\<lambda>_. ret ActContinue)))"

definition opcode_blockhash :: "'b database \<Rightarrow> ('b vm, action) exec" where
  "opcode_blockhash D =
    and_then (on_stack pop_u256) (\<lambda>n.
    and_then (from_db (db_block_hash D n)) (\<lambda>h.
    and_then (on_stack (push_array h)) (\<lambda>_. ret ActContinue)))"

definition opcode_coinbase :: "('b vm, action) exec" where
  "opcode_coinbase = and_then (on_stack push_zero) (\<lambda>_. ret ActContinue)"

definition opcode_timestamp :: "'b database \<Rightarrow> ('b vm, action) exec" where
  "opcode_timestamp D = and_then (from_db (db_block_timestamp D)) (\<lambda>t.
    and_then (on_stack (push_u256 t)) (\<lambda>_. ret ActContinue))"

definition opcode_number :: "'b database \<Rightarrow> ('b vm, action) exec" where
  "opcode_number D = and_then (from_db (db_block_number D)) (\<lambda>n.
    and_then (on_stack (push_u256 n)) (\<lambda>_. ret ActContinue))"

definition opcode_difficulty :: "('b vm, action) exec" where
  "opcode_difficulty = and_then (on_stack push_zero) (\<lambda>_. ret ActContinue)"

definition opcode_gaslimit :: "('b vm, action) exec" where
  "opcode_gaslimit = and_then (on_stack (push_u256 (- 1))) (\<lambda>_. ret ActContinue)"

definition opcode_chainid :: "'b database \<Rightarrow> ('b vm, action) exec" where
  "opcode_chainid D = and_then (from_db (\<lambda>b. Ok (db_chain_id D b))) (\<lambda>n.
    and_then (on_stack (push_u256 n)) (\<lambda>_. ret ActContinue))"

definition opcode_selfbalance :: "'b database \<Rightarrow> ('b vm, action) exec" where
  "opcode_selfbalance D =
    and_then (self m_context) (\<lambda>c.
    and_then (from_db (db_balance D (ctx_contract c))) (\<lambda>balance.
    and_then (on_stack (push_u256 balance)) (\<lambda>_. ret ActContinue)))"

definition opcode_basefee :: "('b vm, action) exec" where
  "opcode_basefee = and_then (on_stack push_zero) (\<lambda>_. ret ActContinue)"

section \<open>Memory and storage\<close>

definition opcode_pop :: "('b vm, action) exec" where
  "opcode_pop = and_then (on_stack discard) (\<lambda>_. ret ActContinue)"

definition opcode_mload :: "('b vm, action) exec" where
  "opcode_mload =
    and_then (on_stack pop_usize) (\<lambda>offset.
    and_then (on_memory (mem_read_32 offset)) (\<lambda>v.
    and_then (on_stack (push_array v)) (\<lambda>_. ret ActContinue)))"

definition opcode_mstore :: "('b vm, action) exec" where
  "opcode_mstore =
    and_then (on_stack pop_usize) (\<lambda>offset.
    and_then (on_stack pop_array) (\<lambda>v.
    and_then (on_memory (mem_write_32 offset v)) (\<lambda>_. ret ActContinue)))"

definition opcode_mstore8 :: "('b vm, action) exec" where
  "opcode_mstore8 =
    and_then (on_stack pop_usize) (\<lambda>offset.
    and_then (on_stack pop_array) (\<lambda>v.
    and_then (on_memory (mem_write_byte offset (be_bytes 32 v ! 31))) (\<lambda>_. ret ActContinue)))"

definition opcode_sload :: "'b database \<Rightarrow> ('b vm, action) exec" where
  "opcode_sload D =
    and_then (on_stack pop_u256) (\<lambda>index.
    and_then (self m_context) (\<lambda>c.
    and_then (from_db (db_storage D (ctx_contract c) index)) (\<lambda>v.
    and_then (on_stack (push_array v)) (\<lambda>_. ret ActContinue))))"

text \<open>The guard with which every state-changing instruction starts\<close>

definition not_static :: "('b vm, unit) exec" where
  "not_static = and_then (gets cur) (\<lambda>m.
     ensure (\<not> m_is_static m) (EvmError (StaticModeViolation (ctx_contract (m_context m)))))"

definition opcode_sstore :: "'b database \<Rightarrow> ('b vm, action) exec" where
  "opcode_sstore D =
    and_then not_static (\<lambda>_.
    and_then (on_stack pop_u256) (\<lambda>index.
    and_then (on_stack pop_array) (\<lambda>v.
    and_then (self m_context) (\<lambda>c.
    and_then (on_db (db_set_storage D (ctx_contract c) index v)) (\<lambda>_. ret ActContinue)))))"

section \<open>Jumps\<close>

definition jump_to :: "usize \<Rightarrow> ('b vm, action) exec" where
  "jump_to target = and_then (gets cur) (\<lambda>m.
     let code = buf_bytes (m_execution_code m) in
     if target < length code \<and> code ! target = OP_JUMPDEST then ret (ActJump target)
     else raise (EvmError (InvalidJump (ctx_contract (m_context m)) target)))"

definition opcode_jump :: "('b vm, action) exec" where
  "opcode_jump = and_then (on_stack pop_usize) (\<lambda>target. jump_to target)"

definition opcode_jumpi :: "('b vm, action) exec" where
  "opcode_jumpi =
    and_then (on_stack pop_usize) (\<lambda>target.
    and_then (on_stack pop_array) (\<lambda>condition.
    if condition = 0 then ret ActContinue else jump_to target))"

definition opcode_pc :: "('b vm, action) exec" where
  "opcode_pc = and_then (self m_pc) (\<lambda>pc. and_then (on_stack (push_usize pc)) (\<lambda>_. ret ActContinue))"

definition opcode_msize :: "('b vm, action) exec" where
  "opcode_msize = and_then (self (\<lambda>m. msize (m_memory m))) (\<lambda>n.
    and_then (on_stack (push_usize n)) (\<lambda>_. ret ActContinue))"

definition opcode_gas :: "('b vm, action) exec" where
  "opcode_gas = and_then (self m_gas_limit) (\<lambda>g.
    and_then (on_stack (push_u256 g)) (\<lambda>_. ret ActContinue))"

definition opcode_jumpdest :: "('b vm, action) exec" where
  "opcode_jumpdest = ret ActContinue"

definition opcode_rjump :: "('b vm, action) exec" where
  "opcode_rjump =
    and_then get_code (\<lambda>code.
    and_then (self m_pc) (\<lambda>pc.
    ret (ActJump (usize_of_int (int (pc + 3) + get_i16_or_default code (pc + 1))))))"

definition opcode_rjumpi :: "('b vm, action) exec" where
  "opcode_rjumpi =
    and_then (on_stack pop_u256) (\<lambda>condition.
    if condition = 0 then and_then (self m_pc) (\<lambda>pc. ret (ActJump (pc + 3)))
    else opcode_rjump)"

definition opcode_rjumpv :: "('b vm, action) exec" where
  "opcode_rjumpv =
    and_then (on_stack pop_u256) (\<lambda>idx.
    and_then get_code (\<lambda>code.
    and_then (self m_pc) (\<lambda>pc.
    let count = unat (get_or_default code (pc + 1)) in
    if 18446744073709551615 < idx \<or> word_of_nat count < idx then ret (ActJump (pc + 2 + count * 2))
    else
      let offset = get_i16_or_default code (pc + 1 + 2 + 2 * unat idx) in
      ret (ActJump (usize_of_int (int (pc + 2 + count * 2) + offset))))))"

section \<open>Stack instructions\<close>

definition opcode_push_0 :: "('b vm, action) exec" where
  "opcode_push_0 = and_then (on_stack push_zero) (\<lambda>_. ret ActContinue)"

definition push_out_of_bounds :: "('b vm, 'a) exec" where
  "push_out_of_bounds = and_then (self m_context) (\<lambda>c. raise (EvmError (PushOutOfBounds (ctx_contract c))))"

definition opcode_push_1 :: "('b vm, action) exec" where
  "opcode_push_1 =
    and_then get_code (\<lambda>code.
    and_then (self m_pc) (\<lambda>pc.
    if length code \<le> pc + 1 then push_out_of_bounds
    else and_then (on_stack (push_byte (code ! (pc + 1)))) (\<lambda>_. ret (ActJump (pc + 1 + 1)))))"

definition opcode_push_2_31 :: "nat \<Rightarrow> ('b vm, action) exec" where
  "opcode_push_2_31 n =
    and_then get_code (\<lambda>code.
    and_then (self m_pc) (\<lambda>pc.
    if length code \<le> pc + 1 + n then push_out_of_bounds
    else and_then (on_stack (push_array_2_31 (take n (drop (pc + 1) code)))) (\<lambda>_. ret (ActJump (pc + 1 + n)))))"

definition opcode_push_32 :: "('b vm, action) exec" where
  "opcode_push_32 =
    and_then get_code (\<lambda>code.
    and_then (self m_pc) (\<lambda>pc.
    if length code \<le> pc + 1 + 32 then push_out_of_bounds
    else and_then (on_stack (push_array (from_be (take 32 (drop (pc + 1) code))))) (\<lambda>_. ret (ActJump (pc + 1 + 32)))))"

definition opcode_dup_1_16 :: "nat \<Rightarrow> ('b vm, action) exec" where
  "opcode_dup_1_16 n = and_then (on_stack (dup_1_16 n)) (\<lambda>_. ret ActContinue)"

definition opcode_swap_1_16 :: "nat \<Rightarrow> ('b vm, action) exec" where
  "opcode_swap_1_16 n = and_then (on_stack (swap_1_16 n)) (\<lambda>_. ret ActContinue)"

section \<open>Log records\<close>

fun pop_topics :: "nat \<Rightarrow> ('b vm, bytes32 list) exec" where
  "pop_topics 0 = ret []"
| "pop_topics (Suc n) = and_then (on_stack pop_array) (\<lambda>t. and_then (pop_topics n) (\<lambda>ts. ret (t # ts)))"

definition log_name :: "nat \<Rightarrow> string" where
  "log_name n = [''LOG0'', ''LOG1'', ''LOG2'', ''LOG3'', ''LOG4''] ! n"

definition opcode_log_0_4 :: "nat \<Rightarrow> ('b vm, action) exec" where
  "opcode_log_0_4 n =
    and_then not_static (\<lambda>_.
    and_then (on_stack pop_usize) (\<lambda>offset.
    and_then (on_stack pop_usize) (\<lambda>len.
    and_then (on_memory (mem_read offset len)) (\<lambda>data.
    and_then (pop_topics n) (\<lambda>topics.
    and_then (self m_context) (\<lambda>c.
    and_then (sol_log_data ([ascii (log_name n), be_bytes 20 (ctx_contract c), [of_nat n]]
        @ map (be_bytes 32) topics @ [data])) (\<lambda>_. ret ActContinue)))))))"

section \<open>Calls between code sections\<close>

definition opcode_callf :: "('b vm, action) exec" where
  "opcode_callf =
    and_then get_code (\<lambda>code.
    and_then (gets cur) (\<lambda>m.
    let idx = unat (get_u16_or_default code (m_pc m + 1)) in
    and_then (lift (ok_or (m_container m) (EvmError ContainerNotFound))) (\<lambda>c.
    and_then (lift (index_at (ctypes c) idx)) (\<lambda>typ.
    if 1024 \<le> st_len (m_stack m) + unat (max_stack_height typ) then raise (EvmError StackOverflow)
    else
      and_then (set_self (\<lambda>m. m\<lparr>m_return_stack := \<lparr>rc_section = m_code_section m, rc_pc = m_pc m + 3,
          rc_stack_height = usize_of_int (int (st_len (m_stack m)) - int (unat (inputs typ)))\<rparr>
            # m_return_stack m\<rparr>)) (\<lambda>_.
      ret (ActCodeSection idx 0))))))"

definition opcode_retf :: "('b vm, action) exec" where
  "opcode_retf =
    and_then (self m_return_stack) (\<lambda>rs. case rs of
      [] \<Rightarrow> raise (EvmError EmptyStack)
    | ret_ctx # rest \<Rightarrow>
        and_then (set_self (\<lambda>m. m\<lparr>m_return_stack := rest\<rparr>)) (\<lambda>_.
        if rest = [] then ret ActStop
        else ret (ActCodeSection (rc_section ret_ctx) (rc_pc ret_ctx))))"

end
