(* ===== verification/Opcodes_Call.thy ===== *)
theory Opcodes_Call
  imports Opcodes_Env
begin

text \<open>
  The instructions that open and close call frames (\<open>program/src/evm/opcode.rs\<close>, from
  \<open>opcode_create\<close> on).  A frame is opened with a snapshot of the database and closed by committing or
  reverting it; an error that is raised after \<open>fork\<close> is raised in the new frame.
\<close>

section \<open>Closing a frame\<close>

text \<open>
  What the caller of a closed frame gets: the return data in the memory range it asked for and a flag
  or an address on its stack.
\<close>

definition resume_call :: "bytes \<Rightarrow> bool \<Rightarrow> ('b vm, unit) exec" where
  "resume_call return_data success =
    and_then (self m_return_range) (\<lambda>rng.
    and_then (on_memory (mem_write_range rng return_data)) (\<lambda>_.
    on_stack (push_bool success)))"

definition opcode_return_impl :: "'b database \<Rightarrow> buffer \<Rightarrow> ('b vm, action) exec" where
  "opcode_return_impl D return_data =
    and_then (gets cur) (\<lambda>m.
    and_then (if m_reason m = Create then
        and_then (lift (read_container Create return_data)) (\<lambda>_.
        and_then (on_db (db_set_code D (ctx_contract (m_context m)) return_data)) (\<lambda>_.
        ret buf_empty))
      else ret return_data) (\<lambda>return_data.
    and_then (on_db (db_commit_snapshot D)) (\<lambda>_.
    and_then (sol_log_data [ascii ''EXIT'', ascii ''RETURN'']) (\<lambda>_.
    and_then has_no_parent (\<lambda>top.
    if top then ret (ActReturn (buf_bytes return_data))
    else
      and_then join (\<lambda>returned.
      and_then (case m_reason returned of
          Call \<Rightarrow>
            and_then (resume_call (buf_bytes return_data) True) (\<lambda>_.
            set_self (\<lambda>m. m\<lparr>m_return_data := return_data\<rparr>))
        | Create \<Rightarrow> on_stack (push_address (ctx_contract (m_context returned)))) (\<lambda>_.
      ret ActContinue)))))))"

definition opcode_return :: "'b database \<Rightarrow> ('b vm, action) exec" where
  "opcode_return D =
    and_then (on_stack pop_usize) (\<lambda>offset.
    and_then (on_stack pop_usize) (\<lambda>len.
    and_then (on_memory (mem_read offset len)) (\<lambda>data.
    opcode_return_impl D (buf_from_slice data))))"

definition opcode_revert_impl :: "'b database \<Rightarrow> buffer \<Rightarrow> ('b vm, action) exec" where
  "opcode_revert_impl D return_data =
    and_then (on_db (db_revert_snapshot D)) (\<lambda>_.
    and_then (sol_log_data [ascii ''EXIT'', ascii ''REVERT'', buf_bytes return_data]) (\<lambda>_.
    and_then has_no_parent (\<lambda>top.
    if top then ret (ActRevert (buf_bytes return_data))
    else
      and_then join (\<lambda>returned.
      and_then (case m_reason returned of
          Call \<Rightarrow> resume_call (buf_bytes return_data) False
        | Create \<Rightarrow> on_stack push_zero) (\<lambda>_.
      and_then (set_self (\<lambda>m. m\<lparr>m_return_data := return_data\<rparr>)) (\<lambda>_.
      ret ActContinue))))))"

definition opcode_revert :: "'b database \<Rightarrow> ('b vm, action) exec" where
  "opcode_revert D =
    and_then (on_stack pop_usize) (\<lambda>offset.
    and_then (on_stack pop_usize) (\<lambda>len.
    and_then (on_memory (mem_read offset len)) (\<lambda>data.
    opcode_revert_impl D (buf_from_slice data))))"

text \<open>\<open>selfdestruct\<close> and \<open>stop\<close> end in the same way: no data, and 0 for a frame that created a contract.\<close>

definition close_without_data :: "('b vm, action) exec" where
  "close_without_data =
    and_then join (\<lambda>returned.
    and_then (case m_reason returned of
        Call \<Rightarrow> resume_call [] True
      | Create \<Rightarrow> on_stack push_zero) (\<lambda>_.
    ret ActContinue))"

definition opcode_selfdestruct :: "'b database \<Rightarrow> ('b vm, action) exec" where
  "opcode_selfdestruct D =
    and_then not_static (\<lambda>_.
    and_then (on_stack pop_address) (\<lambda>a.
    and_then (self (\<lambda>m. ctx_contract (m_context m))) (\<lambda>contract.
    and_then (from_db (db_balance D contract)) (\<lambda>v.
    and_then (on_db (db_transfer D contract a v)) (\<lambda>_.
    and_then (on_db (db_selfdestruct D contract)) (\<lambda>_.
    and_then (on_db (db_commit_snapshot D)) (\<lambda>_.
    and_then (sol_log_data [ascii ''EXIT'', ascii ''SELFDESTRUCT'']) (\<lambda>_.
    and_then has_no_parent (\<lambda>top.
    if top then ret ActSuicide else close_without_data)))))))))"

definition opcode_stop :: "'b database \<Rightarrow> ('b vm, action) exec" where
  "opcode_stop D =
    and_then (on_db (db_commit_snapshot D)) (\<lambda>_.
    and_then (sol_log_data [ascii ''EXIT'', ascii ''STOP'']) (\<lambda>_.
    and_then has_no_parent (\<lambda>top.
    if top then ret ActStop else close_without_data)))"

section \<open>Invalid instructions\<close>

definition current_opcode :: "('b vm, u8) exec" where
  "current_opcode = and_then get_code (\<lambda>code. and_then (self m_pc) (\<lambda>pc. lift (index_at code pc)))"

definition opcode_unknown :: "('b vm, action) exec" where
  "opcode_unknown = and_then current_opcode (\<lambda>op. and_then (self m_context) (\<lambda>c.
     raise (EvmError (UnknownOpcode (ctx_contract c) op))))"

definition opcode_invalid :: "('b vm, action) exec" where
  "opcode_invalid = and_then current_opcode (\<lambda>op. and_then (self m_context) (\<lambda>c.
     raise (EvmError (InvalidOpcode (ctx_contract c) op))))"

definition opcode_deprecated :: "('b vm, action) exec" where
  "opcode_deprecated = and_then current_opcode (\<lambda>op. and_then (self m_context) (\<lambda>c.
     raise (EvmError (DeprecatedOpcode (ctx_contract c) op))))"

section \<open>Creating a contract\<close>

definition opcode_create_impl :: "'b database \<Rightarrow> address \<Rightarrow> u256 \<Rightarrow> usize \<Rightarrow> usize \<Rightarrow> ('b vm, action) exec" where
  "opcode_create_impl D addr v offset len =
    and_then (self (\<lambda>m. ctx_contract (m_context m))) (\<lambda>contract.
    and_then (from_db (db_nonce D contract)) (\<lambda>nonce.
    if nonce = - 1 then raise (NonceOverflow contract)
    else
      and_then (on_db (db_increment_nonce D contract)) (\<lambda>_.
      and_then (set_self (\<lambda>m. m\<lparr>m_return_data := buf_empty, m_return_range := (0, 0)\<rparr>)) (\<lambda>_.
      and_then (on_memory (mem_read offset len)) (\<lambda>init_code.
      and_then (from_db (db_code D contract)) (\<lambda>caller_code.
      if \<not> has_eof_magic (buf_bytes caller_code) \<and> has_eof_magic init_code
      then raise (EvmError EOFLegacyCode)
      else
        and_then (fork Create \<lparr>ctx_caller = contract, ctx_contract = addr, ctx_value = v,
            ctx_code_address = None\<rparr> (buf_from_slice init_code) buf_empty None) (\<lambda>_.
        and_then (on_db (db_snapshot D)) (\<lambda>_.
        and_then (sol_log_data [ascii ''ENTER'', ascii ''CREATE'', be_bytes 20 addr]) (\<lambda>_.
        and_then (from_db (db_nonce D addr)) (\<lambda>n.
        and_then (if n \<noteq> 0 then ret True
            else and_then (from_db (db_code_size D addr)) (\<lambda>sz. ret (sz \<noteq> 0))) (\<lambda>exists.
        if exists then raise (DeployToExistingAccount addr contract)
        else
          and_then (from_db (db_balance D contract)) (\<lambda>balance.
          if balance < v then raise (InsufficientBalance contract v)
          else
            and_then (on_db (db_increment_nonce D addr)) (\<lambda>_.
            and_then (on_db (db_transfer D contract addr v)) (\<lambda>_.
            ret ActNoop))))))))))))))"

definition opcode_create :: "env \<Rightarrow> 'b database \<Rightarrow> ('b vm, action) exec" where
  "opcode_create E D =
    and_then not_static (\<lambda>_.
    and_then (on_stack pop_u256) (\<lambda>v.
    and_then (on_stack pop_usize) (\<lambda>offset.
    and_then (on_stack pop_usize) (\<lambda>len.
    and_then (self (\<lambda>m. ctx_contract (m_context m))) (\<lambda>contract.
    and_then (from_db (db_nonce D contract)) (\<lambda>nonce.
    and_then (on_memory (mem_read offset len)) (\<lambda>_.
    opcode_create_impl D (from_create E contract nonce) v offset len)))))))"

definition opcode_create2 :: "env \<Rightarrow> 'b database \<Rightarrow> ('b vm, action) exec" where
  "opcode_create2 E D =
    and_then not_static (\<lambda>_.
    and_then (on_stack pop_u256) (\<lambda>v.
    and_then (on_stack pop_usize) (\<lambda>offset.
    and_then (on_stack pop_usize) (\<lambda>len.
    and_then (on_stack pop_array) (\<lambda>salt.
    and_then (on_memory (mem_read offset len)) (\<lambda>initialization_code.
    and_then (self (\<lambda>m. ctx_contract (m_context m))) (\<lambda>contract.
    opcode_create_impl D (from_create2 E contract salt initialization_code) v offset len)))))))"

section \<open>Calling a contract\<close>

definition opcode_call_precompile_impl :: "env \<Rightarrow> 'b database \<Rightarrow> address \<Rightarrow> ('b vm, action) exec" where
  "opcode_call_precompile_impl E D a =
    and_then (gets cur) (\<lambda>m.
    and_then (and_then (lift (precompile (env_keccak E) (env_crypto E) a (buf_bytes (m_call_data m)))) (\<lambda>built_in.
      case built_in of
        Some x \<Rightarrow> ret (Some x)
      | None \<Rightarrow> on_db (db_precompile_extension D (m_context m) a (buf_bytes (m_call_data m)) (m_is_static m))))
      (\<lambda>result. case result of
        Some return_data \<Rightarrow> opcode_return_impl D (buf_from_slice return_data)
      | None \<Rightarrow> ret ActNoop))"

text \<open>
  The operands that all four calls take from the stack; \<open>CALL\<close> and \<open>CALLCODE\<close> have a value.  Then
  the return range is set and the call data and the code are read.
\<close>

definition pop_value :: "bool \<Rightarrow> ('b vm, u256) exec" where
  "pop_value has_value = (if has_value then on_stack pop_u256 else ret 0)"

definition call_operands :: "'b database \<Rightarrow> bool
    \<Rightarrow> (u256 \<Rightarrow> address \<Rightarrow> u256 \<Rightarrow> buffer \<Rightarrow> buffer \<Rightarrow> ('b vm, action) exec) \<Rightarrow> ('b vm, action) exec" where
  "call_operands D has_value f =
    and_then (on_stack pop_u256) (\<lambda>gas_limit.
    and_then (on_stack pop_address) (\<lambda>a.
    and_then (pop_value has_value) (\<lambda>v.
    and_then (on_stack pop_usize) (\<lambda>args_offset.
    and_then (on_stack pop_usize) (\<lambda>args_length.
    and_then (on_stack pop_usize) (\<lambda>return_offset.
    and_then (on_stack pop_usize) (\<lambda>return_length.
    and_then (set_self (\<lambda>m. m\<lparr>m_return_data := buf_empty,
        m_return_range := (return_offset, usize_wrap (return_offset + return_length))\<rparr>)) (\<lambda>_.
    and_then (on_memory (mem_read args_offset args_length)) (\<lambda>call_data.
    and_then (from_db (db_code D a)) (\<lambda>code.
    f gas_limit a v (buf_from_slice call_data) code))))))))))"

definition opcode_call :: "env \<Rightarrow> 'b database \<Rightarrow> ('b vm, action) exec" where
  "opcode_call E D = call_operands D True (\<lambda>gas_limit a v call_data code.
    and_then (self (\<lambda>m. ctx_contract (m_context m))) (\<lambda>contract.
    and_then (fork Call \<lparr>ctx_caller = contract, ctx_contract = a, ctx_value = v,
        ctx_code_address = Some a\<rparr> code call_data (Some gas_limit)) (\<lambda>_.
    and_then (on_db (db_snapshot D)) (\<lambda>_.
    and_then (sol_log_data [ascii ''ENTER'', ascii ''CALL'', be_bytes 20 a]) (\<lambda>_.
    and_then (self m_is_static) (\<lambda>is_static.
    if is_static \<and> v \<noteq> 0 then raise (EvmError (StaticModeViolation contract))
    else
      and_then (from_db (db_balance D contract)) (\<lambda>balance.
      if balance < v then raise (InsufficientBalance contract v)
      else
        and_then (on_db (db_transfer D contract a v)) (\<lambda>_.
        opcode_call_precompile_impl E D a))))))))"

definition opcode_callcode :: "env \<Rightarrow> 'b database \<Rightarrow> ('b vm, action) exec" where
  "opcode_callcode E D = call_operands D True (\<lambda>gas_limit a v call_data code.
    and_then (self (\<lambda>m. ctx_contract (m_context m))) (\<lambda>contract.
    and_then (fork Call \<lparr>ctx_caller = contract, ctx_contract = contract, ctx_value = v,
        ctx_code_address = Some a\<rparr> code call_data (Some gas_limit)) (\<lambda>_.
    and_then (on_db (db_snapshot D)) (\<lambda>_.
    and_then (sol_log_data [ascii ''ENTER'', ascii ''CALLCODE'', be_bytes 20 a]) (\<lambda>_.
    and_then (from_db (db_balance D contract)) (\<lambda>balance.
    if balance < v then raise (InsufficientBalance contract v)
    else opcode_call_precompile_impl E D a))))))"

definition opcode_delegatecall :: "env \<Rightarrow> 'b database \<Rightarrow> ('b vm, action) exec" where
  "opcode_delegatecall E D = call_operands D False (\<lambda>gas_limit a v call_data code.
    and_then (self m_context) (\<lambda>c.
    and_then (fork Call (c\<lparr>ctx_code_address := Some a\<rparr>) code call_data (Some gas_limit)) (\<lambda>_.
    and_then (on_db (db_snapshot D)) (\<lambda>_.
    and_then (sol_log_data [ascii ''ENTER'', ascii ''DELEGATECALL'', be_bytes 20 a]) (\<lambda>_.
    opcode_call_precompile_impl E D a)))))"

definition opcode_staticcall :: "env \<Rightarrow> 'b database \<Rightarrow> ('b vm, action) exec" where
  "opcode_staticcall E D = call_operands D False (\<lambda>gas_limit a v call_data code.
    and_then (self (\<lambda>m. ctx_contract (m_context m))) (\<lambda>contract.
    and_then (fork Call \<lparr>ctx_caller = contract, ctx_contract = a, ctx_value = 0,
        ctx_code_address = Some a\<rparr> code call_data (Some gas_limit)) (\<lambda>_.
    and_then (set_self (\<lambda>m. m\<lparr>m_is_static := True\<rparr>)) (\<lambda>_.
    and_then (on_db (db_snapshot D)) (\<lambda>_.
    and_then (sol_log_data [ascii ''ENTER'', ascii ''STATICCALL'', be_bytes 20 a]) (\<lambda>_.
    opcode_call_precompile_impl E D a))))))"

end
