(* ===== verification/Interpreter.thy ===== *)
theory Interpreter
  imports Opcodes_Call
begin

text \<open>
  The dispatch tables (\<open>program/src/evm/opcode_table.rs\<close>) and the execution loop
  (\<open>Machine::execute\<close> of \<open>program/src/evm/mod.rs\<close>).

  A table of the source is an array of 256 functions that starts as \<open>opcode_unknown\<close> everywhere; here
  it is a chain of tests, in four parts, each of which hands an opcode it does not know to \<open>next\<close>.
\<close>

section \<open>Dispatch\<close>

definition table_arith :: "env \<Rightarrow> 'b database \<Rightarrow> u8 \<Rightarrow> ('b vm, action) exec \<Rightarrow> ('b vm, action) exec" where
  "table_arith E D op next =
    (if op = 0x00 then opcode_stop D
     else if op = 0x01 then opcode_add
     else if op = 0x02 then opcode_mul
     else if op = 0x03 then opcode_sub
     else if op = 0x04 then opcode_div
     else if op = 0x05 then opcode_sdiv
     else if op = 0x06 then opcode_mod
     else if op = 0x07 then opcode_smod
     else if op = 0x08 then opcode_addmod
     else if op = 0x09 then opcode_mulmod
     else if op = 0x0A then opcode_exp
     else if op = 0x0B then opcode_signextend
     else if op = 0x10 then opcode_lt
     else if op = 0x11 then opcode_gt
     else if op = 0x12 then opcode_slt
     else if op = 0x13 then opcode_sgt
     else if op = 0x14 then opcode_eq
     else if op = 0x15 then opcode_iszero
     else if op = 0x16 then opcode_and
     else if op = 0x17 then opcode_or
     else if op = 0x18 then opcode_xor
     else if op = 0x19 then opcode_not
     else if op = 0x1A then opcode_byte
     else if op = 0x1B then opcode_shl
     else if op = 0x1C then opcode_shr
     else if op = 0x1D then opcode_sar
     else if op = 0x20 then opcode_sha3 E
     else next)"

definition table_env :: "'b database \<Rightarrow> u8 \<Rightarrow> ('b vm, action) exec \<Rightarrow> ('b vm, action) exec" where
  "table_env D op next =
    (if op = 0x30 then opcode_address
     else if op = 0x31 then opcode_balance D
     else if op = 0x32 then opcode_origin
     else if op = 0x33 then opcode_caller
     else if op = 0x34 then opcode_callvalue
     else if op = 0x35 then opcode_calldataload
     else if op = 0x36 then opcode_calldatasize
     else if op = 0x37 then opcode_calldatacopy
     else if op = 0x38 then opcode_codesize
     else if op = 0x39 then opcode_codecopy
     else if op = 0x3A then opcode_gasprice
     else if op = 0x3B then opcode_extcodesize D
     else if op = 0x3C then opcode_extcodecopy D
     else if op = 0x3D then opcode_returndatasize
     else if op = 0x3E then opcode_returndatacopy
     else if op = 0x3F then opcode_extcodehash D
     else if op = 0x40 then opcode_blockhash D
     else if op = 0x41 then opcode_coinbase
     else if op = 0x42 then opcode_timestamp D
     else if op = 0x43 then opcode_number D
     else if op = 0x44 then opcode_difficulty
     else if op = 0x45 then opcode_gaslimit
     else if op = 0x46 then opcode_chainid D
     else if op = 0x47 then opcode_selfbalance D
     else if op = 0x48 then opcode_basefee
     else next)"

definition table_flow :: "'b database \<Rightarrow> u8 \<Rightarrow> ('b vm, action) exec \<Rightarrow> ('b vm, action) exec" where
  "table_flow D op next =
    (if op = 0x50 then opcode_pop
     else if op = 0x51 then opcode_mload
     else if op = 0x52 then opcode_mstore
     else if op = 0x53 then opcode_mstore8
     else if op = 0x54 then opcode_sload D
     else if op = 0x55 then opcode_sstore D
     else if op = 0x56 then opcode_jump
     else if op = 0x57 then opcode_jumpi
     else if op = 0x58 then opcode_pc
     else if op = 0x59 then opcode_msize
     else if op = 0x5A then opcode_gas
     else if op = 0x5B then opcode_jumpdest
     else if op = 0x5F then opcode_push_0
     else if op = 0x60 then opcode_push_1
     else if 0x61 \<le> op \<and> op \<le> 0x7E then opcode_push_2_31 (unat op - 0x5F)
     else if op = 0x7F then opcode_push_32
     else if 0x80 \<le> op \<and> op \<le> 0x8F then opcode_dup_1_16 (unat op - 0x7F)
     else if 0x90 \<le> op \<and> op \<le> 0x9F then opcode_swap_1_16 (unat op - 0x8F)
     else if 0xA0 \<le> op \<and> op \<le> 0xA4 then opcode_log_0_4 (unat op - 0xA0)
     else next)"

definition table_call :: "env \<Rightarrow> 'b database \<Rightarrow> u8 \<Rightarrow> ('b vm, action) exec \<Rightarrow> ('b vm, action) exec" where
  "table_call E D op next =
    (if op = 0xF0 then opcode_create E D
     else if op = 0xF1 then opcode_call E D
     else if op = 0xF2 then opcode_callcode E D
     else if op = 0xF3 then opcode_return D
     else if op = 0xF4 then opcode_delegatecall E D
     else if op = 0xF5 then opcode_create2 E D
     else if op = 0xFA then opcode_staticcall E D
     else if op = 0xFD then opcode_revert D
     else if op = 0xFE then opcode_invalid
     else if op = 0xFF then opcode_selfdestruct D
     else next)"

definition execute_opcode :: "env \<Rightarrow> 'b database \<Rightarrow> u8 \<Rightarrow> ('b vm, action) exec" where
  "execute_opcode E D op =
     table_arith E D op (table_env D op (table_flow D op (table_call E D op opcode_unknown)))"

definition execute_eof_opcode :: "env \<Rightarrow> 'b database \<Rightarrow> u8 \<Rightarrow> ('b vm, action) exec" where
  "execute_eof_opcode E D op =
    (if op = 0x5C then opcode_rjump
     else if op = 0x5D then opcode_rjumpi
     else if op = 0x5E then opcode_rjumpv
     else if op = 0xB0 then opcode_callf
     else if op = 0xB1 then opcode_retf
     else if op = 0xF2 \<or> op = 0xFF \<or> op = 0x56 \<or> op = 0x57 \<or> op = 0x58 then opcode_deprecated
     else execute_opcode E D op)"

section \<open>The loop\<close>

text \<open>
  One turn: run the instruction at \<open>pc\<close>, turn an error into a revert of the current frame with the
  error's text, and act on the outcome; \<open>Some\<close> status leaves the loop.
\<close>

definition run_opcode :: "env \<Rightarrow> 'b database \<Rightarrow> bool \<Rightarrow> ('b vm, action) exec" where
  "run_opcode E D is_eof =
    and_then get_code (\<lambda>code.
    and_then (self m_pc) (\<lambda>pc.
    let opcode = get_or_default code pc in
    catch_err (if is_eof then execute_eof_opcode E D opcode else execute_opcode E D opcode) (\<lambda>e.
      and_then (lift (build_revert_message (env_error_string E e))) (\<lambda>message.
      opcode_revert_impl D (buf_from_slice message)))))"

definition apply_action :: "action \<Rightarrow> ('b vm, exit_status option) exec" where
  "apply_action a = (case a of
      ActContinue \<Rightarrow> and_then (set_self (\<lambda>m. m\<lparr>m_pc := usize_wrap (m_pc m + 1)\<rparr>)) (\<lambda>_. ret None)
    | ActJump target \<Rightarrow> and_then (set_self (\<lambda>m. m\<lparr>m_pc := target\<rparr>)) (\<lambda>_. ret None)
    | ActStop \<Rightarrow> ret (Some ExitStop)
    | ActReturn v \<Rightarrow> ret (Some (ExitReturn v))
    | ActRevert v \<Rightarrow> ret (Some (ExitRevert v))
    | ActCodeSection code_section pc \<Rightarrow>
        and_then (set_self (\<lambda>m. m\<lparr>m_code_section := code_section, m_pc := pc\<rparr>)) (\<lambda>_. ret None)
    | ActSuicide \<Rightarrow> ret (Some ExitSuicide)
    | ActNoop \<Rightarrow> ret None)"

definition execute_step :: "env \<Rightarrow> 'b database \<Rightarrow> bool \<Rightarrow> ('b vm, exit_status option) exec" where
  "execute_step E D is_eof = and_then (run_opcode E D is_eof) apply_action"

text \<open>
  The loop with \<open>n\<close> turns left; the second component of the result is \<open>step\<close>, which also counts
  the turn that finds the limit exceeded.
\<close>

primrec execute_loop :: "env \<Rightarrow> 'b database \<Rightarrow> bool \<Rightarrow> nat \<Rightarrow> nat \<Rightarrow> ('b vm, exit_status \<times> nat) exec" where
  "execute_loop E D is_eof 0 step = ret (ExitStepLimit, step + 1)"
| "execute_loop E D is_eof (Suc n) step =
    and_then (execute_step E D is_eof) (\<lambda>r. case r of
      Some status \<Rightarrow> ret (status, step + 1)
    | None \<Rightarrow> execute_loop E D is_eof n (step + 1))"

definition execute :: "env \<Rightarrow> 'b database \<Rightarrow> u64 \<Rightarrow> ('b vm, exit_status \<times> nat) exec" where
  "execute E D step_limit =
    and_then get_code (\<lambda>_.
    and_then (gets cur) (\<lambda>m.
    and_then (lift (rassert (case m_container m of
        None \<Rightarrow> buf_is_initialized (m_execution_code m)
      | Some c \<Rightarrow> buf_is_initialized (ccode c ! m_code_section m)))) (\<lambda>_.
    and_then (lift (rassert (buf_is_initialized (m_call_data m)))) (\<lambda>_.
    and_then (lift (rassert (buf_is_initialized (m_return_data m)))) (\<lambda>_.
    if is_precompile_address (ctx_contract (m_context m)) then
      and_then (lift (rbind (precompile (env_keccak E) (env_crypto E) (ctx_contract (m_context m)) (buf_bytes (m_call_data m))) unwrap)) (\<lambda>v.
      and_then (on_db (db_commit_snapshot D)) (\<lambda>_. ret (ExitReturn v, 0)))
    else execute_loop E D (m_container m \<noteq> None) (unat step_limit) 0)))))"

end
