(* ===== verification/Frames.thy ===== *)
theory Frames
  imports Interpreter
begin

text \<open>
  What the frames of a transaction do to the database.  The contract of the database is the locale
  \<open>snapshot_db\<close>: its state stands for a list of worlds, the current one and below it one for every open
  snapshot, and its operations act on the first of them.  Over it the interpreter is shown to simulate
  a small abstract machine (\<open>frame_move\<close>) that only opens frames, writes in frames that are not static,
  and closes frames by keeping the current world or by going back to the one of the snapshot.
\<close>

lemma keepI: "(\<And>s r s'. I s \<Longrightarrow> m s = (r, s') \<Longrightarrow> r \<noteq> Panic \<Longrightarrow> I s') \<Longrightarrow> keep I m"
  by (auto simp: keep_def holds_def split: prod.split result.split)

lemma keepD: "keep I m \<Longrightarrow> I s \<Longrightarrow> m s = (r, s') \<Longrightarrow> r \<noteq> Panic \<Longrightarrow> I s'"
  by (cases r) (fastforce simp: keep_def holds_def)+

lemma holdsI:
  "(\<And>s x s'. P s \<Longrightarrow> m s = (Ok x, s') \<Longrightarrow> Q x s') \<Longrightarrow> (\<And>s e s'. P s \<Longrightarrow> m s = (Err e, s') \<Longrightarrow> E s')
    \<Longrightarrow> holds P m Q E"
  by (auto simp: holds_def split: prod.split result.split)

lemma on_dbE:
  assumes "on_db m s = (r, s')"
  obtains b where "m (db s) = (r, b)" "s' = s\<lparr>db := b\<rparr>"
  using assms by (cases "m (db s)") (auto simp: on_db_def zoom_apply)

text \<open>
  \<open>plain I m\<close>: the instruction \<open>m\<close> keeps \<open>I\<close> and neither opens nor closes a frame.
\<close>

definition goes_on :: "action \<Rightarrow> bool" where
  "goes_on a \<longleftrightarrow> (case a of ActContinue \<Rightarrow> True | ActJump _ \<Rightarrow> True | ActCodeSection _ _ \<Rightarrow> True
     | ActNoop \<Rightarrow> True | _ \<Rightarrow> False)"

lemma goes_on_simps [simp]:
  "goes_on ActContinue" "goes_on (ActJump t)" "goes_on (ActCodeSection n p)" "goes_on ActNoop"
  "\<not> goes_on ActStop" "\<not> goes_on (ActReturn d)" "\<not> goes_on (ActRevert d)" "\<not> goes_on ActSuicide"
  by (simp_all add: goes_on_def)

named_theorems plains \<open>syntax-directed rules for instructions\<close>

definition plain :: "('s \<Rightarrow> bool) \<Rightarrow> ('s, action) exec \<Rightarrow> bool" where
  "plain I m \<longleftrightarrow> holds I m (\<lambda>a s. goes_on a \<and> I s) I"

lemma plain_ret [plains]:
  "plain I (ret ActContinue)" "plain I (ret (ActJump t))" "plain I (ret (ActCodeSection n p))" "plain I (ret ActNoop)"
  by (simp_all add: plain_def holds_ret)

lemma plain_raise [plains]: "plain I (raise e)"
  by (simp add: plain_def holds_raise)

lemma plain_and_then [plains]: "keep I m \<Longrightarrow> (\<And>x. plain I (f x)) \<Longrightarrow> plain I (and_then m f)"
  unfolding plain_def keep_def by (rule holds_and_then)

lemma plain_if [plains]: "plain I m \<Longrightarrow> plain I n \<Longrightarrow> plain I (if b then m else n)"
  by simp

lemma plain_Let [plains]: "plain I (f x) \<Longrightarrow> plain I (let y = x in f y)"
  by simp

lemma plain_case_option [plains]:
  "plain I m \<Longrightarrow> (\<And>y. plain I (n y)) \<Longrightarrow> plain I (case x of None \<Rightarrow> m | Some y \<Rightarrow> n y)"
  by (cases x) auto

lemma execute_step_not_limit: "execute_step E D is_eof s \<noteq> (Ok (Some ExitStepLimit), s')"
  by (auto simp: execute_step_def apply_action_def and_then_apply ret_apply set_self_def modify_apply
      split: result.splits action.splits)

section \<open>The abstract machine\<close>

text \<open>
  \<open>fc_floor\<close> is constant: a configuration with fewer parents than that neither writes nor opens a frame
  any more.  It serves to say that an execution has not left a frame meanwhile.
\<close>

record 'w frame_config =
  fc_floor :: nat
  fc_static :: bool
  fc_world :: 'w
  fc_parents :: "machine list"
  fc_worlds :: "'w list"

inductive frame_move :: "'w frame_config \<Rightarrow> 'w frame_config \<Rightarrow> bool" where
  move_write: "n \<le> length ps \<Longrightarrow> frame_move \<lparr>fc_floor = n, fc_static = False, fc_world = w, fc_parents = ps, fc_worlds = ws\<rparr>
     \<lparr>fc_floor = n, fc_static = False, fc_world = w', fc_parents = ps, fc_worlds = ws\<rparr>"
| move_open: "n \<le> length ps \<Longrightarrow> (m_is_static m \<longrightarrow> st) \<Longrightarrow>
   frame_move \<lparr>fc_floor = n, fc_static = m_is_static m, fc_world = w, fc_parents = ps, fc_worlds = ws\<rparr>
     \<lparr>fc_floor = n, fc_static = st, fc_world = w, fc_parents = m # ps, fc_worlds = w # ws\<rparr>"
| move_commit:
   "frame_move \<lparr>fc_floor = n, fc_static = st, fc_world = w, fc_parents = p # ps, fc_worlds = v # ws\<rparr>
     \<lparr>fc_floor = n, fc_static = m_is_static p, fc_world = w, fc_parents = ps, fc_worlds = ws\<rparr>"
| move_revert:
   "frame_move \<lparr>fc_floor = n, fc_static = st, fc_world = w, fc_parents = p # ps, fc_worlds = v # ws\<rparr>
     \<lparr>fc_floor = n, fc_static = m_is_static p, fc_world = v, fc_parents = ps, fc_worlds = ws\<rparr>"

abbreviation frame_moves :: "'w frame_config \<Rightarrow> 'w frame_config \<Rightarrow> bool" where
  "frame_moves \<equiv> frame_move\<^sup>*\<^sup>*"

text \<open>There is one open snapshot for every frame.\<close>

definition fc_balanced :: "'w frame_config \<Rightarrow> bool" where
  "fc_balanced c \<longleftrightarrow> length (fc_worlds c) = Suc (length (fc_parents c))"

lemma frame_move_balanced: "frame_move c c' \<Longrightarrow> fc_balanced c \<Longrightarrow> fc_balanced c'"
  by (induction rule: frame_move.induct) (auto simp: fc_balanced_def)

lemma frame_moves_balanced: "frame_moves c c' \<Longrightarrow> fc_balanced c \<Longrightarrow> fc_balanced c'"
  by (induction rule: rtranclp_induct) (auto intro: frame_move_balanced)

text \<open>
  What the moves from \<open>c\<close> have left alone, as long as the frame of \<open>c\<close> is open: the frames and worlds
  below it, and when it is static, the world.
\<close>

definition frames_inside :: "'w frame_config \<Rightarrow> 'w frame_config \<Rightarrow> bool" where
  "frames_inside c c' \<longleftrightarrow> (\<exists>fs ws. fc_parents c' = fs @ fc_parents c \<and> fc_worlds c' = ws @ fc_worlds c
     \<and> length fs = length ws
     \<and> (if fs = [] then fc_static c' else m_is_static (last fs)) = fc_static c
     \<and> (fc_static c \<longrightarrow> fc_static c' \<and> (\<forall>f \<in> set fs. m_is_static f)
          \<and> fc_world c' = fc_world c \<and> (\<forall>w \<in> set ws. w = fc_world c)))"

text \<open>Once it is closed, the frames and worlds below are what is left, and no new world comes up.\<close>

definition frames_left :: "'w frame_config \<Rightarrow> 'w frame_config \<Rightarrow> bool" where
  "frames_left c c' \<longleftrightarrow> (\<exists>k > 0. k \<le> length (fc_parents c) \<and> fc_parents c' = drop k (fc_parents c)
     \<and> fc_worlds c' = drop k (fc_worlds c)
     \<and> (fc_static c \<longrightarrow> fc_world c' \<in> insert (fc_world c) (set (take k (fc_worlds c)))))"

lemma frame_moves_floor: "frame_moves c c' \<Longrightarrow> fc_floor c' = fc_floor c"
  by (induction rule: rtranclp_induct) (auto elim: frame_move.cases)

lemma frames_inside_open:
  assumes "frames_inside c \<lparr>fc_floor = n, fc_static = m_is_static m, fc_world = w, fc_parents = ps, fc_worlds = ws\<rparr>"
    and "m_is_static m \<longrightarrow> st"
  shows "frames_inside c \<lparr>fc_floor = n, fc_static = st, fc_world = w, fc_parents = m # ps, fc_worlds = w # ws\<rparr>"
proof -
  obtain fs us where u: "ps = fs @ fc_parents c" "ws = us @ fc_worlds c" "length fs = length us"
      "(if fs = [] then m_is_static m else m_is_static (last fs)) = fc_static c"
      "fc_static c \<longrightarrow> m_is_static m \<and> (\<forall>f \<in> set fs. m_is_static f) \<and> w = fc_world c \<and> (\<forall>w \<in> set us. w = fc_world c)"
    using assms(1) unfolding frames_inside_def by (auto cong: if_cong)
  show ?thesis
    unfolding frames_inside_def
    by (rule exI [of _ "m # fs"], rule exI [of _ "w # us"]) (use u assms(2) in \<open>auto split: if_splits\<close>)
qed

lemma frames_inside_close:
  assumes "frames_inside c \<lparr>fc_floor = n, fc_static = st, fc_world = w, fc_parents = p # ps, fc_worlds = v # ws\<rparr>"
    and "w' = w \<or> w' = v"
  defines "c' \<equiv> \<lparr>fc_floor = n, fc_static = m_is_static p, fc_world = w', fc_parents = ps, fc_worlds = ws\<rparr>"
  shows "frames_inside c c' \<or> frames_left c c'"
proof -
  obtain fs us where u: "p # ps = fs @ fc_parents c" "v # ws = us @ fc_worlds c" "length fs = length us"
      "(if fs = [] then st else m_is_static (last fs)) = fc_static c"
      "fc_static c \<longrightarrow> st \<and> (\<forall>f \<in> set fs. m_is_static f) \<and> w = fc_world c \<and> (\<forall>w \<in> set us. w = fc_world c)"
    using assms(1) unfolding frames_inside_def by (auto cong: if_cong)
  show ?thesis
  proof (cases fs)
    case Nil
    then have "us = []" "fc_parents c = p # ps" "fc_worlds c = v # ws" using u by auto
    then show ?thesis using u(5) assms(2)
      by (intro disjI2) (auto simp: frames_left_def c'_def intro!: exI [of _ 1])
  next
    case (Cons f fs')
    then obtain us' where us: "us = v # us'" using u by (cases us) auto
    have "frames_inside c c'"
      unfolding frames_inside_def c'_def
      by (rule exI [of _ fs'], rule exI [of _ us']) (use u us Cons assms(2) in \<open>auto split: if_splits\<close>)
    then show ?thesis by blast
  qed
qed

lemma frames_left_close:
  assumes "frames_left c \<lparr>fc_floor = n, fc_static = st, fc_world = w, fc_parents = p # ps, fc_worlds = v # ws\<rparr>"
    and "w' = w \<or> w' = v"
  shows "frames_left c \<lparr>fc_floor = n, fc_static = m_is_static p, fc_world = w', fc_parents = ps, fc_worlds = ws\<rparr>"
proof -
  obtain k where k: "0 < k" "k \<le> length (fc_parents c)" "p # ps = drop k (fc_parents c)" "v # ws = drop k (fc_worlds c)"
      "fc_static c \<longrightarrow> w \<in> insert (fc_world c) (set (take k (fc_worlds c)))"
    using assms(1) by (auto simp: frames_left_def)
  have lt: "k < length (fc_parents c)" "k < length (fc_worlds c)"
    using k(3,4) by (metis drop_all list.distinct(1) not_le)+
  then have "take (Suc k) (fc_worlds c) = take k (fc_worlds c) @ [v]"
    using k(4) by (metis nth_via_drop take_Suc_conv_app_nth)
  moreover have "ps = drop (Suc k) (fc_parents c)" "ws = drop (Suc k) (fc_worlds c)"
    using k(3,4) by (metis drop_Suc list.sel(3) tl_drop)+
  ultimately show ?thesis
    unfolding frames_left_def
    by (intro exI [of _ "Suc k"]) (use lt k assms(2) in auto)
qed

lemma frame_moves_scope:
  assumes "frame_moves c c'" and "fc_floor c = length (fc_parents c)"
  shows "frames_inside c c' \<or> frames_left c c'"
  using assms(1)
proof (induction rule: rtranclp_induct)
  case base
  show ?case by (auto simp: frames_inside_def)
next
  case (step d d')
  have floor: "fc_floor d = length (fc_parents c)"
    using frame_moves_floor [OF step.hyps(1)] assms(2) by simp
  have inside: "frames_inside c d" if "length (fc_parents c) \<le> length (fc_parents d)"
    using step.IH that by (auto simp: frames_left_def)
  from step.hyps(2) show ?case
  proof cases
    case (move_write n ps w ws w')
    then have "frames_inside c d" using inside floor by simp
    then show ?thesis using move_write by (auto simp: frames_inside_def split: if_splits)
  next
    case (move_open n ps m st w ws)
    then show ?thesis using inside floor frames_inside_open [of c n m w ps ws st] by simp
  next
    case (move_commit n st w p ps v ws)
    then show ?thesis
      using step.IH frames_inside_close [of c n st w p ps v ws w] frames_left_close [of c n st w p ps v ws w] by blast
  next
    case (move_revert n st w p ps v ws)
    then show ?thesis
      using step.IH frames_inside_close [of c n st w p ps v ws v] frames_left_close [of c n st w p ps v ws v] by blast
  qed
qed

section \<open>Executions that stay in a frame\<close>

text \<open>Turns of the loop after each of which the call depth is at least \<open>n\<close>\<close>

inductive frame_run :: "env \<Rightarrow> 'b database \<Rightarrow> bool \<Rightarrow> nat \<Rightarrow> 'b vm \<Rightarrow> 'b vm \<Rightarrow> bool"
  for E D is_eof n s where
  run_refl: "frame_run E D is_eof n s s"
| run_step: "frame_run E D is_eof n s s1 \<Longrightarrow> execute_step E D is_eof s1 = (Ok None, s2)
    \<Longrightarrow> n \<le> length (parents s2) \<Longrightarrow> frame_run E D is_eof n s s2"

text \<open>Operations of the frame see neither the database nor the parents.\<close>

definition outside :: "('b \<Rightarrow> machine list \<Rightarrow> bool) \<Rightarrow> 'b vm \<Rightarrow> bool" where
  "outside J s \<longleftrightarrow> J (db s) (parents s)"

lemma keep_outside [keeps]:
  "keep (outside J) (on_stack st)" "keep (outside J) (on_memory mm)" "keep (outside J) (self f)"
  "keep (outside J) (from_db g)" "keep (outside J) (set_self h)" "keep (outside J) (sol_log_data d)"
  "keep (outside J) has_no_parent"
  by (auto simp: keep_def holds_def outside_def vm_access exec_simps has_no_parent_def split: result.splits prod.splits)

section \<open>The contract of the database\<close>

locale snapshot_db =
  fixes D :: "'b database" and ok :: "'b \<Rightarrow> bool" and view :: "'b \<Rightarrow> 'w list"
  assumes view_nonempty: "ok b \<Longrightarrow> view b \<noteq> []"
    and write_increment_nonce: "keep (\<lambda>b. ok b \<and> tl (view b) = ws) (db_increment_nonce D a)"
    and write_transfer: "keep (\<lambda>b. ok b \<and> tl (view b) = ws) (db_transfer D a a' amount)"
    and write_set_code: "keep (\<lambda>b. ok b \<and> tl (view b) = ws) (db_set_code D a code)"
    and write_selfdestruct: "keep (\<lambda>b. ok b \<and> tl (view b) = ws) (db_selfdestruct D a)"
    and write_set_storage: "keep (\<lambda>b. ok b \<and> tl (view b) = ws) (db_set_storage D a i val)"
    and write_extension: "keep (\<lambda>b. ok b \<and> tl (view b) = ws) (db_precompile_extension D ctx a data False)"
    and static_extension: "keep (\<lambda>b. ok b \<and> view b = vs) (db_precompile_extension D ctx a data True)"
    and static_transfer: "keep (\<lambda>b. ok b \<and> view b = vs) (db_transfer D a a' 0)"
    and open_snapshot: "ok b \<Longrightarrow>
      \<exists>b'. db_snapshot D b = (Ok (), b') \<and> ok b' \<and> view b' = hd (view b) # view b"
    and close_commit: "ok b \<Longrightarrow> view b = w # v # ws \<Longrightarrow>
      \<exists>b'. db_commit_snapshot D b = (Ok (), b') \<and> ok b' \<and> view b' = w # ws"
    and close_revert: "ok b \<Longrightarrow> view b = w # v # ws \<Longrightarrow>
      (case db_revert_snapshot D b of (Ok _, b') \<Rightarrow> ok b' \<and> view b' = v # ws
        | (Err _, _) \<Rightarrow> False | (Panic, _) \<Rightarrow> True)"
begin

definition frame_abs :: "nat \<Rightarrow> 'b vm \<Rightarrow> 'w frame_config" where
  "frame_abs n s = \<lparr>fc_floor = n, fc_static = m_is_static (cur s), fc_world = hd (view (db s)),
     fc_parents = parents s, fc_worlds = tl (view (db s))\<rparr>"

text \<open>A frame that creates a contract is not static.\<close>

definition frames_ok :: "'b vm \<Rightarrow> bool" where
  "frames_ok s \<longleftrightarrow> ok (db s)
     \<and> (\<forall>m \<in> set (cur s # parents s). m_reason m = Create \<longrightarrow> \<not> m_is_static m)"

text \<open>Reached from the configuration \<open>c\<close>, with all frames balanced\<close>

definition reached :: "'w frame_config \<Rightarrow> 'b vm \<Rightarrow> bool" where
  "reached c s \<longleftrightarrow> frames_ok s \<and> fc_balanced c \<and> frame_moves c (frame_abs (fc_floor c) s)"

text \<open>Between \<open>fork\<close> and \<open>snapshot\<close>: the caller's frame is on the list of parents already.\<close>

definition forked :: "'w frame_config \<Rightarrow> 'b vm \<Rightarrow> bool" where
  "forked c s \<longleftrightarrow> frames_ok s \<and> fc_balanced c
     \<and> (\<exists>m ps. parents s = m # ps \<and> fc_floor c \<le> length ps \<and> (m_is_static m \<longrightarrow> m_is_static (cur s))
        \<and> frame_moves c ((frame_abs (fc_floor c) s)\<lparr>fc_static := m_is_static m, fc_parents := ps\<rparr>))"

text \<open>Between the end of the snapshot and \<open>join\<close>: for a frame that has a parent, going on with the
  parent is a move of the abstract machine; the last frame has used up the last snapshot.\<close>

definition leaving :: "'w frame_config \<Rightarrow> 'b vm \<Rightarrow> bool" where
  "leaving c s \<longleftrightarrow> frames_ok s \<and> fc_balanced c \<and>
     (case parents s of
        [] \<Rightarrow> tl (view (db s)) = [] \<and> (\<exists>c'. frame_moves c c' \<and> fc_parents c' = []
            \<and> (hd (view (db s)) = fc_world c' \<or> [hd (view (db s))] = fc_worlds c'))
      | p # ps \<Rightarrow> frame_moves c ((frame_abs (fc_floor c) s)\<lparr>fc_static := m_is_static p, fc_parents := ps\<rparr>))"

abbreviation above :: "'w frame_config \<Rightarrow> machine list \<Rightarrow> bool" where
  "above c ps \<equiv> fc_floor c \<le> length ps"

text \<open>\<open>reached\<close> together with a condition on the static flag of the current frame and on its parents\<close>

definition reached_in :: "(bool \<Rightarrow> machine list \<Rightarrow> bool) \<Rightarrow> 'w frame_config \<Rightarrow> 'b vm \<Rightarrow> bool" where
  "reached_in P c s \<longleftrightarrow> reached c s \<and> P (m_is_static (cur s)) (parents s)"

subsection \<open>Operations that stay in the frame\<close>

lemma reached_in_cur:
  "reached_in P c s \<Longrightarrow> m_is_static m = m_is_static (cur s) \<Longrightarrow> m_reason m = m_reason (cur s)
    \<Longrightarrow> reached_in P c (s\<lparr>cur := m\<rparr>)"
  by (simp add: reached_in_def reached_def frames_ok_def frame_abs_def)

lemma keep_on_stack [keeps]: "keep (reached_in P c) (on_stack m)"
  unfolding on_stack_def by (rule keep_zoom) (simp add: reached_in_cur)

lemma keep_on_memory [keeps]: "keep (reached_in P c) (on_memory m)"
  unfolding on_memory_def by (rule keep_zoom) (simp add: reached_in_cur)

lemma keep_access [keeps]:
  "keep (reached_in P c) (self f)" "keep (reached_in P c) (from_db g)" "keep (reached_in P c) get_code"
  "keep (reached_in P c) has_no_parent" "keep (reached_in P c) (sol_log_data d)"
  by (simp_all add: self_def from_db_def get_code_def has_no_parent_def keeps)
     (auto simp: sol_log_data_def reached_in_def reached_def frames_ok_def frame_abs_def intro!: keep_modify)

lemma keep_set_self [keeps]:
  "(\<And>m. m_is_static (f m) = m_is_static m \<and> m_reason (f m) = m_reason m)
    \<Longrightarrow> keep (reached_in P c) (set_self f)"
  unfolding set_self_def by (rule keep_modify) (simp add: reached_in_cur)

lemma reached_write:
  assumes "\<And>st ps. P st ps \<Longrightarrow> \<not> st \<and> above c ps"
    and "reached_in P c s" and "ok b" and "tl (view b) = tl (view (db s))"
  shows "reached_in P c (s\<lparr>db := b\<rparr>)"
proof -
  have "\<not> m_is_static (cur s) \<and> above c (parents s)" using assms(1,2) by (auto simp: reached_in_def)
  then show ?thesis using assms(2-)
    unfolding reached_in_def reached_def frames_ok_def frame_abs_def
    by (auto elim!: rtranclp.rtrancl_into_rtrancl intro: move_write)
qed

lemma keep_write:
  assumes "\<And>ws. keep (\<lambda>b. ok b \<and> tl (view b) = ws) m" and "\<And>st ps. P st ps \<Longrightarrow> \<not> st \<and> above c ps"
  shows "keep (reached_in P c) (on_db m)"
proof (rule keepI)
  fix s r s'
  assume s: "reached_in P c s" and "on_db m s = (r, s')" and r: "r \<noteq> Panic"
  then obtain b where b: "m (db s) = (r, b)" "s' = s\<lparr>db := b\<rparr>"
    by (blast elim: on_dbE)
  have "ok b \<and> tl (view b) = tl (view (db s))"
    using keepD [OF assms(1) [of "tl (view (db s))"] _ b(1) r] s
    by (simp add: reached_in_def reached_def frames_ok_def)
  then show "reached_in P c s'" unfolding b(2)
    by (intro reached_write [of P, OF _ s]) (auto dest: assms(2))
qed

lemma keep_quiet:
  assumes "\<And>vs. keep (\<lambda>b. ok b \<and> view b = vs) m"
  shows "keep (reached_in P c) (on_db m)"
proof (rule keepI)
  fix s r s'
  assume s: "reached_in P c s" and "on_db m s = (r, s')" and r: "r \<noteq> Panic"
  then obtain b where b: "m (db s) = (r, b)" "s' = s\<lparr>db := b\<rparr>"
    by (blast elim: on_dbE)
  have "ok b \<and> view b = view (db s)"
    using keepD [OF assms [of "view (db s)"] _ b(1) r] s
    by (simp add: reached_in_def reached_def frames_ok_def)
  then show "reached_in P c s'"
    using s b(2) by (simp add: reached_in_def reached_def frames_ok_def frame_abs_def)
qed

lemmas write_ops = write_increment_nonce write_transfer write_set_code write_selfdestruct write_set_storage
  write_extension

lemma reached_any: "reached_in (\<lambda>_ _. True) c = reached c"
  by (rule ext) (simp add: reached_in_def)

lemma reached_in_weaken: "reached_in P c s \<Longrightarrow> reached c s"
  by (simp add: reached_in_def)

text \<open>The guard against static frames gives the right to write.\<close>

lemma not_static_then:
  assumes "plain (reached_in (\<lambda>st ps. \<not> st \<and> above c ps) c) m"
  shows "holds (reached_in (\<lambda>_. above c) c) (and_then not_static (\<lambda>_. m))
    (\<lambda>a s. goes_on a \<and> reached c s) (reached c)"
proof (rule holds_and_then)
  show "holds (reached_in (\<lambda>_. above c) c) not_static (\<lambda>_. reached_in (\<lambda>st ps. \<not> st \<and> above c ps) c) (reached c)"
    by (rule holdsI) (auto simp: not_static_def reached_in_def exec_simps split: if_splits)
  show "holds (reached_in (\<lambda>st ps. \<not> st \<and> above c ps) c) m (\<lambda>a s. goes_on a \<and> reached c s) (reached c)" for x :: unit
    using assms unfolding plain_def by (rule holds_conseq) (auto dest: reached_in_weaken)
qed

lemma plain_pop_copy [plains]: "(\<And>a b n. plain (reached_in P c) (f a b n)) \<Longrightarrow> plain (reached_in P c) (pop_copy f)"
  unfolding pop_copy_def by (intro plains keeps)

lemma keep_pop_topics [keeps]: "keep (reached_in P c) (pop_topics n)"
  by (induction n) (simp_all add: keeps)

lemma plain_jump_to [plains]: "plain (reached_in P c) (jump_to t)"
  unfolding jump_to_def by (intro plains keeps)

lemma plain_push_out_of_bounds [plains]: "plain (reached_in P c) push_out_of_bounds"
  unfolding push_out_of_bounds_def by (intro plains keeps)

lemma plain_pop2 [plains]: "(\<And>a b. plain (reached_in P c) (f a b)) \<Longrightarrow> plain (reached_in P c) (pop2 f)"
  unfolding pop2_def by (intro plains keeps)

lemmas env_opcodes = opcode_address_def opcode_balance_def opcode_origin_def
    opcode_caller_def opcode_callvalue_def opcode_calldataload_def opcode_calldatasize_def
    opcode_calldatacopy_def opcode_codesize_def opcode_codecopy_def opcode_gasprice_def
    opcode_extcodesize_def opcode_extcodecopy_def opcode_returndatasize_def opcode_returndatacopy_def
    opcode_extcodehash_def opcode_blockhash_def opcode_coinbase_def opcode_timestamp_def
    opcode_number_def opcode_difficulty_def opcode_gaslimit_def opcode_chainid_def opcode_selfbalance_def
    opcode_basefee_def

lemmas flow_opcodes = opcode_pop_def opcode_mload_def opcode_mstore_def
       opcode_mstore8_def opcode_sload_def opcode_jump_def opcode_jumpi_def opcode_pc_def opcode_msize_def
       opcode_gas_def opcode_jumpdest_def opcode_push_0_def opcode_push_1_def opcode_push_2_31_def
       opcode_push_32_def opcode_dup_1_16_def opcode_swap_1_16_def

lemmas arith_opcodes = opcode_add_def opcode_mul_def opcode_sub_def opcode_div_def opcode_sdiv_def opcode_mod_def
  opcode_smod_def opcode_addmod_def opcode_mulmod_def opcode_exp_def opcode_signextend_def opcode_lt_def
  opcode_gt_def opcode_slt_def opcode_sgt_def opcode_eq_def opcode_iszero_def opcode_and_def opcode_or_def
  opcode_xor_def opcode_not_def opcode_byte_def opcode_shl_def opcode_shr_def opcode_sar_def opcode_sha3_def

lemma plain_env_opcodes:
  "plain (reached_in P c) opcode_address" "plain (reached_in P c) (opcode_balance D)"
  "plain (reached_in P c) opcode_origin" "plain (reached_in P c) opcode_caller"
  "plain (reached_in P c) opcode_callvalue" "plain (reached_in P c) opcode_calldataload"
  "plain (reached_in P c) opcode_calldatasize" "plain (reached_in P c) opcode_calldatacopy"
  "plain (reached_in P c) opcode_codesize" "plain (reached_in P c) opcode_codecopy"
  "plain (reached_in P c) opcode_gasprice" "plain (reached_in P c) (opcode_extcodesize D)"
  "plain (reached_in P c) (opcode_extcodecopy D)" "plain (reached_in P c) opcode_returndatasize"
  "plain (reached_in P c) opcode_returndatacopy" "plain (reached_in P c) (opcode_extcodehash D)"
  "plain (reached_in P c) (opcode_blockhash D)" "plain (reached_in P c) opcode_coinbase"
  "plain (reached_in P c) (opcode_timestamp D)" "plain (reached_in P c) (opcode_number D)"
  "plain (reached_in P c) opcode_difficulty" "plain (reached_in P c) opcode_gaslimit"
  "plain (reached_in P c) (opcode_chainid D)" "plain (reached_in P c) (opcode_selfbalance D)"
  "plain (reached_in P c) opcode_basefee"
  unfolding env_opcodes by (intro plains keeps)+

lemma writes_opcode_sstore:
  "holds (reached_in (\<lambda>_. above c) c) (opcode_sstore D) (\<lambda>a s. goes_on a \<and> reached c s) (reached c)"
  unfolding opcode_sstore_def by (rule not_static_then) (intro plains keeps keep_write write_ops)

lemma writes_opcode_log:
  "holds (reached_in (\<lambda>_. above c) c) (opcode_log_0_4 n) (\<lambda>a s. goes_on a \<and> reached c s) (reached c)"
  unfolding opcode_log_0_4_def by (rule not_static_then) (intro plains keeps)

lemma plain_flow_opcodes:
  "plain (reached_in P c) opcode_pop" "plain (reached_in P c) opcode_mload" "plain (reached_in P c) opcode_mstore"
  "plain (reached_in P c) opcode_mstore8" "plain (reached_in P c) (opcode_sload D)"
  "plain (reached_in P c) opcode_jump" "plain (reached_in P c) opcode_jumpi" "plain (reached_in P c) opcode_pc"
  "plain (reached_in P c) opcode_msize" "plain (reached_in P c) opcode_gas" "plain (reached_in P c) opcode_jumpdest"
  "plain (reached_in P c) opcode_push_0" "plain (reached_in P c) opcode_push_1"
  "plain (reached_in P c) (opcode_push_2_31 n)" "plain (reached_in P c) opcode_push_32"
  "plain (reached_in P c) (opcode_dup_1_16 n)" "plain (reached_in P c) (opcode_swap_1_16 n)"
  unfolding flow_opcodes by (intro plains keeps)+

lemma plain_arith_opcodes:
  "plain (reached_in P c) opcode_add" "plain (reached_in P c) opcode_mul" "plain (reached_in P c) opcode_sub"
  "plain (reached_in P c) opcode_div" "plain (reached_in P c) opcode_sdiv" "plain (reached_in P c) opcode_mod"
  "plain (reached_in P c) opcode_smod" "plain (reached_in P c) opcode_addmod"
  "plain (reached_in P c) opcode_mulmod" "plain (reached_in P c) opcode_exp"
  "plain (reached_in P c) opcode_signextend" "plain (reached_in P c) opcode_lt" "plain (reached_in P c) opcode_gt"
  "plain (reached_in P c) opcode_slt" "plain (reached_in P c) opcode_sgt" "plain (reached_in P c) opcode_eq"
  "plain (reached_in P c) opcode_iszero" "plain (reached_in P c) opcode_and" "plain (reached_in P c) opcode_or"
  "plain (reached_in P c) opcode_xor" "plain (reached_in P c) opcode_not" "plain (reached_in P c) opcode_byte"
  "plain (reached_in P c) opcode_shl" "plain (reached_in P c) opcode_shr" "plain (reached_in P c) opcode_sar"
  "plain (reached_in P c) (opcode_sha3 E)"
  unfolding arith_opcodes by (intro plains keeps)+

lemma plain_invalid:
  "plain (reached c) opcode_unknown" "plain (reached c) opcode_invalid" "plain (reached c) opcode_deprecated"
  unfolding reached_any [symmetric] opcode_unknown_def opcode_invalid_def opcode_deprecated_def current_opcode_def
  by (intro plains keeps)+

lemma plain_eof_opcodes:
  "plain (reached c) opcode_rjump" "plain (reached c) opcode_rjumpi" "plain (reached c) opcode_rjumpv"
  "plain (reached c) opcode_callf"
  unfolding reached_any [symmetric] opcode_rjumpi_def opcode_rjump_def opcode_rjumpv_def opcode_callf_def
  by (intro plains keeps, simp?)+

subsection \<open>Closing a frame\<close>

text \<open>The last frame is closed: the transaction is over, with no snapshot left.\<close>

definition finished :: "'w frame_config \<Rightarrow> 'b vm \<Rightarrow> bool" where
  "finished c s \<longleftrightarrow> leaving c s \<and> parents s = []"

definition settled :: "'w frame_config \<Rightarrow> action \<Rightarrow> 'b vm \<Rightarrow> bool" where
  "settled c a s \<longleftrightarrow> (if goes_on a then reached c s else finished c s)"

definition settles :: "'w frame_config \<Rightarrow> ('b vm, action) exec \<Rightarrow> bool" where
  "settles c m \<longleftrightarrow> holds (reached c) m (settled c) (reached c)"

lemma plain_settles: "plain (reached c) m \<Longrightarrow> settles c m"
  unfolding plain_def settles_def by (erule holds_conseq) (auto simp: settled_def)

lemma settles_if: "settles c m \<Longrightarrow> settles c n \<Longrightarrow> settles c (if b then m else n)"
  by simp

lemma settles_keep_then:
  "keep (reached c) m \<Longrightarrow> (\<And>x. settles c (f x)) \<Longrightarrow> settles c (and_then m f)"
  unfolding settles_def by (rule holds_keep_then)

lemma reached_view:
  assumes "reached c s"
  obtains w v ws where "view (db s) = w # v # ws" "length ws = length (parents s)"
proof -
  have "ok (db s)" "fc_balanced (frame_abs (fc_floor c) s)"
    using assms frame_moves_balanced by (auto simp: reached_def frames_ok_def)
  then show ?thesis using that view_nonempty [of "db s"]
    by (cases "view (db s)"; cases "tl (view (db s))") (auto simp: fc_balanced_def frame_abs_def)
qed

lemma leaving_commit: "holds (reached c) (on_db (db_commit_snapshot D)) (\<lambda>_. leaving c) E"
proof (rule holdsI)
  fix s x s'
  assume s: "reached c s" and run: "on_db (db_commit_snapshot D) s = (Ok x, s')"
  obtain w v ws where v: "view (db s) = w # v # ws" "length ws = length (parents s)"
    using s by (rule reached_view)
  obtain b where b: "db_commit_snapshot D (db s) = (Ok (), b)" "ok b" "view b = w # ws"
    using close_commit [OF _ v(1)] s by (auto simp: reached_def frames_ok_def)
  have s': "s' = s\<lparr>db := b\<rparr>" using run b by (simp add: on_db_def zoom_apply)
  have moves: "frame_moves c \<lparr>fc_floor = fc_floor c, fc_static = m_is_static (cur s), fc_world = w, fc_parents = parents s, fc_worlds = v # ws\<rparr>"
    using s v by (simp add: reached_def frame_abs_def)
  show "leaving c s'"
  proof (cases "parents s")
    case Nil
    then have "\<exists>c'. frame_moves c c' \<and> fc_parents c' = [] \<and> w = fc_world c'"
      using moves by (metis frame_config.select_convs(3,4))
    then show ?thesis using Nil s b v s'
      by (auto simp: leaving_def reached_def frames_ok_def)
  next
    case (Cons p ps)
    then have "frame_moves c \<lparr>fc_floor = fc_floor c, fc_static = m_is_static p, fc_world = w, fc_parents = ps, fc_worlds = ws\<rparr>"
      using moves by (auto elim!: rtranclp.rtrancl_into_rtrancl intro: move_commit)
    then show ?thesis using Cons s b v s'
      by (simp add: leaving_def reached_def frames_ok_def frame_abs_def)
  qed
next
  fix s e s'
  assume s: "reached c s" and run: "on_db (db_commit_snapshot D) s = (Err e, s')"
  obtain w v ws where v: "view (db s) = w # v # ws" using s by (rule reached_view)
  then show "E s'"
    using close_commit [OF _ v(1)] s run
    by (auto simp: reached_def frames_ok_def on_db_def zoom_apply)
qed

lemma leaving_revert: "holds (reached c) (on_db (db_revert_snapshot D)) (\<lambda>_. leaving c) E"
proof (rule holdsI)
  fix s x s'
  assume s: "reached c s" and run: "on_db (db_revert_snapshot D) s = (Ok x, s')"
  obtain w v ws where v: "view (db s) = w # v # ws" "length ws = length (parents s)"
    using s by (rule reached_view)
  obtain b where b: "db_revert_snapshot D (db s) = (Ok x, b)" and s': "s' = s\<lparr>db := b\<rparr>"
    using run by (blast elim: on_dbE)
  have b': "ok b" "view b = v # ws"
    using close_revert [OF _ v(1)] s b by (auto simp: reached_def frames_ok_def)
  have moves: "frame_moves c \<lparr>fc_floor = fc_floor c, fc_static = m_is_static (cur s), fc_world = w, fc_parents = parents s, fc_worlds = v # ws\<rparr>"
    using s v by (simp add: reached_def frame_abs_def)
  show "leaving c s'"
  proof (cases "parents s")
    case Nil
    then have "\<exists>c'. frame_moves c c' \<and> fc_parents c' = [] \<and> [v] = fc_worlds c'"
      using moves v(2) by (metis frame_config.select_convs(4,5) length_0_conv list.size(3))
    then show ?thesis using Nil s b' v s'
      by (auto simp: leaving_def reached_def frames_ok_def)
  next
    case (Cons p ps)
    then have "frame_moves c \<lparr>fc_floor = fc_floor c, fc_static = m_is_static p, fc_world = v, fc_parents = ps, fc_worlds = ws\<rparr>"
      using moves by (auto elim!: rtranclp.rtrancl_into_rtrancl intro: move_revert)
    then show ?thesis using Cons s b' v s'
      by (simp add: leaving_def reached_def frames_ok_def frame_abs_def)
  qed
next
  fix s e s'
  assume s: "reached c s" and "on_db (db_revert_snapshot D) s = (Err e, s')"
  then obtain b where b: "db_revert_snapshot D (db s) = (Err e, b)" by (blast elim: on_dbE)
  obtain w v ws where "view (db s) = w # v # ws" using s by (rule reached_view)
  then show "E s'" using close_revert [of "db s"] s b by (fastforce simp: reached_def frames_ok_def)
qed

lemma leaving_log: "holds (leaving c) (sol_log_data d) (\<lambda>_. leaving c) E"
  unfolding sol_log_data_def
  by (rule holds_modify) (simp add: leaving_def frames_ok_def frame_abs_def split: list.splits)

lemma leaving_join:
  assumes "\<And>m. plain (reached c) (rest m)" and "\<not> goes_on a"
  shows "holds (leaving c) (and_then has_no_parent (\<lambda>top. if top then ret a else and_then join rest))
    (settled c) (reached c)"
proof -
  have join: "holds (\<lambda>s. leaving c s \<and> parents s \<noteq> []) join (\<lambda>_. reached c) (reached c)"
    by (rule holdsI) (auto simp: join_def leaving_def reached_def frames_ok_def frame_abs_def split: list.splits)
  have "holds (\<lambda>s. leaving c s \<and> (top \<longleftrightarrow> parents s = []))
      (if top then ret a else and_then join rest) (settled c) (reached c)" for top
  proof (cases top)
    case True
    then show ?thesis using assms(2) by (auto intro!: holds_ret simp: settled_def finished_def)
  next
    case False
    have "holds (reached c) (rest m) (settled c) (reached c)" for m
      using plain_settles [OF assms(1)] by (simp add: settles_def)
    from holds_and_then [OF join this] show ?thesis using False
      by (auto elim!: holds_conseq)
  qed
  moreover have "holds (leaving c) has_no_parent (\<lambda>top s. leaving c s \<and> (top \<longleftrightarrow> parents s = [])) (reached c)"
    unfolding has_no_parent_def by (rule holds_gets) simp
  ultimately show ?thesis by (rule holds_and_then [rotated])
qed

lemma plain_resume_call: "keep (reached c) (resume_call data success)"
  unfolding resume_call_def reached_any [symmetric] by (intro keeps)

lemma plain_case_reason: "plain I m \<Longrightarrow> plain I n \<Longrightarrow> plain I (case r of Call \<Rightarrow> m | Create \<Rightarrow> n)"
  by (cases r) auto

lemma keep_case_reason: "keep I m \<Longrightarrow> keep I n \<Longrightarrow> keep I (case r of Call \<Rightarrow> m | Create \<Rightarrow> n)"
  by (cases r) auto


lemma settles_opcode_revert_impl: "settles c (opcode_revert_impl D data)"
  unfolding settles_def opcode_revert_impl_def
proof (rule holds_and_then [OF leaving_revert], rule holds_and_then [OF leaving_log], rule leaving_join)
  fix m :: machine
  show "plain (reached c) (and_then (case m_reason m of Call \<Rightarrow> resume_call (buf_bytes data) False
      | Create \<Rightarrow> on_stack push_zero) (\<lambda>_. and_then (set_self (\<lambda>m. m\<lparr>m_return_data := data\<rparr>)) (\<lambda>_. ret ActContinue)))"
    unfolding resume_call_def reached_any [symmetric] by (intro plains keep_case_reason keeps) simp
qed simp

lemma settles_opcode_revert: "settles c (opcode_revert D)"
  unfolding opcode_revert_def
  by (intro settles_keep_then settles_opcode_revert_impl) (simp_all only: reached_any [symmetric] keeps)

lemma settles_close:
  "\<not> goes_on a \<Longrightarrow> holds (leaving c)
     (and_then has_no_parent (\<lambda>top. if top then ret a else close_without_data)) (settled c) (reached c)"
  unfolding close_without_data_def
proof (rule leaving_join)
  fix m :: machine
  show "plain (reached c) (and_then (case m_reason m of Call \<Rightarrow> resume_call [] True
      | Create \<Rightarrow> on_stack push_zero) (\<lambda>_. ret ActContinue))"
    unfolding resume_call_def reached_any [symmetric] by (intro plains keep_case_reason keeps)
qed

lemma settles_opcode_stop: "settles c (opcode_stop D)"
  unfolding settles_def opcode_stop_def
  by (rule holds_and_then [OF leaving_commit], rule holds_and_then [OF leaving_log], rule settles_close) simp

text \<open>The state before an instruction that may write\<close>

definition settles_in :: "(bool \<Rightarrow> machine list \<Rightarrow> bool) \<Rightarrow> 'w frame_config \<Rightarrow> ('b vm, action) exec \<Rightarrow> bool" where
  "settles_in P c m \<longleftrightarrow> holds (reached_in P c) m (settled c) (reached c)"

lemma settles_in_any: "settles_in (\<lambda>_ _. True) c m \<longleftrightarrow> settles c m"
  by (simp add: settles_in_def settles_def reached_any)

lemma settles_in_weaken: "settles c m \<Longrightarrow> settles_in P c m"
  unfolding settles_in_def settles_def by (erule holds_conseq) (auto dest: reached_in_weaken)

lemma settles_in_then:
  "keep (reached_in P c) m \<Longrightarrow> (\<And>x. settles_in P c (f x)) \<Longrightarrow> settles_in P c (and_then m f)"
  unfolding settles_in_def keep_def
  by (rule holds_and_then [of _ _ "\<lambda>_. reached_in P c"])
     (erule holds_conseq, auto dest: reached_in_weaken)

lemma settles_in_raise: "settles_in P c (raise e)"
  unfolding settles_in_def by (rule holds_raise) (rule reached_in_weaken)

lemma settles_in_if: "(b \<Longrightarrow> settles_in P c m) \<Longrightarrow> (\<not> b \<Longrightarrow> settles_in P c n) \<Longrightarrow> settles_in P c (if b then m else n)"
  by simp

text \<open>An instruction that may write or open a frame\<close>

lemma settles_in_mono: "settles_in P c m \<Longrightarrow> (\<And>st ps. Q st ps \<Longrightarrow> P st ps) \<Longrightarrow> settles_in Q c m"
  unfolding settles_in_def by (erule holds_conseq) (auto simp: reached_in_def)

abbreviation opens :: "'w frame_config \<Rightarrow> ('b vm, action) exec \<Rightarrow> bool" where
  "opens c \<equiv> settles_in (\<lambda>_. above c) c"

lemma opens_weaken: "settles c m \<Longrightarrow> opens c m"
  by (rule settles_in_weaken)

lemma writes_opens:
  "holds (reached_in (\<lambda>_. above c) c) m (\<lambda>a s. goes_on a \<and> reached c s) (reached c) \<Longrightarrow> opens c m"
  unfolding settles_in_def by (erule holds_conseq) (auto simp: settled_def)

lemma not_static_opens:
  "settles_in (\<lambda>st ps. \<not> st \<and> above c ps) c m \<Longrightarrow> opens c (and_then not_static (\<lambda>_. m))"
  unfolding settles_in_def
  by (rule holds_and_then [of _ _ "\<lambda>_. reached_in (\<lambda>st ps. \<not> st \<and> above c ps) c"], rule holdsI)
     (auto simp: not_static_def reached_in_def exec_simps split: if_splits)

lemma leaving_commit_in: "holds (reached_in P c) (on_db (db_commit_snapshot D)) (\<lambda>_. leaving c) E"
  by (rule holds_conseq [OF leaving_commit]) (auto dest: reached_in_weaken)

lemma opens_opcode_selfdestruct: "opens c (opcode_selfdestruct D)"
proof -
  have close: "settles_in (\<lambda>st ps. \<not> st \<and> above c ps) c (and_then (on_db (db_commit_snapshot D)) (\<lambda>_.
      and_then (sol_log_data [ascii ''EXIT'', ascii ''SELFDESTRUCT'']) (\<lambda>_.
      and_then has_no_parent (\<lambda>top. if top then ret ActSuicide else close_without_data))))"
    unfolding settles_in_def
    by (rule holds_and_then [OF leaving_commit_in], intro holds_and_then [OF leaving_log] settles_close) simp
  show ?thesis
    unfolding opcode_selfdestruct_def
    by (rule not_static_opens) (rule settles_in_then close keeps keep_write write_ops | assumption)+
qed

lemma opens_opcode_return_impl: "opens c (opcode_return_impl D data)"
proof -
  let ?rest = "\<lambda>data. and_then (on_db (db_commit_snapshot D)) (\<lambda>_.
    and_then (sol_log_data [ascii ''EXIT'', ascii ''RETURN'']) (\<lambda>_.
    and_then has_no_parent (\<lambda>top. if top then ret (ActReturn (buf_bytes data))
    else
      and_then join (\<lambda>returned.
      and_then (case m_reason returned of
          Call \<Rightarrow> and_then (resume_call (buf_bytes data) True) (\<lambda>_.
            set_self (\<lambda>m. m\<lparr>m_return_data := data\<rparr>))
        | Create \<Rightarrow> on_stack (push_address (ctx_contract (m_context returned)))) (\<lambda>_.
      ret ActContinue)))))"
  have rest: "settles c (?rest data)" for data
    unfolding settles_def
  proof (rule holds_and_then [OF leaving_commit], rule holds_and_then [OF leaving_log], rule leaving_join)
    fix m :: machine
    show "plain (reached c) (and_then (case m_reason m of
          Call \<Rightarrow> and_then (resume_call (buf_bytes data) True) (\<lambda>_. set_self (\<lambda>m. m\<lparr>m_return_data := data\<rparr>))
        | Create \<Rightarrow> on_stack (push_address (ctx_contract (m_context m)))) (\<lambda>_. ret ActContinue))"
      unfolding resume_call_def reached_any [symmetric] by (intro plains keep_case_reason keeps) simp
  qed simp
  show ?thesis
    unfolding settles_in_def opcode_return_impl_def
  proof (rule holds_and_then)
    show "holds (reached_in (\<lambda>_. above c) c) (gets cur)
        (\<lambda>m s. reached_in (\<lambda>_. above c) c s \<and> cur s = m) (reached c)"
      by (rule holds_gets) simp
    fix m
    show "holds (\<lambda>s. reached_in (\<lambda>_. above c) c s \<and> cur s = m)
        (and_then (if m_reason m = Create then
            and_then (lift (read_container Create data)) (\<lambda>_.
            and_then (on_db (db_set_code D (ctx_contract (m_context m)) data)) (\<lambda>_. ret buf_empty))
          else ret data) ?rest) (settled c) (reached c)"
    proof (cases "m_reason m = Create")
      case True
      have "settles_in (\<lambda>st ps. \<not> st \<and> above c ps) c
          (and_then (and_then (lift (read_container Create data)) (\<lambda>_.
            and_then (on_db (db_set_code D (ctx_contract (m_context m)) data)) (\<lambda>_. ret buf_empty))) ?rest)"
        by (intro settles_in_then keeps keep_write write_ops settles_in_weaken rest) simp
      then show ?thesis using True
        by (auto simp: settles_in_def elim!: holds_conseq) (auto simp: reached_in_def reached_def frames_ok_def)
    next
      case False
      then show ?thesis using rest [of data]
        by (auto simp: settles_def elim!: holds_conseq dest: reached_in_weaken)
    qed
  qed
qed

lemma opens_opcode_return: "opens c (opcode_return D)"
  unfolding opcode_return_def
  by (intro settles_in_then opens_opcode_return_impl keeps)

subsection \<open>Opening a frame\<close>

definition forked_in :: "(bool \<Rightarrow> bool) \<Rightarrow> 'w frame_config \<Rightarrow> 'b vm \<Rightarrow> bool" where
  "forked_in P c s \<longleftrightarrow> forked c s \<and> P (m_is_static (cur s))"

lemma forked_snapshot:
  "holds (forked_in P c) (on_db (db_snapshot D)) (\<lambda>_. reached_in (\<lambda>st ps. P st \<and> above c ps) c) E"
proof (rule holdsI)
  fix s x s'
  assume s: "forked_in P c s" and run: "on_db (db_snapshot D) s = (Ok x, s')"
  then have okd: "ok (db s)" by (simp add: forked_in_def forked_def frames_ok_def)
  obtain b where b: "db_snapshot D (db s) = (Ok (), b)" "ok b" "view b = hd (view (db s)) # view (db s)"
    using open_snapshot [OF okd] by blast
  then have s': "s' = s\<lparr>db := b\<rparr>" using run by (simp add: on_db_def zoom_apply)
  obtain m ps where m: "parents s = m # ps" "m_is_static m \<longrightarrow> m_is_static (cur s)" "fc_floor c \<le> length ps"
      "frame_moves c \<lparr>fc_floor = fc_floor c, fc_static = m_is_static m, fc_world = hd (view (db s)), fc_parents = ps,
        fc_worlds = tl (view (db s))\<rparr>"
    using s by (auto simp: forked_in_def forked_def frame_abs_def)
  have "frame_moves c \<lparr>fc_floor = fc_floor c, fc_static = m_is_static (cur s), fc_world = hd (view (db s)), fc_parents = m # ps,
      fc_worlds = hd (view (db s)) # tl (view (db s))\<rparr>"
    using m(4) move_open [OF m(3,2)] by (rule rtranclp.rtrancl_into_rtrancl)
  then show "reached_in (\<lambda>st ps. P st \<and> above c ps) c s'"
    using s s' b m(1,3) view_nonempty [OF okd]
    by (simp add: reached_in_def reached_def forked_in_def forked_def frames_ok_def frame_abs_def)
next
  fix s e s'
  assume s: "forked_in P c s" and run: "on_db (db_snapshot D) s = (Err e, s')"
  then have "ok (db s)" by (simp add: forked_in_def forked_def frames_ok_def)
  from open_snapshot [OF this] run show "E s'" by (auto simp: on_db_def zoom_apply)
qed

lemma fork_forked:
  assumes "rsn = Create \<longrightarrow> P = Not"
  shows "holds (reached_in (\<lambda>st ps. P st \<and> above c ps) c) (fork rsn ctx code data gas)
    (\<lambda>_. forked_in P c) (reached c)"
proof (rule holdsI)
  fix s x s'
  assume s: "reached_in (\<lambda>st ps. P st \<and> above c ps) c s" and "fork rsn ctx code data gas s = (Ok x, s')"
  then show "forked_in P c s'"
    using assms
    by (auto simp: fork_def exec_simps Let_def forked_in_def forked_def reached_in_def reached_def frames_ok_def
        frame_abs_def split: result.splits)
next
  fix s e s'
  assume s: "reached_in (\<lambda>st ps. P st \<and> above c ps) c s" and "fork rsn ctx code data gas s = (Err e, s')"
  then show "reached c s'"
    by (auto simp: fork_def exec_simps Let_def dest: reached_in_weaken split: result.splits)
qed

lemma fork_static:
  "holds (reached_in (\<lambda>_. above c) c)
     (and_then (fork Call ctx code data gas) (\<lambda>_. set_self (\<lambda>m. m\<lparr>m_is_static := True\<rparr>)))
     (\<lambda>_. forked_in (\<lambda>st. st) c) (reached c)"
proof (rule holds_and_then)
  show "holds (reached_in (\<lambda>_. above c) c) (fork Call ctx code data gas)
      (\<lambda>_ s. forked c s \<and> m_reason (cur s) = Call) (reached c)"
    by (rule holdsI)
       (auto simp: fork_def exec_simps Let_def forked_def reached_in_def reached_def frames_ok_def frame_abs_def
         split: result.splits)
  show "holds (\<lambda>s. forked c s \<and> m_reason (cur s) = Call) (set_self (\<lambda>m. m\<lparr>m_is_static := True\<rparr>))
      (\<lambda>_. forked_in (\<lambda>st. st) c) (reached c)" for x :: unit
    unfolding set_self_def
    by (rule holds_modify) (auto simp: forked_def forked_in_def frames_ok_def frame_abs_def)
qed

lemma settles_noop: "settles_in P c (ret ActNoop)"
  unfolding settles_in_def by (rule holds_ret) (auto simp: settled_def dest: reached_in_weaken)

lemma opens_precompile_impl: "opens c (opcode_call_precompile_impl E D a)"
  unfolding settles_in_def opcode_call_precompile_impl_def
proof (rule holds_and_then)
  show "holds (reached_in (\<lambda>_. above c) c) (gets cur) (\<lambda>m s. reached_in (\<lambda>st ps. (st = m_is_static m) \<and> above c ps) c s) (reached c)"
    by (rule holds_gets) (simp add: reached_in_def)
  fix m :: machine
  have q: "keep (reached_in (\<lambda>st ps. (st = m_is_static m) \<and> above c ps) c)
      (on_db (db_precompile_extension D ctx a data (m_is_static m)))" for ctx data
    by (cases "m_is_static m") (simp_all add: keep_quiet static_extension keep_write write_ops)
  have "settles_in (\<lambda>st ps. (st = m_is_static m) \<and> above c ps) c
      (and_then (and_then (lift (precompile (env_keccak E) (env_crypto E) a (buf_bytes (m_call_data m)))) (\<lambda>built_in. case built_in of
        None \<Rightarrow> on_db (db_precompile_extension D (m_context m) a (buf_bytes (m_call_data m)) (m_is_static m))
      | Some x \<Rightarrow> ret (Some x))) (case_option (ret ActNoop) (\<lambda>d. opcode_return_impl D (buf_from_slice d))))"
  proof (rule settles_in_then)
    show "settles_in (\<lambda>st ps. (st = m_is_static m) \<and> above c ps) c
        (case x of None \<Rightarrow> ret ActNoop | Some d \<Rightarrow> opcode_return_impl D (buf_from_slice d))" for x
      by (cases x) (auto intro: settles_noop settles_in_mono [OF opens_opcode_return_impl])
  qed (intro keeps q)
  then show "holds (reached_in (\<lambda>st ps. (st = m_is_static m) \<and> above c ps) c)
      (and_then (and_then (lift (precompile (env_keccak E) (env_crypto E) a (buf_bytes (m_call_data m)))) (\<lambda>built_in. case built_in of
        None \<Rightarrow> on_db (db_precompile_extension D (m_context m) a (buf_bytes (m_call_data m)) (m_is_static m))
      | Some x \<Rightarrow> ret (Some x))) (case_option (ret ActNoop) (\<lambda>d. opcode_return_impl D (buf_from_slice d))))
      (settled c) (reached c)"
    by (simp add: settles_in_def)
qed

text \<open>The first operation of a frame that was just opened\<close>

lemma opened_then:
  assumes "\<And>u. settles_in (\<lambda>st ps. P st \<and> above c ps) c (f u)" and "rsn = Create \<longrightarrow> P = Not"
  shows "settles_in (\<lambda>st ps. P st \<and> above c ps) c
    (and_then (fork rsn ctx code data gas) (\<lambda>_. and_then (on_db (db_snapshot D)) f))"
  unfolding settles_in_def
  by (rule holds_and_then [OF fork_forked [OF assms(2)]], rule holds_and_then [OF forked_snapshot])
     (use assms(1) in \<open>simp add: settles_in_def\<close>)

lemma opens_call:
  "(\<And>u. opens c (f u)) \<Longrightarrow>
    opens c (and_then (fork Call ctx code data gas) (\<lambda>_. and_then (on_db (db_snapshot D)) f))"
  using opened_then [of "\<lambda>_. True" c f Call] by simp

lemma opens_call_operands:
  "(\<And>g a v d code. opens c (f g a v d code)) \<Longrightarrow> opens c (call_operands D hv f)"
  unfolding call_operands_def pop_value_def
  by (intro settles_in_then) (simp_all add: keeps)

text \<open>A transfer in a frame that may be static: it is of nothing then.\<close>

lemma keep_call_transfer:
  "(st \<longrightarrow> amount = 0) \<Longrightarrow> keep (reached_in (\<lambda>x ps. (x = st) \<and> above c ps) c) (on_db (db_transfer D a b amount))"
  by (cases st) (simp_all add: keep_quiet static_transfer keep_write write_ops)

lemma opens_opcode_call: "opens c (opcode_call E D)"
proof -
  have guard: "settles_in (\<lambda>st ps. (st = is_static) \<and> above c ps) c
      (if is_static \<and> v \<noteq> 0 then raise (EvmError (StaticModeViolation contract))
       else and_then (from_db (db_balance D contract)) (\<lambda>balance.
         if balance < v then raise (InsufficientBalance contract v)
         else and_then (on_db (db_transfer D contract a v)) (\<lambda>_. opcode_call_precompile_impl E D a)))"
    for is_static v contract a
    by (intro settles_in_if settles_in_raise settles_in_then settles_in_mono [OF opens_precompile_impl] keeps
        keep_call_transfer) simp_all
  have "holds (reached_in (\<lambda>_. above c) c) (self m_is_static)
      (\<lambda>st. reached_in (\<lambda>x ps. (x = st) \<and> above c ps) c) (reached c)"
    unfolding self_def by (rule holds_gets) (simp add: reached_in_def)
  then have "opens c (and_then (self m_is_static) (\<lambda>is_static.
      if is_static \<and> v \<noteq> 0 then raise (EvmError (StaticModeViolation contract))
       else and_then (from_db (db_balance D contract)) (\<lambda>balance.
         if balance < v then raise (InsufficientBalance contract v)
         else and_then (on_db (db_transfer D contract a v)) (\<lambda>_. opcode_call_precompile_impl E D a))))"
    for v contract a
    unfolding settles_in_def by (rule holds_and_then) (rule guard [unfolded settles_in_def])
  note body = opens_call [OF settles_in_then [OF keep_access(5) this]]
  show ?thesis
    unfolding opcode_call_def
    by (rule opens_call_operands, rule settles_in_then [OF keep_access(1) body])
qed

lemma opens_log_precompile: "opens c (and_then (sol_log_data l) (\<lambda>_. opcode_call_precompile_impl E D a))"
  by (rule settles_in_then [OF keep_access(5) opens_precompile_impl])

lemma opens_opcode_callcode: "opens c (opcode_callcode E D)"
proof -
  have "opens c (and_then (sol_log_data l) (\<lambda>_. and_then (from_db (db_balance D contract)) (\<lambda>balance.
      if balance < v then raise (InsufficientBalance contract v) else opcode_call_precompile_impl E D a)))"
    for l contract v a
    by (intro settles_in_then settles_in_if settles_in_raise opens_precompile_impl keeps)
  note body = opens_call [OF this]
  show ?thesis
    unfolding opcode_callcode_def
    by (rule opens_call_operands, rule settles_in_then [OF keep_access(1) body])
qed

lemma opens_opcode_delegatecall: "opens c (opcode_delegatecall E D)"
  unfolding opcode_delegatecall_def
  by (rule opens_call_operands, rule settles_in_then [OF keep_access(1) opens_call [OF opens_log_precompile]])

lemma opens_opcode_staticcall: "opens c (opcode_staticcall E D)"
proof -
  have log: "settles_in (\<lambda>st ps. st \<and> above c ps) c (and_then (sol_log_data l) (\<lambda>_. opcode_call_precompile_impl E D a))"
    for l a
    by (rule settles_in_mono [OF opens_log_precompile]) simp
  have "opens c (and_then (and_then (fork Call ctx code data gas) (\<lambda>_. set_self (\<lambda>m. m\<lparr>m_is_static := True\<rparr>)))
      (\<lambda>_. and_then (on_db (db_snapshot D)) (\<lambda>_. and_then (sol_log_data l) (\<lambda>_.
        opcode_call_precompile_impl E D a))))" for ctx code data gas l a
    unfolding settles_in_def
    by (rule holds_and_then [OF fork_static], rule holds_and_then [OF forked_snapshot])
       (rule log [unfolded settles_in_def])
  note body = this [unfolded and_then_assoc]
  show ?thesis
    unfolding opcode_staticcall_def
    by (rule opens_call_operands, rule settles_in_then [OF keep_access(1) body])
qed

lemma opens_opcode_create_impl: "settles_in (\<lambda>st ps. \<not> st \<and> above c ps) c (opcode_create_impl D a v offset len)"
proof -
  have "settles_in (\<lambda>st ps. \<not> st \<and> above c ps) c
      (and_then (sol_log_data l) (\<lambda>_. and_then (from_db (db_nonce D a)) (\<lambda>n.
        and_then (if n \<noteq> 0 then ret True
            else and_then (from_db (db_code_size D a)) (\<lambda>sz. ret (sz \<noteq> 0))) (\<lambda>exists.
        if exists then raise (DeployToExistingAccount a contract)
        else
          and_then (from_db (db_balance D contract)) (\<lambda>balance.
          if balance < v then raise (InsufficientBalance contract v)
          else
            and_then (on_db (db_increment_nonce D a)) (\<lambda>_.
            and_then (on_db (db_transfer D contract a v)) (\<lambda>_.
            ret ActNoop)))))))" for l contract
    by (intro settles_in_if settles_in_raise settles_noop settles_in_then keeps keep_write write_ops) simp_all
  note body = opened_then [of Not, OF this impI [OF refl]]
  show ?thesis
    unfolding opcode_create_impl_def
    by (rule body settles_in_if settles_in_raise settles_in_then keeps keep_write write_ops | assumption | (simp; fail))+
qed

lemma opens_opcode_create: "opens c (opcode_create E D)"
  unfolding opcode_create_def
  by (rule not_static_opens) (intro settles_in_then opens_opcode_create_impl keeps)

lemma opens_opcode_create2: "opens c (opcode_create2 E D)"
  unfolding opcode_create2_def
  by (rule not_static_opens) (intro settles_in_then opens_opcode_create_impl keeps)

subsection \<open>One turn of the loop\<close>

lemma opens_execute_opcode: "opens c (execute_opcode E D op)"
proof -
  note plain_any = plain_arith_opcodes [of "\<lambda>_ _. True", unfolded reached_any]
    plain_flow_opcodes [of "\<lambda>_ _. True", unfolded reached_any]
    plain_env_opcodes [of "\<lambda>_ _. True", unfolded reached_any] plain_invalid
  note any = plain_any [THEN plain_settles, THEN opens_weaken]
  have "opens c (table_call E D op opcode_unknown)"
    unfolding table_call_def
    by (intro settles_in_if any opens_opcode_create opens_opcode_call opens_opcode_return opens_opcode_selfdestruct opens_opcode_callcode
        opens_opcode_delegatecall opens_opcode_create2 opens_opcode_staticcall
        settles_opcode_revert [THEN opens_weaken])
  then have "opens c (table_flow D op (table_call E D op opcode_unknown))"
    unfolding table_flow_def
    by (intro settles_in_if any writes_opcode_sstore [THEN writes_opens] writes_opcode_log [THEN writes_opens])
  then have "opens c (table_env D op (table_flow D op (table_call E D op opcode_unknown)))"
    unfolding table_env_def by (intro settles_in_if any)
  then show ?thesis
    unfolding execute_opcode_def table_arith_def
    by (intro settles_in_if settles_opcode_stop [THEN opens_weaken] any)
qed

text \<open>The outcome of an instruction; \<open>RETF\<close> in the outermost section stops without closing the frame.\<close>

definition outcome :: "'w frame_config \<Rightarrow> bool \<Rightarrow> action \<Rightarrow> 'b vm \<Rightarrow> bool" where
  "outcome c is_eof a s \<longleftrightarrow> settled c a s \<or> is_eof \<and> a = ActStop \<and> reached c s"

abbreviation entered :: "'w frame_config \<Rightarrow> 'b vm \<Rightarrow> bool" where
  "entered c \<equiv> reached_in (\<lambda>_. above c) c"

lemma opens_outcome: "opens c m \<Longrightarrow> holds (entered c) m (outcome c is_eof) (reached c)"
  unfolding settles_in_def by (erule holds_conseq) (auto simp: outcome_def)

lemma settles_outcome: "settles c m \<Longrightarrow> holds (reached c) m (outcome c is_eof) (reached c)"
  unfolding settles_def by (erule holds_conseq) (auto simp: outcome_def)

lemma entered_then:
  "keep (entered c) m \<Longrightarrow> (\<And>x. holds (entered c) (f x) Q (reached c)) \<Longrightarrow> holds (entered c) (and_then m f) Q (reached c)"
  unfolding keep_def
  by (rule holds_and_then [of _ _ "\<lambda>_. entered c"]) (erule holds_conseq, auto dest: reached_in_weaken)

lemma outcome_retf: "holds (entered c) opcode_retf (outcome c True) (reached c)"
proof -
  have "holds (entered c) (case rs of [] \<Rightarrow> raise (EvmError EmptyStack)
      | r # rest \<Rightarrow> and_then (set_self (\<lambda>m. m\<lparr>m_return_stack := rest\<rparr>)) (\<lambda>_.
          if rest = [] then ret ActStop else ret (ActCodeSection (rc_section r) (rc_pc r))))
      (outcome c True) (reached c)" for rs
  proof (cases rs)
    case (Cons r rest)
    have "keep (entered c) (set_self (\<lambda>m. m\<lparr>m_return_stack := rest\<rparr>))"
      by (rule keep_set_self) simp
    then show ?thesis
      unfolding Cons list.case
      by (rule entered_then) (auto intro!: holds_ret simp: outcome_def settled_def reached_in_def)
  qed (auto intro!: holds_raise dest: reached_in_weaken)
  then show ?thesis
    unfolding opcode_retf_def by (intro entered_then keeps)
qed

lemma outcome_execute_eof_opcode: "holds (entered c) (execute_eof_opcode E D op) (outcome c True) (reached c)"
  unfolding execute_eof_opcode_def
  by (intro holds_if outcome_retf opens_outcome opens_execute_opcode plain_eof_opcodes [THEN plain_settles, THEN opens_weaken]
      plain_invalid [THEN plain_settles, THEN opens_weaken])

lemma outcome_run_opcode: "holds (entered c) (run_opcode E D is_eof) (outcome c is_eof) (reached c)"
proof -
  have "holds (entered c) (if is_eof then execute_eof_opcode E D op else execute_opcode E D op)
      (outcome c is_eof) (reached c)" for op
    using outcome_execute_eof_opcode opens_outcome [OF opens_execute_opcode] by (cases is_eof) auto
  moreover have "holds (reached c) (and_then (lift (build_revert_message (env_error_string E e)))
      (\<lambda>message. opcode_revert_impl D (buf_from_slice message))) (outcome c is_eof) (reached c)" for e
    by (rule settles_outcome) (intro settles_keep_then settles_opcode_revert_impl keeps)
  ultimately have "holds (entered c) (catch_err (if is_eof then execute_eof_opcode E D op else execute_opcode E D op)
      (\<lambda>e. and_then (lift (build_revert_message (env_error_string E e)))
      (\<lambda>message. opcode_revert_impl D (buf_from_slice message)))) (outcome c is_eof) (reached c)" for op
    by (rule holds_catch_err)
  then show ?thesis
    unfolding run_opcode_def Let_def by (intro entered_then keeps)
qed

definition step_outcome :: "'w frame_config \<Rightarrow> bool \<Rightarrow> exit_status option \<Rightarrow> 'b vm \<Rightarrow> bool" where
  "step_outcome c is_eof r s \<longleftrightarrow> (case r of None \<Rightarrow> reached c s
     | Some st \<Rightarrow> finished c s \<or> is_eof \<and> st = ExitStop \<and> reached c s)"

lemma execute_step_outcome: "holds (entered c) (execute_step E D is_eof) (step_outcome c is_eof) (reached c)"
  unfolding execute_step_def
proof (rule holds_and_then [OF outcome_run_opcode])
  fix a
  show "holds (outcome c is_eof a) (apply_action a) (step_outcome c is_eof) (reached c)"
    by (rule holdsI; cases a)
       (auto simp: apply_action_def exec_simps set_self_def step_outcome_def outcome_def settled_def
          reached_def frames_ok_def frame_abs_def)
qed

lemma entered_floor_0: "fc_floor c = 0 \<Longrightarrow> entered c = reached c"
  by (simp add: reached_in_def fun_eq_iff)

lemma execute_loop_outcome:
  assumes "fc_floor c = 0"
  shows "holds (reached c) (execute_loop E D is_eof n step)
     (\<lambda>(st, k) s. if st = ExitStepLimit then reached c s
        else finished c s \<or> is_eof \<and> st = ExitStop \<and> reached c s) (reached c)"
proof (induction n arbitrary: step)
  case 0
  show ?case by (simp add: holds_ret)
next
  case (Suc n)
  have turn: "holds (reached c) (execute_step E D is_eof)
      (\<lambda>r s. step_outcome c is_eof r s \<and> r \<noteq> Some ExitStepLimit) (reached c)"
    using execute_step_outcome [of c E is_eof, unfolded entered_floor_0 [OF assms]]
      execute_step_not_limit [of E D is_eof]
    by (fastforce simp: holds_def split: prod.splits result.splits)
  show ?case
    unfolding execute_loop.simps
  proof (rule holds_and_then [OF turn])
    fix r
    show "holds (\<lambda>s. step_outcome c is_eof r s \<and> r \<noteq> Some ExitStepLimit)
        (case r of None \<Rightarrow> execute_loop E D is_eof n (step + 1) | Some st \<Rightarrow> ret (st, step + 1))
        (\<lambda>(st, k) s. if st = ExitStepLimit then reached c s
          else finished c s \<or> is_eof \<and> st = ExitStop \<and> reached c s) (reached c)"
    proof (cases r)
      case None
      then show ?thesis using Suc.IH [of "step + 1"]
        by (simp add: step_outcome_def)
    next
      case (Some st)
      then show ?thesis by (auto intro!: holds_ret simp: step_outcome_def)
    qed
  qed
qed

subsection \<open>Whole executions\<close>

definition vm_ok :: "'b vm \<Rightarrow> bool" where
  "vm_ok s \<longleftrightarrow> frames_ok s \<and> length (view (db s)) = Suc (Suc (length (parents s)))"

lemma vm_ok_entered: "vm_ok s \<Longrightarrow> entered (frame_abs (length (parents s)) s) s"
  by (simp add: vm_ok_def reached_in_def reached_def fc_balanced_def frame_abs_def)

lemma reached_vm_ok: "reached c s \<Longrightarrow> vm_ok s"
  by (rule reached_view [of c s]) (auto simp: vm_ok_def reached_def)

lemma entered_step:
  assumes "entered c s" and "execute_step E D is_eof s = (Ok None, s')"
  shows "reached c s'"
  using holdsD_Ok [OF execute_step_outcome assms] by (simp add: step_outcome_def)

lemma frame_run_entered: "frame_run E D is_eof (fc_floor c) s s' \<Longrightarrow> entered c s \<Longrightarrow> entered c s'"
proof (induction rule: frame_run.induct)
  case (run_step s1 s2)
  have "reached c s2" by (rule entered_step [OF run_step.IH [OF run_step.prems] run_step.hyps(2)])
  then show ?case using run_step.hyps(3) by (simp add: reached_in_def)
qed

lemma frame_run_inside:
  assumes "vm_ok s" and "frame_run E D is_eof (length (parents s)) s s'"
  shows "frames_inside (frame_abs (length (parents s)) s) (frame_abs (length (parents s)) s')" and "vm_ok s'"
proof -
  let ?c = "frame_abs (length (parents s)) s"
  have run: "entered ?c s'"
    using frame_run_entered [of E is_eof ?c s s'] assms vm_ok_entered by (simp add: frame_abs_def)
  then have "frame_moves ?c (frame_abs (length (parents s)) s')"
    by (simp add: reached_in_def reached_def) (simp add: frame_abs_def)
  then have "frames_inside ?c (frame_abs (length (parents s)) s') \<or> frames_left ?c (frame_abs (length (parents s)) s')"
    by (rule frame_moves_scope) (simp add: frame_abs_def)
  moreover have "length (parents s) \<le> length (parents s')"
    using run by (simp add: reached_in_def) (simp add: frame_abs_def)
  ultimately show "frames_inside ?c (frame_abs (length (parents s)) s')"
    by (auto simp: frames_left_def frame_abs_def)
  show "vm_ok s'" by (rule reached_vm_ok [OF reached_in_weaken [OF run]])
qed

text \<open>While a frame is open, what lies below it does not change.\<close>

lemma frame_run_below:
  assumes "vm_ok s" and "frame_run E D is_eof (length (parents s)) s s'"
  obtains fs ws where "parents s' = fs @ parents s" "tl (view (db s')) = ws @ tl (view (db s))" "length fs = length ws"
  using frame_run_inside(1) [OF assms] by (auto simp: frames_inside_def frame_abs_def)

text \<open>A static frame, and what it calls, leaves the world alone.\<close>

lemma frame_run_static:
  assumes "vm_ok s" and "m_is_static (cur s)" and "frame_run E D is_eof (length (parents s)) s s'"
  shows "hd (view (db s')) = hd (view (db s))"
  using frame_run_inside(1) [OF assms(1,3)] assms(2) by (auto simp: frames_inside_def frame_abs_def)

lemma revert_impl_view:
  assumes "ok (db s)" and "view (db s) = w # v # ws" and "opcode_revert_impl D data s = (Ok a, s')"
  shows "view (db s') = v # ws"
proof -
  let ?J = "outside (\<lambda>b _. view b = v # ws)"
  have join: "keep ?J join"
    by (rule keepI) (auto simp: join_def outside_def split: list.splits)
  have "holds (\<lambda>s. ok (db s) \<and> view (db s) = w # v # ws) (on_db (db_revert_snapshot D)) (\<lambda>_. ?J) ?J"
  proof (rule holdsI)
    fix s x s'
    assume s: "ok (db s) \<and> view (db s) = w # v # ws" and "on_db (db_revert_snapshot D) s = (Ok x, s')"
    then obtain b where "db_revert_snapshot D (db s) = (Ok x, b)" "s' = s\<lparr>db := b\<rparr>" by (blast elim: on_dbE)
    then show "?J s'" using close_revert [of "db s" w v ws] s by (simp add: outside_def)
  next
    fix s e s'
    assume s: "ok (db s) \<and> view (db s) = w # v # ws" and "on_db (db_revert_snapshot D) s = (Err e, s')"
    then obtain b where "db_revert_snapshot D (db s) = (Err e, b)" by (blast elim: on_dbE)
    then show "?J s'" using close_revert [of "db s" w v ws] s by simp
  qed
  moreover have "keep ?J (and_then (sol_log_data d) (\<lambda>_. and_then has_no_parent (\<lambda>top.
      if top then ret (ActRevert (buf_bytes data))
      else and_then join (\<lambda>returned.
        and_then (case m_reason returned of Call \<Rightarrow> resume_call (buf_bytes data) False
          | Create \<Rightarrow> on_stack push_zero) (\<lambda>_.
        and_then (set_self (\<lambda>m. m\<lparr>m_return_data := data\<rparr>)) (\<lambda>_. ret ActContinue))))))" for d
    unfolding resume_call_def by (intro keeps keep_case_reason join)
  ultimately have "holds (\<lambda>s. ok (db s) \<and> view (db s) = w # v # ws) (opcode_revert_impl D data) (\<lambda>_. ?J) ?J"
    unfolding opcode_revert_impl_def keep_def by (rule holds_and_then)
  from holdsD_Ok [OF this _ assms(3)] assms(1,2) show ?thesis by (simp add: outside_def)
qed

lemma revert_restores:
  assumes "vm_ok s" and "frame_run E D is_eof (length (parents s)) s s'" and "parents s' = parents s"
    and "opcode_revert_impl D data s' = (Ok a, s'')"
  shows "view (db s'') = tl (view (db s))"
proof -
  obtain fs ws where "parents s' = fs @ parents s" "tl (view (db s')) = ws @ tl (view (db s))" "length fs = length ws"
    using frame_run_below [OF assms(1,2)] .
  then have same: "tl (view (db s')) = tl (view (db s))" using assms(3) by simp
  have ok': "vm_ok s'" by (rule frame_run_inside(2) [OF assms(1,2)])
  then obtain w v us where "view (db s') = w # v # us"
    by (cases "view (db s')"; cases "tl (view (db s'))") (auto simp: vm_ok_def)
  then show ?thesis
    using revert_impl_view [OF _ _ assms(4)] ok' same by (simp add: vm_ok_def frames_ok_def)
qed

text \<open>\<open>STATICCALL\<close> either opens a static frame over the unchanged database or is done already.\<close>

definition static_opened :: "'w list \<Rightarrow> machine list \<Rightarrow> 'b vm \<Rightarrow> bool" where
  "static_opened vs ps s \<longleftrightarrow> m_is_static (cur s) \<and> ok (db s) \<and> view (db s) = hd vs # vs
     \<and> (\<exists>m. parents s = m # ps)"

lemma keep_static_opened [keeps]:
  "keep (static_opened vs ps) (sol_log_data d)" "keep (static_opened vs ps) (gets f)"
  by (auto simp: keep_def holds_def static_opened_def sol_log_data_def exec_simps)

lemma keep_parents_on_db: "keep (outside (\<lambda>b. P)) (on_db f)"
  unfolding on_db_def by (rule keep_zoom) (simp add: outside_def)

lemma keep_then_any: "keep I m \<Longrightarrow> holds I m (\<lambda>_. I) (\<lambda>_. True)"
  unfolding keep_def by (erule holds_conseq) simp_all

lemma return_join_parents:
  "holds (outside (\<lambda>b qs. \<exists>m. qs = m # ps))
     (and_then has_no_parent (\<lambda>top. if top then ret (ActReturn (buf_bytes d)) else and_then join (\<lambda>m.
       and_then (case m_reason m of
          Call \<Rightarrow> and_then (resume_call (buf_bytes d) True) (\<lambda>_. set_self (\<lambda>m. m\<lparr>m_return_data := d\<rparr>))
        | Create \<Rightarrow> on_stack (push_address (ctx_contract (m_context m)))) (\<lambda>_. ret ActContinue))))
     (\<lambda>_. outside (\<lambda>b qs. qs = ps)) (\<lambda>_. True)"
proof (rule holds_and_then)
  show "holds (outside (\<lambda>b qs. \<exists>m. qs = m # ps)) has_no_parent
      (\<lambda>top s. outside (\<lambda>b qs. \<exists>m. qs = m # ps) s \<and> \<not> top) (\<lambda>_. True)"
    unfolding has_no_parent_def by (rule holds_gets) (auto simp: outside_def)
  have join: "holds (outside (\<lambda>b qs. \<exists>m. qs = m # ps)) join (\<lambda>_. outside (\<lambda>b qs. qs = ps)) (\<lambda>_. True)"
    by (rule holdsI) (auto simp: join_def outside_def)
  have rest: "holds (outside (\<lambda>b qs. qs = ps)) (and_then (case m_reason m of
          Call \<Rightarrow> and_then (resume_call (buf_bytes d) True) (\<lambda>_. set_self (\<lambda>m. m\<lparr>m_return_data := d\<rparr>))
        | Create \<Rightarrow> on_stack (push_address (ctx_contract (m_context m)))) (\<lambda>_. ret ActContinue))
      (\<lambda>_. outside (\<lambda>b qs. qs = ps)) (\<lambda>_. True)" for m
    unfolding resume_call_def by (rule keep_then_any) (intro keeps keep_case_reason)
  note both = holds_and_then [OF join rest]
  fix top
  show "holds (\<lambda>s. outside (\<lambda>b qs. \<exists>m. qs = m # ps) s \<and> \<not> top)
      (if top then ret (ActReturn (buf_bytes d)) else and_then join (\<lambda>m.
       and_then (case m_reason m of
          Call \<Rightarrow> and_then (resume_call (buf_bytes d) True) (\<lambda>_. set_self (\<lambda>m. m\<lparr>m_return_data := d\<rparr>))
        | Create \<Rightarrow> on_stack (push_address (ctx_contract (m_context m)))) (\<lambda>_. ret ActContinue)))
      (\<lambda>_. outside (\<lambda>b qs. qs = ps)) (\<lambda>_. True)"
    by (cases top) (simp add: holds_def, simp, rule holds_conseq [OF both], simp_all)
qed

lemma return_impl_parents:
  "holds (\<lambda>s. \<exists>m. parents s = m # ps) (opcode_return_impl D data) (\<lambda>_ s. parents s = ps) (\<lambda>_. True)"
proof -
  have "holds (outside (\<lambda>b qs. \<exists>m. qs = m # ps)) (opcode_return_impl D data)
      (\<lambda>_. outside (\<lambda>b qs. qs = ps)) (\<lambda>_. True)"
    unfolding opcode_return_impl_def
    by (rule holds_and_then [OF keep_then_any], intro keeps,
        rule holds_and_then [OF keep_then_any], intro keeps keep_parents_on_db,
        rule holds_and_then [OF keep_then_any], rule keep_parents_on_db,
        rule holds_and_then [OF keep_then_any], intro keeps, rule return_join_parents)
  then show ?thesis by (rule holds_conseq) (simp_all add: outside_def)
qed

lemma keep_static_extension:
  "keep (static_opened vs ps) (on_db (db_precompile_extension D ctx a d True))"
proof (rule keepI)
  fix s r s'
  assume s: "static_opened vs ps s" and "on_db (db_precompile_extension D ctx a d True) s = (r, s')" "r \<noteq> Panic"
  then obtain b where b: "db_precompile_extension D ctx a d True (db s) = (r, b)" "s' = s\<lparr>db := b\<rparr>" "r \<noteq> Panic"
    by (blast elim: on_dbE)
  have "ok b \<and> view b = view (db s)"
    using keepD [OF static_extension [of "view (db s)"] _ b(1,3)] s by (simp add: static_opened_def)
  then show "static_opened vs ps s'" using s b(2) by (simp add: static_opened_def)
qed

lemma static_precompile_impl:
  "holds (static_opened vs ps) (opcode_call_precompile_impl E D a)
     (\<lambda>_ s. parents s = ps \<or> static_opened vs ps s) (\<lambda>_. True)"
  unfolding opcode_call_precompile_impl_def
proof (rule holds_and_then)
  show "holds (static_opened vs ps) (gets cur) (\<lambda>m s. static_opened vs ps s \<and> m_is_static m) (\<lambda>_. True)"
    by (rule holds_gets) (simp add: static_opened_def)
  fix m
  have fin: "holds (static_opened vs ps)
      (case x of None \<Rightarrow> ret ActNoop | Some d \<Rightarrow> opcode_return_impl D (buf_from_slice d))
      (\<lambda>_ s. parents s = ps \<or> static_opened vs ps s) (\<lambda>_. True)" for x
  proof (cases x)
    case (Some d)
    have "holds (static_opened vs ps) (opcode_return_impl D (buf_from_slice d))
        (\<lambda>_ s. parents s = ps \<or> static_opened vs ps s) (\<lambda>_. True)"
      by (rule holds_conseq [OF return_impl_parents [of ps]]) (auto simp: static_opened_def)
    then show ?thesis by (simp add: Some)
  qed (simp add: holds_ret)
  have "holds (static_opened vs ps) (and_then (lift (precompile (env_keccak E) (env_crypto E) a (buf_bytes (m_call_data m)))) (\<lambda>built_in. case built_in of
        None \<Rightarrow> on_db (db_precompile_extension D (m_context m) a (buf_bytes (m_call_data m)) True)
      | Some x \<Rightarrow> ret (Some x))) (\<lambda>_. static_opened vs ps) (\<lambda>_. True)"
    by (rule keep_then_any) (intro keeps keep_static_extension)
  then have both: "holds (static_opened vs ps)
      (and_then (and_then (lift (precompile (env_keccak E) (env_crypto E) a (buf_bytes (m_call_data m)))) (\<lambda>built_in. case built_in of
        None \<Rightarrow> on_db (db_precompile_extension D (m_context m) a (buf_bytes (m_call_data m)) True)
      | Some x \<Rightarrow> ret (Some x))) (case_option (ret ActNoop) (\<lambda>d. opcode_return_impl D (buf_from_slice d))))
      (\<lambda>_ s. parents s = ps \<or> static_opened vs ps s) (\<lambda>_. True)"
    by (rule holds_and_then) (rule fin)
  show "holds (\<lambda>s. static_opened vs ps s \<and> m_is_static m)
      (and_then (and_then (lift (precompile (env_keccak E) (env_crypto E) a (buf_bytes (m_call_data m)))) (\<lambda>built_in. case built_in of
        None \<Rightarrow> on_db (db_precompile_extension D (m_context m) a (buf_bytes (m_call_data m)) (m_is_static m))
      | Some x \<Rightarrow> ret (Some x))) (case_option (ret ActNoop) (\<lambda>d. opcode_return_impl D (buf_from_slice d))))
      (\<lambda>_ s. parents s = ps \<or> static_opened vs ps s) (\<lambda>_. True)"
  proof (cases "m_is_static m")
    case True
    then show ?thesis using both by (simp add: holds_def cong: option.case_cong)
  qed (simp add: holds_def)
qed

lemma static_fork_snapshot:
  "holds (outside (\<lambda>b qs. ok b \<and> view b = vs \<and> qs = ps))
     (and_then (and_then (fork Call ctx code d gas) (\<lambda>_. set_self (\<lambda>m. m\<lparr>m_is_static := True\<rparr>)))
       (\<lambda>_. on_db (db_snapshot D))) (\<lambda>_. static_opened vs ps) (\<lambda>_. True)"
proof (rule holds_and_then)
  let ?P = "\<lambda>s :: 'b vm. m_is_static (cur s) \<and> ok (db s) \<and> view (db s) = vs \<and> (\<exists>m. parents s = m # ps)"
  show "holds (outside (\<lambda>b qs. ok b \<and> view b = vs \<and> qs = ps))
      (and_then (fork Call ctx code d gas) (\<lambda>_. set_self (\<lambda>m. m\<lparr>m_is_static := True\<rparr>))) (\<lambda>_. ?P) (\<lambda>_. True)"
    by (rule holdsI) (auto simp: fork_def set_self_def exec_simps Let_def outside_def split: result.splits)
  show "holds ?P (on_db (db_snapshot D)) (\<lambda>_. static_opened vs ps) (\<lambda>_. True)" for u :: unit
  proof (rule holdsI)
    fix s x s'
    assume s: "?P s" and "on_db (db_snapshot D) s = (Ok x, s')"
    then show "static_opened vs ps s'"
      using open_snapshot [of "db s"] by (auto simp: on_db_def zoom_apply static_opened_def)
  qed simp
qed

lemma staticcall_opens:
  "holds (\<lambda>s. ok (db s) \<and> view (db s) = vs \<and> parents s = ps) (opcode_staticcall E D)
     (\<lambda>_ s. parents s = ps \<or> static_opened vs ps s) (\<lambda>_. True)"
proof -
  let ?I = "outside (\<lambda>b qs. ok b \<and> view b = vs \<and> qs = ps)"
  have log: "holds (static_opened vs ps) (sol_log_data l) (\<lambda>_. static_opened vs ps) (\<lambda>_. True)" for l
    by (rule keep_then_any) (intro keeps)
  have body: "holds ?I (and_then (fork Call ctx code d gas) (\<lambda>_.
      and_then (set_self (\<lambda>m. m\<lparr>m_is_static := True\<rparr>)) (\<lambda>_.
      and_then (on_db (db_snapshot D)) (\<lambda>_. and_then (sol_log_data l) (\<lambda>_. opcode_call_precompile_impl E D a)))))
      (\<lambda>_ s. parents s = ps \<or> static_opened vs ps s) (\<lambda>_. True)" for ctx code d gas l a
    using holds_and_then [OF static_fork_snapshot holds_and_then [OF log static_precompile_impl]]
    by (simp only: and_then_assoc)
  have "holds ?I (opcode_staticcall E D) (\<lambda>_ s. parents s = ps \<or> static_opened vs ps s) (\<lambda>_. True)"
    unfolding opcode_staticcall_def call_operands_def pop_value_def if_False
    by (intro holds_and_then [OF keep_then_any] keeps body)
  then show ?thesis by (rule holds_conseq) (simp_all add: outside_def)
qed

end

end
