(* ===== verification/Executor_Db.thy ===== *)
theory Executor_Db
  imports Extension_Metaplex Frames
begin

text \<open>
  The executor as the database of the machine (\<open>impl Database for ExecutorState\<close>): the instance of the
  trait, the invariant of its log, and the proof that the log provides what the call frames rely on, a stack of
  states in which the frames open, commit and revert.
\<close>

section \<open>The instance\<close>

definition executor_database :: "env \<Rightarrow> solana \<Rightarrow> account_storage \<Rightarrow> executor database" where
  "executor_database E L B = \<lparr>
     db_chain_id = (\<lambda>x. ucast (as_chain_id B)),
     db_nonce = ex_nonce B,
     db_increment_nonce = ex_increment_nonce,
     db_balance = ex_balance B,
     db_transfer = ex_transfer B,
     db_code_size = ex_code_size B,
     db_code_hash = ex_code_hash E B,
     db_code = ex_code B,
     db_set_code = ex_set_code,
     db_selfdestruct = ex_selfdestruct,
     db_storage = ex_storage B,
     db_set_storage = ex_set_storage,
     db_block_hash = ex_block_hash B,
     db_block_number = (\<lambda>x. Ok (c_block_number (ex_cache x))),
     db_block_timestamp = (\<lambda>x. Ok (c_block_timestamp (ex_cache x))),
     db_snapshot = ex_snapshot,
     db_revert_snapshot = ex_revert_snapshot,
     db_commit_snapshot = ex_commit_snapshot,
     db_precompile_extension = call_precompile_extension L B\<rparr>"

section \<open>What the operations keep\<close>

text \<open>A property of the executor that a new entry of the cache of accounts cannot break\<close>

locale cache_invariant =
  fixes I :: "executor \<Rightarrow> bool"
  assumes cache: "I x \<Longrightarrow> I (x\<lparr>ex_cache := c\<rparr>)"
begin

lemma keep_cached_account: "keep I (cached_account k)"
  unfolding cached_account_def by (intro keeps)

lemma keep_insert_account: "keep I (insert_account_if_not_present B k)"
  unfolding insert_account_if_not_present_def by (intro keeps keep_modify cache)

lemma keep_collect_accounts: "keep I (collect_accounts B ms accounts)"
  by (induction ms arbitrary: accounts) (auto intro!: keeps keep_insert_account keep_cached_account)

lemma keep_external_account: "keep I (external_account L B k)"
  unfolding external_account_def Let_def
  by (intro keeps keep_insert_account keep_cached_account keep_collect_accounts)
    (auto simp: keep_lift keep_raise keep_panic split: prod.split result.split)


text \<open>The methods that only read\<close>

lemma keep_query_account: "keep I (query_account B a input ctx st)"
  unfolding query_account_def Let_def by (intro keeps)

lemma keep_metadata: "keep I (metadata L B mint)"
  unfolding metadata_def by (intro keeps keep_external_account)

lemma keep_token_views:
  "keep I (find_account L B ctx seed)" "keep I (is_system_account L B k)" "keep I (get_account L B k)"
  "keep I (get_mint L B k)" "keep I (is_initialized L B k)" "keep I (is_nft L B k)"
  "keep I (token_uri L B k)" "keep I (token_name L B k)" "keep I (token_symbol L B k)"
  unfolding find_account_def is_system_account_def get_account_def get_mint_def is_initialized_def is_nft_def
    token_uri_def token_name_def token_symbol_def metadata_string_def
  by (intro keeps keep_external_account keep_metadata)+

text \<open>In a static call no method does anything else.\<close>

lemma keep_static_neon_token: "keep I (neon_token L B a input ctx True)"
  unfolding neon_token_def if_True by (intro keeps)

lemma keep_static_spl_token: "keep I (spl_token L B a input ctx True)"
  unfolding spl_token_def if_True by (intro keeps keep_token_views)

lemma keep_static_metaplex: "keep I (metaplex L B a input ctx True)"
  unfolding metaplex_def if_True by (intro keeps keep_token_views)

lemma keep_static_extension: "keep I (call_precompile_extension L B ctx a input True)"
  unfolding call_precompile_extension_def
  by (intro keeps keep_query_account keep_static_neon_token keep_static_spl_token keep_static_metaplex)

end

text \<open>A property that survives new entries of the log as well\<close>

locale log_invariant = cache_invariant +
  assumes append: "I x \<Longrightarrow> I (x\<lparr>ex_actions := ex_actions x @ [a]\<rparr>)"
begin

lemma keep_push_action: "keep I (push_action a)"
  unfolding push_action_def by (intro keep_modify append)

lemma keep_queue: "keep I (queue_external_instruction i seeds fee)" "keep I (withdraw_neons a v)"
  unfolding queue_external_instruction_def withdraw_neons_def by (rule keep_push_action)+

lemma keep_database_writes:
  "keep I (ex_increment_nonce a)" "keep I (ex_transfer B a b v)" "keep I (ex_set_code a code)"
  "keep I (ex_selfdestruct a)" "keep I (ex_set_storage a i val)"
  unfolding ex_increment_nonce_def ex_transfer_def ex_set_code_def ex_selfdestruct_def ex_set_storage_def
  by (intro keeps keep_push_action)+

lemma keep_withdraw: "keep I (withdraw L B a k v)"
  unfolding withdraw_def Let_def by (intro keeps keep_external_account keep_queue)

lemma keep_neon_token: "keep I (neon_token L B a input ctx st)"
  unfolding neon_token_def by (intro keeps keep_withdraw)

lemma keep_queue_token: "keep I (queue_token L req seeds)"
  unfolding queue_token_def by (intro keeps keep_queue)

lemma keep_create_account: "keep I (create_account L B acc space seeds)"
  unfolding create_account_def Let_def by (intro keeps keep_queue)

lemma keep_initialize:
  "keep I (initialize_mint L B ctx seed d ma fa)" "keep I (initialize_account L B ctx seed mint owner)"
  unfolding initialize_mint_def initialize_account_def Let_def
  by (intro keeps keep_external_account keep_create_account keep_queue_token)+

lemma keep_token_writes:
  "keep I (close_account L B ctx k)" "keep I (token_approve L B ctx k k' n)" "keep I (token_revoke L B ctx k)"
  "keep I (token_transfer L B ctx k k' n)" "keep I (transfer_with_seed L B ctx seed k k' n)"
  "keep I (mint_to L B ctx k k' n)" "keep I (token_burn L B ctx k k' n)"
  "keep I (token_freeze L B ctx k k')" "keep I (token_thaw L B ctx k k')"
  unfolding close_account_def token_approve_def token_revoke_def token_transfer_def transfer_with_seed_def mint_to_def
    token_burn_def token_freeze_def token_thaw_def Let_def
  by (intro keeps keep_queue_token)+

lemma keep_spl_token_write: "keep I (spl_token_write L B ctx sel input)"
  unfolding spl_token_write_def read_arg_def by (intro keeps keep_initialize keep_token_writes)

lemma keep_spl_token: "keep I (spl_token L B a input ctx st)"
  unfolding spl_token_def by (intro keeps keep_spl_token_write keep_token_views)

lemma keep_metaplex: "keep I (metaplex L B a input ctx st)"
  unfolding metaplex_def create_metadata_def create_master_edition_def read_arg_def Let_def
  by (intro keeps keep_queue keep_token_views)

lemma keep_extension: "keep I (call_precompile_extension L B ctx a input st)"
  unfolding call_precompile_extension_def
  by (intro keeps keep_query_account keep_neon_token keep_spl_token keep_metaplex)

end

section \<open>The log as a stack of states\<close>

text \<open>The snapshots are lengths of prefixes of the log, the newest the longest.\<close>

definition executor_ok :: "executor \<Rightarrow> bool" where
  "executor_ok x \<longleftrightarrow> sorted_wrt (\<ge>) (length (ex_actions x) # ex_stack x)"

definition executor_view :: "executor \<Rightarrow> journal_action list list" where
  "executor_view x = map (\<lambda>n. take n (ex_actions x)) (length (ex_actions x) # ex_stack x)"

lemma executor_view_tl [simp]: "tl (executor_view x) = map (\<lambda>n. take n (ex_actions x)) (ex_stack x)"
  by (simp add: executor_view_def)

lemma executor_view_hd [simp]: "hd (executor_view x) = ex_actions x"
  by (simp add: executor_view_def)

lemma take_stack_append:
  "executor_ok x \<Longrightarrow> map (\<lambda>n. take n (ex_actions x @ as)) (ex_stack x) = map (\<lambda>n. take n (ex_actions x)) (ex_stack x)"
  by (auto simp: executor_ok_def)

interpretation tails: log_invariant "\<lambda>x. executor_ok x \<and> tl (executor_view x) = ws" for ws
proof
  fix x c a
  assume x: "executor_ok x \<and> tl (executor_view x) = ws"
  then show "executor_ok (x\<lparr>ex_cache := c\<rparr>) \<and> tl (executor_view (x\<lparr>ex_cache := c\<rparr>)) = ws"
    by (simp add: executor_ok_def)
  show "executor_ok (x\<lparr>ex_actions := ex_actions x @ [a]\<rparr>)
      \<and> tl (executor_view (x\<lparr>ex_actions := ex_actions x @ [a]\<rparr>)) = ws"
    using x take_stack_append [of x "[a]"] by (auto simp: executor_ok_def intro: le_SucI)
qed

interpretation views: cache_invariant "\<lambda>x. executor_ok x \<and> executor_view x = vs" for vs
  by unfold_locales (simp add: executor_ok_def executor_view_def)

lemma ex_transfer_zero: "ex_transfer B a b 0 = ret ()"
  by (simp add: ex_transfer_def)

lemma ex_commit_view:
  assumes "executor_ok x" and "executor_view x = w # v # ws"
  shows "\<exists>x'. ex_commit_snapshot x = (Ok (), x') \<and> executor_ok x' \<and> executor_view x' = w # ws"
proof (cases "ex_stack x")
  case (Cons n rest)
  then show ?thesis
    using assms by (auto simp: ex_commit_snapshot_def executor_ok_def executor_view_def)
qed (use assms in \<open>simp add: executor_view_def\<close>)

lemma ex_revert_view:
  assumes "executor_ok x" and "executor_view x = w # v # ws"
  shows "case ex_revert_snapshot x of (Ok _, x') \<Rightarrow> executor_ok x' \<and> executor_view x' = v # ws
     | (Err _, _) \<Rightarrow> False | (Panic, _) \<Rightarrow> True"
proof (cases "ex_stack x")
  case (Cons n rest)
  let ?x = "x\<lparr>ex_stack := rest, ex_actions := take n (ex_actions x)\<rparr>"
  have le: "n \<le> length (ex_actions x)" "\<And>m. m \<in> set rest \<Longrightarrow> m \<le> n" "sorted_wrt (\<ge>) rest"
    using assms(1) by (auto simp: executor_ok_def Cons)
  then have "executor_ok ?x" by (auto simp: executor_ok_def)
  moreover have "executor_view ?x = v # ws"
    using assms(2) le by (auto simp: executor_view_def Cons min_def)
  ultimately show ?thesis
    by (auto simp: ex_revert_snapshot_def Cons Let_def rassert_def index_at_def split: result.split)
qed (use assms in \<open>simp add: executor_view_def\<close>)

interpretation journal: snapshot_db "executor_database E L B" executor_ok executor_view for E L B
proof
  fix x :: executor and w v ws vs a a' amount code i val ctx input
  show "executor_ok x \<Longrightarrow> executor_view x \<noteq> []" by (simp add: executor_view_def)
  show "keep (\<lambda>x. executor_ok x \<and> tl (executor_view x) = ws) (db_increment_nonce (executor_database E L B) a)"
    "keep (\<lambda>x. executor_ok x \<and> tl (executor_view x) = ws) (db_transfer (executor_database E L B) a a' amount)"
    "keep (\<lambda>x. executor_ok x \<and> tl (executor_view x) = ws) (db_set_code (executor_database E L B) a code)"
    "keep (\<lambda>x. executor_ok x \<and> tl (executor_view x) = ws) (db_selfdestruct (executor_database E L B) a)"
    "keep (\<lambda>x. executor_ok x \<and> tl (executor_view x) = ws) (db_set_storage (executor_database E L B) a i val)"
    by (simp_all only: executor_database_def database.simps tails.keep_database_writes)
  show "keep (\<lambda>x. executor_ok x \<and> tl (executor_view x) = ws)
      (db_precompile_extension (executor_database E L B) ctx a input False)"
    by (simp only: executor_database_def database.simps tails.keep_extension)
  show "keep (\<lambda>x. executor_ok x \<and> executor_view x = vs)
      (db_precompile_extension (executor_database E L B) ctx a input True)"
    by (simp only: executor_database_def database.simps views.keep_static_extension)
  show "keep (\<lambda>x. executor_ok x \<and> executor_view x = vs) (db_transfer (executor_database E L B) a a' 0)"
    by (simp add: executor_database_def ex_transfer_zero keep_ret)
  show "executor_ok x \<Longrightarrow> \<exists>x'. db_snapshot (executor_database E L B) x = (Ok (), x') \<and> executor_ok x'
      \<and> executor_view x' = hd (executor_view x) # executor_view x"
    by (auto simp: executor_database_def ex_snapshot_def modify_apply executor_ok_def executor_view_def)
  show "executor_ok x \<Longrightarrow> executor_view x = w # v # ws \<Longrightarrow>
      \<exists>x'. db_commit_snapshot (executor_database E L B) x = (Ok (), x') \<and> executor_ok x' \<and> executor_view x' = w # ws"
    using ex_commit_view by (simp add: executor_database_def)
  show "executor_ok x \<Longrightarrow> executor_view x = w # v # ws \<Longrightarrow>
      (case db_revert_snapshot (executor_database E L B) x of (Ok _, x') \<Rightarrow> executor_ok x' \<and> executor_view x' = v # ws
        | (Err _, _) \<Rightarrow> False | (Panic, _) \<Rightarrow> True)"
    using ex_revert_view [of x w v ws] by (simp add: executor_database_def)
qed

end
