(* ===== verification/Journal.thy ===== *)
theory Journal
  imports Executor_Db
begin

text \<open>
  What the log of actions guarantees for whole transactions: the call frames of the machine over the executor
  as its database.  The lemmas of \<open>Frames\<close> are used at the instance that \<open>Executor_Db\<close> proves.
\<close>

section \<open>Crates for examples\<close>

text \<open>A stand-in for the crates, on which the witnesses run; nothing that is proved depends on it.\<close>

definition demo_instruction :: "pubkey \<Rightarrow> instruction" where
  "demo_instruction p = \<lparr>ins_program_id = p, ins_accounts = [], ins_data = []\<rparr>"

definition demo_solana :: solana where
  "demo_solana = \<lparr>sol_system_id = 0, sol_token_id = 1, sol_ata_id = 2, sol_metaplex_id = 3,
     sol_rent = Ok (\<lambda>n. 10), sol_find_program_address = (\<lambda>seeds p. (p, 255)), sol_associated_token = (\<lambda>w m. w),
     sol_pubkey_text = (\<lambda>k. ''''), sol_system_decode = (\<lambda>bs. Some (SysTransfer 7)),
     sol_system_make = (\<lambda>r. demo_instruction 0), sol_ata_decode = (\<lambda>bs. Some AtaCreate),
     sol_ata_make = (\<lambda>f w m t. demo_instruction 2), sol_token_unpack = (\<lambda>bs. Ok TokOther),
     sol_token_make = (\<lambda>p r. Ok (demo_instruction p)), sol_token_process = (\<lambda>c ms. ret ()),
     sol_token_account_len = 165,
     sol_token_account_unpack = (\<lambda>bs. Err (ProgramError InvalidAccountData)),
     sol_token_account_default = \<lparr>ta_mint = 0, ta_owner = 0, ta_amount = 0, ta_delegate = None, ta_state = 0,
       ta_delegated_amount = 0, ta_close_authority = None\<rparr>,
     sol_token_mint_len = 82, sol_token_mint_unpack = (\<lambda>bs. Err (ProgramError InvalidAccountData)),
     sol_token_mint_default = \<lparr>tm_mint_authority = None, tm_supply = 0, tm_decimals = 0, tm_is_initialized = False,
       tm_freeze_authority = None\<rparr>,
     sol_metaplex_emulate = (\<lambda>bs ms. ret ()), sol_metaplex_make = (\<lambda>r. demo_instruction 3),
     sol_metadata_account = (\<lambda>k. k), sol_edition_account = (\<lambda>k. k), sol_metadata_read = (\<lambda>bs. None),
     sol_max_metadata_len = 679, sol_max_edition_len = 282, sol_create_fee = 10000000\<rparr>"

definition demo_account :: "pubkey \<Rightarrow> u64 \<Rightarrow> pubkey \<Rightarrow> owned_account" where
  "demo_account k lamports owner = \<lparr>oa_key = k, oa_is_signer = False, oa_is_writable = True, oa_lamports = lamports,
     oa_data = [], oa_owner = owner, oa_executable = False, oa_rent_epoch = 0\<rparr>"

definition demo_storage :: account_storage where
  "demo_storage = \<lparr>as_neon_token_mint = 7, as_program_id = 8, as_operator = 9, as_block_number = 1000,
     as_block_timestamp = 5000, as_block_hash = (\<lambda>n. Ok (ucast n)), as_chain_id = 111,
     as_nonce = (\<lambda>a. Ok 0), as_balance = (\<lambda>a. Ok 10000000000000000000), as_code_size = (\<lambda>a. Ok 0), as_code_hash = (\<lambda>a. Ok 0),
     as_code = (\<lambda>a. Ok Empty), as_storage = (\<lambda>a i. Ok 0),
     as_clone_solana_account = (\<lambda>k. Ok (demo_account k 100 0)),
     as_map_solana_account = (\<lambda>k. Ok (demo_account k 100 0)), as_solana_address = (\<lambda>a. (ucast a, 254))\<rparr>"

definition demo_crypto :: crypto where
  "demo_crypto = \<lparr>cr_sha256 = (\<lambda>bs. of_nat (length bs)), cr_ripemd160 = (\<lambda>bs. of_nat (length bs)),
     cr_recover = (\<lambda>msg v sig. None), cr_big_mod_exp = (\<lambda>b e m. []), cr_bn_addition = (\<lambda>bs. None),
     cr_bn_multiplication = (\<lambda>bs. None), cr_bn_pairing = (\<lambda>bs. None), cr_addition_len = 128,
     cr_multiplication_len = 128, cr_pairing_element_len = 192\<rparr>"

definition demo_env :: env where
  "demo_env = \<lparr>env_keccak = (\<lambda>bs. of_nat (length bs)), env_rlp_create = (\<lambda>a n. be_bytes 20 a),
     env_error_string = (\<lambda>e. []), env_crypto = demo_crypto\<rparr>"

section \<open>The start of a transaction\<close>

context snapshot_db
begin

text \<open>\<open>Machine::new\<close> opens the snapshot of the first frame on a database that has none.\<close>

definition boot_before :: "'b boot \<Rightarrow> bool" where
  "boot_before s \<longleftrightarrow> ok (fst s) \<and> tl (view (fst s)) = []"

definition boot_after :: "'b boot \<Rightarrow> bool" where
  "boot_after s \<longleftrightarrow> ok (fst s) \<and> length (tl (view (fst s))) = 1"

lemma keep_boot_db:
  "(\<And>ws. keep (\<lambda>b. ok b \<and> tl (view b) = ws) m) \<Longrightarrow> keep (\<lambda>s. ok (fst s) \<and> P (tl (view (fst s)))) (boot_db m)"
proof (rule keepI)
  fix s r s'
  assume k: "\<And>ws. keep (\<lambda>b. ok b \<and> tl (view b) = ws) m" and s: "ok (fst s) \<and> P (tl (view (fst s)))"
    and run: "boot_db m s = (r, s')" "r \<noteq> Panic"
  from run have "m (fst s) = (r, fst s')" by (auto simp: boot_db_def zoom_apply split: prod.splits)
  with keepD [OF k, of "fst s" "tl (view (fst s))"] s run(2)
  show "ok (fst s') \<and> P (tl (view (fst s')))" by auto
qed

lemma keep_boot_access [keeps]: "keep (\<lambda>s. J (fst s)) (boot_read f)" "keep (\<lambda>s. J (fst s)) (boot_log d)"
  unfolding boot_read_def boot_log_def by (intro keeps keep_modify; simp)+

lemma keep_boot_writes [keeps]:
  "keep boot_before (boot_db (db_increment_nonce D a))" "keep boot_after (boot_db (db_increment_nonce D a))"
  "keep boot_after (boot_db (db_transfer D a a' v))"
  unfolding boot_before_def boot_after_def
  by (rule keep_boot_db, rule write_ops)+

lemma keep_boot [keeps]:
  "keep boot_before (boot_read f)" "keep boot_before (boot_log d)" "keep boot_after (boot_read f)" "keep boot_after (boot_log d)"
  unfolding boot_before_def boot_after_def by (rule keep_boot_access)+

lemma boot_snapshot: "holds boot_before (boot_db (db_snapshot D)) (\<lambda>_. boot_after) (\<lambda>_. True)"
proof (rule holdsI)
  fix s x s'
  assume s: "boot_before s" and run: "boot_db (db_snapshot D) s = (Ok x, s')"
  then show "boot_after s'"
    using open_snapshot [of "fst s"] view_nonempty [of "fst s"]
    by (cases "view (fst s)") (auto simp: boot_before_def boot_after_def boot_db_def zoom_apply split: prod.splits)
qed simp

lemma snapshot_then:
  "(\<And>x. holds boot_after (f x) Q (\<lambda>_. True))
    \<Longrightarrow> holds boot_before (and_then (boot_db (db_snapshot D)) f) Q (\<lambda>_. True)"
  by (rule holds_and_then [OF boot_snapshot])

definition first_ok :: "machine \<Rightarrow> 'b boot \<Rightarrow> bool" where
  "first_ok m s \<longleftrightarrow> boot_after s \<and> \<not> m_is_static m"

lemma holds_first_frame: "holds boot_after (ret (first_frame t a c code ct d r)) first_ok (\<lambda>_. True)"
  by (rule holds_ret) (simp add: first_ok_def first_frame_def)

lemma keep_then: "keep I m \<Longrightarrow> (\<And>x. holds I (f x) Q (\<lambda>_. True)) \<Longrightarrow> holds I (and_then m f) Q (\<lambda>_. True)"
  by (rule holds_and_then [OF keep_then_any])

lemma new_call_ok: "holds boot_before (new_call D t a) first_ok (\<lambda>_. True)"
  unfolding new_call_def
  by (rule snapshot_then keep_then holds_first_frame keeps)+

lemma new_create_ok: "holds boot_before (new_create E D t a) first_ok (\<lambda>_. True)"
  unfolding new_create_def Let_def
  by (rule snapshot_then keep_then holds_first_frame holds_if holds_raise TrueI keeps)+

lemma machine_new_ok: "holds boot_before (machine_new E D t a) first_ok (\<lambda>_. True)"
  unfolding machine_new_def
  by (intro keep_then keeps holds_if holds_raise new_call_ok new_create_ok TrueI)

lemma first_vm_ok: "first_ok m (b, l) \<Longrightarrow> vm_ok \<lparr>cur = m, parents = [], db = b, logs = l\<rparr>"
  using view_nonempty [of b]
  by (cases "view b") (auto simp: first_ok_def boot_after_def vm_ok_def frames_ok_def)

end

section \<open>Frames and snapshots\<close>

text \<open>Between two instructions there is one open snapshot for each frame, and a frame that creates a contract is not static.\<close>

definition executor_frames_ok :: "executor vm \<Rightarrow> bool" where
  "executor_frames_ok s \<longleftrightarrow> executor_ok (db s) \<and> length (ex_stack (db s)) = Suc (length (parents s))
     \<and> (\<forall>m \<in> set (cur s # parents s). m_reason m = Create \<longrightarrow> \<not> m_is_static m)"

lemma length_executor_view: "length (executor_view x) = Suc (length (ex_stack x))"
  by (simp add: executor_view_def)

lemma executor_frames_ok_iff: "executor_frames_ok s \<longleftrightarrow> journal.vm_ok s"
  unfolding executor_frames_ok_def journal.vm_ok_def journal.frames_ok_def length_executor_view by auto

lemma executor_new_boot: "journal.boot_before (executor_new B, l)"
  by (simp add: journal.boot_before_def executor_new_def executor_ok_def)

text \<open>A transaction starts with one open snapshot and one frame, however it was started.\<close>

theorem transaction_starts_balanced:
  assumes "machine_new E (executor_database E L B) t origin (executor_new B, l) = (Ok m, (x, l'))"
  shows "executor_frames_ok \<lparr>cur = m, parents = [], db = x, logs = l'\<rparr>"
  unfolding executor_frames_ok_iff
  by (rule journal.first_vm_ok) (rule holdsD_Ok [OF journal.machine_new_ok executor_new_boot assms])

lemma reached_refl: "executor_frames_ok s \<Longrightarrow> journal.reached (journal.frame_abs 0 s) s"
  by (simp add: executor_frames_ok_iff journal.vm_ok_def journal.reached_def fc_balanced_def journal.frame_abs_def length_executor_view)

text \<open>C2: an iteration of the interpreter keeps one snapshot per frame, and a transaction that ends has closed all of
  them, so that taking its actions does not panic; the one exception is an \<open>EOF\<close> program that ends in \<open>RETF\<close>.\<close>

theorem execution_closes_snapshots:
  assumes "executor_frames_ok s"
    and "execute_loop E (executor_database E L B) is_eof n k s = (Ok (st, k'), s')"
  shows "if st = ExitStepLimit then executor_frames_ok s'
    else into_actions (db s') = Ok (ex_actions (db s')) \<or> is_eof \<and> st = ExitStop \<and> executor_frames_ok s'"
proof -
  have "fc_floor (journal.frame_abs 0 s) = 0" by (simp add: journal.frame_abs_def)
  from holdsD_Ok [OF journal.execute_loop_outcome [OF this] reached_refl [OF assms(1)] assms(2)]
  show ?thesis
    by (auto simp: executor_frames_ok_iff journal.finished_def journal.leaving_def into_actions_def
      dest: journal.reached_vm_ok split: if_splits)
qed

text \<open>C3: when a frame reverts, after any number of instructions of its own and of the frames it called, the log is
  again what it was when the frame was opened.\<close>

theorem revert_undoes_frame:
  assumes "executor_frames_ok s"
    and "frame_run E (executor_database E L B) is_eof (length (parents s)) s s'" and "parents s' = parents s"
    and "opcode_revert_impl (executor_database E L B) data s' = (Ok a, s'')"
  shows "ex_actions (db s'') = take (hd (ex_stack (db s))) (ex_actions (db s))"
proof -
  have "executor_view (db s'') = tl (executor_view (db s))"
    by (rule journal.revert_restores [OF _ assms(2-4)]) (use assms(1) in \<open>simp add: executor_frames_ok_iff\<close>)
  then have "ex_actions (db s'') = hd (tl (executor_view (db s)))"
    by (metis executor_view_hd)
  moreover have "ex_stack (db s) \<noteq> []" using assms(1) by (auto simp: executor_frames_ok_def)
  ultimately show ?thesis by (cases "ex_stack (db s)") auto
qed

text \<open>C4: nothing that a static frame does, nor any frame that it calls, changes the log.\<close>

theorem static_frame_leaves_log:
  assumes "executor_frames_ok s" and "m_is_static (cur s)"
    and "frame_run E (executor_database E L B) is_eof (length (parents s)) s s'"
  shows "ex_actions (db s') = ex_actions (db s)"
  using journal.frame_run_static [OF assms(1) [unfolded executor_frames_ok_iff] assms(2,3)] by simp

text \<open>\<open>STATICCALL\<close> opens a frame that is static over the unchanged log, unless the call was to a built-in
  contract and has returned to the caller's frame already.\<close>

theorem staticcall_opens_static:
  assumes "executor_ok (db s)" and "opcode_staticcall E (executor_database E L B) s = (Ok a, s')"
  shows "parents s' = parents s
     \<or> m_is_static (cur s') \<and> ex_actions (db s') = ex_actions (db s) \<and> tl (parents s') = parents s"
  using holdsD_Ok [OF journal.staticcall_opens [of "executor_view (db s)" "parents s" E E L B] _ assms(2)] assms(1)
  by (auto simp: journal.static_opened_def dest: arg_cong [of _ _ hd])

section \<open>The frame properties at work\<close>

abbreviation demo_db :: "executor database" where
  "demo_db \<equiv> executor_database demo_env demo_solana demo_storage"

definition demo_executor :: executor where
  "demo_executor = (executor_new demo_storage)\<lparr>ex_actions := [EvmIncrementNonce 0x1001], ex_stack := [1]\<rparr>"

definition demo_start :: "bool \<Rightarrow> evm_stack \<Rightarrow> bytes \<Rightarrow> executor vm" where
  "demo_start st xs code = \<lparr>cur = (demo_frame xs code)\<lparr>m_is_static := st\<rparr>, parents = [], db = demo_executor, logs = []\<rparr>"

lemma demo_start_ok: "executor_frames_ok (demo_start st xs code)"
  by (simp add: executor_frames_ok_def demo_start_def demo_executor_def executor_ok_def demo_frame_def)

definition demo_stored :: "executor vm" where
  "demo_stored = (let s = demo_start False [] [0x55] in
     s\<lparr>cur := (cur s)\<lparr>m_pc := 1\<rparr>, db := (db s)\<lparr>ex_actions := [EvmIncrementNonce 0x1001, EvmSetStorage 0x1002 1 2]\<rparr>\<rparr>)"

lemma execute_0x55: "execute_opcode E D 0x55 = opcode_sstore D"
  by (simp add: execute_opcode_def table_arith_def table_env_def table_flow_def)

lemma sstore_turn: "execute_step demo_env demo_db False (demo_start False [1, 2] [0x55]) = (Ok None, demo_stored)"
  by (simp add: execute_step_def run_opcode_def get_code_def get_code_of_def demo_start_def demo_frame_def demo_stored_def demo_executor_def
    exec_simps vm_access get_or_default_def Let_def execute_0x55 opcode_sstore_def not_static_def pop_u256_def pop_array_def
    apply_action_def executor_database_def ex_set_storage_def push_action_def)

lemma revert_turn: "opcode_revert_impl demo_db Empty demo_stored = (Ok (ActRevert []), 
    demo_stored\<lparr>db := (db demo_stored)\<lparr>ex_actions := [EvmIncrementNonce 0x1001], ex_stack := []\<rparr>,
       logs := [[ascii ''EXIT'', ascii ''REVERT'', []]]\<rparr>)"
  by (simp add: opcode_revert_impl_def demo_start_def demo_frame_def demo_stored_def demo_executor_def
    exec_simps vm_access Let_def has_no_parent_def executor_database_def ex_revert_snapshot_def executor_new_def
     rassert_def index_at_def is_increment_nonce_def)

lemma stop_turn: "execute_step demo_env demo_db False demo_stored = (Ok (Some ExitStop),
    demo_stored\<lparr>db := (db demo_stored)\<lparr>ex_stack := []\<rparr>, logs := [[ascii ''EXIT'', ascii ''STOP'']]\<rparr>)"
  by (simp add: execute_step_def run_opcode_def get_code_def get_code_of_def demo_start_def demo_frame_def demo_stored_def demo_executor_def
    exec_simps vm_access get_or_default_def Let_def execute_opcode_def table_arith_def opcode_stop_def has_no_parent_def
    apply_action_def executor_database_def ex_commit_snapshot_def executor_new_def)

lemma jumpdest_turn: "execute_step E D False (demo_start True [] [0x5B])
    = (Ok None, (demo_start True [] [0x5B])\<lparr>cur := (cur (demo_start True [] [0x5B]))\<lparr>m_pc := 1\<rparr>\<rparr>)"
  by (simp add: execute_step_def run_opcode_def get_code_def get_code_of_def demo_start_def demo_frame_def
    exec_simps vm_access get_or_default_def Let_def execute_opcode_def table_arith_def table_env_def table_flow_def
    opcode_jumpdest_def apply_action_def)

definition demo_trx :: transaction where
  "demo_trx = \<lparr>tx_payload = Legacy \<lparr>l_nonce = 0, l_gas_price = 0, l_gas_limit = 0, l_target = Some 0x1002, l_value = 5,
     l_call_data = Empty, l_v = 0, l_r = 0, l_s = 0, l_chain_id = None, l_recovery_id = 0\<rparr>,
     tx_byte_len = 0, tx_hash = 0, tx_signed_hash = 0\<rparr>"

theorem transaction_starts_balanced_witness:
  "\<exists>m x l. machine_new demo_env demo_db demo_trx 0x1001 (executor_new demo_storage, []) = (Ok m, (x, l))
     \<and> ex_actions x = [EvmIncrementNonce 0x1001, NeonTransfer 0x1001 0x1002 5]
     \<and> executor_frames_ok \<lparr>cur = m, parents = [], db = x, logs = l\<rparr>"
proof -
  obtain m x l where run: "machine_new demo_env demo_db demo_trx 0x1001 (executor_new demo_storage, []) = (Ok m, (x, l))"
      and x: "ex_actions x = [EvmIncrementNonce 0x1001, NeonTransfer 0x1001 0x1002 5]"
    by (simp add: machine_new_def new_call_def demo_trx_def trx_nonce_def trx_chain_id_def trx_value_def trx_target_def
      trx_call_data_def boot_read_def boot_db_def boot_log_def exec_simps executor_database_def executor_new_def demo_storage_def
      ex_nonce_def ex_balance_def ex_code_size_def ex_code_def is_precompile_extension_def ex_increment_nonce_def
      push_action_def ex_snapshot_def ex_transfer_def read_container_def has_eof_magic_def EOF_MAGIC_def)
  show ?thesis using run x transaction_starts_balanced [OF run] by blast
qed

theorem execution_closes_snapshots_witness:
  "(\<lambda>(r, s). r = Ok (ExitStop, 2) \<and> into_actions (db s) = Ok [EvmIncrementNonce 0x1001, EvmSetStorage 0x1002 1 2])
     (execute_loop demo_env demo_db False 5 0 (demo_start False [1, 2] [0x55]))"
proof -
  have run: "execute_loop demo_env demo_db False 5 0 (demo_start False [1, 2] [0x55])
      = (Ok (ExitStop, 2), demo_stored\<lparr>db := (db demo_stored)\<lparr>ex_stack := []\<rparr>, logs := [[ascii ''EXIT'', ascii ''STOP'']]\<rparr>)"
    by (simp add: eval_nat_numeral exec_simps sstore_turn stop_turn)
  show ?thesis using execution_closes_snapshots [OF demo_start_ok run] by (simp add: run) (simp add: demo_stored_def demo_start_def Let_def)
qed

theorem revert_undoes_frame_witness:
  "ex_actions (db demo_stored) = [EvmIncrementNonce 0x1001, EvmSetStorage 0x1002 1 2]
   \<and> ex_actions (db (snd (opcode_revert_impl demo_db Empty demo_stored))) = [EvmIncrementNonce 0x1001]"
proof -
  let ?s = "demo_start False [1, 2] [0x55]"
  have p: "parents demo_stored = parents ?s" by (simp add: demo_stored_def demo_start_def Let_def)
  then have run: "frame_run demo_env demo_db False (length (parents ?s)) ?s demo_stored"
    by (intro run_step [OF run_refl sstore_turn]) simp
  show ?thesis
    using revert_undoes_frame [OF demo_start_ok run p revert_turn]
    by (simp add: revert_turn) (simp add: demo_stored_def demo_start_def demo_executor_def Let_def)
qed

theorem static_frame_leaves_log_witness:
  "ex_actions (db (snd (execute_step demo_env demo_db False (demo_start True [] [0x5B])))) = [EvmIncrementNonce 0x1001]"
proof -
  let ?s = "demo_start True [] [0x5B]"
  have "frame_run demo_env demo_db False (length (parents ?s)) ?s (snd (execute_step demo_env demo_db False ?s))"
    by (rule run_step [OF run_refl]) (simp_all add: jumpdest_turn)
  from static_frame_leaves_log [OF demo_start_ok _ this]
  show ?thesis by (simp add: demo_start_def demo_executor_def)
qed

theorem staticcall_opens_static_witness:
  "(\<lambda>(r, s). r = Ok ActNoop \<and> m_is_static (cur s) \<and> ex_actions (db s) = [EvmIncrementNonce 0x1001])
     (opcode_staticcall demo_env demo_db (demo_start False [0, 0x2000, 0, 0, 0, 0] []))"
proof -
  let ?s = "demo_start False [0, 0x2000, 0, 0, 0, 0] []"
  obtain s' where run: "opcode_staticcall demo_env demo_db ?s = (Ok ActNoop, s')" and p: "parents s' \<noteq> []"
    by (simp add: opcode_staticcall_def call_operands_def pop_value_def exec_simps vm_access demo_start_def demo_executor_def
      demo_frame_def pop_u256_def pop_address_def pop_usize_def mem_read_def executor_database_def ex_code_def executor_new_def
      demo_storage_def fork_def read_container_def has_eof_magic_def EOF_MAGIC_def buf_from_slice_def ex_snapshot_def
      opcode_call_precompile_impl_def precompile_def is_precompile_address_def demo_env_def call_precompile_extension_def
      Let_def)
  have "executor_ok (db ?s)" "parents ?s = []" using demo_start_ok [of False "[0, 0x2000, 0, 0, 0, 0]" "[]"]
    by (simp_all add: executor_frames_ok_def demo_start_def)
  with staticcall_opens_static [OF _ run] p
  show ?thesis by (simp add: run) (simp add: demo_start_def demo_executor_def)
qed

section \<open>The log as a stack of states of the accounts\<close>

text \<open>
  The abstract database: a stack of worlds.  A write is a step of the top world, a snapshot duplicates it, a commit
  forgets the world below it, a revert goes back to that one, and every read is a read of the top world.
\<close>

definition worlds_of :: "account_storage \<Rightarrow> executor \<Rightarrow> world list" where
  "worlds_of B x = map (world_of B) (executor_view x)"

fun write_top :: "(world \<Rightarrow> world) \<Rightarrow> world list \<Rightarrow> world list" where
  "write_top f (w # ws) = f w # ws"
| "write_top f [] = []"

lemma worlds_of_push:
  "executor_ok x \<Longrightarrow> worlds_of B (snd (push_action a x)) = write_top (world_step a) (worlds_of B x)"
  using take_stack_append [of x "[a]"]
  by (simp add: worlds_of_def executor_view_def push_action_def modify_apply world_of_append)

text \<open>C5: the executor refines a stack of account states: its reads are reads of the state on top, a write is the
  step of its action on that state alone, and the snapshot operations push, drop below and drop the top.\<close>

theorem executor_refines_worlds:
  assumes "executor_ok x"
  shows "(ex_nonce B a x = w_nonce (hd (worlds_of B x)) a)
    \<and> (ex_balance B a x = w_balance (hd (worlds_of B x)) a)
    \<and> (ex_storage B a i x = w_storage (hd (worlds_of B x)) a i)
    \<and> (ex_code B a x = (case w_code (hd (worlds_of B x)) a of Some c \<Rightarrow> Ok (buf_clone c) | None \<Rightarrow> as_code B a))
    \<and> (worlds_of B (snd (ex_set_storage a i v x)) = write_top (world_step (EvmSetStorage a i v)) (worlds_of B x))
    \<and> (worlds_of B (snd (ex_increment_nonce a x)) = write_top (world_step (EvmIncrementNonce a)) (worlds_of B x))
    \<and> (ex_transfer B a b amount x = (Ok (), x') \<longrightarrow> amount \<noteq> 0 \<longrightarrow> a \<noteq> b
      \<longrightarrow> worlds_of B x' = write_top (world_step (NeonTransfer a b amount)) (worlds_of B x))
    \<and> (ex_set_code a c x = (Ok (), x') \<longrightarrow> worlds_of B x' = write_top (world_step (EvmSetCode a c)) (worlds_of B x))
    \<and> (worlds_of B (snd (ex_snapshot x)) = hd (worlds_of B x) # worlds_of B x)
    \<and> (ex_commit_snapshot x = (Ok (), x') \<longrightarrow> worlds_of B x' = hd (worlds_of B x) # tl (tl (worlds_of B x)))
    \<and> (ex_revert_snapshot x = (Ok (), x') \<longrightarrow> worlds_of B x' = tl (worlds_of B x))"
proof -
  have hd_worlds: "hd (worlds_of B x) = world_of B (ex_actions x)"
    by (simp add: worlds_of_def executor_view_def)
  have f0: "ex_nonce B a x = w_nonce (hd (worlds_of B x)) a" "ex_balance B a x = w_balance (hd (worlds_of B x)) a"
    "ex_storage B a i x = w_storage (hd (worlds_of B x)) a i"
    "ex_code B a x = (case w_code (hd (worlds_of B x)) a of Some c \<Rightarrow> Ok (buf_clone c) | None \<Rightarrow> as_code B a)"
    by (simp_all add: hd_worlds world_of_def ex_nonce_def ex_balance_def ex_storage_def ex_code_def)
  have f1: "worlds_of B (snd (ex_set_storage a i v x)) = write_top (world_step (EvmSetStorage a i v)) (worlds_of B x)"
    "worlds_of B (snd (ex_increment_nonce a x)) = write_top (world_step (EvmIncrementNonce a)) (worlds_of B x)"
    by (simp_all only: ex_set_storage_def ex_increment_nonce_def worlds_of_push [OF assms])
  have f2: "worlds_of B x' = write_top (world_step (NeonTransfer a b amount)) (worlds_of B x)"
    if "ex_transfer B a b amount x = (Ok (), x')" "amount \<noteq> 0" "a \<noteq> b"
    using that worlds_of_push [OF assms, of B "NeonTransfer a b amount"]
    by (auto simp: ex_transfer_def and_then_apply reads_apply raise_apply split: result.splits if_splits)
  have f3: "worlds_of B x' = write_top (world_step (EvmSetCode a c)) (worlds_of B x)" if "ex_set_code a c x = (Ok (), x')"
    using that worlds_of_push [OF assms, of B "EvmSetCode a c"]
    by (auto simp: ex_set_code_def raise_apply split: if_splits)
  have f4: "worlds_of B (snd (ex_snapshot x)) = hd (worlds_of B x) # worlds_of B x"
    by (simp add: worlds_of_def executor_view_def ex_snapshot_def modify_apply)
  have f5: "worlds_of B x' = hd (worlds_of B x) # tl (tl (worlds_of B x))" if "ex_commit_snapshot x = (Ok (), x')"
    using that by (auto simp: worlds_of_def executor_view_def ex_commit_snapshot_def split: list.splits)
  have f6: "worlds_of B x' = tl (worlds_of B x)" if "ex_revert_snapshot x = (Ok (), x')"
    using that ex_revert_view [OF assms, of "hd (executor_view x)" "hd (tl (executor_view x))" "tl (tl (executor_view x))"]
    by (cases "ex_stack x") (auto simp: worlds_of_def executor_view_def [of x] ex_revert_snapshot_def)
  show ?thesis using f0 f1 f2 f3 f4 f5 f6 by blast
qed

section \<open>Transfers\<close>

lemma balance_after_transfer:
  "ex_balance B a (x\<lparr>ex_actions := ex_actions x @ [NeonTransfer s t v]\<rparr>) = rbind (ex_balance B a x) (\<lambda>n.
     rbind (if a = s then checked_sub_u256 n v else Ok n) (\<lambda>n. if a = t then checked_add_u256 n v else Ok n))"
  by (cases "rbind (as_balance B a) (balance_after a (ex_actions x))")
    (simp_all add: ex_balance_def balance_after_append rbind_assoc [symmetric] balance_after_Nil cong: if_cong)

lemma checked_add_unat: "checked_add_u256 a b = Ok c \<Longrightarrow> unat c = unat a + unat b"
  by (auto simp: checked_add_u256_def unat_plus_simple split: if_splits)

lemma checked_sub_unat: "checked_sub_u256 a b = Ok c \<Longrightarrow> unat c + unat b = unat a"
  by (auto simp: checked_sub_u256_def unat_sub_if_size word_le_nat_alt split: if_splits)

text \<open>C14: a transfer moves NEON and creates or destroys none: over any set of accounts that holds both parties, the
  sum of the balances that can be read before and after it is the same.\<close>

theorem transfer_conserves_balance:
  assumes run: "ex_transfer B s t v x = (Ok (), x')"
    and A: "finite A" "s \<in> A" "t \<in> A"
    and before: "\<And>a. a \<in> A \<Longrightarrow> ex_balance B a x = Ok (bal a)"
    and after: "\<And>a. a \<in> A \<Longrightarrow> ex_balance B a x' = Ok (bal' a)"
  shows "(\<Sum>a\<in>A. unat (bal' a)) = (\<Sum>a\<in>A. unat (bal a))"
proof (cases "v = 0 \<or> s = t")
  case True
  then have "x' = x" using run by (cases "v = 0") (auto simp: ex_transfer_def ret_apply)
  then show ?thesis using before after by (intro sum.cong) auto
next
  case False
  then have x': "x' = x\<lparr>ex_actions := ex_actions x @ [NeonTransfer s t v]\<rparr>"
    using run by (auto simp: ex_transfer_def and_then_apply reads_apply raise_apply push_action_def modify_apply
      split: result.splits if_splits)
  have rest: "bal' a = bal a" if "a \<in> A - {s, t}" for a
    using after [of a] before [of a] that by (auto simp: x' balance_after_transfer)
  have s: "unat (bal' s) + unat v = unat (bal s)"
    using after [OF A(2)] before [OF A(2)] False
    by (auto simp: x' balance_after_transfer dest: checked_sub_unat)
  have t: "unat (bal' t) = unat (bal t) + unat v"
    using after [OF A(3)] before [OF A(3)] False
    by (auto simp: x' balance_after_transfer dest: checked_add_unat)
  have split: "(\<Sum>a\<in>A. unat (f a)) = (\<Sum>a\<in>A - {s, t}. unat (f a)) + unat (f s) + unat (f t)" for f :: "address \<Rightarrow> u256"
    using A False by (subst sum.subset_diff [of "{s, t}" A]) auto
  show ?thesis unfolding split [of bal'] split [of bal] using s t rest by simp
qed

section \<open>The state properties at work\<close>

lemma demo_executor_ok: "executor_ok demo_executor"
  by (simp add: demo_executor_def executor_ok_def)

theorem executor_refines_worlds_witness:
  "w_storage (hd (worlds_of demo_storage (snd (ex_set_storage 0x1002 1 7 demo_executor)))) 0x1002 1 = Ok 7
   \<and> length (worlds_of demo_storage (snd (ex_snapshot demo_executor))) = 3"
proof -
  have w: "worlds_of demo_storage demo_executor = [world_of demo_storage [EvmIncrementNonce 0x1001], world_of demo_storage [EvmIncrementNonce 0x1001]]"
    by (simp add: worlds_of_def executor_view_def demo_executor_def)
  show ?thesis
    using executor_refines_worlds [OF demo_executor_ok, where B = demo_storage and a = "0x1002" and i = 1 and v = 7] by (simp add: w)
qed

theorem transfer_conserves_balance_witness:
  "fst (ex_transfer demo_storage 0x1001 0x1002 5 demo_executor) = Ok ()
   \<and> (\<Sum>a\<in>{0x1001, 0x1002}. unat (if a = (0x1001 :: address) then 9999999999999999995 else 10000000000000000005 :: u256))
     = (\<Sum>a\<in>{0x1001 :: address, 0x1002}. unat (10000000000000000000 :: u256))"
proof -
  let ?x = "demo_executor\<lparr>ex_actions := [EvmIncrementNonce 0x1001, NeonTransfer 0x1001 0x1002 5]\<rparr>"
  have bal: "ex_balance demo_storage a demo_executor = Ok 10000000000000000000" for a
    by (simp add: ex_balance_def demo_executor_def demo_storage_def)
  have run: "ex_transfer demo_storage 0x1001 0x1002 5 demo_executor = (Ok (), ?x)"
    by (simp add: ex_transfer_def exec_simps push_action_def bal) (simp add: demo_executor_def)
  have after: "ex_balance demo_storage a ?x = Ok (if a = 0x1001 then 9999999999999999995 else 10000000000000000005)"
    if "a \<in> {0x1001, 0x1002}" for a
    using that by (auto simp: ex_balance_def demo_storage_def checked_sub_u256_def checked_add_u256_def)
  show ?thesis using transfer_conserves_balance [OF run, of "{0x1001, 0x1002}", OF _ _ _ bal after]
    by (simp only: run) simp
qed

end
