(* ===== verification/Extension_Laws.thy ===== *)
theory Extension_Laws
  imports Journal
begin

text \<open>
  What the extensions guarantee: a static call queues nothing, a withdrawal debits exactly what it pays out, strings
  survive the Solidity encoding, and the emulation of the system program conserves lamports.
\<close>

section \<open>Static calls\<close>

interpretation frozen: cache_invariant "\<lambda>x. ex_actions x = acts \<and> ex_stack x = st" for acts st
  by unfold_locales simp

text \<open>In a static call no extension appends to the log, whatever its input is; and the snapshots stay.\<close>

theorem static_extension_queues_nothing:
  assumes "call_precompile_extension L B ctx a input True x = (r, x')" and "r \<noteq> Panic"
  shows "ex_actions x' = ex_actions x \<and> ex_stack x' = ex_stack x"
  using keepD [OF frozen.keep_static_extension _ assms] by simp

section \<open>Withdrawals\<close>

lemma external_account_actions:
  "fst (external_account L B k x) = Ok acc \<Longrightarrow> ex_actions (snd (external_account L B k x)) = ex_actions x"
  using keepD [OF frozen.keep_external_account [of "ex_actions x" "ex_stack x" L B k], of x "Ok acc"]
  by (cases "external_account L B k x") auto

lemma queue_external_apply: "queue_external_instruction i seeds fee x
    = (Ok (), x\<lparr>ex_actions := ex_actions x @ [ExternalInstruction (ins_program_id i) (ins_accounts i) (ins_data i) seeds fee]\<rparr>)"
  by (simp add: queue_external_instruction_def push_action_def modify_apply)

text \<open>C15: a withdrawal that succeeds queues, as its last two actions, a token transfer and the debit of the sender, and
  the debit in wei is exactly the transferred amount of tokens times \<open>10 ^ 9\<close>.\<close>

theorem withdraw_pays_what_it_debits:
  assumes "withdraw L B source target v x = (Ok (), x')"
  shows "\<exists>amount transfer pre. amount \<noteq> 0 \<and> unat v = unat amount * 10 ^ 9
    \<and> (\<exists>pool authority. sol_token_make L (sol_token_id L) (MakeTransferChecked pool (as_neon_token_mint B)
          (sol_associated_token L target (as_neon_token_mint B)) authority amount 9) = Ok transfer)
    \<and> ex_actions x' = ex_actions x @ pre @ [ExternalInstruction (ins_program_id transfer) (ins_accounts transfer)
          (ins_data transfer) [ascii ''Deposit'', [snd (sol_find_program_address L [ascii ''Deposit''] (as_program_id B))]] 0,
        NeonWithdraw source v]
    \<and> length pre \<le> 1"
proof -
  let ?amount = "ucast (v div 10 ^ 9) :: u64"
  have dec: "unat (18 - token_mint_decimals) = 9" by (simp add: token_mint_decimals_def)
  have v: "v \<noteq> 0" "v div 10 ^ 9 \<le> 18446744073709551615" "v mod 10 ^ 9 = 0"
    using assms by (auto simp: withdraw_def dec Let_def raise_apply split: if_splits)
  have le: "unat (v div 10 ^ 9) < 2 ^ 64"
    using v(2) by (simp add: word_le_nat_alt)
  then have amount: "unat ?amount = unat v div 10 ^ 9"
    by (simp add: unsigned_ucast_eq take_bit_eq_mod unat_div_distrib)
  have "unat v mod 10 ^ 9 = 0" using v(3) by (simp add: unat_mod word_unat_eq_iff)
  then have exact: "unat v = unat ?amount * 10 ^ 9"
    unfolding amount using div_mult_mod_eq [of "unat v" "10 ^ 9"] by simp
  then have nz: "?amount \<noteq> 0" using v(1) by (metis mult_0 unat_0 unat_eq_zero)
  have "\<exists>transfer pre. (\<exists>pool authority. sol_token_make L (sol_token_id L) (MakeTransferChecked pool
        (as_neon_token_mint B) (sol_associated_token L target (as_neon_token_mint B)) authority ?amount 9) = Ok transfer)
      \<and> ex_actions x' = ex_actions x @ pre @ [ExternalInstruction (ins_program_id transfer) (ins_accounts transfer)
          (ins_data transfer) [ascii ''Deposit'', [snd (sol_find_program_address L [ascii ''Deposit''] (as_program_id B))]] 0,
        NeonWithdraw source v] \<and> length pre \<le> 1"
    using assms v
    by (auto simp: withdraw_def dec token_mint_decimals_def Let_def and_then_apply ret_apply lift_apply queue_external_apply
        withdraw_neons_def push_action_def modify_apply external_account_actions
        split: result.splits prod.splits if_splits) blast+
  then show ?thesis using nz exact by blast
qed

section \<open>Strings\<close>

lemma from_be_to_solidity_offset: "from_be (take 32 (replicate 31 0 @ [0x20] @ bs) :: bytes) = (32 :: u256)"
  by (simp add: from_be_def)

text \<open>C23: the Solidity encoding of a string, read back as an argument, is the string.\<close>

theorem solidity_string_roundtrip:
  assumes "utf8_valid s" and "length s \<le> n" and "length s + 96 < usize_bound"
  shows "read_string (to_solidity_string s) 0 n = Ok s"
proof -
  let ?l = "be_bytes 32 (of_nat (length s) :: u256)"
  obtain k where enc: "to_solidity_string s = replicate 31 0 @ [0x20] @ ?l @ s @ replicate k 0"
    by (simp add: to_solidity_string_def Let_def)
  have "length s < 2 ^ 256" using assms(3) by simp
  then have len: "unat (from_be ?l :: u256) = length s"
    by (simp add: from_be_be_bytes unsigned_of_nat take_bit_eq_mod)
  have off: "usize_of_u256 (from_be (take 32 (to_solidity_string s))) = Ok 32"
    unfolding enc from_be_to_solidity_offset by (simp add: usize_of_u256_def)
  have "take 32 (drop 32 (to_solidity_string s)) = ?l" by (simp add: enc)
  then have "rbind (slice_from 32 (to_solidity_string s)) array_32 = Ok (from_be ?l)"
    by (simp add: slice_from_def array_32_def) (simp add: enc)
  then have length_read: "rbind (rbind (slice_from 32 (to_solidity_string s)) array_32) usize_of_u256 = Ok (length s)"
    using assms(3) by (simp add: usize_of_u256_def len)
  have "slice_get (to_solidity_string s) 64 (64 + length s) = Some s"
    by (simp add: slice_get_def enc)
  moreover have "64 + length s \<le> length (to_solidity_string s)" by (simp add: enc)
  ultimately show ?thesis
    using assms off length_read
    by (simp add: read_string_def saturating_add_usize_def)
qed

theorem solidity_string_roundtrip_witness:
  "read_string (to_solidity_string [0x4E, 0x45, 0x4F, 0x4E]) 0 256 = Ok [0x4E, 0x45, 0x4F, 0x4E]"
  by (rule solidity_string_roundtrip) simp_all

section \<open>Lamports\<close>

definition lamports_at :: "account_map \<Rightarrow> pubkey \<Rightarrow> u64" where
  "lamports_at accounts k = (case accounts k of Some a \<Rightarrow> oa_lamports a | None \<Rightarrow> 0)"

lemma sum_lamports_put:
  "finite K \<Longrightarrow> k \<in> K \<Longrightarrow> m k = Some old \<Longrightarrow>
    (\<Sum>j\<in>K. lamports_at (m(k \<mapsto> new)) j) = (\<Sum>j\<in>K. lamports_at m j) - oa_lamports old + oa_lamports new"
  by (subst (1 2) sum.remove [of K k]) (auto simp: lamports_at_def intro!: sum.cong)

definition same_lamports :: "pubkey set \<Rightarrow> (account_map, unit) exec \<Rightarrow> bool" where
  "same_lamports K m \<longleftrightarrow> (\<forall>accounts accounts'. dom accounts \<subseteq> K \<longrightarrow> m accounts = (Ok (), accounts') \<longrightarrow>
     (\<Sum>k\<in>K. lamports_at accounts' k) = (\<Sum>k\<in>K. lamports_at accounts k))"

lemmas account_access = and_then_apply lift_apply raise_apply ret_apply reads_apply modify_apply
  get_mut_def put_account_def meta_key_def

lemma unwrap_Ok_iff: "unwrap x = Ok y \<longleftrightarrow> x = Some y"
  by (cases x) auto

lemma dom_subset: "dom m \<subseteq> K \<Longrightarrow> m k = Some a \<Longrightarrow> k \<in> K"
  by auto

lemma same_lamports_create: "finite K \<Longrightarrow> same_lamports K (system_create_account L n space owner metas)"
  by (auto simp: same_lamports_def system_create_account_def account_access unwrap_Ok_iff sum_lamports_put dom_subset word_gt_0
    split: result.splits if_splits)

lemma same_lamports_assign: "finite K \<Longrightarrow> same_lamports K (system_assign L owner metas)"
  by (auto simp: same_lamports_def system_assign_def account_access unwrap_Ok_iff sum_lamports_put dom_subset
    split: result.splits if_splits)

lemma same_lamports_transfer: "finite K \<Longrightarrow> same_lamports K (system_transfer L n metas)"
  by (auto simp: same_lamports_def system_transfer_def account_access unwrap_Ok_iff sum_lamports_put dom_subset
    split: result.splits if_splits)

lemma same_lamports_allocate: "finite K \<Longrightarrow> same_lamports K (system_allocate L space metas)"
  by (auto simp: same_lamports_def system_allocate_def account_access unwrap_Ok_iff sum_lamports_put dom_subset
    split: result.splits if_splits)

text \<open>C24: an instruction of the system program, emulated over the copy of the accounts, conserves the sum of all
  lamports (in the arithmetic of \<open>u64\<close>).\<close>

theorem system_conserves_lamports:
  assumes "system_emulate L code metas accounts = (Ok (), accounts')" and "finite K" and "dom accounts \<subseteq> K"
  shows "(\<Sum>k\<in>K. lamports_at accounts' k) = (\<Sum>k\<in>K. lamports_at accounts k)"
  using assms same_lamports_create [of K L] same_lamports_assign [of K L] same_lamports_transfer [of K L]
    same_lamports_allocate [of K L]
  unfolding same_lamports_def system_emulate_def
  by (fastforce simp: and_then_apply lift_apply raise_apply split: result.splits prod.splits system_instruction.splits)

section \<open>The laws at work\<close>

theorem static_extension_queues_nothing_witness:
  "(let (r, x) = call_precompile_extension demo_solana demo_storage \<lparr>ctx_caller = 1, ctx_contract = 0xff00000000000000000000000000000000000003,
        ctx_value = 5, ctx_code_address = None\<rparr> 0xff00000000000000000000000000000000000003 [0x8e, 0x19, 0x89, 0x9e] True demo_executor
    in r = Err (EvmError (StaticModeViolation 0xff00000000000000000000000000000000000003)) \<and> ex_actions x = [EvmIncrementNonce 0x1001])"
proof -
  let ?ctx = "\<lparr>ctx_caller = 1, ctx_contract = 0xff00000000000000000000000000000000000003,
        ctx_value = 5, ctx_code_address = None\<rparr>"
  obtain x' where run: "call_precompile_extension demo_solana demo_storage ?ctx 0xff00000000000000000000000000000000000003
      [0x8e, 0x19, 0x89, 0x9e] True demo_executor
      = (Err (EvmError (StaticModeViolation 0xff00000000000000000000000000000000000003)), x')"
    by (simp add: call_precompile_extension_def neon_token_def split_at_def exec_simps)
  from static_extension_queues_nothing [OF run] show ?thesis by (simp add: run) (simp add: demo_executor_def)
qed

theorem withdraw_pays_what_it_debits_witness:
  "(\<lambda>(r, x). r = Ok () \<and> last (ex_actions x) = NeonWithdraw 0x1001 3000000000)
     (withdraw demo_solana demo_storage 0x1001 77 3000000000 demo_executor)"
proof -
  obtain x' where run: "withdraw demo_solana demo_storage 0x1001 77 3000000000 demo_executor = (Ok (), x')"
    by (simp add: withdraw_def Let_def token_mint_decimals_def external_account_def insert_account_if_not_present_def cached_account_def
      queue_external_instruction_def push_action_def withdraw_neons_def exec_simps Let_def demo_solana_def demo_storage_def
      demo_executor_def executor_new_def demo_account_def)
  from withdraw_pays_what_it_debits [OF run] show ?thesis by (auto simp: run)
qed

theorem system_conserves_lamports_witness:
  "(\<lambda>(r, m). r = Ok () \<and> lamports_at m 5 + lamports_at m 6 = 130)
     (system_emulate demo_solana [] [\<lparr>am_pubkey = 5, am_is_signer = True, am_is_writable = True\<rparr>,
        \<lparr>am_pubkey = 6, am_is_signer = False, am_is_writable = True\<rparr>]
      [5 \<mapsto> demo_account 5 100 0, 6 \<mapsto> demo_account 6 30 0])"
proof -
  let ?m = "[5 \<mapsto> demo_account 5 100 0, 6 \<mapsto> demo_account 6 30 0] :: account_map"
  let ?metas = "[\<lparr>am_pubkey = 5, am_is_signer = True, am_is_writable = True\<rparr>,
        \<lparr>am_pubkey = 6, am_is_signer = False, am_is_writable = True\<rparr>]"
  obtain m where run: "system_emulate demo_solana [] ?metas ?m = (Ok (), m)"
    by (simp add: system_emulate_def demo_solana_def system_transfer_def account_access index_at_def demo_account_def)
  from system_conserves_lamports [OF run, of "{5, 6}"] show ?thesis
    by (simp add: run) (simp add: lamports_at_def demo_account_def)
qed

end
