(* ===== verification/Slot_Hashes.thy ===== *)
theory Slot_Hashes
  imports Extensions
begin

text \<open>
  The hash of a recent block (\<open>find_slot_hash\<close> and \<open>generate_fake_slot_hash\<close> of
  \<open>program/src/account_storage/mod.rs\<close>): a binary search in the bytes of the sysvar \<open>SlotHashes\<close>, a vector of
  pairs of a slot and a hash with the newest first.
\<close>

section \<open>The search\<close>

text \<open>\<open>data[offset..][..n]\<close>\<close>

definition slice_at :: "bytes \<Rightarrow> nat \<Rightarrow> nat \<Rightarrow> bytes result" where
  "slice_at data offset n = rbind (slice_from offset data) (\<lambda>tail.
     if n \<le> length tail then Ok (take n tail) else Panic)"

definition generate_fake_slot_hash :: "u64 \<Rightarrow> bytes" where
  "generate_fake_slot_hash number =
    (let slot_slice = dropWhile (\<lambda>b. b = 0) (be_bytes 8 number);
         n = length slot_slice;
         hash = (replicate 32 255)[32 - n - 1 := 0]
     in take (32 - n) hash @ slot_slice)"

text \<open>The loop; \<open>size\<close> is always \<open>right - left\<close>.\<close>

function slot_search :: "u64 \<Rightarrow> bytes \<Rightarrow> usize \<Rightarrow> usize \<Rightarrow> bytes option result" where
  "slot_search val data left right =
    (if left < right then
       let mid = left + (right - left) div 2;
           offset = usize_wrap (mid * 40 + 8) in
       rbind (slice_at data offset 8) (\<lambda>b.
       let slot = from_le b :: u64 in
       if val < slot then slot_search val data (mid + 1) right
       else if slot < val then slot_search val data left mid
       else rbind (slice_at data (usize_wrap (offset + 8)) 32) (\<lambda>h. Ok (Some h)))
     else Ok None)"
  by pat_completeness auto
termination
  by (relation "measure (\<lambda>(val, data, left, right). right - left)") auto

declare slot_search.simps [simp del]

definition find_slot_hash :: "u64 \<Rightarrow> bytes \<Rightarrow> bytes result" where
  "find_slot_hash val data =
    rbind (slice_at data 0 8) (\<lambda>b.
    let slot_hashes_len = unat (from_le b :: u64);
        size = usize_of_int (int slot_hashes_len - 1) in
    rbind (slot_search val data 0 size) (\<lambda>found. case found of
      Some h \<Rightarrow> Ok h
    | None \<Rightarrow> Ok (generate_fake_slot_hash val)))"

section \<open>What it finds\<close>

definition slot_entries :: "(u64 \<times> bytes32) list \<Rightarrow> bytes" where
  "slot_entries es = concat (map (\<lambda>(slot, h). le_bytes 8 slot @ be_bytes 32 h) es)"

definition slot_hashes_sysvar :: "(u64 \<times> bytes32) list \<Rightarrow> bytes" where
  "slot_hashes_sysvar es = le_bytes 8 (of_nat (length es) :: u64) @ slot_entries es"

lemma length_slot_entries: "length (slot_entries es) = 40 * length es"
  by (induction es) (auto simp: slot_entries_def)

lemma drop_slot_entries: "i < length es \<Longrightarrow> drop (40 * i) (slot_entries es)
    = le_bytes 8 (fst (es ! i)) @ be_bytes 32 (snd (es ! i)) @ slot_entries (drop (Suc i) es)"
proof (induction i arbitrary: es)
  case 0
  then show ?case by (cases es) (auto simp: slot_entries_def split: prod.split)
next
  case (Suc i)
  then obtain e es' where es: "es = e # es'" by (cases es) auto
  then have "slot_entries es = (le_bytes 8 (fst e) @ be_bytes 32 (snd e)) @ slot_entries es'"
    by (simp add: slot_entries_def split: prod.split)
  then show ?case using Suc es by simp
qed

lemma slice_at_entry:
  assumes "i < length es"
  shows "slice_at (slot_hashes_sysvar es) (i * 40 + 8) 8 = Ok (le_bytes 8 (fst (es ! i)))"
    and "slice_at (slot_hashes_sysvar es) (i * 40 + 8 + 8) 32 = Ok (be_bytes 32 (snd (es ! i)))"
proof -
  have d: "drop (i * 40 + 8) (slot_hashes_sysvar es)
      = le_bytes 8 (fst (es ! i)) @ be_bytes 32 (snd (es ! i)) @ slot_entries (drop (Suc i) es)"
    using drop_slot_entries [OF assms] by (simp add: slot_hashes_sysvar_def mult.commute)
  have "length (slot_hashes_sysvar es) = 8 + 40 * length es"
    by (simp add: slot_hashes_sysvar_def length_slot_entries)
  then have len: "i * 40 + 8 + 8 \<le> length (slot_hashes_sysvar es)" using assms by simp
  have d8: "drop (i * 40 + 8 + 8) (slot_hashes_sysvar es) = be_bytes 32 (snd (es ! i)) @ slot_entries (drop (Suc i) es)"
    using arg_cong [OF d, of "drop 8"] by (simp add: add.commute)
  show "slice_at (slot_hashes_sysvar es) (i * 40 + 8) 8 = Ok (le_bytes 8 (fst (es ! i)))"
    using d len by (simp add: slice_at_def slice_from_def)
  show "slice_at (slot_hashes_sysvar es) (i * 40 + 8 + 8) 32 = Ok (be_bytes 32 (snd (es ! i)))"
    using d8 len by (simp add: slice_at_def slice_from_def)
qed

lemma slot_search_finds:
  assumes "sorted_wrt (\<lambda>a b. fst b < fst a) es" and "length es * 40 + 8 < usize_bound" and "right \<le> length es"
  shows "slot_search val (slot_hashes_sysvar es) left right
    = Ok (map_option (be_bytes 32) (map_of (drop left (take right es)) val))"
  using assms(3)
proof (induction "right - left" arbitrary: left right rule: less_induct)
  case less
  show ?case
  proof (cases "left < right")
    case False
    then show ?thesis by (simp add: slot_search.simps)
  next
    case True
    define mid where "mid = left + (right - left) div 2"
    have mid: "left \<le> mid" "mid < right" "mid < length es" using True less.prems by (auto simp: mid_def)
    have wrap: "usize_wrap (mid * 40 + 8) = mid * 40 + 8" "usize_wrap (mid * 40 + 8 + 8) = mid * 40 + 8 + 8"
      by (rule usize_wrap_id, use mid(3) assms(2) in linarith)+
    have reads: "slice_at (slot_hashes_sysvar es) (usize_wrap (mid * 40 + 8)) 8 = Ok (le_bytes 8 (fst (es ! mid)))"
        "slice_at (slot_hashes_sysvar es) (usize_wrap (usize_wrap (mid * 40 + 8) + 8)) 32 = Ok (be_bytes 32 (snd (es ! mid)))"
      by (simp_all only: wrap slice_at_entry [OF mid(3)])
    let ?e = "es ! mid"
    define upper where "upper = drop (Suc mid) (take right es)"
    have "take right es = take mid es @ ?e # upper"
      using id_take_nth_drop [of mid "take right es"] mid by (simp add: upper_def min_def)
    moreover have "length (take mid es) = mid" using mid by simp
    ultimately have split: "drop left (take right es) = drop left (take mid es) @ ?e # upper"
      using mid(1) by simp
    have above: "fst ?e < fst x" if "x \<in> set (drop left (take mid es))" for x
    proof -
      from that have "x \<in> set (take mid es)" by (rule in_set_dropD)
      then obtain i where "i < mid" "x = es ! i" by (auto simp: in_set_conv_nth)
      then show ?thesis using sorted_wrt_nth_less [OF assms(1), of i mid] mid by simp
    qed
    have below: "fst x < fst ?e" if "x \<in> set upper" for x
    proof -
      from that have "x \<in> set (drop (Suc mid) es)" by (auto simp: upper_def drop_take dest: in_set_takeD)
      then obtain j where "j < length es - Suc mid" "x = es ! (Suc mid + j)" by (auto simp: in_set_conv_nth)
      then have "mid < Suc mid + j" "Suc mid + j < length es" "x = es ! (Suc mid + j)" by auto
      then show ?thesis using sorted_wrt_nth_less [OF assms(1), of mid "Suc mid + j"] by simp
    qed
    have none: "map_of xs val = None" if "\<And>x. x \<in> set xs \<Longrightarrow> fst x \<noteq> val" for xs :: "(u64 \<times> bytes32) list"
      using that by (auto simp: map_of_eq_None_iff)
    have step: "slot_search val (slot_hashes_sysvar es) left right =
        (if val < fst ?e then slot_search val (slot_hashes_sysvar es) (mid + 1) right
         else if fst ?e < val then slot_search val (slot_hashes_sysvar es) left mid
         else Ok (Some (be_bytes 32 (snd ?e))))"
      by (subst slot_search.simps)
        (simp only: True if_True Let_def mid_def [symmetric] reads rbind_simps from_le_le_bytes, simp add: codec)
    have low: "val < fst ?e \<Longrightarrow> map_of (drop left (take mid es)) val = None" using above by (intro none) force
    have high: "fst ?e < val \<Longrightarrow> map_of upper val = None" using below by (intro none) force
    have same: "val = fst ?e \<Longrightarrow> map_of (drop left (take mid es)) val = None" using above by (intro none) force
    consider "val < fst ?e" | "fst ?e < val" | "val = fst ?e" by fastforce
    then show ?thesis
    proof cases
      case 1
      have "slot_search val (slot_hashes_sysvar es) (mid + 1) right = Ok (map_option (be_bytes 32) (map_of upper val))"
        using less.hyps [of right "mid + 1"] less.prems mid by (simp add: upper_def)
      then show ?thesis using 1 low by (cases "map_of upper val") (auto simp: step split map_add_def)
    next
      case 2
      have "slot_search val (slot_hashes_sysvar es) left mid = Ok (map_option (be_bytes 32) (map_of (drop left (take mid es)) val))"
        using less.hyps [of mid left] mid by simp
      then show ?thesis using 2 high by (auto simp: step split map_add_def split: option.split)
    next
      case 3
      then have "slot_search val (slot_hashes_sysvar es) left right = Ok (Some (be_bytes 32 (snd ?e)))"
        unfolding step by simp
      then show ?thesis using same [OF 3] 3 by (simp add: split map_add_def)
    qed
  qed
qed

text \<open>C26: the search finds the hash of every slot in the sysvar but the oldest, which the bound of the loop leaves out,
  and answers any other slot with the made-up hash.\<close>

theorem find_slot_hash_finds:
  assumes "sorted_wrt (\<lambda>a b. fst b < fst a) es" and "es \<noteq> []" and "length es * 40 + 8 < usize_bound"
  shows "find_slot_hash val (slot_hashes_sysvar es)
    = Ok (case map_of (butlast es) val of Some h \<Rightarrow> be_bytes 32 h | None \<Rightarrow> generate_fake_slot_hash val)"
proof -
  have len: "unat (of_nat (length es) :: u64) = length es"
    using assms(3) by (simp add: unsigned_of_nat take_bit_eq_mod)
  then have len': "uint (of_nat (length es) :: u64) = int (length es)" by (metis uint_nat)
  have "slice_at (slot_hashes_sysvar es) 0 8 = Ok (le_bytes 8 (of_nat (length es) :: u64))"
    by (simp add: slot_hashes_sysvar_def slice_at_def slice_from_def)
  moreover have "usize_of_int (int (length es) - 1) = length es - 1"
    using assms(2,3) by (cases es) (simp_all add: usize_of_int_nonneg nat_diff_distrib)
  ultimately show ?thesis
    using slot_search_finds [OF assms(1,3), of "length es - 1" val 0]
    by (simp add: find_slot_hash_def codec len len' butlast_conv_take split: option.split)
qed

theorem find_slot_hash_finds_witness:
  "find_slot_hash 8 (slot_hashes_sysvar [(9, 1), (8, 2), (5, 3)]) = Ok (be_bytes 32 (2 :: u256))
   \<and> find_slot_hash 5 (slot_hashes_sysvar [(9, 1), (8, 2), (5, 3)]) = Ok (generate_fake_slot_hash 5)"
  using find_slot_hash_finds [of "[(9, 1), (8, 2), (5, 3)]" 8] find_slot_hash_finds [of "[(9, 1), (8, 2), (5, 3)]" 5] by simp

end
