(* ===== verification/Account_Data.thy ===== *)
theory Account_Data
  imports Executor
begin

text \<open>
  The accounts of the program (\<open>program/src/account\<close>): a byte of tag, a packed header, and the rest.  The trait
  \<open>Packable\<close> is the record \<open>packable\<close>, its laws are the locale \<open>packable_laws\<close>, and every header of the program
  is an interpretation; what opening, initializing and saving an account do is proved once in the locale.

  An \<open>AccountInfo\<close> is the record \<open>owned_account\<close> of its fields.  \<open>Rent\<close> is a function from a size to the
  minimum balance, and \<open>is_exempt\<close> the comparison with it.
\<close>

section \<open>Headers\<close>

record 'a packable =
  pk_tag :: u8
  pk_size :: usize
  pk_unpack :: "bytes \<Rightarrow> 'a"
  pk_pack :: "'a \<Rightarrow> bytes"

definition field :: "nat \<Rightarrow> nat \<Rightarrow> bytes \<Rightarrow> bytes" where
  "field offset n bs = take n (drop offset bs)"

definition TAG_EMPTY :: u8 where "TAG_EMPTY = 0"
definition TAG_ACCOUNT_V3 :: u8 where "TAG_ACCOUNT_V3 = 12"
definition TAG_STATE :: u8 where "TAG_STATE = 22"
definition TAG_FINALIZED_STATE :: u8 where "TAG_FINALIZED_STATE = 31"
definition TAG_CONTRACT_STORAGE :: u8 where "TAG_CONTRACT_STORAGE = 42"
definition TAG_HOLDER :: u8 where "TAG_HOLDER = 51"

lemmas account_tags = TAG_EMPTY_def TAG_ACCOUNT_V3_def TAG_STATE_def TAG_FINALIZED_STATE_def TAG_CONTRACT_STORAGE_def
  TAG_HOLDER_def

subsection \<open>Ethereum accounts\<close>

record ether_data =
  ed_address :: address
  ed_bump_seed :: u8
  ed_trx_count :: u64
  ed_balance :: u256
  ed_generation :: u32
  ed_code_size :: u32
  ed_rw_blocked :: bool

definition ether_unpack :: "bytes \<Rightarrow> ether_data" where
  "ether_unpack bs = \<lparr>ed_address = from_be (field 0 20 bs), ed_bump_seed = from_le (field 20 1 bs),
     ed_trx_count = from_le (field 21 8 bs), ed_balance = from_le (field 29 32 bs),
     ed_generation = from_le (field 61 4 bs), ed_code_size = from_le (field 65 4 bs),
     ed_rw_blocked = (field 69 1 bs \<noteq> [0])\<rparr>"

definition ether_pack :: "ether_data \<Rightarrow> bytes" where
  "ether_pack d = be_bytes 20 (ed_address d) @ [ed_bump_seed d] @ le_bytes 8 (ed_trx_count d)
     @ le_bytes 32 (ed_balance d) @ le_bytes 4 (ed_generation d) @ le_bytes 4 (ed_code_size d)
     @ [of_bool (ed_rw_blocked d)]"

definition ether_account_packable :: "ether_data packable" where
  "ether_account_packable = \<lparr>pk_tag = TAG_ACCOUNT_V3, pk_size = 20 + 1 + 8 + 32 + 4 + 4 + 1, pk_unpack = ether_unpack,
     pk_pack = ether_pack\<rparr>"

subsection \<open>Storage cells\<close>

record storage_data =
  sd_address :: address
  sd_generation :: u32
  sd_index :: u256

definition storage_unpack :: "bytes \<Rightarrow> storage_data" where
  "storage_unpack bs = \<lparr>sd_address = from_be (field 0 20 bs), sd_generation = from_le (field 20 4 bs),
     sd_index = from_le (field 24 32 bs)\<rparr>"

definition storage_pack :: "storage_data \<Rightarrow> bytes" where
  "storage_pack d = be_bytes 20 (sd_address d) @ le_bytes 4 (sd_generation d) @ le_bytes 32 (sd_index d)"

definition storage_packable :: "storage_data packable" where
  "storage_packable = \<lparr>pk_tag = TAG_CONTRACT_STORAGE, pk_size = 20 + 4 + 32, pk_unpack = storage_unpack,
     pk_pack = storage_pack\<rparr>"

subsection \<open>The state of an iterative transaction\<close>

record state_data =
  st_owner :: pubkey
  st_transaction_hash :: bytes32
  st_caller :: address
  st_gas_limit :: u256
  st_gas_price :: u256
  st_gas_used :: u256
  st_operator :: pubkey
  st_slot :: u64
  st_accounts_len :: u64
  st_evm_state_len :: u64
  st_evm_machine_len :: u64

definition state_unpack :: "bytes \<Rightarrow> state_data" where
  "state_unpack bs = \<lparr>st_owner = from_be (field 0 32 bs), st_transaction_hash = from_be (field 32 32 bs),
     st_caller = from_be (field 64 20 bs), st_gas_limit = from_le (field 84 32 bs), st_gas_price = from_le (field 116 32 bs),
     st_gas_used = from_le (field 148 32 bs), st_operator = from_be (field 180 32 bs), st_slot = from_le (field 212 8 bs),
     st_accounts_len = from_le (field 220 8 bs), st_evm_state_len = from_le (field 228 8 bs),
     st_evm_machine_len = from_le (field 236 8 bs)\<rparr>"

definition state_pack :: "state_data \<Rightarrow> bytes" where
  "state_pack d = be_bytes 32 (st_owner d) @ be_bytes 32 (st_transaction_hash d) @ be_bytes 20 (st_caller d)
     @ le_bytes 32 (st_gas_limit d) @ le_bytes 32 (st_gas_price d) @ le_bytes 32 (st_gas_used d)
     @ be_bytes 32 (st_operator d) @ le_bytes 8 (st_slot d) @ le_bytes 8 (st_accounts_len d)
     @ le_bytes 8 (st_evm_state_len d) @ le_bytes 8 (st_evm_machine_len d)"

definition state_packable :: "state_data packable" where
  "state_packable = \<lparr>pk_tag = TAG_STATE, pk_size = 32 + 32 + 20 + 32 + 32 + 32 + 32 + 8 + 8 + 8 + 8,
     pk_unpack = state_unpack, pk_pack = state_pack\<rparr>"

record finalized_data =
  fd_owner :: pubkey
  fd_transaction_hash :: bytes32

definition finalized_unpack :: "bytes \<Rightarrow> finalized_data" where
  "finalized_unpack bs = \<lparr>fd_owner = from_be (field 0 32 bs), fd_transaction_hash = from_be (field 32 32 bs)\<rparr>"

definition finalized_pack :: "finalized_data \<Rightarrow> bytes" where
  "finalized_pack d = be_bytes 32 (fd_owner d) @ be_bytes 32 (fd_transaction_hash d)"

definition finalized_packable :: "finalized_data packable" where
  "finalized_packable = \<lparr>pk_tag = TAG_FINALIZED_STATE, pk_size = 32 + 32, pk_unpack = finalized_unpack,
     pk_pack = finalized_pack\<rparr>"

subsection \<open>Holders of a transaction\<close>

record holder_data =
  hd_owner :: pubkey
  hd_transaction_hash :: bytes32
  hd_transaction_len :: u64

definition holder_unpack :: "bytes \<Rightarrow> holder_data" where
  "holder_unpack bs = \<lparr>hd_owner = from_be (field 0 32 bs), hd_transaction_hash = from_be (field 32 32 bs),
     hd_transaction_len = from_le (field 64 8 bs)\<rparr>"

definition holder_pack :: "holder_data \<Rightarrow> bytes" where
  "holder_pack d = be_bytes 32 (hd_owner d) @ be_bytes 32 (hd_transaction_hash d) @ le_bytes 8 (hd_transaction_len d)"

definition holder_packable :: "holder_data packable" where
  "holder_packable = \<lparr>pk_tag = TAG_HOLDER, pk_size = 32 + 32 + 8, pk_unpack = holder_unpack, pk_pack = holder_pack\<rparr>"

section \<open>Accounts\<close>

text \<open>\<open>AccountData\<close>: the unpacked header, the account it was read from, and whether it has to be saved.\<close>

record 'a account_data =
  ad_dirty :: bool
  ad_data :: 'a
  ad_info :: owned_account

definition account_size :: "'a packable \<Rightarrow> usize" where
  "account_size P = 1 + pk_size P"

definition split_account_data :: "owned_account \<Rightarrow> nat \<Rightarrow> (u8 \<times> bytes \<times> bytes) result" where
  "split_account_data info n =
    (if length (oa_data info) < 1 + n then Err (AccountError (AccountInvalidData (oa_key info)))
     else Ok (hd (oa_data info), take n (tl (oa_data info)), drop n (tl (oa_data info))))"

definition from_account :: "'a packable \<Rightarrow> pubkey \<Rightarrow> owned_account \<Rightarrow> 'a account_data result" where
  "from_account P program_id info =
    (if oa_owner info \<noteq> program_id then Err (AccountError (AccountInvalidOwner (oa_key info) program_id))
     else
       rbind (split_account_data info (pk_size P)) (\<lambda>(tag, header, remaining).
       if tag \<noteq> pk_tag P then Err (AccountError (AccountInvalidTag (oa_key info) (pk_tag P)))
       else Ok \<lparr>ad_dirty = False, ad_data = pk_unpack P header, ad_info = info\<rparr>))"

text \<open>The tag, the header and the rest filled with zeros\<close>

definition fresh_account :: "'a packable \<Rightarrow> 'a \<Rightarrow> bytes \<Rightarrow> owned_account \<Rightarrow> 'a account_data" where
  "fresh_account P d remaining info = \<lparr>ad_dirty = False, ad_data = d,
     ad_info = info\<lparr>oa_data := pk_tag P # pk_pack P d @ replicate (length remaining) 0\<rparr>\<rparr>"

definition account_init :: "(usize \<Rightarrow> u64) \<Rightarrow> 'a packable \<Rightarrow> pubkey \<Rightarrow> owned_account \<Rightarrow> 'a \<Rightarrow> 'a account_data result" where
  "account_init minimum_balance P program_id info d =
    (if oa_owner info \<noteq> program_id then Err (AccountError (AccountInvalidOwner (oa_key info) program_id))
     else if \<not> oa_is_writable info then Err (AccountError (AccountNotWritable (oa_key info)))
     else if oa_lamports info < minimum_balance (length (oa_data info))
     then Err (AccountError (AccountNotRentExempt (oa_key info)))
     else
       rbind (split_account_data info (pk_size P)) (\<lambda>(tag, header, remaining).
       if tag \<noteq> TAG_EMPTY then Err (AccountError (AccountAlreadyInitialized (oa_key info)))
       else Ok (fresh_account P d remaining info)))"

definition account_replace :: "'b packable \<Rightarrow> 'a account_data \<Rightarrow> 'b \<Rightarrow> 'b account_data result" where
  "account_replace Q a d =
    (let info = ad_info a in
     if \<not> oa_is_writable info then Err (AccountError (AccountNotWritable (oa_key info)))
     else
       rbind (split_account_data info (pk_size Q)) (\<lambda>(tag, header, remaining).
       Ok (fresh_account Q d remaining info)))"

text \<open>\<open>DerefMut\<close>, and \<open>Drop\<close>, which saves the header of a changed account and panics when it cannot.\<close>

definition account_modify :: "('a \<Rightarrow> 'a) \<Rightarrow> 'a account_data \<Rightarrow> 'a account_data" where
  "account_modify f a = a\<lparr>ad_dirty := True, ad_data := f (ad_data a)\<rparr>"

definition account_drop :: "'a packable \<Rightarrow> 'a account_data \<Rightarrow> owned_account result" where
  "account_drop P a =
    (let info = ad_info a in
     if \<not> ad_dirty a then Ok info
     else
       rbind (rassert (oa_is_writable info)) (\<lambda>_.
       case split_account_data info (pk_size P) of
         Ok (tag, header, remaining) \<Rightarrow> Ok (info\<lparr>oa_data := tag # pk_pack P (ad_data a) @ remaining\<rparr>)
       | _ \<Rightarrow> Panic))"

definition account_tag :: "pubkey \<Rightarrow> owned_account \<Rightarrow> u8 result" where
  "account_tag program_id info =
    (if oa_owner info \<noteq> program_id then Err (AccountError (AccountInvalidOwner (oa_key info) program_id))
     else if oa_data info = [] then Err (AccountError (AccountInvalidData (oa_key info)))
     else Ok (hd (oa_data info)))"

text \<open>The lamports go to the operator, the data is filled with zeros.\<close>

definition account_delete :: "owned_account \<Rightarrow> owned_account \<Rightarrow> owned_account \<times> owned_account" where
  "account_delete account operator =
    (account\<lparr>oa_lamports := 0, oa_data := replicate (length (oa_data account)) 0\<rparr>,
     operator\<lparr>oa_lamports := oa_lamports operator + oa_lamports account\<rparr>)"

section \<open>The laws of a header\<close>

locale packable_laws =
  fixes P :: "'a packable"
  assumes pack_size: "length (pk_pack P d) = pk_size P"
    and unpack_pack: "pk_unpack P (pk_pack P d) = d"
    and tag_used: "pk_tag P \<noteq> TAG_EMPTY"
begin

lemma split_fresh: "split_account_data (info\<lparr>oa_data := t # pk_pack P d @ rest\<rparr>) (pk_size P) = Ok (t, pk_pack P d, rest)"
  by (simp add: split_account_data_def pack_size)

lemma open_packed:
  "oa_owner info = program_id \<Longrightarrow> from_account P program_id (info\<lparr>oa_data := pk_tag P # pk_pack P d @ rest\<rparr>)
    = Ok \<lparr>ad_dirty = False, ad_data = d, ad_info = info\<lparr>oa_data := pk_tag P # pk_pack P d @ rest\<rparr>\<rparr>"
  by (simp add: from_account_def split_fresh unpack_pack)

lemma init_opens:
  assumes "account_init rent P program_id info d = Ok a"
  shows "from_account P program_id (ad_info a) = Ok a" and "ad_data a = d"
  using assms open_packed [of info program_id d]
  by (auto simp: account_init_def fresh_account_def rbind_Ok_iff split: if_splits)

lemma save_opens:
  assumes a: "from_account P program_id info = Ok a" and w: "oa_is_writable info"
  shows "\<exists>info'. account_drop P (account_modify f a) = Ok info'
    \<and> from_account P program_id info' = Ok \<lparr>ad_dirty = False, ad_data = f (ad_data a), ad_info = info'\<rparr>
    \<and> drop (account_size P) (oa_data info') = drop (account_size P) (oa_data info)
    \<and> length (oa_data info') = length (oa_data info)"
proof -
  from a obtain t header rest where owner: "oa_owner info = program_id" and tag: "t = pk_tag P"
      and split: "split_account_data info (pk_size P) = Ok (t, header, rest)" and info: "ad_info a = info"
    by (auto simp: from_account_def rbind_Ok_iff split: if_splits)
  from split have "Suc (pk_size P) \<le> length (oa_data info)" and rest: "rest = drop (pk_size P) (tl (oa_data info))"
    by (auto simp: split_account_data_def split: if_splits)
  then show ?thesis
    using open_packed [OF owner, of "f (ad_data a)" rest] owner
    by (simp add: account_drop_def account_modify_def info w split tag account_size_def pack_size drop_Suc)
qed

lemma other_tag:
  assumes "from_account P program_id info = Ok a" and "pk_tag Q \<noteq> pk_tag P"
  shows "\<exists>e. from_account Q program_id info = Err e"
  using assms by (auto simp: from_account_def split_account_data_def split: if_splits)

lemma tag_of_account: "from_account P program_id info = Ok a \<Longrightarrow> account_tag program_id info = Ok (pk_tag P)"
  by (auto simp: from_account_def split_account_data_def account_tag_def split: if_splits)

end

section \<open>The headers satisfy the laws\<close>

lemma field_append [simp]:
  "length xs = n \<Longrightarrow> field 0 n (xs @ ys) = xs"
  "length xs \<le> k \<Longrightarrow> field k n (xs @ ys) = field (k - length xs) n ys"
  by (simp_all add: field_def)

lemma field_all [simp]: "length xs = n \<Longrightarrow> field 0 n xs = xs"
  by (simp add: field_def)

lemma field_Cons [simp]: "field 0 (Suc 0) (x # xs) = [x]" "0 < k \<Longrightarrow> field k n (x # xs) = field (k - 1) n xs"
  by (simp_all add: field_def drop_Cons')

lemma from_le_single [simp]: "(from_le [b] :: u8) = b"
  by (simp add: from_le_def)

lemma of_bool_single: "([of_bool b] \<noteq> [0 :: u8]) = b"
  by simp

interpretation ether_account: packable_laws ether_account_packable
  by unfold_locales
    (simp_all add: ether_account_packable_def ether_pack_def ether_unpack_def codec account_tags)

interpretation storage_account: packable_laws storage_packable
  by unfold_locales (simp_all add: storage_packable_def storage_pack_def storage_unpack_def codec account_tags)

interpretation state_account: packable_laws state_packable
  by unfold_locales (simp_all add: state_packable_def state_pack_def state_unpack_def codec account_tags)

interpretation finalized_account: packable_laws finalized_packable
  by unfold_locales (simp_all add: finalized_packable_def finalized_pack_def finalized_unpack_def codec account_tags)

interpretation holder_account: packable_laws holder_packable
  by unfold_locales (simp_all add: holder_packable_def holder_pack_def holder_unpack_def codec account_tags)

end
