(* ===== verification/State_Account.thy ===== *)
theory State_Account
  imports Account_Data Transaction
begin

text \<open>
  Holders of a transaction that arrives in parts (\<open>program/src/account/holder.rs\<close>) and the state of a
  transaction that is executed in several iterations (\<open>program/src/state_account.rs\<close>): its deposit, the accounts it
  has blocked, and the region in which the executor and the machine are saved.
\<close>

section \<open>Errors of the Solana API\<close>

text \<open>\<open>From<Error> for ProgramError\<close>: the \<open>?\<close> operator in a function that returns a \<open>ProgramError\<close>\<close>

definition to_program_error :: "error \<Rightarrow> program_error" where
  "to_program_error e = (case e of ProgramError p \<Rightarrow> p | _ \<Rightarrow> CustomProgramError 0)"

definition as_program_error :: "'a result \<Rightarrow> 'a result" where
  "as_program_error r = (case r of Err e \<Rightarrow> Err (ProgramError (to_program_error e)) | _ \<Rightarrow> r)"

lemma as_program_error_Ok [simp]: "as_program_error r = Ok x \<longleftrightarrow> r = Ok x"
  by (cases r) (auto simp: as_program_error_def)

text \<open>\<open>data[begin..end].copy_from_slice\<close>\<close>

definition put_slice :: "nat \<Rightarrow> bytes \<Rightarrow> bytes \<Rightarrow> bytes result" where
  "put_slice begin' bs data =
    (if begin' + length bs \<le> length data then Ok (take begin' data @ bs @ drop (begin' + length bs) data) else Panic)"

lemma put_slice_Ok: "put_slice b bs data = Ok data' \<longleftrightarrow>
    b + length bs \<le> length data \<and> data' = take b data @ bs @ drop (b + length bs) data"
  by (auto simp: put_slice_def)

lemma put_slice_parts:
  assumes "put_slice b bs data = Ok data'"
  shows "length data' = length data" and "take b data' = take b data" and "take (length bs) (drop b data') = bs"
    and "drop (b + length bs) data' = drop (b + length bs) data"
  using assms by (auto simp: put_slice_Ok)

section \<open>Holders\<close>

abbreviation holder_size :: usize where
  "holder_size \<equiv> account_size holder_packable"

lemma holder_size: "holder_size = 73"
  by (simp add: account_size_def holder_packable_def)

definition holder_clear :: "holder_data account_data \<Rightarrow> holder_data account_data result" where
  "holder_clear h =
    (let h = account_modify (\<lambda>d. d\<lparr>hd_transaction_hash := 0, hd_transaction_len := 0\<rparr>) h;
         data = oa_data (ad_info h) in
     if length data < holder_size then Panic
     else Ok (h\<lparr>ad_info := (ad_info h)\<lparr>oa_data := take holder_size data @ replicate (length data - holder_size) 0\<rparr>\<rparr>))"

definition holder_write :: "usize \<Rightarrow> bytes \<Rightarrow> holder_data account_data \<Rightarrow> holder_data account_data result" where
  "holder_write offset bs h =
    rbind (ok_or (checked_add_usize holder_size offset) IntegerOverflow) (\<lambda>begin'.
    rbind (ok_or (checked_add_usize begin' (length bs)) IntegerOverflow) (\<lambda>end'.
    rbind (put_slice begin' bs (oa_data (ad_info h))) (\<lambda>data.
    let h = h\<lparr>ad_info := (ad_info h)\<lparr>oa_data := data\<rparr>\<rparr> in
    Ok (account_modify (\<lambda>d. d\<lparr>hd_transaction_len := of_nat (max (unat (hd_transaction_len d)) (offset + length bs))\<rparr>) h))))"

definition holder_transaction :: "holder_data account_data \<Rightarrow> bytes result" where
  "holder_transaction h =
    (let data = oa_data (ad_info h); n = unat (hd_transaction_len (ad_data h)) in
     if length data < holder_size then Panic
     else if length data - holder_size < n then Panic
     else Ok (take n (drop holder_size data)))"

definition holder_validate_owner :: "pubkey \<Rightarrow> holder_data account_data \<Rightarrow> unit result" where
  "holder_validate_owner operator h =
    (if hd_owner (ad_data h) \<noteq> operator then Err (AccountError (HolderInvalidOwner (hd_owner (ad_data h)) operator))
     else Ok ())"

definition holder_validate_transaction :: "transaction \<Rightarrow> holder_data account_data \<Rightarrow> unit result" where
  "holder_validate_transaction trx h =
    (if hd_transaction_hash (ad_data h) \<noteq> tx_hash trx
     then Err (AccountError (HolderInvalidHash (hd_transaction_hash (ad_data h)) (tx_hash trx))) else Ok ())"

lemma unat_of_nat_u64: "n < usize_bound \<Longrightarrow> unat (of_nat n :: u64) = n"
  by (simp add: unsigned_of_nat take_bit_eq_mod)

text \<open>A part of a transaction that is written behind what a holder has already extends the transaction by exactly
  that part.\<close>

theorem holder_write_appends:
  assumes "holder_transaction h = Ok old" and "holder_write (length old) bs h = Ok h'"
    and "length (oa_data (ad_info h)) < usize_bound"
  shows "holder_transaction h' = Ok (old @ bs)"
proof -
  let ?data = "oa_data (ad_info h)" and ?n = "unat (hd_transaction_len (ad_data h))"
  have fit: "holder_size \<le> length ?data" "?n \<le> length ?data - holder_size" and old: "old = take ?n (drop holder_size ?data)"
    using assms(1) by (auto simp: holder_transaction_def Let_def split: if_splits)
  then have n: "length old = ?n" by simp
  obtain data where put: "put_slice (holder_size + ?n) bs ?data = Ok data" and h': "h' = account_modify
      (\<lambda>d. d\<lparr>hd_transaction_len := of_nat (max (unat (hd_transaction_len d)) (?n + length bs))\<rparr>)
      (h\<lparr>ad_info := (ad_info h)\<lparr>oa_data := data\<rparr>\<rparr>)"
    using assms(2) by (auto simp: holder_write_def n rbind_Ok_iff Let_def)
  note parts = put_slice_parts [OF put]
  have le: "holder_size + ?n + length bs \<le> length ?data" using put by (simp add: put_slice_Ok)
  have "unat (of_nat (?n + length bs) :: u64) = ?n + length bs"
    by (rule unat_of_nat_u64) (use le assms(3) in linarith)
  then have len: "unat (hd_transaction_len (ad_data h')) = ?n + length bs"
    by (simp add: h' account_modify_def max_def)
  have "take ?n (drop holder_size data) = old"
    unfolding take_drop using parts(2) by (simp add: old take_drop add.commute)
  then have new: "take (?n + length bs) (drop holder_size data) = old @ bs"
    using parts(3) by (simp add: take_add add.commute [of ?n holder_size])
  have data: "oa_data (ad_info h') = data" by (simp add: h' account_modify_def)
  show ?thesis unfolding holder_transaction_def Let_def data len new using le parts(1) by simp
qed

theorem holder_write_appends_witness:
  "(let info = \<lparr>oa_key = 5, oa_is_signer = False, oa_is_writable = True, oa_lamports = 0, oa_data = replicate 73 0 @ [1, 2, 0, 0],
       oa_owner = 8, oa_executable = False, oa_rent_epoch = 0\<rparr>;
     h = \<lparr>ad_dirty = False, ad_data = \<lparr>hd_owner = 1, hd_transaction_hash = 0, hd_transaction_len = 2\<rparr>, ad_info = info\<rparr> in
   case holder_write 2 [3, 4] h of Ok h' \<Rightarrow> holder_transaction h' = Ok [1, 2, 3, 4] | _ \<Rightarrow> False)"
proof -
  let ?h = "\<lparr>ad_dirty = False, ad_data = \<lparr>hd_owner = 1, hd_transaction_hash = 0, hd_transaction_len = 2\<rparr>,
     ad_info = \<lparr>oa_key = 5, oa_is_signer = False, oa_is_writable = True, oa_lamports = 0, oa_data = replicate 73 0 @ [1, 2, 0, 0],
       oa_owner = 8, oa_executable = False, oa_rent_epoch = 0\<rparr>\<rparr> :: holder_data account_data"
  have old: "holder_transaction ?h = Ok [1, 2]" by (simp add: holder_transaction_def holder_size Let_def)
  obtain h' where run: "holder_write (length [1 :: u8, 2]) [3, 4] ?h = Ok h'"
    by (simp add: holder_write_def holder_size put_slice_def Let_def checked_add_usize_def)
  from holder_write_appends [OF old run] run show ?thesis by (simp add: Let_def numeral_2_eq_2)
qed

section \<open>The state of an iterative transaction\<close>

record blocked_account =
  ba_key :: pubkey
  ba_exists :: bool
  ba_is_writable :: bool

definition ACCOUNT_CHUNK_LEN :: usize where
  "ACCOUNT_CHUNK_LEN = 1 + 1 + 32"

abbreviation state_size :: usize where
  "state_size \<equiv> account_size state_packable"

lemma state_size: "state_size = 245"
  by (simp add: account_size_def state_packable_def)

type_synonym state_account = "state_data account_data"

definition is_outdated :: "bytes32 \<Rightarrow> finalized_data \<Rightarrow> bool" where
  "is_outdated transaction_hash f \<longleftrightarrow> fd_transaction_hash f \<noteq> transaction_hash"

definition blocked_accounts_region :: "state_data \<Rightarrow> usize \<times> usize" where
  "blocked_accounts_region d =
    (state_size, usize_wrap (state_size + usize_wrap (unat (st_accounts_len d) * ACCOUNT_CHUNK_LEN)))"

definition evm_data_region :: "state_account \<Rightarrow> usize \<times> usize" where
  "evm_data_region a = (snd (blocked_accounts_region (ad_data a)), length (oa_data (ad_info a)))"

definition evm_data :: "state_account \<Rightarrow> bytes result" where
  "evm_data a = (let (begin', end') = evm_data_region a in unwrap (slice_get (oa_data (ad_info a)) begin' end'))"

definition put_evm_data :: "bytes \<Rightarrow> state_account \<Rightarrow> state_account result" where
  "put_evm_data bs a = rbind (put_slice (fst (evm_data_region a)) bs (oa_data (ad_info a))) (\<lambda>data.
     Ok (a\<lparr>ad_info := (ad_info a)\<lparr>oa_data := data\<rparr>\<rparr>))"

definition account_exists :: "pubkey \<Rightarrow> owned_account \<Rightarrow> bool" where
  "account_exists program_id info \<longleftrightarrow>
     oa_owner info = program_id \<and> oa_data info \<noteq> [] \<and> hd (oa_data info) = TAG_ACCOUNT_V3"

text \<open>\<open>chunks_exact(34)\<close>: is_writable, exists, key\<close>

fun read_chunks :: "bytes \<Rightarrow> blocked_account list" where
  "read_chunks bs =
    (if length bs < 34 then []
     else \<lparr>ba_key = from_be (take 32 (drop 2 bs)), ba_exists = (bs ! 1 \<noteq> 0), ba_is_writable = (bs ! 0 \<noteq> 0)\<rparr>
       # read_chunks (drop 34 bs))"

declare read_chunks.simps [simp del]

definition write_chunk :: "blocked_account \<Rightarrow> bytes" where
  "write_chunk b = [of_bool (ba_is_writable b), of_bool (ba_exists b)] @ be_bytes 32 (ba_key b)"

definition write_chunks :: "blocked_account list \<Rightarrow> bytes" where
  "write_chunks bs = concat (map write_chunk bs)"

definition read_blocked_accounts :: "state_account \<Rightarrow> blocked_account list result" where
  "read_blocked_accounts a =
    (let (begin', end') = blocked_accounts_region (ad_data a); data = oa_data (ad_info a) in
     if length data < end' then Err (ProgramError AccountDataTooSmall)
     else rbind (unwrap (slice_get data begin' end')) (\<lambda>bs. Ok (read_chunks bs)))"

definition meta_of_account :: "pubkey \<Rightarrow> owned_account \<Rightarrow> blocked_account" where
  "meta_of_account program_id info = \<lparr>ba_key = oa_key info, ba_exists = account_exists program_id info,
     ba_is_writable = oa_is_writable info\<rparr>"

definition write_blocked_accounts :: "pubkey \<Rightarrow> owned_account list \<Rightarrow> state_account \<Rightarrow> state_account result" where
  "write_blocked_accounts program_id accounts a =
    rbind (rassert (unat (st_accounts_len (ad_data a)) = length accounts)) (\<lambda>_.
    let (begin', end') = blocked_accounts_region (ad_data a); data = oa_data (ad_info a) in
    if length data < end' then Err (ProgramError AccountDataTooSmall)
    else
      rbind (unwrap (slice_get data begin' end')) (\<lambda>_.
      rbind (put_slice begin' (write_chunks (map (meta_of_account program_id) accounts)) data) (\<lambda>data.
      Ok (a\<lparr>ad_info := (ad_info a)\<lparr>oa_data := data\<rparr>\<rparr>))))"

text \<open>\<open>data.copy_within(range, dest)\<close>: the ranges may overlap.\<close>

definition copy_within :: "nat \<Rightarrow> nat \<Rightarrow> nat \<Rightarrow> bytes \<Rightarrow> bytes result" where
  "copy_within begin' end' dest data =
    (case slice_get data begin' end' of
       Some bs \<Rightarrow> put_slice dest bs data
     | None \<Rightarrow> Panic)"

definition update_blocked_accounts :: "blocked_account list \<Rightarrow> state_account \<Rightarrow> state_account result" where
  "update_blocked_accounts accounts a =
    (let evm_data_len = usize_wrap (unat (st_evm_state_len (ad_data a)) + unat (st_evm_machine_len (ad_data a)));
         evm_data_offset = fst (evm_data_region a);
         a = account_modify (\<lambda>d. d\<lparr>st_accounts_len := of_nat (length accounts)\<rparr>) a;
         (accounts_begin, accounts_end) = blocked_accounts_region (ad_data a) in
     rbind (copy_within evm_data_offset (usize_wrap (evm_data_offset + evm_data_len)) accounts_end (oa_data (ad_info a))) (\<lambda>data.
     rbind (unwrap (slice_get data accounts_begin accounts_end)) (\<lambda>_.
     rbind (put_slice accounts_begin (write_chunks accounts) data) (\<lambda>data.
     Ok (a\<lparr>ad_info := (ad_info a)\<lparr>oa_data := data\<rparr>\<rparr>)))))"

lemma length_write_chunks [simp]: "length (write_chunks bs) = length bs * ACCOUNT_CHUNK_LEN"
  by (induction bs) (auto simp: write_chunks_def write_chunk_def ACCOUNT_CHUNK_LEN_def)

lemma read_write_chunks: "read_chunks (write_chunks bs) = bs"
proof (induction bs)
  case Nil
  then show ?case by (simp add: write_chunks_def read_chunks.simps ACCOUNT_CHUNK_LEN_def)
next
  case (Cons b bs)
  have chunks: "write_chunks (b # bs) = of_bool (ba_is_writable b) # of_bool (ba_exists b) # be_bytes 32 (ba_key b) @ write_chunks bs"
    by (simp add: write_chunks_def write_chunk_def)
  have "drop 34 (write_chunks (b # bs)) = write_chunks bs" "take 32 (drop 2 (write_chunks (b # bs))) = be_bytes 32 (ba_key b)"
    "write_chunks (b # bs) ! 0 = of_bool (ba_is_writable b)" "write_chunks (b # bs) ! 1 = of_bool (ba_exists b)"
    by (simp_all add: chunks)
  with Cons.IH show ?case
    by (subst read_chunks.simps) (simp add: ACCOUNT_CHUNK_LEN_def codec)
qed

text \<open>When the list of blocked accounts changes its length, the saved executor and machine move with it: afterwards
  the account holds the new list and, behind it, the same saved bytes.\<close>

theorem update_keeps_evm_data:
  assumes "update_blocked_accounts accounts a = Ok a'" and "evm_data a = Ok saved"
    and "n = unat (st_evm_state_len (ad_data a)) + unat (st_evm_machine_len (ad_data a))"
    and "length (oa_data (ad_info a)) + n < usize_bound" and "state_size + length accounts * ACCOUNT_CHUNK_LEN < usize_bound"
  shows "read_blocked_accounts a' = Ok accounts \<and> (\<exists>saved'. evm_data a' = Ok saved' \<and> take n saved' = take n saved)"
proof -
  let ?data = "oa_data (ad_info a)" and ?off = "snd (blocked_accounts_region (ad_data a))"
  let ?fin = "state_size + length accounts * ACCOUNT_CHUNK_LEN"
  have chunk: "0 < ACCOUNT_CHUNK_LEN" by (simp add: ACCOUNT_CHUNK_LEN_def)
  then have "length accounts \<le> length accounts * ACCOUNT_CHUNK_LEN" by simp
  then have acc: "length accounts < usize_bound" "length accounts * ACCOUNT_CHUNK_LEN < usize_bound" using assms(5) by linarith+
  have saved: "?off \<le> length ?data" "saved = drop ?off ?data"
    using assms(2) by (auto simp: evm_data_def evm_data_region_def unwrap_def slice_get_def Let_def split: if_splits)
  then have wrap: "usize_wrap (?off + usize_wrap n) = ?off + n"
    using assms(4) by (simp only: usize_wrap_id)
  have region: "blocked_accounts_region ((ad_data a)\<lparr>st_accounts_len := of_nat (length accounts)\<rparr>) = (state_size, ?fin)"
    using assms(5) acc by (simp add: blocked_accounts_region_def unat_of_nat_u64)
  obtain data1 data2 where moved: "copy_within ?off (?off + n) ?fin ?data = Ok data1"
      and put: "put_slice state_size (write_chunks accounts) data1 = Ok data2"
      and a': "a' = (account_modify (\<lambda>d. d\<lparr>st_accounts_len := of_nat (length accounts)\<rparr>) a)\<lparr>ad_info := (ad_info a)\<lparr>oa_data := data2\<rparr>\<rparr>"
    using assms(1)
    by (auto simp: update_blocked_accounts_def Let_def account_modify_def region evm_data_region_def wrap
        rbind_Ok_iff assms(3) [symmetric])
  from moved have "?off + n \<le> length ?data" and data1: "data1 = take ?fin ?data @ take n saved @ drop (?fin + n) ?data"
      and fit: "?fin + n \<le> length ?data"
    by (auto simp: copy_within_def slice_get_def put_slice_Ok saved(2) split: if_splits)
  note there = put_slice_parts [OF put, simplified]
  have n: "length (take n saved) = n" using \<open>?off + n \<le> length ?data\<close> saved by simp
  have len: "length data2 = length ?data" using fit n there(1) by (simp add: data1 del: length_take) simp
  have behind: "take n (drop ?fin data2) = take n saved" using fit n there(4) by (simp add: data1)
  have "slice_get data2 state_size ?fin = Some (write_chunks accounts)"
    using fit there(3) len by (simp add: slice_get_def)
  then have "read_blocked_accounts a' = Ok accounts"
    using fit len by (simp add: read_blocked_accounts_def a' account_modify_def region read_write_chunks)
  moreover have "evm_data a' = Ok (drop ?fin data2)"
    using fit len by (simp add: evm_data_def evm_data_region_def a' account_modify_def region slice_get_def)
  ultimately show ?thesis using behind by blast
qed

theorem update_keeps_evm_data_witness:
  "(let info = \<lparr>oa_key = 5, oa_is_signer = False, oa_is_writable = True, oa_lamports = 0,
       oa_data = replicate 245 0 @ [1, 2, 3] @ replicate 40 0, oa_owner = 8, oa_executable = False, oa_rent_epoch = 0\<rparr>;
     a = \<lparr>ad_dirty = False, ad_data = \<lparr>st_owner = 1, st_transaction_hash = 0, st_caller = 0, st_gas_limit = 0, st_gas_price = 0,
       st_gas_used = 0, st_operator = 0, st_slot = 0, st_accounts_len = 0, st_evm_state_len = 2, st_evm_machine_len = 1\<rparr>,
       ad_info = info\<rparr>;
     b = \<lparr>ba_key = 7, ba_exists = True, ba_is_writable = False\<rparr> in
   case update_blocked_accounts [b] a of
     Ok a' \<Rightarrow> read_blocked_accounts a' = Ok [b] \<and> (case evm_data a' of Ok s \<Rightarrow> take 3 s = [1, 2, 3] | _ \<Rightarrow> False)
   | _ \<Rightarrow> False)"
proof -
  let ?a = "\<lparr>ad_dirty = False, ad_data = \<lparr>st_owner = 1, st_transaction_hash = 0, st_caller = 0, st_gas_limit = 0, st_gas_price = 0,
       st_gas_used = 0, st_operator = 0, st_slot = 0, st_accounts_len = 0, st_evm_state_len = 2, st_evm_machine_len = 1\<rparr>,
     ad_info = \<lparr>oa_key = 5, oa_is_signer = False, oa_is_writable = True, oa_lamports = 0,
       oa_data = replicate 245 0 @ [1, 2, 3] @ replicate 40 0, oa_owner = 8, oa_executable = False, oa_rent_epoch = 0\<rparr>\<rparr>
     :: state_account"
  let ?b = "\<lparr>ba_key = 7, ba_exists = True, ba_is_writable = False\<rparr>"
  have saved: "evm_data ?a = Ok ([1, 2, 3] @ replicate 40 0)"
    by (simp add: evm_data_def evm_data_region_def blocked_accounts_region_def state_size slice_get_def unwrap_def)
  obtain a' where run: "update_blocked_accounts [?b] ?a = Ok a'"
    by (simp add: update_blocked_accounts_def evm_data_region_def blocked_accounts_region_def state_size slice_get_def
        account_modify_def ACCOUNT_CHUNK_LEN_def copy_within_def put_slice_def Let_def unwrap_def)
  from update_keeps_evm_data [OF run saved, of 3] run show ?thesis
    by (auto simp: state_size ACCOUNT_CHUNK_LEN_def Let_def)
qed

end
