(* ===== verification/State_Lifecycle.thy ===== *)
theory State_Lifecycle
  imports State_Account
begin

text \<open>
  The life of an iterative transaction (\<open>State::new\<close>, \<open>restore\<close> and \<open>finalize\<close> of
  \<open>program/src/state_account.rs\<close>): a holder, or the remains of an earlier transaction, becomes a state; every
  further iteration restores it; at the end it becomes a finalized state, which keeps the hash.

  The slot of the clock and the transfer of the system program are parameters: a transfer gets the amount and the
  lamports of both sides and returns the new ones.  The accounts of an instruction are distinct.
\<close>

section \<open>Deposits\<close>

type_synonym system_transfer_call = "u64 \<Rightarrow> u64 \<Rightarrow> u64 \<Rightarrow> (u64 \<times> u64) result"

definition PAYMENT_TO_DEPOSIT :: u64 where
  "PAYMENT_TO_DEPOSIT = 5000"

definition OPERATOR_PRIORITY_SLOTS :: u64 where
  "OPERATOR_PRIORITY_SLOTS = 16"

datatype deposit = ReturnToOperator owned_account | Burn owned_account

definition make_deposit :: "system_transfer_call \<Rightarrow> owned_account \<Rightarrow> state_account \<Rightarrow> (state_account \<times> owned_account) result" where
  "make_deposit transfer source a =
    rbind (transfer PAYMENT_TO_DEPOSIT (oa_lamports source) (oa_lamports (ad_info a))) (\<lambda>(from', to').
    Ok (a\<lparr>ad_info := (ad_info a)\<lparr>oa_lamports := to'\<rparr>\<rparr>, source\<lparr>oa_lamports := from'\<rparr>))"

definition withdraw_deposit :: "owned_account \<Rightarrow> state_account \<Rightarrow> (state_account \<times> owned_account) result" where
  "withdraw_deposit target a =
    rbind (if oa_lamports (ad_info a) < PAYMENT_TO_DEPOSIT then Err (ProgramError InvalidArgument)
           else Ok (oa_lamports (ad_info a) - PAYMENT_TO_DEPOSIT)) (\<lambda>source_lamports.
    rbind (if oa_lamports target + PAYMENT_TO_DEPOSIT < oa_lamports target then Err (ProgramError InvalidArgument)
           else Ok (oa_lamports target + PAYMENT_TO_DEPOSIT)) (\<lambda>target_lamports.
    Ok (a\<lparr>ad_info := (ad_info a)\<lparr>oa_lamports := source_lamports\<rparr>\<rparr>, target\<lparr>oa_lamports := target_lamports\<rparr>)))"

section \<open>Creation\<close>

definition state_owner :: "pubkey \<Rightarrow> transaction \<Rightarrow> owned_account \<Rightarrow> pubkey result" where
  "state_owner program_id trx info =
    rbind (as_program_error (account_tag program_id info)) (\<lambda>tag.
    if tag = TAG_HOLDER then
      rbind (as_program_error (from_account holder_packable program_id info)) (\<lambda>holder. Ok (hd_owner (ad_data holder)))
    else if tag = TAG_FINALIZED_STATE then
      rbind (as_program_error (from_account finalized_packable program_id info)) (\<lambda>finalized_storage.
      if \<not> is_outdated (tx_hash trx) (ad_data finalized_storage)
      then Err (ProgramError (to_program_error (AccountError StorageAccountFinalized)))
      else Ok (fd_owner (ad_data finalized_storage)))
    else Err (ProgramError InvalidAccountData))"

definition state_new :: "(usize \<Rightarrow> u64) \<Rightarrow> u64 result \<Rightarrow> system_transfer_call \<Rightarrow> pubkey \<Rightarrow> owned_account \<Rightarrow> owned_account
    \<Rightarrow> owned_account list \<Rightarrow> address \<Rightarrow> transaction \<Rightarrow> (state_account \<times> owned_account) result" where
  "state_new minimum_balance clock_slot transfer program_id info operator remaining_accounts caller trx =
    rbind (state_owner program_id trx info) (\<lambda>owner.
    if owner \<noteq> oa_key operator then Err (ProgramError InvalidAccountData)
    else
      rbind clock_slot (\<lambda>slot_now.
      let d = \<lparr>st_owner = owner, st_transaction_hash = tx_hash trx, st_caller = caller, st_gas_limit = trx_gas_limit trx,
            st_gas_price = trx_gas_price trx, st_gas_used = 0, st_operator = oa_key operator, st_slot = slot_now,
            st_accounts_len = of_nat (length remaining_accounts), st_evm_state_len = 0, st_evm_machine_len = 0\<rparr>;
          info = info\<lparr>oa_data := 0 # tl (oa_data info)\<rparr> in
      rbind (as_program_error (account_init minimum_balance state_packable program_id info d)) (\<lambda>storage.
      rbind (make_deposit transfer operator storage) (\<lambda>(storage, operator).
      rbind (write_blocked_accounts program_id remaining_accounts storage) (\<lambda>storage.
      Ok (storage, operator))))))"

section \<open>The next iteration\<close>

fun check_accounts :: "pubkey \<Rightarrow> bool \<Rightarrow> (blocked_account \<times> owned_account) list \<Rightarrow> unit result" where
  "check_accounts program_id is_cancelling [] = Ok ()"
| "check_accounts program_id is_cancelling ((blocked, info) # rest) =
    (if ba_key blocked \<noteq> oa_key info then Err (ProgramError InvalidAccountData)
     else if ba_is_writable blocked \<and> \<not> oa_is_writable info then Err (ProgramError InvalidAccountData)
     else if \<not> is_cancelling \<and> \<not> ba_exists blocked \<and> account_exists program_id info
     then Err (ProgramError AccountAlreadyInitializedProgram)
     else check_accounts program_id is_cancelling rest)"

definition check_blocked_accounts :: "pubkey \<Rightarrow> owned_account list \<Rightarrow> bool \<Rightarrow> state_account \<Rightarrow> blocked_account list result" where
  "check_blocked_accounts program_id remaining_accounts is_cancelling a =
    rbind (read_blocked_accounts a) (\<lambda>blocked_accounts.
    if length blocked_accounts \<noteq> length remaining_accounts then Err (ProgramError NotEnoughAccountKeys)
    else rbind (check_accounts program_id is_cancelling (zip blocked_accounts remaining_accounts)) (\<lambda>_. Ok blocked_accounts))"

text \<open>The subtraction of the slots wraps.\<close>

definition state_restore :: "u64 result \<Rightarrow> pubkey \<Rightarrow> owned_account \<Rightarrow> owned_account \<Rightarrow> owned_account list \<Rightarrow> bool
    \<Rightarrow> (state_account \<times> blocked_account list) result" where
  "state_restore clock_slot program_id info operator remaining_accounts is_cancelling =
    rbind (as_program_error (account_tag program_id info)) (\<lambda>tag.
    if tag = TAG_FINALIZED_STATE then Err (ProgramError (to_program_error (AccountError StorageAccountFinalized)))
    else if tag = TAG_HOLDER then Err (ProgramError (to_program_error (AccountError StorageAccountUninitialized)))
    else
      rbind (as_program_error (from_account state_packable program_id info)) (\<lambda>storage.
      rbind (check_blocked_accounts program_id remaining_accounts is_cancelling storage) (\<lambda>blocked_accounts.
      rbind clock_slot (\<lambda>slot_now.
      if oa_key operator \<noteq> st_operator (ad_data storage) \<and> slot_now - st_slot (ad_data storage) \<le> OPERATOR_PRIORITY_SLOTS
      then Err (ProgramError InvalidAccountData)
      else
        let storage = (if st_operator (ad_data storage) \<noteq> oa_key operator
              then account_modify (\<lambda>d. d\<lparr>st_operator := oa_key operator, st_slot := slot_now\<rparr>) storage else storage) in
        Ok (storage, blocked_accounts)))))"

section \<open>The end\<close>

definition state_finalize :: "deposit \<Rightarrow> state_account \<Rightarrow> (finalized_data account_data \<times> owned_account) result" where
  "state_finalize deposit a =
    rbind (case deposit of ReturnToOperator operator \<Rightarrow> withdraw_deposit operator a
           | Burn incinerator \<Rightarrow> withdraw_deposit incinerator a) (\<lambda>(a, target).
    rbind (as_program_error (account_replace finalized_packable a
        \<lparr>fd_owner = st_owner (ad_data a), fd_transaction_hash = st_transaction_hash (ad_data a)\<rparr>)) (\<lambda>finalized.
    Ok (finalized, target)))"

section \<open>What holds of a state\<close>

lemma check_accounts_Ok:
  "check_accounts program_id c bs = Ok () \<longleftrightarrow> (\<forall>(b, i) \<in> set bs. ba_key b = oa_key i \<and> (ba_is_writable b \<longrightarrow> oa_is_writable i)
     \<and> (\<not> c \<and> \<not> ba_exists b \<longrightarrow> \<not> account_exists program_id i))"
  by (induction program_id c bs rule: check_accounts.induct) auto

lemma keys_of_zip: "length bs = length is \<Longrightarrow> \<forall>(b, i) \<in> set (zip bs is). f b = g i \<Longrightarrow> map f bs = map g is"
  by (induction bs "is" rule: list_induct2) auto

text \<open>C27: an iteration runs only with the accounts that the transaction has locked, in their order and as writable as
  they were; an account that did not exist then does not exist now, unless the transaction is being cancelled.  Another
  operator takes the transaction over only when more than sixteen slots (in arithmetic that wraps) have passed since the one
  who holds it began it or took it over, however active that one has been since; the slot is then that of the takeover, and
  otherwise it stays.\<close>

theorem restore_respects_locks:
  assumes "state_restore (Ok slot_now) program_id info operator remaining cancelling = Ok (a, blocked)"
  shows "map ba_key blocked = map oa_key remaining
    \<and> (\<forall>(b, i) \<in> set (zip blocked remaining). (ba_is_writable b \<longrightarrow> oa_is_writable i)
        \<and> (\<not> cancelling \<and> \<not> ba_exists b \<longrightarrow> \<not> account_exists program_id i))
    \<and> (\<exists>old. from_account state_packable program_id info = Ok old \<and> read_blocked_accounts old = Ok blocked
        \<and> st_operator (ad_data a) = oa_key operator \<and> st_transaction_hash (ad_data a) = st_transaction_hash (ad_data old)
        \<and> (oa_key operator = st_operator (ad_data old) \<or> OPERATOR_PRIORITY_SLOTS < slot_now - st_slot (ad_data old))
        \<and> st_slot (ad_data a) = (if oa_key operator = st_operator (ad_data old) then st_slot (ad_data old) else slot_now))"
proof -
  from assms obtain old where old: "from_account state_packable program_id info = Ok old"
      and check: "check_blocked_accounts program_id remaining cancelling old = Ok blocked"
      and rest: "(if oa_key operator \<noteq> st_operator (ad_data old) \<and> slot_now - st_slot (ad_data old) \<le> OPERATOR_PRIORITY_SLOTS
        then Err (ProgramError InvalidAccountData)
        else Ok (if st_operator (ad_data old) \<noteq> oa_key operator
          then account_modify (\<lambda>d. d\<lparr>st_operator := oa_key operator, st_slot := slot_now\<rparr>) old else old, blocked)) = Ok (a, blocked)"
    by (auto simp: state_restore_def rbind_Ok_iff Let_def simp del: not_le split: if_splits)
  then have op: "oa_key operator = st_operator (ad_data old) \<or> OPERATOR_PRIORITY_SLOTS < slot_now - st_slot (ad_data old)"
      and new: "a = (if st_operator (ad_data old) \<noteq> oa_key operator
        then account_modify (\<lambda>d. d\<lparr>st_operator := oa_key operator, st_slot := slot_now\<rparr>) old else old)"
    by (simp_all add: not_le split: if_splits)
  have a: "st_operator (ad_data a) = oa_key operator" "st_transaction_hash (ad_data a) = st_transaction_hash (ad_data old)"
      "st_slot (ad_data a) = (if oa_key operator = st_operator (ad_data old) then st_slot (ad_data old) else slot_now)"
    by (simp_all add: new account_modify_def)
  from check have "read_blocked_accounts old = Ok blocked" and len: "length blocked = length remaining"
      and each: "check_accounts program_id cancelling (zip blocked remaining) = Ok ()"
    by (auto simp: check_blocked_accounts_def rbind_Ok_iff split: if_splits)
  moreover have "map ba_key blocked = map oa_key remaining"
    using keys_of_zip [OF len] each unfolding check_accounts_Ok by fast
  moreover have "\<forall>(b, i) \<in> set (zip blocked remaining). (ba_is_writable b \<longrightarrow> oa_is_writable i)
        \<and> (\<not> cancelling \<and> \<not> ba_exists b \<longrightarrow> \<not> account_exists program_id i)"
    using each unfolding check_accounts_Ok by fast
  ultimately show ?thesis using old op a by blast
qed

text \<open>A header is read from the first bytes of an account.\<close>

lemma from_account_prefix:
  assumes a: "from_account P program_id info = Ok a" and "oa_owner info' = oa_owner info"
    and prefix: "take (account_size P) (oa_data info') = take (account_size P) (oa_data info)"
  shows "from_account P program_id info' = Ok (a\<lparr>ad_info := info'\<rparr>)"
proof -
  from a have len: "1 + pk_size P \<le> length (oa_data info)"
    by (auto simp: from_account_def split_account_data_def split: if_splits)
  have "length (take (account_size P) (oa_data info')) = 1 + pk_size P" unfolding prefix using len by (simp add: account_size_def)
  then have len': "1 + pk_size P \<le> length (oa_data info')" by (simp add: account_size_def)
  have split: "hd xs # take (pk_size P) (tl xs) = take (account_size P) xs" if "1 + pk_size P \<le> length xs" for xs :: bytes
    using that by (cases xs) (simp_all add: account_size_def)
  have "hd (oa_data info') = hd (oa_data info)" "take (pk_size P) (tl (oa_data info')) = take (pk_size P) (tl (oa_data info))"
    using split [OF len] split [OF len'] prefix by (metis list.inject)+
  then show ?thesis using a assms(2) len len'
    by (auto simp: from_account_def split_account_data_def split: if_splits)
qed

lemma payment_positive: "unat PAYMENT_TO_DEPOSIT = 5000"
  by (simp add: PAYMENT_TO_DEPOSIT_def)

lemma unat_add_nowrap: "\<not> (a + b < (a :: u64)) \<Longrightarrow> unat (a + b) = unat a + unat b"
  using no_olen_add_nat [of a b] unat_add_lem [of a b] by (auto simp: not_less)

definition deposit_target :: "deposit \<Rightarrow> owned_account" where
  "deposit_target deposit = (case deposit of ReturnToOperator operator \<Rightarrow> operator | Burn incinerator \<Rightarrow> incinerator)"

text \<open>C29: a finalized transaction does not run again: its account cannot be restored and a transaction with the same hash
  cannot start in it; and its deposit of 5000 lamports moves to the target, none are lost.\<close>

theorem finalized_never_reruns:
  assumes "state_finalize deposit a = Ok (f, target)" and "oa_owner (ad_info a) = program_id"
  shows "(\<exists>e. state_restore clock_slot program_id (ad_info f) operator remaining cancelling = Err e)
    \<and> (tx_hash trx = st_transaction_hash (ad_data a)
        \<longrightarrow> (\<exists>e. state_new rent clock_slot transfer program_id (ad_info f) operator remaining caller trx = Err e))
    \<and> unat (oa_lamports target) = unat (oa_lamports (deposit_target deposit)) + 5000
    \<and> unat (oa_lamports (ad_info f)) + 5000 = unat (oa_lamports (ad_info a))"
proof -
  let ?d = "\<lparr>fd_owner = st_owner (ad_data a), fd_transaction_hash = st_transaction_hash (ad_data a)\<rparr>"
  let ?info = "ad_info a"
  obtain a' where w: "withdraw_deposit (deposit_target deposit) a = Ok (a', target)"
      and r: "account_replace finalized_packable a' \<lparr>fd_owner = st_owner (ad_data a'), fd_transaction_hash = st_transaction_hash (ad_data a')\<rparr> = Ok f"
    using assms(1) by (cases deposit) (auto simp: state_finalize_def deposit_target_def rbind_Ok_iff)
  from w have a': "a' = a\<lparr>ad_info := ?info\<lparr>oa_lamports := oa_lamports ?info - PAYMENT_TO_DEPOSIT\<rparr>\<rparr>"
      and enough: "PAYMENT_TO_DEPOSIT \<le> oa_lamports ?info"
      and target: "oa_lamports target = oa_lamports (deposit_target deposit) + PAYMENT_TO_DEPOSIT"
      and room: "\<not> oa_lamports (deposit_target deposit) + PAYMENT_TO_DEPOSIT < oa_lamports (deposit_target deposit)"
    by (auto simp: withdraw_deposit_def rbind_Ok_iff not_less split: if_splits)
  from r obtain rest where f: "f = fresh_account finalized_packable ?d rest (ad_info a')"
    by (auto simp: account_replace_def rbind_Ok_iff Let_def a' split: if_splits)
  have "from_account finalized_packable program_id (ad_info f) = Ok f"
    using finalized_account.open_packed [of "ad_info a'" program_id ?d "replicate (length rest) 0"] assms(2)
    by (simp add: f fresh_account_def a')
  moreover from finalized_account.tag_of_account [OF this]
  have "account_tag program_id (ad_info f) = Ok TAG_FINALIZED_STATE" by (simp add: finalized_packable_def)
  moreover have "ad_data f = ?d" by (simp add: f fresh_account_def)
  moreover have "TAG_FINALIZED_STATE \<noteq> TAG_HOLDER" by (simp add: account_tags)
  ultimately have "\<exists>e. state_restore clock_slot program_id (ad_info f) operator remaining cancelling = Err e"
    and "tx_hash trx = st_transaction_hash (ad_data a)
        \<longrightarrow> (\<exists>e. state_new rent clock_slot transfer program_id (ad_info f) operator remaining caller trx = Err e)"
    by (simp_all add: state_restore_def state_new_def state_owner_def as_program_error_def is_outdated_def)
  moreover have "unat (oa_lamports target) = unat (oa_lamports (deposit_target deposit)) + 5000"
    using unat_add_nowrap [OF room] by (simp add: target payment_positive)
  moreover have "unat (oa_lamports (ad_info f)) + 5000 = unat (oa_lamports ?info)"
    using enough by (simp add: f fresh_account_def a' unat_sub payment_positive word_le_nat_alt)
  ultimately show ?thesis by blast
qed

text \<open>C28: a state account that \<open>new\<close> has made for a transaction is restored as it is by the operator that began it, at any later time and
  without waiting, when its accounts are handed over as they were: the header is read back from the bytes of the account, with the
  hash of the transaction and no gas used, and the locks are read back as those of exactly these accounts, in their order.\<close>

theorem created_state_restores:
  assumes "state_new rent clock_slot transfer program_id info operator remaining caller trx = Ok (a, operator')"
    and "state_size + length remaining * ACCOUNT_CHUNK_LEN < usize_bound"
  shows "state_restore (Ok now) program_id (ad_info a) operator' remaining cancelling
      = Ok (a, map (meta_of_account program_id) remaining)
    \<and> st_transaction_hash (ad_data a) = tx_hash trx \<and> st_gas_used (ad_data a) = 0"
proof -
  let ?metas = "map (meta_of_account program_id) remaining" and ?fin = "state_size + length remaining * ACCOUNT_CHUNK_LEN"
  obtain d info0 storage from' to' where init: "account_init rent state_packable program_id info0 d = Ok storage"
      and op: "operator' = operator\<lparr>oa_lamports := from'\<rparr>" "st_operator d = oa_key operator"
      and wrote: "write_blocked_accounts program_id remaining (storage\<lparr>ad_info := (ad_info storage)\<lparr>oa_lamports := to'\<rparr>\<rparr>) = Ok a"
      and d: "st_accounts_len d = of_nat (length remaining)" "st_transaction_hash d = tx_hash trx" "st_gas_used d = 0"
    using assms(1) by (auto simp: state_new_def make_deposit_def rbind_Ok_iff Let_def split: if_splits)
  note opened = state_account.init_opens [OF init]
  have len: "length remaining < usize_bound" "length remaining * ACCOUNT_CHUNK_LEN < usize_bound"
    using assms(2) by (auto simp: ACCOUNT_CHUNK_LEN_def)
  then have region: "blocked_accounts_region d = (state_size, ?fin)"
    using assms(2) by (simp add: blocked_accounts_region_def d unat_of_nat_u64)
  from wrote obtain data where put: "put_slice state_size (write_chunks ?metas) (oa_data (ad_info storage)) = Ok data"
      and fit: "?fin \<le> length (oa_data (ad_info storage))"
      and a: "a = storage\<lparr>ad_info := (ad_info storage)\<lparr>oa_lamports := to', oa_data := data\<rparr>\<rparr>"
    by (auto simp: write_blocked_accounts_def opened(2) region rbind_Ok_iff Let_def split: if_splits)
  note parts = put_slice_parts [OF put, simplified]
  have "from_account state_packable program_id (ad_info a) = Ok (storage\<lparr>ad_info := ad_info a\<rparr>)"
    by (rule from_account_prefix [OF opened(1)]) (simp_all add: a parts(2))
  then have opens: "from_account state_packable program_id (ad_info a) = Ok a" by (simp add: a)
  have data: "ad_data a = d" "oa_data (ad_info a) = data" by (simp_all add: a opened(2))
  have "slice_get data state_size ?fin = Some (write_chunks ?metas)"
    using fit parts(1,3) by (simp add: slice_get_def)
  then have read: "read_blocked_accounts a = Ok ?metas"
    using fit parts(1) by (simp add: read_blocked_accounts_def data region read_write_chunks)
  have "check_accounts program_id cancelling (zip ?metas remaining) = Ok ()"
    unfolding check_accounts_Ok by (auto simp: set_zip meta_of_account_def)
  then have "check_blocked_accounts program_id remaining cancelling a = Ok ?metas"
    by (simp add: check_blocked_accounts_def read)
  moreover have "account_tag program_id (ad_info a) = Ok TAG_STATE"
    using state_account.tag_of_account [OF opens] by (simp add: state_packable_def)
  moreover have "TAG_STATE \<noteq> TAG_FINALIZED_STATE" "TAG_STATE \<noteq> TAG_HOLDER" by (simp_all add: account_tags)
  ultimately show ?thesis
    by (simp add: state_restore_def as_program_error_def opens op data d)
qed

section \<open>A transaction in one account\<close>

definition demo_info :: "pubkey \<Rightarrow> pubkey \<Rightarrow> bytes \<Rightarrow> owned_account" where
  "demo_info k owner data = \<lparr>oa_key = k, oa_is_signer = True, oa_is_writable = True, oa_lamports = 9000, oa_data = data,
     oa_owner = owner, oa_executable = False, oa_rent_epoch = 0\<rparr>"

definition demo_state :: state_data where
  "demo_state = \<lparr>st_owner = 7, st_transaction_hash = 77, st_caller = 1, st_gas_limit = 0, st_gas_price = 0, st_gas_used = 0,
     st_operator = 7, st_slot = 100, st_accounts_len = 0, st_evm_state_len = 0, st_evm_machine_len = 0\<rparr>"

definition demo_state_account :: owned_account where
  "demo_state_account = demo_info 5 8 (TAG_STATE # state_pack demo_state @ replicate 40 0)"

lemma demo_state_opens: "from_account state_packable 8 demo_state_account
    = Ok \<lparr>ad_dirty = False, ad_data = demo_state, ad_info = demo_state_account\<rparr>"
  using state_account.open_packed [of demo_state_account 8 demo_state "replicate 40 0"]
  by (simp add: demo_state_account_def demo_info_def state_packable_def)

theorem restore_respects_locks_witness:
  "(case state_restore (Ok 117) 8 demo_state_account (demo_info 6 0 []) [] False of
     Ok (a, blocked) \<Rightarrow> blocked = [] \<and> st_operator (ad_data a) = 6 \<and> st_slot (ad_data a) = 117 | _ \<Rightarrow> False)
   \<and> (\<exists>e. state_restore (Ok 116) 8 demo_state_account (demo_info 6 0 []) [] False = Err e)"
proof -
  let ?a = "\<lparr>ad_dirty = False, ad_data = demo_state, ad_info = demo_state_account\<rparr>"
  have tag: "account_tag 8 demo_state_account = Ok TAG_STATE"
    using state_account.tag_of_account [OF demo_state_opens] by (simp add: state_packable_def)
  have "length (oa_data demo_state_account) = state_size + 40"
    using state_account.pack_size [of demo_state]
    by (simp add: demo_state_account_def demo_info_def account_size_def state_packable_def)
  then have "read_blocked_accounts ?a = Ok []"
    by (simp add: read_blocked_accounts_def blocked_accounts_region_def demo_state_def state_size slice_get_def unwrap_def
        read_chunks.simps)
  then have check: "check_blocked_accounts 8 [] False ?a = Ok []" by (simp add: check_blocked_accounts_def)
  note unfolded = state_restore_def as_program_error_def demo_state_opens check tag account_tags demo_info_def
    OPERATOR_PRIORITY_SLOTS_def Let_def account_modify_def
  obtain a where run: "state_restore (Ok 117) 8 demo_state_account (demo_info 6 0 []) [] False = Ok (a, [])"
    by (simp add: unfolded) (simp add: demo_state_def)
  have late: "\<exists>e. state_restore (Ok 116) 8 demo_state_account (demo_info 6 0 []) [] False = Err e"
    by (simp add: unfolded) (simp add: demo_state_def)
  from restore_respects_locks [OF run] have "st_slot (ad_data a) = 117"
    by (auto simp: demo_state_opens demo_info_def demo_state_def)
  with restore_respects_locks [OF run] run late show ?thesis by (auto simp: demo_info_def)
qed

theorem finalized_never_reruns_witness:
  "(case state_finalize (ReturnToOperator (demo_info 7 0 []))
      \<lparr>ad_dirty = False, ad_data = demo_state, ad_info = demo_state_account\<rparr> of
     Ok (f, target) \<Rightarrow> unat (oa_lamports target) = 14000
       \<and> (\<exists>e. state_restore (Ok 0) 8 (ad_info f) (demo_info 7 0 []) [] False = Err e)
   | _ \<Rightarrow> False)"
proof -
  let ?a = "\<lparr>ad_dirty = False, ad_data = demo_state, ad_info = demo_state_account\<rparr>"
  obtain f target where run: "state_finalize (ReturnToOperator (demo_info 7 0 [])) ?a = Ok (f, target)"
    by (simp add: state_finalize_def withdraw_deposit_def PAYMENT_TO_DEPOSIT_def demo_state_account_def demo_info_def
        account_replace_def split_account_data_def finalized_packable_def as_program_error_def state_pack_def Let_def)
  have "oa_owner (ad_info ?a) = 8" by (simp add: demo_state_account_def demo_info_def)
  from finalized_never_reruns [OF run this] show ?thesis
    by (simp add: run deposit_target_def) (simp add: demo_info_def)
qed

theorem created_state_restores_witness:
  "(case state_new (\<lambda>n. 0) (Ok 3) (\<lambda>n a b. Ok (a - n, b + n)) 8
      (demo_info 5 8 (TAG_HOLDER # holder_pack \<lparr>hd_owner = 7, hd_transaction_hash = 0, hd_transaction_len = 0\<rparr> @ replicate 300 0))
      (demo_info 7 0 []) [demo_info 9 0 []] 1
      \<lparr>tx_payload = Legacy \<lparr>l_nonce = 0, l_gas_price = 0, l_gas_limit = 0, l_target = None, l_value = 0, l_call_data = buf_empty,
         l_v = 0, l_r = 0, l_s = 0, l_chain_id = None, l_recovery_id = 0\<rparr>,
       tx_byte_len = 0, tx_hash = 77, tx_signed_hash = 0\<rparr> of
     Ok (a, operator) \<Rightarrow> oa_lamports operator = 4000 \<and> state_restore (Ok 9) 8 (ad_info a) operator [demo_info 9 0 []] False
       = Ok (a, [\<lparr>ba_key = 9, ba_exists = False, ba_is_writable = True\<rparr>])
   | _ \<Rightarrow> False)"
proof -
  let ?h = "\<lparr>hd_owner = 7, hd_transaction_hash = 0, hd_transaction_len = 0\<rparr>"
  let ?info = "demo_info 5 8 (TAG_HOLDER # holder_pack ?h @ replicate 300 0)"
  let ?trx = "\<lparr>tx_payload = Legacy \<lparr>l_nonce = 0, l_gas_price = 0, l_gas_limit = 0, l_target = None, l_value = 0,
         l_call_data = buf_empty, l_v = 0, l_r = 0, l_s = 0, l_chain_id = None, l_recovery_id = 0\<rparr>,
       tx_byte_len = 0, tx_hash = 77, tx_signed_hash = 0\<rparr> :: transaction"
  have opens: "from_account holder_packable 8 ?info = Ok \<lparr>ad_dirty = False, ad_data = ?h, ad_info = ?info\<rparr>"
    using holder_account.open_packed [of ?info 8 ?h "replicate 300 0"] by (simp add: demo_info_def holder_packable_def)
  then have owner: "state_owner 8 ?trx ?info = Ok 7"
    using holder_account.tag_of_account [OF opens]
    by (simp add: state_owner_def as_program_error_def) (simp add: holder_packable_def)
  obtain a where run: "state_new (\<lambda>n. 0) (Ok 3) (\<lambda>n a b. Ok (a - n, b + n)) 8 ?info (demo_info 7 0 []) [demo_info 9 0 []] 1 ?trx
      = Ok (a, (demo_info 7 0 [])\<lparr>oa_lamports := 4000\<rparr>)"
    by (simp add: state_new_def owner)
      (simp add: demo_info_def account_init_def split_account_data_def fresh_account_def state_packable_def
        as_program_error_def account_tags holder_pack_def state_pack_def make_deposit_def PAYMENT_TO_DEPOSIT_def
        write_blocked_accounts_def blocked_accounts_region_def account_size_def ACCOUNT_CHUNK_LEN_def slice_get_def put_slice_def)
  from created_state_restores [OF run] show ?thesis
    by (simp add: run state_size ACCOUNT_CHUNK_LEN_def) (simp add: meta_of_account_def demo_info_def account_exists_def)
qed

end
