(* ===== verification/Transaction_Rlp.thy ===== *)
theory Transaction_Rlp
  imports Transaction Built_Ins Eof
begin

text \<open>
  How a transaction is read from its bytes (\<open>program/src/types/transaction.rs\<close>): the envelope, the fields, the hash and the
  hash that was signed, and who signed it.  The crate \<open>rlp\<close> is a parameter (\<open>rlp_crate\<close>); an \<open>Rlp\<close> is a view of bytes, and is
  these bytes here.
\<close>

section \<open>The crate\<close>

text \<open>\<open>at_with_offset\<close> gives an item and where it starts, \<open>decode_value\<close> hands the payload of a string to its argument.\<close>

record rlp_crate =
  rl_is_list :: "bytes \<Rightarrow> bool"
  rl_is_data :: "bytes \<Rightarrow> bool"
  rl_is_empty :: "bytes \<Rightarrow> bool"
  rl_payload_info :: "bytes \<Rightarrow> rlp_error + (usize \<times> usize)"
  rl_at_with_offset :: "bytes \<Rightarrow> usize \<Rightarrow> rlp_error + (bytes \<times> usize)"
  rl_data :: "bytes \<Rightarrow> rlp_error + bytes"
  rl_value :: "bytes \<Rightarrow> rlp_error + bytes"
  rl_iter :: "bytes \<Rightarrow> bytes list"
  rl_u64 :: "bytes \<Rightarrow> rlp_error + u64"
  rl_u8 :: "bytes \<Rightarrow> rlp_error + u8"

definition rl :: "rlp_error + 'a \<Rightarrow> 'a result" where
  "rl r = (case r of Inl e \<Rightarrow> Err (RlpError e) | Inr x \<Rightarrow> Ok x)"

lemma rl_simps [simp]: "rl (Inl e) = Err (RlpError e)" "rl (Inr x) = Ok x"
  by (simp_all add: rl_def)

abbreviation rlp_fails :: "rlp_error \<Rightarrow> 'a result" where
  "rlp_fails e \<equiv> Err (RlpError e)"

definition rlp_at :: "rlp_crate \<Rightarrow> bytes \<Rightarrow> usize \<Rightarrow> bytes result" where
  "rlp_at K rlp i = rbind (rl (rl_at_with_offset K rlp i)) (\<lambda>(item, offset). Ok item)"

section \<open>Fields\<close>

definition decode_u256 :: "rlp_crate \<Rightarrow> bytes \<Rightarrow> u256 result" where
  "decode_u256 K rlp =
    rbind (rl (rl_value K rlp)) (\<lambda>bytes.
    if bytes \<noteq> [] \<and> hd bytes = 0 then rlp_fails RlpInvalidIndirection
    else if length bytes \<le> 32 then Ok (from_be (replicate (32 - length bytes) 0 @ bytes))
    else rlp_fails RlpIsTooBig)"

definition decode_address :: "rlp_crate \<Rightarrow> bytes \<Rightarrow> address result" where
  "decode_address K rlp =
    rbind (rl (rl_value K rlp)) (\<lambda>bytes.
    if length bytes = 20 then Ok (from_be bytes) else rlp_fails RlpInvalidLength)"

definition decode_storage_key :: "rlp_crate \<Rightarrow> bytes \<Rightarrow> bytes32 result" where
  "decode_storage_key K rlp =
    rbind (rl (rl_value K rlp)) (\<lambda>bytes.
    if length bytes = 32 then Ok (from_be bytes) else rlp_fails RlpInvalidLength)"

definition decode_target :: "rlp_crate \<Rightarrow> bytes \<Rightarrow> address option result" where
  "decode_target K target =
    (if rl_is_empty K target then
       (if rl_is_data K target then Ok None else rlp_fails RlpExpectedToBeData)
     else rbind (decode_address K target) (\<lambda>a. Ok (Some a)))"

definition decode_entry :: "rlp_crate \<Rightarrow> bytes \<Rightarrow> (address \<times> bytes32 list) result" where
  "decode_entry K entry =
    (if rl_is_list K entry then
       rbind (rlp_at K entry 0) (\<lambda>item0.
       rbind (decode_address K item0) (\<lambda>a.
       rbind (rlp_at K entry 1) (\<lambda>item1.
       rbind (collect (decode_storage_key K) (rl_iter K item1)) (\<lambda>storage_keys.
       Ok (a, storage_keys)))))
     else rlp_fails RlpExpectedToBeList)"

text \<open>The view must be exactly as long as its item.\<close>

definition check_rlp_len :: "rlp_crate \<Rightarrow> bytes \<Rightarrow> unit result" where
  "check_rlp_len K rlp =
    rbind (rl (rl_payload_info K rlp)) (\<lambda>(header_len, value_len).
    if length rlp \<noteq> usize_wrap (header_len + value_len) then rlp_fails RlpInconsistentLengthAndData else Ok ())"

definition rlp_has :: "rlp_crate \<Rightarrow> bytes \<Rightarrow> usize \<Rightarrow> bool" where
  "rlp_has K rlp i \<longleftrightarrow> (case rl_at_with_offset K rlp i of Inl _ \<Rightarrow> False | Inr _ \<Rightarrow> True)"

section \<open>Payloads\<close>

definition chain_of_v :: "u256 \<Rightarrow> (u256 option \<times> u8) result" where
  "chain_of_v v =
    (if 35 \<le> v then Ok (Some ((v - 1) div 2 - 17), of_bool (v mod 2 = 0))
     else if v = 27 then Ok (None, 0)
     else if v = 28 then Ok (None, 1)
     else rlp_fails RlpExpectedToBeData)"

definition decode_legacy :: "rlp_crate \<Rightarrow> bytes \<Rightarrow> legacy_tx result" where
  "decode_legacy K rlp =
    rbind (check_rlp_len K rlp) (\<lambda>_.
    rbind (rlp_at K rlp 0) (\<lambda>x. rbind (rl (rl_u64 K x)) (\<lambda>nonce.
    rbind (rlp_at K rlp 1) (\<lambda>x. rbind (decode_u256 K x) (\<lambda>gas_price.
    rbind (rlp_at K rlp 2) (\<lambda>x. rbind (decode_u256 K x) (\<lambda>gas_limit.
    rbind (rlp_at K rlp 3) (\<lambda>x. rbind (decode_target K x) (\<lambda>target.
    rbind (rlp_at K rlp 4) (\<lambda>x. rbind (decode_u256 K x) (\<lambda>v_value.
    rbind (rlp_at K rlp 5) (\<lambda>x. rbind (rl (rl_data K x)) (\<lambda>call_data.
    rbind (rlp_at K rlp 6) (\<lambda>x. rbind (decode_u256 K x) (\<lambda>v.
    rbind (rlp_at K rlp 7) (\<lambda>x. rbind (decode_u256 K x) (\<lambda>r.
    rbind (rlp_at K rlp 8) (\<lambda>x. rbind (decode_u256 K x) (\<lambda>s.
    if rlp_has K rlp 9 then rlp_fails RlpIncorrectListLen
    else
      rbind (chain_of_v v) (\<lambda>(chain_id, recovery_id).
      Ok \<lparr>l_nonce = nonce, l_gas_price = gas_price, l_gas_limit = gas_limit, l_target = target, l_value = v_value,
        l_call_data = buf_from_slice call_data, l_v = v, l_r = r, l_s = s, l_chain_id = chain_id,
        l_recovery_id = recovery_id\<rparr>))))))))))))))))))))"

definition decode_access_list :: "rlp_crate \<Rightarrow> bytes \<Rightarrow> access_list_tx result" where
  "decode_access_list K rlp =
    rbind (check_rlp_len K rlp) (\<lambda>_.
    rbind (rlp_at K rlp 0) (\<lambda>x. rbind (decode_u256 K x) (\<lambda>chain_id.
    rbind (rlp_at K rlp 1) (\<lambda>x. rbind (rl (rl_u64 K x)) (\<lambda>nonce.
    rbind (rlp_at K rlp 2) (\<lambda>x. rbind (decode_u256 K x) (\<lambda>gas_price.
    rbind (rlp_at K rlp 3) (\<lambda>x. rbind (decode_u256 K x) (\<lambda>gas_limit.
    rbind (rlp_at K rlp 4) (\<lambda>x. rbind (decode_target K x) (\<lambda>target.
    rbind (rlp_at K rlp 5) (\<lambda>x. rbind (decode_u256 K x) (\<lambda>v_value.
    rbind (rlp_at K rlp 6) (\<lambda>x. rbind (rl (rl_data K x)) (\<lambda>call_data.
    rbind (rlp_at K rlp 7) (\<lambda>x. rbind (collect (decode_entry K) (rl_iter K x)) (\<lambda>access_list.
    rbind (rlp_at K rlp 8) (\<lambda>x. rbind (rl (rl_u8 K x)) (\<lambda>y_parity.
    rbind (rlp_at K rlp 9) (\<lambda>x. rbind (decode_u256 K x) (\<lambda>r.
    rbind (rlp_at K rlp 10) (\<lambda>x. rbind (decode_u256 K x) (\<lambda>s.
    if rlp_has K rlp 11 then rlp_fails RlpIncorrectListLen
    else
      Ok \<lparr>a_nonce = nonce, a_gas_price = gas_price, a_gas_limit = gas_limit, a_target = target, a_value = v_value,
        a_call_data = buf_from_slice call_data, a_r = r, a_s = s, a_chain_id = chain_id, a_recovery_id = y_parity,
        a_access_list = access_list\<rparr>)))))))))))))))))))))))"

section \<open>The hash that is signed\<close>

definition leading_zeros :: "'a::len word \<Rightarrow> nat" where
  "leading_zeros w = length (takeWhile (\<lambda>i. \<not> bit w i) (rev [0..<LENGTH('a)]))"

text \<open>\<open>to_be_bytes\<close> without the leading bytes that are zero\<close>

definition significant_bytes :: "'a::len word \<Rightarrow> bytes" where
  "significant_bytes w = drop (leading_zeros w div 8) (be_bytes (LENGTH('a) div 8) w)"

definition list_header :: "usize \<Rightarrow> bytes" where
  "list_header len =
    (if len \<le> 55 then [0xC0 + of_nat len]
     else let len_bytes = significant_bytes (of_nat len :: u64) in (0xF7 + of_nat (length len_bytes)) # len_bytes)"

text \<open>\<open>&raw[a..b]\<close>\<close>

definition slice_range :: "usize \<Rightarrow> usize \<Rightarrow> bytes \<Rightarrow> bytes result" where
  "slice_range a b bs = (if a \<le> b \<and> b \<le> length bs then Ok (take (b - a) (drop a bs)) else Panic)"

definition eip2718_signed_hash :: "(bytes \<Rightarrow> bytes32) \<Rightarrow> rlp_crate \<Rightarrow> bytes \<Rightarrow> bytes \<Rightarrow> usize \<Rightarrow> bytes32 result" where
  "eip2718_signed_hash keccak K transaction_type raw middle_offset =
    rbind (rl (rl_payload_info K raw)) (\<lambda>(header_len, value_len).
    rbind (rl (rl_at_with_offset K raw middle_offset)) (\<lambda>(item, middle_offset).
    rbind (slice_range header_len middle_offset raw) (\<lambda>body.
    Ok (keccak (transaction_type @ list_header (length body) @ body)))))"

definition chain_id_trailer :: "u256 \<Rightarrow> bytes" where
  "chain_id_trailer chain_id =
    (let chain_id = significant_bytes chain_id in
     (if length chain_id = 0 then [0x80]
      else if length chain_id = 1 \<and> chain_id ! 0 < 0x80 then chain_id
      else (0x80 + of_nat (length chain_id)) # chain_id) @ [0x80, 0x80])"

definition calculate_legacy_signature :: "(bytes \<Rightarrow> bytes32) \<Rightarrow> rlp_crate \<Rightarrow> bytes \<Rightarrow> u256 option \<Rightarrow> bytes32 result" where
  "calculate_legacy_signature keccak K raw chain_id =
    rbind (rl (rl_payload_info K raw)) (\<lambda>(header_len, value_len).
    rbind (rl (rl_at_with_offset K raw 6)) (\<lambda>(item, v_offset).
    rbind (slice_range header_len v_offset raw) (\<lambda>middle.
    let trailer = (case chain_id of None \<Rightarrow> [] | Some chain_id \<Rightarrow> chain_id_trailer chain_id) in
    Ok (keccak (list_header (length middle + length trailer) @ middle @ trailer)))))"

section \<open>Transactions\<close>

datatype transaction_envelope = EnvelopeLegacy | EnvelopeAccessList | EnvelopeDynamicFee

text \<open>\<open>bytes[0]\<close> panics without bytes, and so does every other type.\<close>

definition get_type :: "rlp_crate \<Rightarrow> bytes \<Rightarrow> (transaction_envelope option \<times> bytes) result" where
  "get_type K bytes =
    (if rl_is_list K bytes then Ok (None, bytes)
     else rbind (index_at bytes 0) (\<lambda>first.
       if first = 0x00 then Ok (Some EnvelopeLegacy, drop 1 bytes)
       else if first = 0x01 then Ok (Some EnvelopeAccessList, drop 1 bytes)
       else if first = 0x02 then Ok (Some EnvelopeDynamicFee, drop 1 bytes)
       else Panic))"

definition from_payload :: "(bytes \<Rightarrow> bytes32) \<Rightarrow> rlp_crate \<Rightarrow> transaction_envelope option \<Rightarrow> u256 option \<Rightarrow> bytes
    \<Rightarrow> transaction_payload \<Rightarrow> transaction result" where
  "from_payload keccak K transaction_type chain_id raw payload =
    rbind (case transaction_type of
        Some EnvelopeLegacy \<Rightarrow>
          rbind (calculate_legacy_signature keccak K raw chain_id) (\<lambda>signed_hash. Ok (keccak (0x00 # raw), signed_hash))
      | Some EnvelopeAccessList \<Rightarrow>
          rbind (eip2718_signed_hash keccak K [0x01] raw 8) (\<lambda>signed_hash. Ok (keccak (0x01 # raw), signed_hash))
      | None \<Rightarrow>
          rbind (calculate_legacy_signature keccak K raw chain_id) (\<lambda>signed_hash. Ok (keccak raw, signed_hash))
      | Some EnvelopeDynamicFee \<Rightarrow> Panic) (\<lambda>(hash, signed_hash).
    rbind (rl (rl_payload_info K raw)) (\<lambda>(header_len, value_len).
    let byte_len = (if transaction_type = None then usize_wrap (header_len + value_len)
          else usize_wrap (header_len + value_len + 1)) in
    Ok \<lparr>tx_payload = payload, tx_byte_len = byte_len, tx_hash = hash, tx_signed_hash = signed_hash\<rparr>))"

definition from_rlp :: "(bytes \<Rightarrow> bytes32) \<Rightarrow> rlp_crate \<Rightarrow> bytes \<Rightarrow> transaction result" where
  "from_rlp keccak K bytes =
    rbind (get_type K bytes) (\<lambda>(transaction_type, raw).
    case transaction_type of
      Some EnvelopeLegacy \<Rightarrow>
        rbind (decode_legacy K raw) (\<lambda>t. from_payload keccak K (Some EnvelopeLegacy) (l_chain_id t) raw (Legacy t))
    | Some EnvelopeAccessList \<Rightarrow>
        rbind (decode_access_list K raw) (\<lambda>t.
          from_payload keccak K (Some EnvelopeAccessList) (Some (a_chain_id t)) raw (AccessList t))
    | None \<Rightarrow>
        rbind (decode_legacy K raw) (\<lambda>t. from_payload keccak K None (l_chain_id t) raw (Legacy t))
    | Some EnvelopeDynamicFee \<Rightarrow> Panic)"

definition recover_caller_address :: "(bytes \<Rightarrow> bytes32) \<Rightarrow> crypto \<Rightarrow> transaction \<Rightarrow> address result" where
  "recover_caller_address keccak K t =
    (case cr_recover K (be_bytes 32 (tx_signed_hash t)) (trx_recovery_id t) (be_bytes 32 (trx_r t) @ be_bytes 32 (trx_s t)) of
       None \<Rightarrow> Err Secp256k1Error
     | Some public_key \<Rightarrow> Ok (from_be (drop 12 (be_bytes 32 (keccak public_key)))))"

end
