(* ===== verification/Rlp_Encoding.thy ===== *)
theory Rlp_Encoding
  imports Transaction_Rlp
begin

text \<open>
  The encoding of Ethereum (RLP, appendix B of the yellow paper), as the specification of what \<open>Transaction_Rlp\<close> reads, what
  the crate \<open>rlp\<close> documents of its functions on encoded items, and that the headers which the program writes by hand are
  those of the encoding.
\<close>

section \<open>The encoding\<close>

datatype rlp_item = RlpBytes bytes | RlpList "rlp_item list"

text \<open>Big-endian, without leading zeros\<close>

fun be_min :: "nat \<Rightarrow> bytes" where
  "be_min n = (if n = 0 then [] else be_min (n div 256) @ [of_nat (n mod 256)])"

declare be_min.simps [simp del]

definition length_prefix :: "u8 \<Rightarrow> nat \<Rightarrow> bytes" where
  "length_prefix base n = (if n \<le> 55 then [base + of_nat n] else (base + 55 + of_nat (length (be_min n))) # be_min n)"

primrec rlp_encode :: "rlp_item \<Rightarrow> bytes" where
  "rlp_encode (RlpBytes b) = (if length b = 1 \<and> hd b < 0x80 then b else length_prefix 0x80 (length b) @ b)"
| "rlp_encode (RlpList ts) = length_prefix 0xC0 (length (concat (map rlp_encode ts))) @ concat (map rlp_encode ts)"

abbreviation rlp_concat :: "rlp_item list \<Rightarrow> bytes" where
  "rlp_concat ts \<equiv> concat (map rlp_encode ts)"

definition header_size :: "nat \<Rightarrow> nat" where
  "header_size n = (if n \<le> 55 then 1 else 1 + length (be_min n))"

definition rlp_uint :: "nat \<Rightarrow> rlp_item" where
  "rlp_uint n = RlpBytes (be_min n)"

lemma length_length_prefix [simp]: "length (length_prefix base n) = header_size n"
  by (simp add: length_prefix_def header_size_def)

lemma be_min_0 [simp]: "be_min 0 = []"
  by (simp add: be_min.simps)

lemma nat_of_le_be_min: "nat_of_le (rev (be_min n)) = n"
proof (induction n rule: be_min.induct)
  case (1 n)
  then show ?case by (cases "n = 0") (simp_all add: be_min.simps [of n] unat_word_of_nat_u8)
qed

lemma be_min_length: "n < 256 ^ k \<Longrightarrow> length (be_min n) \<le> k"
proof (induction k arbitrary: n)
  case (Suc k)
  then have "n div 256 < 256 ^ k" by (simp add: less_mult_imp_div_less mult.commute)
  then show ?case using Suc.IH by (subst be_min.simps) simp
qed simp

lemma be_min_positive: "be_min n = [] \<longleftrightarrow> n = 0"
  by (subst be_min.simps) simp

lemma be_min_hd: "0 < n \<Longrightarrow> hd (be_min n) \<noteq> 0"
proof (induction n rule: be_min.induct)
  case (1 n)
  show ?case
  proof (cases "n div 256 = 0")
    case True
    then have "n < 256" by (simp add: div_eq_0_iff)
    then have "unat (of_nat n :: u8) \<noteq> 0" using 1(2) by (simp add: unat_word_of_nat_u8)
    then show ?thesis using 1(2) True \<open>n < 256\<close> by (subst be_min.simps) auto
  next
    case False
    then have "hd (be_min (n div 256)) \<noteq> 0" using 1 by simp
    then show ?thesis using 1(2) False by (subst be_min.simps) (simp add: be_min_positive)
  qed
qed

lemma be_min_single: "0 < n \<Longrightarrow> n < 256 \<Longrightarrow> be_min n = [of_nat n]"
  by (simp add: be_min.simps [of n])

section \<open>What the program writes\<close>

lemma nat_of_le_append_zeros: "nat_of_le (bs @ replicate k 0) = nat_of_le bs"
  by (induction bs) (simp_all add: nat_of_le_zeros)

lemma be_bytes_min:
  assumes "n < 256 ^ k" and "unat w = n"
  shows "be_bytes k w = replicate (k - length (be_min n)) 0 @ be_min n"
proof -
  let ?xs = "replicate (k - length (be_min n)) 0 @ be_min n"
  have "length ?xs = k" using be_min_length [OF assms(1)] by simp
  moreover have "nat_of_le (rev ?xs) = n" by (simp add: nat_of_le_append_zeros nat_of_le_be_min)
  ultimately show ?thesis
    using le_bytes_nat_nat_of_le [of "rev ?xs"] assms(2) by (simp add: be_bytes_def)
qed

lemma leading_zeros_less: "unat w < 2 ^ (LENGTH('a) - leading_zeros (w :: 'a::len word))"
proof -
  let ?z = "leading_zeros w"
  have "\<not> bit w i" if "LENGTH('a) - ?z \<le> i" "i < LENGTH('a)" for i
  proof -
    let ?k = "LENGTH('a) - 1 - i" and ?P = "\<lambda>i. \<not> bit w i"
    have "?k < length (takeWhile ?P (rev [0..<LENGTH('a)]))" using that by (simp add: leading_zeros_def)
    then have "?P (rev [0..<LENGTH('a)] ! ?k)"
      by (metis nth_mem set_takeWhileD takeWhile_nth)
    then show ?thesis using that by (simp add: rev_nth)
  qed
  then have "take_bit (LENGTH('a) - ?z) w = w"
    by (intro bit_eqI) (auto simp: bit_simps, meson linorder_not_less)
  then show ?thesis by (metis take_bit_nat_less_exp unsigned_take_bit_eq)
qed

lemma leading_zeros_greater:
  assumes "w \<noteq> (0 :: 'a::len word)"
  shows "leading_zeros w < LENGTH('a)" and "2 ^ (LENGTH('a) - leading_zeros w - 1) \<le> unat w"
proof -
  let ?xs = "rev [0..<LENGTH('a)]" and ?P = "\<lambda>i. \<not> bit w i"
  obtain i where "bit w i" "i < LENGTH('a)" using assms by (metis bit_eqI bit_0_eq bit_imp_le_length bot_apply bot_bool_def)
  then have "\<not> (\<forall>x \<in> set ?xs. ?P x)" by auto
  then have less: "length (takeWhile ?P ?xs) < length ?xs"
    by (metis length_takeWhile_le less_le takeWhile_eq_all_conv takeWhile_eq_take take_all_iff)
  then show "leading_zeros w < LENGTH('a)" by (simp add: leading_zeros_def)
  have "bit w (?xs ! leading_zeros w)" using nth_length_takeWhile [OF less] by (simp add: leading_zeros_def)
  then have "bit w (LENGTH('a) - leading_zeros w - 1)"
    using less by (simp add: rev_nth leading_zeros_def)
  then have "bit (unat w) (LENGTH('a) - leading_zeros w - 1)" by (simp add: bit_unsigned_iff bit_imp_le_length)
  then show "2 ^ (LENGTH('a) - leading_zeros w - 1) \<le> unat w"
    by (metis bit_nat_iff div_less even_zero linorder_not_less bit_iff_odd)
qed

lemma significant_bytes_min:
  assumes "LENGTH('a) = 8 * k"
  shows "significant_bytes (w :: 'a::len word) = be_min (unat w)"
proof (cases "w = 0")
  case True
  have "leading_zeros (0 :: 'a word) = LENGTH('a)"
    by (simp add: leading_zeros_def takeWhile_eq_all_conv [THEN iffD2])
  then show ?thesis using True assms by (simp add: significant_bytes_def)
next
  case False
  let ?z = "leading_zeros w" and ?n = "unat w" and ?l = "length (be_min (unat w))"
  have n: "?n < 256 ^ k" using unat_less_2p [of w] assms by (simp add: power_mult)
  have "?l \<le> k" by (rule be_min_length [OF n])
  moreover have "256 ^ (?l - 1) \<le> ?n" "?n < 256 ^ ?l"
  proof -
    show "?n < 256 ^ ?l" using nat_of_le_less [of "rev (be_min ?n)"] by (simp add: nat_of_le_be_min)
    have "0 < ?l" using False be_min_positive [of ?n] by (simp add: unat_eq_0)
    then have "\<not> ?n < 256 ^ (?l - 1)" using be_min_length [of ?n "?l - 1"] by linarith
    then show "256 ^ (?l - 1) \<le> ?n" by simp
  qed
  moreover have "?n < 2 ^ (8 * k - ?z)" "2 ^ (8 * k - ?z - 1) \<le> ?n" "?z < 8 * k"
    using leading_zeros_less [of w] leading_zeros_greater [OF False] assms by simp_all
  ultimately have "(2::nat) ^ (8 * (?l - 1)) < 2 ^ (8 * k - ?z)" "(2::nat) ^ (8 * k - ?z - 1) < 2 ^ (8 * ?l)"
    by (simp_all add: power_mult)
  then have "8 * (?l - 1) < 8 * k - ?z" "8 * k - ?z - 1 < 8 * ?l" by simp_all
  then have "?z div 8 = k - ?l" using \<open>?l \<le> k\<close> \<open>?z < 8 * k\<close> by linarith
  then show ?thesis
    using be_bytes_min [OF n refl] assms by (simp add: significant_bytes_def)
qed

lemma list_header_prefix: "n < 2 ^ 64 \<Longrightarrow> list_header n = length_prefix 0xC0 n"
  using significant_bytes_min [where 'a = 64, of 8 "of_nat n"]
  by (simp add: list_header_def length_prefix_def Let_def unsigned_of_nat take_bit_eq_mod)

lemma chain_id_trailer_encode: "chain_id_trailer c = rlp_concat [rlp_uint (unat c), rlp_uint 0, rlp_uint 0]"
proof -
  have "length (be_min (unat c)) \<le> 32" using unat_less_2p [of c] by (intro be_min_length) simp
  moreover have "significant_bytes c = be_min (unat c)" using significant_bytes_min [where 'a = 256, of 32 c] by simp
  ultimately show ?thesis
    by (cases "be_min (unat c)") (auto simp: chain_id_trailer_def Let_def rlp_uint_def length_prefix_def)
qed

section \<open>Headers\<close>

lemma length_be_min_usize: "n < usize_bound \<Longrightarrow> length (be_min n) \<le> 8"
  by (rule be_min_length) simp

text \<open>The first byte of a header, as a number\<close>

definition prefix_byte :: "nat \<Rightarrow> nat \<Rightarrow> nat" where
  "prefix_byte base n = (if n \<le> 55 then base + n else base + 55 + length (be_min n))"

lemma length_prefix_byte:
  assumes "n < usize_bound" and "base \<le> 192"
  shows "length_prefix (of_nat base) n = of_nat (prefix_byte base n) # (if n \<le> 55 then [] else be_min n)"
    and "unat (of_nat (prefix_byte base n) :: u8) = prefix_byte base n" and "prefix_byte base n < base + 64"
  using assms length_be_min_usize [OF assms(1)] by (auto simp: length_prefix_def prefix_byte_def unat_word_of_nat_u8)

lemma encode_list_byte:
  assumes "length (rlp_concat ts) < usize_bound"
  shows "rlp_encode (RlpList ts) = of_nat (prefix_byte 192 (length (rlp_concat ts)))
      # (if length (rlp_concat ts) \<le> 55 then [] else be_min (length (rlp_concat ts))) @ rlp_concat ts"
  using length_prefix_byte(1) [OF assms, of 192] by simp

lemma encode_bytes_byte:
  assumes "length b < usize_bound"
  shows "rlp_encode (RlpBytes b) = (if length b = 1 \<and> hd b < 0x80 then b
      else of_nat (prefix_byte 128 (length b)) # (if length b \<le> 55 then [] else be_min (length b)) @ b)"
  using length_prefix_byte(1) [OF assms, of 128] by simp

declare rlp_encode.simps [simp del]

lemma length_encode_list: "length (rlp_encode (RlpList ts)) = header_size (length (rlp_concat ts)) + length (rlp_concat ts)"
  by (simp add: rlp_encode.simps)

end
