(* ===== verification/Rlp_Reader.thy ===== *)
theory Rlp_Reader
  imports Rlp_Encoding
begin

text \<open>
  What the crate \<open>rlp\<close> documents of its functions on encoded items, as the hypothesis \<open>rlp_documented\<close> of the theorems about
  transactions, and a reader that satisfies it, so that the hypothesis can hold.
\<close>

section \<open>What the crate promises\<close>

definition documented_bytes :: "rlp_crate \<Rightarrow> bytes \<Rightarrow> bool" where
  "documented_bytes K b \<longleftrightarrow> (let e = rlp_encode (RlpBytes b) in
     rl_is_data K e \<and> (rl_is_empty K e \<longleftrightarrow> b = []) \<and> rl_data K e = Inr b \<and> rl_value K e = Inr b)"

definition documented_list :: "rlp_crate \<Rightarrow> rlp_item list \<Rightarrow> bool" where
  "documented_list K ts \<longleftrightarrow> (let e = rlp_encode (RlpList ts); n = length (rlp_concat ts) in
     rl_payload_info K e = Inr (header_size n, n) \<and> rl_iter K e = map rlp_encode ts
     \<and> (\<forall>i < length ts. rl_at_with_offset K e i = Inr (rlp_encode (ts ! i), header_size n + length (rlp_concat (take i ts))))
     \<and> (\<exists>err. rl_at_with_offset K e (length ts) = Inl err))"

definition rlp_documented :: "rlp_crate \<Rightarrow> bool" where
  "rlp_documented K \<longleftrightarrow> (\<forall>b bs. rl_is_list K (b # bs) \<longleftrightarrow> 0xC0 \<le> b)
     \<and> (\<forall>b. length b < usize_bound \<longrightarrow> documented_bytes K b)
     \<and> (\<forall>ts. length (rlp_concat ts) < usize_bound \<longrightarrow> documented_list K ts)
     \<and> (\<forall>n. rl_u64 K (rlp_encode (rlp_uint (unat n))) = Inr n)
     \<and> (\<forall>n. rl_u8 K (rlp_encode (rlp_uint (unat n))) = Inr n)"

section \<open>A reader\<close>

text \<open>The sizes of the header and of the payload of the item that the bytes start with\<close>

definition plain_sized :: "nat \<Rightarrow> u8 \<Rightarrow> bytes \<Rightarrow> usize \<times> usize" where
  "plain_sized base b rest =
    (if unat b \<le> base + 55 then (1, unat b - base)
     else let k = unat b - base - 55 in (1 + k, nat_of_le (rev (take k rest))))"

definition plain_info :: "bytes \<Rightarrow> (usize \<times> usize) option" where
  "plain_info bs = (case bs of [] \<Rightarrow> None
    | b # rest \<Rightarrow> Some (if b < 0x80 then (0, 1) else if b < 0xC0 then plain_sized 128 b rest else plain_sized 192 b rest))"

function plain_items :: "bytes \<Rightarrow> bytes list" where
  "plain_items bs = (case plain_info bs of None \<Rightarrow> []
    | Some (h, v) \<Rightarrow> if h + v = 0 \<or> length bs < h + v then [] else take (h + v) bs # plain_items (drop (h + v) bs))"
  by pat_completeness auto
termination by (relation "measure length") auto

declare plain_items.simps [simp del]

definition plain_list :: "bytes \<Rightarrow> bool" where
  "plain_list bs \<longleftrightarrow> (case bs of [] \<Rightarrow> False | b # _ \<Rightarrow> 0xC0 \<le> b)"

definition plain_payload :: "bytes \<Rightarrow> bytes" where
  "plain_payload bs = (case plain_info bs of None \<Rightarrow> [] | Some (h, v) \<Rightarrow> take v (drop h bs))"

definition plain_value :: "bytes \<Rightarrow> rlp_error + bytes" where
  "plain_value bs = (if plain_list bs then Inl RlpExpectedToBeData else Inr (plain_payload bs))"

definition plain_at :: "bytes \<Rightarrow> usize \<Rightarrow> rlp_error + (bytes \<times> usize)" where
  "plain_at bs i =
    (if \<not> plain_list bs then Inl RlpExpectedToBeList
     else
       let items = plain_items (plain_payload bs) in
       if i < length items then Inr (items ! i, (case plain_info bs of None \<Rightarrow> 0 | Some (h, v) \<Rightarrow> h) + length (concat (take i items)))
       else Inl RlpOther)"

definition plain_rlp :: rlp_crate where
  "plain_rlp = \<lparr>rl_is_list = plain_list, rl_is_data = (\<lambda>bs. \<not> plain_list bs), rl_is_empty = (\<lambda>bs. bs = [0xC0] \<or> bs = [0x80]),
     rl_payload_info = (\<lambda>bs. case plain_info bs of None \<Rightarrow> Inl RlpOther | Some i \<Rightarrow> Inr i),
     rl_at_with_offset = plain_at, rl_data = plain_value, rl_value = plain_value,
     rl_iter = (\<lambda>bs. plain_items (plain_payload bs)),
     rl_u64 = (\<lambda>bs. case plain_value bs of Inl e \<Rightarrow> Inl e | Inr b \<Rightarrow> Inr (from_be b)),
     rl_u8 = (\<lambda>bs. case plain_value bs of Inl e \<Rightarrow> Inl e | Inr b \<Rightarrow> Inr (from_be b))\<rparr>"

section \<open>It reads what is encoded\<close>

lemma plain_sized_byte:
  assumes "n < usize_bound" and "base \<le> 192"
  shows "plain_sized base (of_nat (prefix_byte base n)) ((if n \<le> 55 then [] else be_min n) @ rest) = (header_size n, n)"
proof -
  have "0 < length (be_min n)" if "\<not> n \<le> 55" using that by (simp add: be_min_positive)
  then show ?thesis
    unfolding plain_sized_def length_prefix_byte(2) [OF assms]
    by (auto simp: prefix_byte_def header_size_def nat_of_le_be_min Let_def)
qed

lemma plain_info_list:
  assumes "length (rlp_concat ts) < usize_bound"
  shows "plain_info (rlp_encode (RlpList ts) @ rest) = Some (header_size (length (rlp_concat ts)), length (rlp_concat ts))"
    and "plain_list (rlp_encode (RlpList ts) @ rest)"
proof -
  let ?n = "length (rlp_concat ts)" and ?b = "of_nat (prefix_byte 192 (length (rlp_concat ts))) :: u8"
  have b: "unat ?b = prefix_byte 192 ?n" using length_prefix_byte(2) [OF assms] by simp
  have "\<not> ?b < 0xC0" unfolding word_less_nat_alt b by (simp add: prefix_byte_def)
  moreover from this have "\<not> ?b < 0x80" "0xC0 \<le> ?b" by (auto simp: word_less_nat_alt word_le_nat_alt)
  ultimately show "plain_info (rlp_encode (RlpList ts) @ rest) = Some (header_size ?n, ?n)" "plain_list (rlp_encode (RlpList ts) @ rest)"
    using plain_sized_byte [OF assms, of 192 "rlp_concat ts @ rest"]
    unfolding encode_list_byte [OF assms] plain_info_def plain_list_def append_Cons list.case append_assoc
    by (simp_all only: if_False order.refl)
qed

lemma plain_info_bytes:
  assumes "length b < usize_bound"
  shows "plain_info (rlp_encode (RlpBytes b) @ rest) = Some (if length b = 1 \<and> hd b < 0x80 then (0, 1) else (header_size (length b), length b))"
    and "\<not> plain_list (rlp_encode (RlpBytes b) @ rest)"
proof -
  let ?n = "length b" and ?b = "of_nat (prefix_byte 128 (length b)) :: u8"
  have "plain_info (rlp_encode (RlpBytes b) @ rest) = Some (if length b = 1 \<and> hd b < 0x80 then (0, 1) else (header_size (length b), length b))
      \<and> \<not> plain_list (rlp_encode (RlpBytes b) @ rest)"
  proof (cases "length b = 1 \<and> hd b < 0x80")
    case True
    then obtain x where "b = [x]" by (metis One_nat_def length_0_conv length_Suc_conv)
    then show ?thesis using True by (simp add: encode_bytes_byte plain_info_def plain_list_def word_less_nat_alt word_le_nat_alt)
  next
    case False
    have u: "unat ?b = prefix_byte 128 ?n" "prefix_byte 128 ?n < 192"
      using length_prefix_byte(2,3) [OF assms, of 128] by simp_all
    have "\<not> ?b < 0x80" "?b < 0xC0" unfolding word_less_nat_alt u(1) using u(2) by (simp_all add: prefix_byte_def)
    moreover from this have "\<not> 0xC0 \<le> ?b" by (simp only: not_le)
    ultimately show ?thesis
      using plain_sized_byte [OF assms, of 128 "b @ rest"]
      unfolding encode_bytes_byte [OF assms] plain_info_def plain_list_def append_Cons append_assoc if_not_P [OF False] list.case
      by (simp only: if_False if_True) simp
  qed
  then show "plain_info (rlp_encode (RlpBytes b) @ rest) = Some (if length b = 1 \<and> hd b < 0x80 then (0, 1) else (header_size (length b), length b))"
    and "\<not> plain_list (rlp_encode (RlpBytes b) @ rest)" by blast+
qed

text \<open>The sizes of an item are its length.\<close>

lemma plain_info_item:
  assumes "length (rlp_encode t) < usize_bound"
  shows "\<exists>h v. plain_info (rlp_encode t @ rest) = Some (h, v) \<and> h + v = length (rlp_encode t) \<and> 0 < h + v"
proof (cases t)
  case (RlpBytes b)
  have "length b \<le> length (rlp_encode (RlpBytes b))" by (simp add: rlp_encode.simps)
  then show ?thesis
    using plain_info_bytes(1) [of b rest] assms RlpBytes by (auto simp: rlp_encode.simps header_size_def)
next
  case (RlpList ts)
  then show ?thesis
    using plain_info_list(1) [of ts rest] assms by (auto simp: length_encode_list header_size_def)
qed

lemma plain_items_concat: "length (rlp_concat ts) < usize_bound \<Longrightarrow> plain_items (rlp_concat ts) = map rlp_encode ts"
proof (induction ts)
  case (Cons t ts)
  have len: "length (rlp_encode t) < usize_bound" using Cons.prems by simp
  obtain h v where info: "plain_info (rlp_encode t @ rlp_concat ts) = Some (h, v)" and len': "h + v = length (rlp_encode t)" "0 < h + v"
    using plain_info_item [OF len, of "rlp_concat ts"] by blast
  then have "\<not> (h + v = 0 \<or> length (rlp_encode t @ rlp_concat ts) < h + v)" by simp
  then have "plain_items (rlp_encode t @ rlp_concat ts) = take (h + v) (rlp_encode t @ rlp_concat ts) # plain_items (drop (h + v) (rlp_encode t @ rlp_concat ts))"
    using info by (subst plain_items.simps) (simp only: option.case prod.case if_False)
  then show ?case using Cons len' by simp
qed (simp add: plain_items.simps plain_info_def)

lemma plain_documented_list:
  assumes "length (rlp_concat ts) < usize_bound"
  shows "documented_list plain_rlp ts"
proof -
  have payload: "plain_payload (rlp_encode (RlpList ts)) = rlp_concat ts"
    using plain_info_list(1) [OF assms, of "[]"] by (simp add: plain_payload_def rlp_encode.simps)
  show ?thesis
    using plain_info_list [OF assms, of "[]"]
    by (simp add: documented_list_def Let_def plain_rlp_def plain_at_def payload plain_items_concat [OF assms] take_map [symmetric])
qed

lemma plain_value_bytes: "length b < usize_bound \<Longrightarrow> plain_value (rlp_encode (RlpBytes b)) = Inr b"
  using plain_info_bytes [of b "[]"] by (auto simp: plain_value_def plain_payload_def rlp_encode.simps split: if_splits)

lemma plain_documented_bytes:
  assumes "length b < usize_bound"
  shows "documented_bytes plain_rlp b"
proof -
  have "rlp_encode (RlpBytes b) \<noteq> [0xC0]" using plain_info_bytes(2) [OF assms, of "[]"] by (auto simp: plain_list_def)
  moreover have "rlp_encode (RlpBytes b) = [0x80] \<longleftrightarrow> b = []"
    by (auto simp: rlp_encode.simps length_prefix_def split: if_splits)
  ultimately have "rlp_encode (RlpBytes b) = [0xC0] \<or> rlp_encode (RlpBytes b) = [0x80] \<longleftrightarrow> b = []" by blast
  then show ?thesis
    using plain_info_bytes(2) [OF assms, of "[]"] plain_value_bytes [OF assms]
    by (simp add: documented_bytes_def Let_def plain_rlp_def)
qed

lemma plain_uint:
  assumes "LENGTH('a) \<le> 64"
  shows "plain_value (rlp_encode (rlp_uint (unat (n :: 'a::len word)))) = Inr (be_min (unat n))"
    and "from_be (be_min (unat n)) = n"
proof -
  have "(2::nat) ^ LENGTH('a) \<le> 2 ^ 64" using assms by (intro power_increasing) simp_all
  then have "unat n < usize_bound" unfolding usize_bound_eq by (rule order.strict_trans2 [OF unat_less_2p])
  then show "plain_value (rlp_encode (rlp_uint (unat n))) = Inr (be_min (unat n))"
    unfolding rlp_uint_def using length_be_min_usize [of "unat n"] by (intro plain_value_bytes) simp
  show "from_be (be_min (unat n)) = n" by (simp add: from_be_def nat_of_le_be_min)
qed

theorem plain_rlp_documented: "rlp_documented plain_rlp"
  unfolding rlp_documented_def
  using plain_documented_bytes plain_documented_list
  by (simp add: plain_rlp_def plain_list_def plain_uint)

end
