(* ===== verification/Storage_Account.thy ===== *)
theory Storage_Account
  imports Account_Data "HOL-Library.AList"
begin

text \<open>
  Accounts for the storage of a contract (\<open>program/src/account/ether_storage.rs\<close>): one account holds up to 256
  cells of the storage, as chunks of a subindex and a value behind the header; its address is derived from a seed
  that spells the index in 32 ASCII bytes.
\<close>

section \<open>The seed of an address\<close>

text \<open>The bits \<open>0x80\<close> of seven bytes, packed below the top bit of one\<close>

definition seed_high_bits :: "bytes \<Rightarrow> u8" where
  "seed_high_bits bs = foldl (\<lambda>acc i. acc OR drop_bit (1 + i) (bs ! i AND 0x80)) 0 [0..<7]"

definition make_seed :: "u256 \<Rightarrow> bytes" where
  "make_seed index =
    (let index_bytes = take 28 (drop 3 (be_bytes 32 index)) in
     map (\<lambda>b. b AND 0x7F) index_bytes
     @ [seed_high_bits index_bytes, seed_high_bits (drop 7 index_bytes), seed_high_bits (drop 14 index_bytes),
        seed_high_bits (drop 21 index_bytes)])"

definition storage_address :: "(pubkey \<Rightarrow> bytes \<Rightarrow> pubkey \<Rightarrow> pubkey result) \<Rightarrow> pubkey \<Rightarrow> pubkey \<Rightarrow> u256
    \<Rightarrow> (bytes \<times> pubkey) result" where
  "storage_address create_with_seed program_id base index =
    (case create_with_seed base (make_seed index) program_id of
       Ok k \<Rightarrow> Ok (make_seed index, k)
     | _ \<Rightarrow> Panic)"

lemma bit_byte_range: "bit (b :: u8) j \<Longrightarrow> j < 8"
  using bit_imp_le_length [of b j] by simp

lemma bit_0x80: "bit (0x80 :: u8) j \<longleftrightarrow> j = 7"
proof -
  have "bit (0x80 :: u8) j \<longleftrightarrow> j = 7" if "j \<in> {0, 1, 2, 3, 4, 5, 6, 7}" using that by auto
  moreover have "j \<in> {0, 1, 2, 3, 4, 5, 6, 7}" if "j < 8" using that by auto
  ultimately show ?thesis using bit_byte_range [of "0x80" j] by (cases "j < 8") auto
qed

lemma bit_0x7F: "bit (0x7F :: u8) j \<longleftrightarrow> j < 7"
proof -
  have "bit (0x7F :: u8) j \<longleftrightarrow> j < 7" if "j \<in> {0, 1, 2, 3, 4, 5, 6, 7}" using that by auto
  moreover have "j \<in> {0, 1, 2, 3, 4, 5, 6, 7}" if "j < 8" using that by auto
  ultimately show ?thesis using bit_byte_range [of "0x7F" j] by (cases "j < 8") auto
qed

lemma bit_high_part: "bit (drop_bit (Suc i) (x AND 0x80) :: u8) j \<longleftrightarrow> bit x 7 \<and> j + i = 6"
proof -
  have "Suc i + j = 7 \<longleftrightarrow> j + i = 6" by arith
  then show ?thesis by (simp only: bit_drop_bit_eq comp_def bit_and_iff bit_0x80) (metis (full_types))
qed

lemma bit_foldl_or: "bit (foldl (\<lambda>acc i. acc OR f i) a is) j \<longleftrightarrow> bit (a :: u8) j \<or> (\<exists>i \<in> set is. bit (f i) j)"
  by (induction "is" arbitrary: a) (auto simp: bit_or_iff)

lemma bit_seed_high_bits: "bit (seed_high_bits bs) j \<longleftrightarrow> j < 7 \<and> bit (bs ! (6 - j)) 7"
proof -
  have "bit (seed_high_bits bs) j \<longleftrightarrow> (\<exists>i \<in> set [0..<7]. bit (bs ! i) 7 \<and> j + i = 6)"
    by (simp only: seed_high_bits_def bit_foldl_or bit_high_part plus_1_eq_Suc bit_0_eq) simp
  also have "\<dots> \<longleftrightarrow> j < 7 \<and> bit (bs ! (6 - j)) 7"
  proof
    assume "\<exists>i \<in> set [0..<7]. bit (bs ! i) 7 \<and> j + i = 6"
    then obtain i where "bit (bs ! i) 7" "j + i = 6" by blast
    moreover from this have "i = 6 - j" "j < 7" by linarith+
    ultimately show "j < 7 \<and> bit (bs ! (6 - j)) 7" by simp
  next
    assume "j < 7 \<and> bit (bs ! (6 - j)) 7"
    then show "\<exists>i \<in> set [0..<7]. bit (bs ! i) 7 \<and> j + i = 6"
      by (intro bexI [of _ "6 - j"]) auto
  qed
  finally show ?thesis .
qed

text \<open>The seed is a string: the source converts it without a check.\<close>

lemma high_bit_clear_less: "\<not> bit (b :: u8) 7 \<Longrightarrow> b < 0x80"
proof -
  assume b: "\<not> bit b 7"
  have "b = take_bit 7 b"
    by (rule bit_eqI) (use b bit_byte_range in \<open>auto simp: bit_take_bit_iff less_Suc_eq numeral_eq_Suc\<close>)
  then have "unat b < 2 ^ 7" by (metis take_bit_nat_less_exp unsigned_take_bit_eq)
  then show ?thesis by (simp add: word_less_nat_alt)
qed

lemma length_index_bytes [simp]: "length (take 28 (drop 3 (be_bytes 32 (index :: u256)))) = 28"
  by simp

lemma length_make_seed: "length (make_seed index) = 32"
  by (simp add: make_seed_def Let_def)

lemma make_seed_ascii: "b \<in> set (make_seed index) \<Longrightarrow> b < 0x80"
  by (rule high_bit_clear_less)
    (auto simp: make_seed_def Let_def bit_and_iff bit_0x7F bit_seed_high_bits)

text \<open>The seed determines the 28 bytes it was made of.\<close>

lemma seed_byte:
  assumes "i < 28"
  shows "bit (take 28 (drop 3 (be_bytes 32 index)) ! i) j \<longleftrightarrow>
    (if j < 7 then bit (make_seed index ! i) j
     else j = 7 \<and> bit (make_seed index ! (28 + i div 7)) (6 - i mod 7))"
proof -
  let ?bs = "take 28 (drop 3 (be_bytes 32 index))"
  have low: "make_seed index ! i = ?bs ! i AND 0x7F"
    using assms by (simp add: make_seed_def Let_def nth_append)
  have "i div 7 < 4" using assms by simp
  then have cases: "i div 7 = 0 \<or> i div 7 = 1 \<or> i div 7 = 2 \<or> i div 7 = 3" by linarith
  have high: "make_seed index ! (28 + i div 7) = seed_high_bits (drop (7 * (i div 7)) ?bs)"
    using cases by (auto simp: make_seed_def Let_def nth_append)
  have "bit (seed_high_bits (drop (7 * (i div 7)) ?bs)) (6 - i mod 7) \<longleftrightarrow> bit (?bs ! i) 7"
    using assms by (auto simp: bit_seed_high_bits)
  then have j7: "bit (?bs ! i) 7 = bit (make_seed index ! (28 + i div 7)) (6 - i mod 7)" by (simp only: high)
  consider "j < 7" | "j = 7" | "7 < j" by linarith
  then show ?thesis
  proof cases
    case 1
    then show ?thesis by (simp only: low bit_and_iff bit_0x7F if_True) blast
  next
    case 2
    then show ?thesis using j7 by (simp only: less_irrefl if_False) blast
  next
    case 3
    then have "\<not> j < 7" "j \<noteq> 7" "\<not> bit (?bs ! i) j"
      using bit_byte_range [of "?bs ! i" j] by linarith+
    then show ?thesis by (simp only: if_False simp_thms)
  qed
qed

lemma make_seed_eq_iff:
  "make_seed i = make_seed j \<longleftrightarrow> take 28 (drop 3 (be_bytes 32 i)) = take 28 (drop 3 (be_bytes 32 j))"
proof
  assume "make_seed i = make_seed j"
  then have "bit (take 28 (drop 3 (be_bytes 32 i)) ! k) n = bit (take 28 (drop 3 (be_bytes 32 j)) ! k) n" if "k < 28" for k n
    by (simp only: seed_byte [OF that])
  then show "take 28 (drop 3 (be_bytes 32 i)) = take 28 (drop 3 (be_bytes 32 j))"
    by (intro nth_equalityI bit_eqI) (simp_all only: length_index_bytes)
qed (simp only: make_seed_def)

text \<open>Bytes of a word\<close>

lemma le_bytes_nat_nth: "k < n \<Longrightarrow> le_bytes_nat n x ! k = word_of_nat (x div 256 ^ k)"
proof (induction n arbitrary: x k)
  case (Suc n)
  then show ?case by (cases k) (simp_all add: div_mult2_eq)
qed simp

lemma be_bytes_nth: "k < n \<Longrightarrow> be_bytes n w ! k = ucast (drop_bit (8 * (n - Suc k)) w)"
proof -
  assume k: "k < n"
  then have "be_bytes n w ! k = word_of_nat (unat w div 256 ^ (n - Suc k))"
    by (simp add: be_bytes_def rev_nth le_bytes_nat_nth)
  also have "unat w div 256 ^ (n - Suc k) = unat (drop_bit (8 * (n - Suc k)) w)"
    by (simp only: unat_drop_bit_eq) (simp add: drop_bit_eq_div power_mult)
  finally show ?thesis by (simp only: of_nat_unat)
qed

lemma bit_index_byte:
  "k < 28 \<Longrightarrow> bit (take 28 (drop 3 (be_bytes 32 (w :: u256))) ! k) b \<longleftrightarrow> b < 8 \<and> bit w (8 * (28 - k) + b)"
  by (simp add: be_bytes_nth) (simp add: bit_ucast_iff bit_drop_bit_eq)

lemma make_seed_bits: "make_seed i = make_seed j \<longleftrightarrow> (\<forall>n. 8 \<le> n \<longrightarrow> n < 232 \<longrightarrow> bit i n = bit j n)"
proof
  assume seed: "make_seed i = make_seed j"
  show "\<forall>n. 8 \<le> n \<longrightarrow> n < 232 \<longrightarrow> bit i n = bit j n"
  proof (intro allI impI)
    fix n :: nat
    assume "8 \<le> n" "n < 232"
    then have k: "28 - n div 8 < 28" and n: "8 * (28 - (28 - n div 8)) + n mod 8 = n" by auto
    show "bit i n = bit j n"
      using bit_index_byte [OF k, of i "n mod 8"] bit_index_byte [OF k, of j "n mod 8"] seed [unfolded make_seed_eq_iff]
      unfolding n by simp
  qed
next
  assume bits: "\<forall>n. 8 \<le> n \<longrightarrow> n < 232 \<longrightarrow> bit i n = bit j n"
  have "bit (take 28 (drop 3 (be_bytes 32 i)) ! k) b = bit (take 28 (drop 3 (be_bytes 32 j)) ! k) b" if "k < 28" for k b
    unfolding bit_index_byte [OF that] using bits that by auto
  then show "make_seed i = make_seed j"
    unfolding make_seed_eq_iff by (intro nth_equalityI bit_eqI) (simp_all only: length_index_bytes)
qed

text \<open>The seeds of two storage accounts, whose indexes are multiples of 256, are different ASCII strings of 32 bytes
  exactly when the indexes differ below their 24 leading bits: these bits do not reach the seed.\<close>

theorem storage_seed_identifies:
  assumes "take_bit 8 i = 0" and "take_bit 8 j = 0"
  shows "length (make_seed i) = 32 \<and> list_all (\<lambda>b. b < 0x80) (make_seed i)
    \<and> (make_seed i = make_seed j \<longleftrightarrow> take_bit 232 i = take_bit 232 j)"
proof -
  have low: "\<not> bit i n" "\<not> bit j n" if "n < 8" for n
    using assms that by (metis bit_take_bit_iff bit_0_eq bot_apply bot_bool_def)+
  have "take_bit 232 i = take_bit 232 j \<longleftrightarrow> (\<forall>n. n < 232 \<longrightarrow> bit i n = bit j n)"
  proof
    assume eq: "take_bit 232 i = take_bit 232 j"
    show "\<forall>n. n < 232 \<longrightarrow> bit i n = bit j n" using bit_take_bit_iff [of 232 i] bit_take_bit_iff [of 232 j] eq by metis
  qed (intro bit_eqI, auto simp: bit_take_bit_iff)
  also have "\<dots> \<longleftrightarrow> make_seed i = make_seed j"
    unfolding make_seed_bits using low by (metis not_less)
  finally show ?thesis by (auto simp: length_make_seed list_all_iff make_seed_ascii)
qed

theorem storage_seed_identifies_witness:
  "take_bit 8 (0x100 :: u256) = 0 \<and> make_seed 0x100 \<noteq> make_seed 0x200"
proof -
  have "take_bit 8 (0x100 :: u256) = 0" "take_bit 8 (0x200 :: u256) = 0" by simp_all
  from storage_seed_identifies [OF this] have "make_seed 0x100 = make_seed 0x200 \<longleftrightarrow> take_bit 232 (0x100 :: u256) = take_bit 232 0x200"
    by blast
  moreover have "take_bit 232 (0x100 :: u256) \<noteq> take_bit 232 0x200" by simp
  ultimately show ?thesis by simp
qed

text \<open>Two cells of one contract whose indexes differ in the leading bits only share the address of their account.\<close>

theorem storage_seed_collision: "make_seed 0x100 = make_seed (0x100 + 2 ^ 232)"
proof -
  have "take_bit 232 (0x100 + 2 ^ 232 :: u256) = take_bit 232 0x100"
    by simp
  moreover have "take_bit 8 (0x100 :: u256) = 0" "take_bit 8 (0x100 + 2 ^ 232 :: u256) = 0" by simp_all
  ultimately have "take_bit 8 (0x100 :: u256) = 0 \<and> take_bit 8 (0x100 + 2 ^ 232 :: u256) = 0
      \<and> take_bit 232 (0x100 + 2 ^ 232 :: u256) = take_bit 232 0x100" by simp
  then have "bit (0x100 :: u256) n = bit (0x100 + 2 ^ 232 :: u256) n" if "n < 232" for n
    using that by (metis bit_take_bit_iff)
  then show ?thesis unfolding make_seed_bits by blast
qed

section \<open>The cells of an account\<close>

text \<open>\<open>chunks_exact(33)\<close>: the chunk with the subindex, read and written\<close>

fun chunk_get :: "u8 \<Rightarrow> bytes \<Rightarrow> bytes32" where
  "chunk_get subindex bs =
    (if length bs < 33 then 0
     else if hd bs \<noteq> subindex then chunk_get subindex (drop 33 bs)
     else from_be (take 32 (tl bs)))"

fun chunk_set :: "u8 \<Rightarrow> bytes32 \<Rightarrow> bytes \<Rightarrow> bytes option" where
  "chunk_set subindex val bs =
    (if length bs < 33 then None
     else if hd bs \<noteq> subindex then map_option (\<lambda>rest. take 33 bs @ rest) (chunk_set subindex val (drop 33 bs))
     else Some (hd bs # be_bytes 32 val @ drop 33 bs))"

declare chunk_get.simps [simp del] chunk_set.simps [simp del]

abbreviation storage_size :: usize where
  "storage_size \<equiv> account_size storage_packable"

lemma storage_size: "storage_size = 57"
  by (simp add: account_size_def storage_packable_def)

text \<open>\<open>&data[Self::SIZE..]\<close> panics when the account is too short.\<close>

definition storage_get :: "owned_account \<Rightarrow> u8 \<Rightarrow> bytes32 result" where
  "storage_get info subindex =
    (if length (oa_data info) < storage_size then Panic
     else Ok (chunk_get subindex (drop storage_size (oa_data info))))"

text \<open>
  \<open>realloc\<close> is the runtime's; the transfers that accounts need are collected by key.
\<close>

definition storage_set :: "(usize \<Rightarrow> u64) result \<Rightarrow> (owned_account \<Rightarrow> usize \<Rightarrow> owned_account result) \<Rightarrow> u8 \<Rightarrow> bytes32
    \<Rightarrow> owned_account \<Rightarrow> (pubkey \<times> u64) list \<Rightarrow> (owned_account \<times> (pubkey \<times> u64) list) result" where
  "storage_set rent realloc subindex val info transfers =
    (if length (oa_data info) < storage_size then Panic
     else
       case chunk_set subindex val (drop storage_size (oa_data info)) of
         Some cells \<Rightarrow> Ok (info\<lparr>oa_data := take storage_size (oa_data info) @ cells\<rparr>, transfers)
       | None \<Rightarrow>
           let new_len = length (oa_data info) + 1 + 32 in
           rbind (realloc info new_len) (\<lambda>info.
           rbind rent (\<lambda>minimum_balance.
           let transfers = (if oa_lamports info < minimum_balance new_len
                 then AList.update (oa_key info) (minimum_balance new_len - oa_lamports info) transfers else transfers) in
           if length (oa_data info) < 34 then Panic
           else
             let chunk_start = length (oa_data info) - 33 in
             Ok (info\<lparr>oa_data := take chunk_start (oa_data info) @ [subindex] @ be_bytes 32 val\<rparr>, transfers))))"

text \<open>\<open>clear\<close>: a new generation, no cells, and the lamports that are not needed any more go to the operator.\<close>

definition storage_clear :: "(usize \<Rightarrow> u64) result \<Rightarrow> (owned_account \<Rightarrow> usize \<Rightarrow> owned_account result) \<Rightarrow> u32
    \<Rightarrow> storage_data account_data \<Rightarrow> owned_account \<Rightarrow> (storage_data account_data \<times> owned_account) result" where
  "storage_clear rent realloc generation storage operator =
    (let storage = account_modify (\<lambda>d. d\<lparr>sd_generation := generation\<rparr>) storage in
     rbind (realloc (ad_info storage) storage_size) (\<lambda>info.
     rbind rent (\<lambda>minimum_balance.
     let minimum = minimum_balance storage_size;
         excessive = (if minimum \<le> oa_lamports info then oa_lamports info - minimum else 0) in
     Ok (storage\<lparr>ad_info := info\<lparr>oa_lamports := oa_lamports info - excessive\<rparr>\<rparr>,
       operator\<lparr>oa_lamports := oa_lamports operator + excessive\<rparr>))))"

text \<open>\<open>create\<close>, after the system program has made the account\<close>

definition storage_create :: "(usize \<Rightarrow> u64) \<Rightarrow> pubkey \<Rightarrow> address \<Rightarrow> u32 \<Rightarrow> u256 \<Rightarrow> u8 \<Rightarrow> bytes32 \<Rightarrow> owned_account
    \<Rightarrow> storage_data account_data result" where
  "storage_create minimum_balance program_id contract generation index subindex val info =
    rbind (account_init minimum_balance storage_packable program_id info
        \<lparr>sd_address = contract, sd_generation = generation, sd_index = index\<rparr>) (\<lambda>storage.
    let info = ad_info storage in
    rbind (rassert (length (oa_data info) = storage_size + 33)) (\<lambda>_.
    Ok (storage\<lparr>ad_info := info\<lparr>oa_data := take storage_size (oa_data info) @ [subindex] @ be_bytes 32 val\<rparr>\<rparr>)))"

section \<open>An account is a map from subindexes to values\<close>

definition storage_cells_ok :: "owned_account \<Rightarrow> bool" where
  "storage_cells_ok info \<longleftrightarrow> (\<exists>k. length (oa_data info) = storage_size + 33 * k)"

definition storage_map :: "owned_account \<Rightarrow> u8 \<Rightarrow> bytes32" where
  "storage_map info subindex = chunk_get subindex (drop storage_size (oa_data info))"

text \<open>What the runtime documents of \<open>realloc\<close>: it changes the data alone, keeps the bytes that fit, and has the new length.\<close>

definition realloc_ok :: "(owned_account \<Rightarrow> usize \<Rightarrow> owned_account result) \<Rightarrow> bool" where
  "realloc_ok realloc \<longleftrightarrow> (\<forall>info n info'. realloc info n = Ok info' \<longrightarrow>
     info' = info\<lparr>oa_data := oa_data info'\<rparr> \<and> length (oa_data info') = n
     \<and> take (length (oa_data info)) (oa_data info') = take n (oa_data info))"

lemma chunk_get_append:
  assumes "chunk_set s v bs = None" and "length bs = 33 * k"
  shows "chunk_get t (bs @ cs) = (if t = s then chunk_get t cs else chunk_get t (bs @ cs))"
    and "chunk_get s bs = 0"
  using assms
proof (induction k arbitrary: bs)
  case 0
  { case 1 then show ?case by simp next case 2 then show ?case by (simp add: chunk_get.simps) }
next
  case (Suc k)
  { case 1
    then have h: "hd bs \<noteq> s" "chunk_set s v (drop 33 bs) = None"
      by (auto simp: chunk_set.simps [of s v bs] split: if_splits)
    have "hd (bs @ cs) = hd bs" "drop 33 (bs @ cs) = drop 33 bs @ cs" using 1 by (cases bs; simp)+
    then show ?case using Suc.IH(1) [OF h(2)] 1 h(1) by (auto simp: chunk_get.simps [of s "bs @ cs"])
  next
    case 2
    then have h: "hd bs \<noteq> s" "chunk_set s v (drop 33 bs) = None"
      by (auto simp: chunk_set.simps [of s v bs] split: if_splits)
    then show ?case using Suc.IH(2) [OF h(2)] 2 by (simp add: chunk_get.simps [of s bs]) }
qed

lemma chunk_get_append_other:
  assumes "length bs = 33 * k" and "length c = 33" and "hd c \<noteq> t"
  shows "chunk_get t (bs @ c) = chunk_get t bs"
  using assms(1)
proof (induction k arbitrary: bs)
  case 0
  then show ?case using assms(2,3) by (simp add: chunk_get.simps [of t c] chunk_get.simps [of t "[]"])
next
  case (Suc k)
  then have "hd (bs @ c) = hd bs" "drop 33 (bs @ c) = drop 33 bs @ c" "take 32 (tl (bs @ c)) = take 32 (tl bs)"
    by (cases bs; simp)+
  then show ?case using Suc.IH [of "drop 33 bs"] Suc.prems
    by (simp add: chunk_get.simps [of t bs] chunk_get.simps [of t "bs @ c"])
qed

lemma chunk_get_head: "chunk_get t (h # be_bytes 32 v @ rest) = (if t = h then v else chunk_get t rest)"
  by (subst chunk_get.simps) (simp add: codec)

lemma chunk_get_set:
  assumes "chunk_set s v bs = Some bs'" and "length bs = 33 * k"
  shows "chunk_get t bs' = (if t = s then v else chunk_get t bs)" and "length bs' = length bs"
  using assms
proof (induction k arbitrary: bs bs')
  case 0
  { case 1 then show ?case by (simp add: chunk_set.simps) next case 2 then show ?case by (simp add: chunk_set.simps) }
next
  case (Suc k)
  { case 1
    then show ?case
    proof (cases "hd bs = s")
      case True
      then have "bs' = hd bs # be_bytes 32 v @ drop 33 bs" using 1 by (simp add: chunk_set.simps [of s v bs])
      then show ?thesis using 1 True by (auto simp: chunk_get_head chunk_get.simps [of t bs])
    next
      case False
      then obtain rest where r: "chunk_set s v (drop 33 bs) = Some rest" "bs' = take 33 bs @ rest"
        using 1 by (auto simp: chunk_set.simps [of s v bs])
      then have "hd bs' = hd bs" "drop 33 bs' = rest" "take 32 (tl bs') = take 32 (tl bs)" "33 \<le> length bs'"
        using 1 by (cases bs; simp)+
      then show ?thesis using Suc.IH(1) [OF r(1)] 1 False
        by (auto simp: chunk_get.simps [of t bs'] chunk_get.simps [of t bs])
    qed
  next
    case 2
    then show ?case using Suc.IH(2) [of "drop 33 bs"] by (auto simp: chunk_set.simps [of s v bs] split: if_splits) }
qed

text \<open>C25: writing a cell of a storage account is an update of the map from subindexes to values, whether the cell was
  there or is appended; the header and the lamports stay.\<close>

theorem storage_set_updates_map:
  assumes "realloc_ok realloc" and "storage_cells_ok info"
    and "storage_set rent realloc s v info transfers = Ok (info', transfers')"
  shows "storage_map info' = (storage_map info)(s := v) \<and> storage_cells_ok info'
    \<and> take storage_size (oa_data info') = take storage_size (oa_data info) \<and> oa_lamports info' = oa_lamports info"
proof -
  let ?head = "take storage_size (oa_data info)" and ?cells = "drop storage_size (oa_data info)"
  obtain k where k: "length (oa_data info) = storage_size + 33 * k" using assms(2) by (auto simp: storage_cells_ok_def)
  then have len: "length ?cells = 33 * k" "length ?head = storage_size" by auto
  show ?thesis
  proof (cases "chunk_set s v ?cells")
    case (Some cells)
    then have "info' = info\<lparr>oa_data := ?head @ cells\<rparr>" using assms(3) k by (simp add: storage_set_def)
    then show ?thesis using chunk_get_set [OF Some len(1)] len k
      by (auto simp: storage_map_def storage_cells_ok_def fun_eq_iff)
  next
    case None
    then obtain info1 where realloc: "realloc info (length (oa_data info) + 1 + 32) = Ok info1"
        and info': "info' = info1\<lparr>oa_data := take (length (oa_data info1) - 33) (oa_data info1) @ [s] @ be_bytes 32 v\<rparr>"
      using assms(3) k None by (auto simp: storage_set_def Let_def rbind_Ok_iff add.commute split: if_splits)
    have info1: "info1 = info\<lparr>oa_data := oa_data info1\<rparr>" "length (oa_data info1) = length (oa_data info) + 33"
        "take (length (oa_data info)) (oa_data info1) = oa_data info"
      using assms(1) realloc unfolding realloc_ok_def by fastforce+
    have data: "oa_data info' = oa_data info @ [s] @ be_bytes 32 v" using info1(2,3) by (simp add: info')
    then have "drop storage_size (oa_data info') = ?cells @ [s] @ be_bytes 32 v" using k by simp
    moreover have "chunk_get t (?cells @ [s] @ be_bytes 32 v) = (if t = s then v else chunk_get t ?cells)" for t
      using chunk_get_append(1) [OF None len(1), of s "[s] @ be_bytes 32 v"]
        chunk_get_append_other [OF len(1), of "[s] @ be_bytes 32 v" t] chunk_get_head [of s s v "[]"] by simp
    moreover have "storage_cells_ok info'"
      unfolding storage_cells_ok_def by (rule exI [of _ "Suc k"]) (simp add: data k)
    moreover have "oa_lamports info' = oa_lamports info" by (subst info', subst info1(1)) simp
    ultimately show ?thesis using k data by (auto simp: storage_map_def fun_eq_iff)
  qed
qed

theorem storage_set_updates_map_witness:
  "(let info = \<lparr>oa_key = 5, oa_is_signer = False, oa_is_writable = True, oa_lamports = 0, oa_data = replicate 57 0,
       oa_owner = 8, oa_executable = False, oa_rent_epoch = 0\<rparr>;
     realloc = (\<lambda>i n. Ok (i\<lparr>oa_data := take n (oa_data i) @ replicate (n - length (oa_data i)) 0\<rparr>)) in
   case storage_set (Ok (\<lambda>n. of_nat n)) realloc 3 77 info [] of
     Ok (info', t) \<Rightarrow> storage_map info' 3 = 77 \<and> storage_map info' 4 = 0 \<and> map_of t 5 = Some 90
   | _ \<Rightarrow> False)"
proof -
  let ?info = "\<lparr>oa_key = 5, oa_is_signer = False, oa_is_writable = True, oa_lamports = 0, oa_data = replicate 57 0,
       oa_owner = 8, oa_executable = False, oa_rent_epoch = 0\<rparr> :: owned_account"
  let ?realloc = "(\<lambda>i n. Ok (i\<lparr>oa_data := take n (oa_data i) @ replicate (n - length (oa_data i)) 0\<rparr>))
      :: owned_account \<Rightarrow> usize \<Rightarrow> owned_account result"
  have realloc: "realloc_ok ?realloc" by (auto simp: realloc_ok_def min_def)
  have ok: "storage_cells_ok ?info" by (simp add: storage_cells_ok_def storage_size)
  have empty: "chunk_set 3 77 [] = None" "chunk_get 4 [] = 0" by (simp_all add: chunk_set.simps chunk_get.simps)
  obtain info' t where run: "storage_set (Ok (\<lambda>n. of_nat n)) ?realloc 3 77 ?info [] = Ok (info', t)" and t: "map_of t 5 = Some 90"
    by (simp add: storage_set_def storage_size empty Let_def)
  from storage_set_updates_map [OF realloc ok run] t show ?thesis
    by (simp add: run Let_def) (simp add: storage_map_def storage_size empty)
qed

end
