(* ===== verification/Program_Storage.thy ===== *)
theory Program_Storage
  imports Storage_Account Slot_Hashes State_Account
begin

text \<open>
  The accounts of a Solana transaction as the program keeps them while it runs (\<open>ProgramAccountStorage\<close>:
  \<open>program/src/account_storage/base.rs\<close> and \<open>backend.rs\<close>, with the contract part of an account,
  \<open>account/ether_contract.rs\<close>).

  The references to the accounts are shared: the store \<open>ps_solana\<close> holds what they point to, and an opened
  account is a \<open>handle\<close> of its header and its key, so that a write through one reference is seen through all.  A
  changed header is written back when the storage is dropped (\<open>ps_drop\<close>).

  The hash maps of opened accounts are association lists in the order of insertion; the loops over them do not
  depend on the order.  The two sets that remember addresses without an account save a repeated check and are not kept.
  The time of the clock is not negative.  What the Solana runtime provides is the record \<open>runtime\<close>.
\<close>

section \<open>The runtime\<close>

type_synonym accounts = "pubkey \<Rightarrow> owned_account option"

text \<open>The instructions of the system program that the program sends, with the seeds that sign them\<close>

datatype system_call =
    CallTransfer pubkey pubkey u64
  | CallAllocate pubkey usize
  | CallAssign pubkey pubkey
  | CallCreateAccount pubkey pubkey u64 usize pubkey
  | CallAllocateWithSeed pubkey pubkey bytes usize pubkey
  | CallAssignWithSeed pubkey pubkey bytes pubkey
  | CallCreateAccountWithSeed pubkey pubkey pubkey bytes u64 usize pubkey

record runtime =
  rt_solana :: solana
  rt_minimum_balance :: "usize \<Rightarrow> u64"
  rt_create_with_seed :: "pubkey \<Rightarrow> bytes \<Rightarrow> pubkey \<Rightarrow> pubkey result"
  rt_keccak :: "bytes \<Rightarrow> bytes32"
  rt_realloc :: "owned_account \<Rightarrow> usize \<Rightarrow> owned_account result"
  rt_system :: "system_call \<Rightarrow> bytes list \<Rightarrow> accounts \<Rightarrow> accounts result"
  rt_invoke :: "instruction \<Rightarrow> bytes list \<Rightarrow> accounts \<Rightarrow> accounts result"
  rt_token_mint :: pubkey
  rt_chain_id :: u64
  rt_slot_hashes_id :: pubkey

definition ACCOUNT_SEED_VERSION :: u8 where
  "ACCOUNT_SEED_VERSION = 3"

definition find_solana_address :: "runtime \<Rightarrow> address \<Rightarrow> pubkey \<Rightarrow> pubkey \<times> u8" where
  "find_solana_address R a program_id =
     sol_find_program_address (rt_solana R) [[ACCOUNT_SEED_VERSION], be_bytes 20 a] program_id"

section \<open>The contract part of an account\<close>

abbreviation ether_size :: usize where
  "ether_size \<equiv> account_size ether_account_packable"

lemma ether_size: "ether_size = 71"
  by (simp add: account_size_def ether_account_packable_def)

definition STORAGE_ENTRIES_IN_CONTRACT_ACCOUNT :: nat where
  "STORAGE_ENTRIES_IN_CONTRACT_ACCOUNT = 64"

definition INTERNAL_STORAGE_SIZE :: usize where
  "INTERNAL_STORAGE_SIZE = 32 * STORAGE_ENTRIES_IN_CONTRACT_ACCOUNT"

definition code_size :: "ether_data \<Rightarrow> usize" where
  "code_size d = unat (ed_code_size d)"

definition is_contract :: "ether_data \<Rightarrow> bool" where
  "is_contract d \<longleftrightarrow> code_size d \<noteq> 0"

definition code_location :: "ether_data \<Rightarrow> usize \<times> usize" where
  "code_location d =
    (let begin' = ether_size + INTERNAL_STORAGE_SIZE in (begin', saturating_add_usize begin' (code_size d)))"

definition space_needed :: "usize \<Rightarrow> usize" where
  "space_needed n = ether_size + (if 0 < n then n + INTERNAL_STORAGE_SIZE else 0)"

definition size_of_account :: "ether_data \<Rightarrow> usize" where
  "size_of_account d = space_needed (code_size d)"

text \<open>\<open>extension_part_borrow_mut\<close>, read and written\<close>

definition extension_part :: "owned_account \<Rightarrow> usize \<Rightarrow> usize \<Rightarrow> bytes result" where
  "extension_part info offset n = rbind (slice_from ether_size (oa_data info)) (\<lambda>ext. slice_at ext offset n)"

definition put_extension_part :: "usize \<Rightarrow> bytes \<Rightarrow> owned_account \<Rightarrow> owned_account result" where
  "put_extension_part offset bs info =
    rbind (put_slice (ether_size + offset) bs (oa_data info)) (\<lambda>data. Ok (info\<lparr>oa_data := data\<rparr>))"

definition contract_code :: "ether_data \<Rightarrow> owned_account \<Rightarrow> bytes result" where
  "contract_code d info = extension_part info INTERNAL_STORAGE_SIZE (code_size d)"

definition contract_storage :: "owned_account \<Rightarrow> bytes result" where
  "contract_storage info = extension_part info 0 INTERNAL_STORAGE_SIZE"

section \<open>Opened accounts\<close>

record 'a handle =
  hn_dirty :: bool
  hn_data :: 'a
  hn_key :: pubkey

definition handle_of :: "'a account_data \<Rightarrow> 'a handle" where
  "handle_of a = \<lparr>hn_dirty = ad_dirty a, hn_data = ad_data a, hn_key = oa_key (ad_info a)\<rparr>"

definition handle_modify :: "('a \<Rightarrow> 'a) \<Rightarrow> 'a handle \<Rightarrow> 'a handle" where
  "handle_modify f h = h\<lparr>hn_dirty := True, hn_data := f (hn_data h)\<rparr>"

record program_storage =
  ps_program_id :: pubkey
  ps_operator :: pubkey
  ps_slot :: u64
  ps_timestamp :: u64
  ps_solana :: accounts
  ps_ethereum :: "(address \<times> ether_data handle) list"
  ps_cells :: "((address \<times> u256) \<times> storage_data handle) list"

definition put_solana :: "owned_account \<Rightarrow> program_storage \<Rightarrow> program_storage" where
  "put_solana info S = S\<lparr>ps_solana := (ps_solana S)(oa_key info \<mapsto> info)\<rparr>"

definition handle_info :: "'a handle \<Rightarrow> program_storage \<Rightarrow> owned_account result" where
  "handle_info h S = unwrap (ps_solana S (hn_key h))"

text \<open>\<open>ethereum_account_mut\<close>, and what is done with the reference\<close>

definition modify_ethereum :: "address \<Rightarrow> (ether_data \<Rightarrow> ether_data) \<Rightarrow> program_storage \<Rightarrow> program_storage result" where
  "modify_ethereum a f S =
    (case map_of (ps_ethereum S) a of
       Some h \<Rightarrow> Ok (S\<lparr>ps_ethereum := AList.update a (handle_modify f h) (ps_ethereum S)\<rparr>)
     | None \<Rightarrow> Panic)"

section \<open>Creation\<close>

text \<open>The accounts by key: of two with one key the later remains; the operator and the system program come last.\<close>

definition collect_accounts_by_key :: "owned_account list \<Rightarrow> (pubkey \<times> owned_account) list" where
  "collect_accounts_by_key as = foldl (\<lambda>m a. AList.update (oa_key a) a m) [] as"

fun open_accounts :: "pubkey \<Rightarrow> owned_account list \<Rightarrow> program_storage \<Rightarrow> program_storage result" where
  "open_accounts program_id [] S = Ok S"
| "open_accounts program_id (info # rest) S =
    (if oa_owner info \<noteq> program_id then open_accounts program_id rest S
     else
       case account_tag program_id info of
         Ok tag \<Rightarrow>
           if tag = TAG_ACCOUNT_V3 then
             rbind (as_program_error (from_account ether_account_packable program_id info)) (\<lambda>account.
             open_accounts program_id rest
               (S\<lparr>ps_ethereum := AList.update (ed_address (ad_data account)) (handle_of account) (ps_ethereum S)\<rparr>))
           else if tag = TAG_CONTRACT_STORAGE then
             rbind (as_program_error (from_account storage_packable program_id info)) (\<lambda>account.
             open_accounts program_id rest
               (S\<lparr>ps_cells := AList.update (sd_address (ad_data account), sd_index (ad_data account)) (handle_of account)
                    (ps_cells S)\<rparr>))
           else open_accounts program_id rest S
       | _ \<Rightarrow> open_accounts program_id rest S)"

text \<open>Cells of an older generation of their contract are cleared.\<close>

fun clear_outdated :: "runtime \<Rightarrow> (address \<times> u256) list \<Rightarrow> program_storage \<Rightarrow> program_storage result" where
  "clear_outdated R [] S = Ok S"
| "clear_outdated R (k # ks) S =
    rbind (unwrap (map_of (ps_cells S) k)) (\<lambda>h.
    rbind (unwrap (map_of (ps_ethereum S) (sd_address (hn_data h)))) (\<lambda>owner.
    if sd_generation (hn_data h) \<noteq> ed_generation (hn_data owner) then
      rbind (handle_info h S) (\<lambda>info.
      rbind (unwrap (ps_solana S (ps_operator S))) (\<lambda>operator.
      rbind (storage_clear (Ok (rt_minimum_balance R)) (rt_realloc R) (ed_generation (hn_data owner))
          \<lparr>ad_dirty = hn_dirty h, ad_data = hn_data h, ad_info = info\<rparr> operator) (\<lambda>(a, operator).
      clear_outdated R ks (put_solana operator (put_solana (ad_info a) (S\<lparr>ps_cells := AList.update k (handle_of a) (ps_cells S)\<rparr>))))))
    else clear_outdated R ks S))"

definition ps_new :: "runtime \<Rightarrow> u64 \<Rightarrow> u64 \<Rightarrow> pubkey \<Rightarrow> owned_account \<Rightarrow> owned_account option \<Rightarrow> owned_account list
    \<Rightarrow> program_storage result" where
  "ps_new R slot_now timestamp program_id operator system_program as =
    (let solana = collect_accounts_by_key (as @ [operator] @ (case system_program of Some s \<Rightarrow> [s] | None \<Rightarrow> [])) in
     rbind (open_accounts program_id (map snd solana)
         \<lparr>ps_program_id = program_id, ps_operator = oa_key operator, ps_slot = slot_now, ps_timestamp = timestamp,
          ps_solana = map_of solana, ps_ethereum = [], ps_cells = []\<rparr>) (\<lambda>S.
     clear_outdated R (map fst (ps_cells S)) S))"

section \<open>Looking up\<close>

definition is_account_empty :: "runtime \<Rightarrow> program_storage \<Rightarrow> owned_account \<Rightarrow> bool" where
  "is_account_empty R S info \<longleftrightarrow> oa_owner info = sol_system_id (rt_solana R)
     \<or> oa_owner info = ps_program_id S \<and> (oa_data info = [] \<or> hd (oa_data info) = TAG_EMPTY)"

definition ethereum_account :: "runtime \<Rightarrow> program_storage \<Rightarrow> address \<Rightarrow> ether_data handle option result" where
  "ethereum_account R S a =
    (case map_of (ps_ethereum S) a of
       Some h \<Rightarrow> Ok (Some h)
     | None \<Rightarrow>
         case ps_solana S (fst (find_solana_address R a (ps_program_id S))) of
           Some info \<Rightarrow> rbind (rassert (is_account_empty R S info)) (\<lambda>_. Ok None)
         | None \<Rightarrow> Panic)"

definition solana_address :: "runtime \<Rightarrow> program_storage \<Rightarrow> address \<Rightarrow> pubkey \<times> u8" where
  "solana_address R S a =
    (case map_of (ps_ethereum S) a of
       Some h \<Rightarrow> (hn_key h, ed_bump_seed (hn_data h))
     | None \<Rightarrow> find_solana_address R a (ps_program_id S))"

definition ethereum_storage :: "runtime \<Rightarrow> program_storage \<Rightarrow> address \<Rightarrow> u256 \<Rightarrow> storage_data handle option result" where
  "ethereum_storage R S a index =
    (case map_of (ps_cells S) (a, index) of
       Some h \<Rightarrow> Ok (Some h)
     | None \<Rightarrow>
         rbind (storage_address (\<lambda>base seed owner. rt_create_with_seed R base seed owner) (ps_program_id S)
           (fst (solana_address R S a)) index) (\<lambda>(_, k).
         case ps_solana S k of
           Some info \<Rightarrow> rbind (rassert (oa_owner info = sol_system_id (rt_solana R))) (\<lambda>_. Ok None)
         | None \<Rightarrow> Panic))"

definition block_accounts :: "bool \<Rightarrow> program_storage \<Rightarrow> program_storage" where
  "block_accounts b S = S\<lparr>ps_ethereum :=
     map (\<lambda>(a, h). (a, handle_modify (\<lambda>d. d\<lparr>ed_rw_blocked := b\<rparr>) h)) (ps_ethereum S)\<rparr>"

definition check_for_blocked_accounts :: "program_storage \<Rightarrow> unit result" where
  "check_for_blocked_accounts S =
    (if list_ex (\<lambda>(a, h). ed_rw_blocked (hn_data h)) (ps_ethereum S) then Err (ProgramError InvalidAccountData) else Ok ())"

section \<open>The backend of the executor\<close>

definition map_account :: "'b \<Rightarrow> (ether_data handle \<Rightarrow> 'b result) \<Rightarrow> runtime \<Rightarrow> program_storage \<Rightarrow> address \<Rightarrow> 'b result" where
  "map_account none f R S a = rbind (ethereum_account R S a) (\<lambda>x. case x of Some h \<Rightarrow> f h | None \<Rightarrow> Ok none)"

definition ps_nonce :: "runtime \<Rightarrow> program_storage \<Rightarrow> address \<Rightarrow> u64 result" where
  "ps_nonce = map_account 0 (\<lambda>h. Ok (ed_trx_count (hn_data h)))"

definition ps_balance :: "runtime \<Rightarrow> program_storage \<Rightarrow> address \<Rightarrow> u256 result" where
  "ps_balance = map_account 0 (\<lambda>h. Ok (ed_balance (hn_data h)))"

definition ps_code_size :: "runtime \<Rightarrow> program_storage \<Rightarrow> address \<Rightarrow> usize result" where
  "ps_code_size = map_account 0 (\<lambda>h. Ok (code_size (hn_data h)))"

definition ps_generation :: "runtime \<Rightarrow> program_storage \<Rightarrow> address \<Rightarrow> u32 result" where
  "ps_generation = map_account 0 (\<lambda>h. Ok (ed_generation (hn_data h)))"

definition ps_code_hash :: "runtime \<Rightarrow> program_storage \<Rightarrow> address \<Rightarrow> bytes32 result" where
  "ps_code_hash R S a =
    rbind (ps_code_size R S a) (\<lambda>n.
    if n = 0 then
      rbind (ps_nonce R S a) (\<lambda>nonce.
      if nonce = 0 then
        rbind (ps_balance R S a) (\<lambda>balance.
        Ok (if balance = 0 then 0 else rt_keccak R []))
      else Ok (rt_keccak R []))
    else
      map_account 0 (\<lambda>h.
        if is_contract (hn_data h) then
          rbind (handle_info h S) (\<lambda>info. rbind (contract_code (hn_data h) info) (\<lambda>code. Ok (rt_keccak R code)))
        else Ok 0) R S a)"

definition ps_code :: "runtime \<Rightarrow> program_storage \<Rightarrow> address \<Rightarrow> buffer result" where
  "ps_code R S = map_account buf_empty (\<lambda>h.
     if code_size (hn_data h) = 0 then Ok buf_empty
     else rbind (handle_info h S) (\<lambda>info. Ok (buf_from_account (oa_key info) (oa_data info) (code_location (hn_data h))))) R S"

definition ps_storage :: "runtime \<Rightarrow> program_storage \<Rightarrow> address \<Rightarrow> u256 \<Rightarrow> bytes32 result" where
  "ps_storage R S a index =
    (if unat index < STORAGE_ENTRIES_IN_CONTRACT_ACCOUNT then
       map_account 0 (\<lambda>h.
         if is_contract (hn_data h) then
           rbind (handle_info h S) (\<lambda>info.
           rbind (contract_storage info) (\<lambda>cells.
           rbind (slice_at cells (unat index * 32) 32) (\<lambda>b. Ok (from_be b))))
         else Ok 0) R S a
     else
       rbind (ethereum_storage R S a (index AND NOT 0xFF)) (\<lambda>x.
       case x of
         Some h \<Rightarrow> rbind (handle_info h S) (\<lambda>info. storage_get info (ucast (index AND 0xFF)))
       | None \<Rightarrow> Ok 0))"

text \<open>\<open>OwnedAccountInfo::from_account_info\<close> leaves out the data that no emulated program uses.\<close>

definition owned_account_of :: "pubkey \<Rightarrow> owned_account \<Rightarrow> owned_account" where
  "owned_account_of program_id info =
    info\<lparr>oa_data := (if oa_executable info \<or> oa_owner info = program_id then [] else oa_data info)\<rparr>"

definition ps_block_hash :: "runtime \<Rightarrow> program_storage \<Rightarrow> u64 \<Rightarrow> bytes32 result" where
  "ps_block_hash R S slot_number =
    rbind (unwrap (ps_solana S (rt_slot_hashes_id R))) (\<lambda>info.
    rbind (find_slot_hash slot_number (oa_data info)) (\<lambda>b. Ok (from_be b)))"

definition ps_solana_account_space :: "runtime \<Rightarrow> program_storage \<Rightarrow> address \<Rightarrow> usize option result" where
  "ps_solana_account_space R S a =
    rbind (unwrap (ps_solana S (fst (solana_address R S a)))) (\<lambda>info.
    if oa_owner info = sol_system_id (rt_solana R) then Ok None
    else rbind (rassert (oa_owner info = ps_program_id S)) (\<lambda>_. Ok (Some (length (oa_data info)))))"

definition backend :: "runtime \<Rightarrow> program_storage \<Rightarrow> account_storage" where
  "backend R S = \<lparr>as_neon_token_mint = rt_token_mint R, as_program_id = ps_program_id S, as_operator = ps_operator S,
     as_block_number = ucast (ps_slot S), as_block_timestamp = ucast (ps_timestamp S), as_block_hash = ps_block_hash R S,
     as_chain_id = rt_chain_id R, as_nonce = ps_nonce R S, as_balance = ps_balance R S, as_code_size = ps_code_size R S,
     as_code_hash = ps_code_hash R S, as_code = ps_code R S, as_storage = ps_storage R S,
     as_clone_solana_account = (\<lambda>k. rbind (unwrap (ps_solana S k)) (\<lambda>info. Ok (owned_account_of (ps_program_id S) info))),
     as_map_solana_account = (\<lambda>k. unwrap (ps_solana S k)), as_solana_address = solana_address R S\<rparr>"

section \<open>Saving\<close>

text \<open>The handles are dropped, in any order; each writes its own account.\<close>

definition drop_handle :: "'a packable \<Rightarrow> 'a handle \<Rightarrow> program_storage \<Rightarrow> program_storage result" where
  "drop_handle P h S =
    rbind (handle_info h S) (\<lambda>info.
    rbind (account_drop P \<lparr>ad_dirty = hn_dirty h, ad_data = hn_data h, ad_info = info\<rparr>) (\<lambda>info.
    Ok (put_solana info S)))"

fun drop_handles :: "'a packable \<Rightarrow> 'a handle list \<Rightarrow> program_storage \<Rightarrow> program_storage result" where
  "drop_handles P [] S = Ok S"
| "drop_handles P (h # hs) S = rbind (drop_handle P h S) (drop_handles P hs)"

definition ps_drop :: "program_storage \<Rightarrow> accounts result" where
  "ps_drop S =
    rbind (drop_handles ether_account_packable (map snd (ps_ethereum S)) S) (\<lambda>S.
    rbind (drop_handles storage_packable (map snd (ps_cells S)) S) (\<lambda>S.
    Ok (ps_solana S)))"

end
