(* ===== verification/Apply.thy ===== *)
theory Apply
  imports Program_Storage
begin

text \<open>
  Applying the log of a finished transaction to the accounts (\<open>program/src/account_storage/apply.rs\<close> and
  \<open>calc_accounts_operations\<close> of \<open>mod.rs\<close>): the actions are rearranged, the accounts they need are created or grown,
  the actions are applied in order, and the writes to storage last.
\<close>

section \<open>The system program\<close>

definition pda_seeds :: "address \<Rightarrow> u8 \<Rightarrow> bytes list" where
  "pda_seeds a bump = [[ACCOUNT_SEED_VERSION], be_bytes 20 a, [bump]]"

text \<open>\<open>create_pda_account\<close> of \<open>account/program.rs\<close>\<close>

definition create_pda_account :: "runtime \<Rightarrow> pubkey \<Rightarrow> pubkey \<Rightarrow> pubkey \<Rightarrow> bytes list \<Rightarrow> usize \<Rightarrow> accounts \<Rightarrow> accounts result" where
  "create_pda_account R program_id payer new_account seeds space as =
    (let minimum_balance = max (rt_minimum_balance R space) 1 in
     rbind (unwrap (as new_account)) (\<lambda>info.
     if 0 < oa_lamports info then
       let required_lamports = saturating_sub minimum_balance (oa_lamports info) in
       rbind (if 0 < required_lamports then rt_system R (CallTransfer payer new_account required_lamports) [] as else Ok as) (\<lambda>as.
       rbind (rt_system R (CallAllocate new_account space) seeds as) (\<lambda>as.
       rt_system R (CallAssign new_account program_id) seeds as))
     else rt_system R (CallCreateAccount payer new_account minimum_balance space program_id) seeds as))"

text \<open>\<open>create_account_with_seed\<close>, whose base account signs with the seeds of its address\<close>

definition create_account_with_seed :: "runtime \<Rightarrow> pubkey \<Rightarrow> ether_data handle \<Rightarrow> pubkey \<Rightarrow> pubkey \<Rightarrow> bytes \<Rightarrow> usize
    \<Rightarrow> accounts \<Rightarrow> accounts result" where
  "create_account_with_seed R payer base owner new_account seed space as =
    (let minimum_balance = max (rt_minimum_balance R space) 1;
         signer_seeds = pda_seeds (ed_address (hn_data base)) (ed_bump_seed (hn_data base)) in
     rbind (unwrap (as new_account)) (\<lambda>info.
     if 0 < oa_lamports info then
       let required_lamports = saturating_sub minimum_balance (oa_lamports info) in
       rbind (if 0 < required_lamports then rt_system R (CallTransfer payer new_account required_lamports) [] as else Ok as) (\<lambda>as.
       rbind (rt_system R (CallAllocateWithSeed new_account (hn_key base) seed space owner) signer_seeds as) (\<lambda>as.
       rt_system R (CallAssignWithSeed new_account (hn_key base) seed owner) signer_seeds as))
     else rt_system R (CallCreateAccountWithSeed payer new_account (hn_key base) seed minimum_balance space owner) signer_seeds as))"

text \<open>\<open>EthereumAccount::create_account\<close>\<close>

definition create_ether_account :: "runtime \<Rightarrow> pubkey \<Rightarrow> pubkey \<Rightarrow> address \<Rightarrow> pubkey \<Rightarrow> u8 \<Rightarrow> usize \<Rightarrow> accounts \<Rightarrow> accounts result" where
  "create_ether_account R program_id operator a info bump_seed space as =
    (if space < ether_size then Err (ProgramError AccountDataTooSmall)
     else create_pda_account R program_id operator info (pda_seeds a bump_seed) space as)"

definition default_ether_data :: "address \<Rightarrow> u8 \<Rightarrow> ether_data" where
  "default_ether_data a bump_seed = \<lparr>ed_address = a, ed_bump_seed = bump_seed, ed_trx_count = 0, ed_balance = 0,
     ed_generation = 0, ed_code_size = 0, ed_rw_blocked = False\<rparr>"

section \<open>Rearranging\<close>

definition accounts_to_destroy :: "journal_action list \<Rightarrow> address set" where
  "accounts_to_destroy acts = set (List.map_filter (\<lambda>act. case act of EvmSelfDestruct a \<Rightarrow> Some a | _ \<Rightarrow> None) acts)"

fun rearrange_loop :: "address set \<Rightarrow> journal_action list \<Rightarrow> journal_action list \<times> journal_action list" where
  "rearrange_loop destroyed [] = ([], [])"
| "rearrange_loop destroyed (act # acts) =
    (let (rearranged, self_destructs) = rearrange_loop destroyed acts in
     case act of
       ExternalInstruction _ _ _ _ _ \<Rightarrow> (act # rearranged, self_destructs)
     | NeonTransfer _ _ _ \<Rightarrow> (act # rearranged, self_destructs)
     | NeonWithdraw _ _ \<Rightarrow> (act # rearranged, self_destructs)
     | EvmSetStorage a _ _ \<Rightarrow> (if a \<notin> destroyed then (act # rearranged, self_destructs) else (rearranged, self_destructs))
     | EvmSetCode a _ \<Rightarrow> (if a \<notin> destroyed then (act # rearranged, self_destructs) else (rearranged, self_destructs))
     | EvmIncrementNonce a \<Rightarrow> (if a \<notin> destroyed then (act # rearranged, self_destructs) else (rearranged, self_destructs))
     | EvmSelfDestruct _ \<Rightarrow> (rearranged, act # self_destructs))"

definition rearrange_actions :: "journal_action list \<Rightarrow> journal_action list" where
  "rearrange_actions acts =
    (let (rearranged, self_destructs) = rearrange_loop (accounts_to_destroy acts) acts in rearranged @ self_destructs)"

section \<open>Accounts that are created or grown\<close>

datatype account_operation = CreateAccount usize | ResizeAccount usize usize

datatype accounts_readiness = Ready | NeedMoreReallocations

definition MAX_PERMITTED_DATA_INCREASE :: usize where
  "MAX_PERMITTED_DATA_INCREASE = 10240"

definition needed_by :: "journal_action \<Rightarrow> (address \<times> usize) option" where
  "needed_by act =
    (case act of
       NeonTransfer source target v \<Rightarrow> Some (target, 0)
     | EvmSelfDestruct a \<Rightarrow> Some (a, 0)
     | EvmSetCode a code \<Rightarrow> Some (a, buf_len code)
     | _ \<Rightarrow> None)"

fun space_by_account :: "journal_action list \<Rightarrow> (address \<times> usize) list \<Rightarrow> (address \<times> usize) list" where
  "space_by_account [] m = m"
| "space_by_account (act # acts) m =
    (case needed_by act of
       None \<Rightarrow> space_by_account acts m
     | Some (a, n) \<Rightarrow>
         space_by_account acts (case map_of m a of
             Some max_size \<Rightarrow> AList.update a (max (space_needed n) max_size) m
           | None \<Rightarrow> AList.update a (space_needed n) m))"

fun operations_for :: "runtime \<Rightarrow> program_storage \<Rightarrow> (address \<times> usize) list \<Rightarrow> (address \<times> account_operation) list result" where
  "operations_for R S [] = Ok []"
| "operations_for R S ((a, space) # rest) =
    rbind (ps_solana_account_space R S a) (\<lambda>current.
    rbind (operations_for R S rest) (\<lambda>ops.
    case current of
      None \<Rightarrow> Ok ((a, CreateAccount space) # ops)
    | Some space_current \<Rightarrow> Ok (if space_current < space then (a, ResizeAccount space_current space) # ops else ops)))"

definition calc_accounts_operations :: "runtime \<Rightarrow> program_storage \<Rightarrow> journal_action list
    \<Rightarrow> (address \<times> account_operation) list result" where
  "calc_accounts_operations R S acts = operations_for R S (space_by_account acts [])"

text \<open>One operation: an account grows by ten kilobytes at most in one transaction.\<close>

definition process_operation :: "runtime \<Rightarrow> pubkey \<Rightarrow> address \<Rightarrow> account_operation \<Rightarrow> program_storage
    \<Rightarrow> (accounts_readiness \<times> program_storage) result" where
  "process_operation R operator a operation S =
    (let (k, bump_seed) = find_solana_address R a (ps_program_id S) in
     rbind (ok_or (ps_solana S k) (ProgramError UninitializedAccount)) (\<lambda>info.
     case operation of
       CreateAccount space \<Rightarrow>
         rbind (create_ether_account R (ps_program_id S) operator a k bump_seed (min MAX_PERMITTED_DATA_INCREASE space)
           (ps_solana S)) (\<lambda>as.
         Ok (if MAX_PERMITTED_DATA_INCREASE < space then NeedMoreReallocations else Ready, S\<lparr>ps_solana := as\<rparr>))
     | ResizeAccount from' to' \<Rightarrow>
         rbind (rassert (oa_owner info = ps_program_id S)) (\<lambda>_.
         let lamports_needed = rt_minimum_balance R (min to' (saturating_add_usize from' MAX_PERMITTED_DATA_INCREASE)) in
         rbind (if oa_lamports info < lamports_needed
                then rt_system R (CallTransfer operator k (saturating_sub lamports_needed (oa_lamports info))) [] (ps_solana S)
                else Ok (ps_solana S)) (\<lambda>as.
         rbind (unwrap (as k)) (\<lambda>info.
         let space_now = min to' (usize_wrap (from' + MAX_PERMITTED_DATA_INCREASE)) in
         rbind (as_program_error (rt_realloc R info space_now)) (\<lambda>info.
         Ok (if space_now < to' then NeedMoreReallocations else Ready, put_solana info (S\<lparr>ps_solana := as\<rparr>))))))))"

fun process_operations :: "runtime \<Rightarrow> pubkey \<Rightarrow> (address \<times> account_operation) list \<Rightarrow> program_storage
    \<Rightarrow> (accounts_readiness \<times> program_storage) result" where
  "process_operations R operator [] S = Ok (Ready, S)"
| "process_operations R operator ((a, operation) # rest) S =
    rbind (process_operation R operator a operation S) (\<lambda>(readiness, S).
    rbind (process_operations R operator rest S) (\<lambda>(readiness', S).
    Ok (if readiness = NeedMoreReallocations then NeedMoreReallocations else readiness', S)))"

definition create_account_if_not_exists :: "runtime \<Rightarrow> address \<Rightarrow> program_storage \<Rightarrow> program_storage result" where
  "create_account_if_not_exists R a S =
    (if map_of (ps_ethereum S) a \<noteq> None then Ok S
     else
       let (k, bump_seed) = find_solana_address R a (ps_program_id S) in
       rbind (ok_or (ps_solana S k) (ProgramError InvalidArgument)) (\<lambda>info.
       rbind (as_program_error (account_init (rt_minimum_balance R) ether_account_packable (ps_program_id S) info
           (default_ether_data a bump_seed))) (\<lambda>account.
       let S = put_solana (ad_info account) S in
       Ok (S\<lparr>ps_ethereum := AList.update (ed_address (ad_data account)) (handle_of account) (ps_ethereum S)\<rparr>))))"

definition created_by :: "journal_action \<Rightarrow> address option" where
  "created_by act =
    (case act of
       NeonTransfer source target v \<Rightarrow> Some target
     | EvmSelfDestruct a \<Rightarrow> Some a
     | EvmSetCode a code \<Rightarrow> Some a
     | _ \<Rightarrow> None)"

fun create_missing :: "runtime \<Rightarrow> journal_action list \<Rightarrow> program_storage \<Rightarrow> program_storage result" where
  "create_missing R [] S = Ok S"
| "create_missing R (act # acts) S =
    (case created_by act of
       None \<Rightarrow> create_missing R acts S
     | Some a \<Rightarrow> rbind (create_account_if_not_exists R a S) (create_missing R acts))"

section \<open>The actions\<close>

definition transfer_neon_tokens :: "runtime \<Rightarrow> address \<Rightarrow> address \<Rightarrow> u256 \<Rightarrow> program_storage \<Rightarrow> program_storage result" where
  "transfer_neon_tokens R source target v S =
    (if source = target then Ok S
     else if map_of (ps_ethereum S) source = None then Err (ProgramError InvalidArgument)
     else if map_of (ps_ethereum S) target = None then Err (ProgramError InvalidArgument)
     else
       rbind (ps_balance R S source) (\<lambda>balance.
       if balance < v then Err (ProgramError InsufficientFunds)
       else
         rbind (modify_ethereum source (\<lambda>d. d\<lparr>ed_balance := ed_balance d - v\<rparr>) S)
           (modify_ethereum target (\<lambda>d. d\<lparr>ed_balance := ed_balance d + v\<rparr>))))"

definition withdraw_neon_tokens :: "address \<Rightarrow> u256 \<Rightarrow> program_storage \<Rightarrow> program_storage result" where
  "withdraw_neon_tokens source v S =
    rbind (unwrap (map_of (ps_ethereum S) source)) (\<lambda>account.
    if ed_balance (hn_data account) < v then Err (ProgramError InsufficientFunds)
    else modify_ethereum source (\<lambda>d. d\<lparr>ed_balance := ed_balance d - v\<rparr>) S)"

definition increment_nonce :: "address \<Rightarrow> program_storage \<Rightarrow> program_storage result" where
  "increment_nonce a S =
    rbind (unwrap (map_of (ps_ethereum S) a)) (\<lambda>account.
    if ed_trx_count (hn_data account) = - 1 then Err (ProgramError InvalidAccountData)
    else modify_ethereum a (\<lambda>d. d\<lparr>ed_trx_count := ed_trx_count d + 1\<rparr>) S)"

text \<open>\<open>extension_borrow_mut().fill(0)\<close>\<close>

definition fill_extension :: "ether_data handle \<Rightarrow> program_storage \<Rightarrow> program_storage result" where
  "fill_extension account S =
    rbind (handle_info account S) (\<lambda>info.
    rbind (rassert (ether_size \<le> length (oa_data info))) (\<lambda>_.
    Ok (put_solana (info\<lparr>oa_data := take ether_size (oa_data info)
      @ replicate (length (oa_data info) - ether_size) 0\<rparr>) S)))"

definition delete_account :: "address \<Rightarrow> program_storage \<Rightarrow> program_storage result" where
  "delete_account a S =
    rbind (modify_ethereum a (\<lambda>d. d\<lparr>ed_trx_count := 0\<rparr>) S) (\<lambda>S.
    rbind (unwrap (map_of (ps_ethereum S) a)) (\<lambda>account.
    if ed_generation (hn_data account) = - 1 then Err (ProgramError InvalidInstructionData)
    else
      rbind (modify_ethereum a (\<lambda>d. d\<lparr>ed_generation := ed_generation d + 1\<rparr>) S) (\<lambda>S.
      rbind (if is_contract (hn_data account) then fill_extension account S else Ok S) (\<lambda>S.
      modify_ethereum a (\<lambda>d. d\<lparr>ed_code_size := 0\<rparr>) S))))"

definition deploy_contract :: "address \<Rightarrow> bytes \<Rightarrow> program_storage \<Rightarrow> program_storage result" where
  "deploy_contract a code S =
    rbind (ok_or (map_of (ps_ethereum S) a) (ProgramError UninitializedAccount)) (\<lambda>account.
    rbind (rassert (ed_code_size (hn_data account) = 0)) (\<lambda>_.
    rbind (handle_info account S) (\<lambda>info.
    rbind (rassert (space_needed (length code) \<le> length (oa_data info))) (\<lambda>_.
    rbind (rassert (length code < 2 ^ 32)) (\<lambda>_.
    rbind (modify_ethereum a (\<lambda>d. d\<lparr>ed_code_size := of_nat (length code)\<rparr>) S) (\<lambda>S.
    rbind (rassert (code \<noteq> [])) (\<lambda>_.
    rbind (put_extension_part INTERNAL_STORAGE_SIZE code info) (\<lambda>info.
    Ok (put_solana info S)))))))))"

definition external_instruction :: "runtime \<Rightarrow> pubkey \<Rightarrow> account_meta list \<Rightarrow> bytes \<Rightarrow> bytes list \<Rightarrow> program_storage
    \<Rightarrow> program_storage result" where
  "external_instruction R program_id accounts data seeds S =
    rbind (rassert (list_all (\<lambda>k. ps_solana S k \<noteq> None) (program_id # map am_pubkey accounts))) (\<lambda>_.
    rbind (rt_invoke R \<lparr>ins_program_id = program_id, ins_accounts = accounts, ins_data = data\<rparr> seeds (ps_solana S)) (\<lambda>as.
    Ok (S\<lparr>ps_solana := as\<rparr>)))"

type_synonym storage_writes = "(address \<times> (u256 \<times> bytes32) list) list"

definition add_write :: "address \<Rightarrow> u256 \<Rightarrow> bytes32 \<Rightarrow> storage_writes \<Rightarrow> storage_writes" where
  "add_write a index v m =
    AList.update a ((case map_of m a of Some ws \<Rightarrow> ws | None \<Rightarrow> []) @ [(index, v)]) m"

definition apply_one :: "runtime \<Rightarrow> journal_action \<Rightarrow> program_storage \<times> storage_writes \<Rightarrow> (program_storage \<times> storage_writes) result" where
  "apply_one R act = (\<lambda>(S, storage).
    (case act of
       NeonTransfer source target v \<Rightarrow> rbind (transfer_neon_tokens R source target v S) (\<lambda>S. Ok (S, storage))
     | NeonWithdraw source v \<Rightarrow> rbind (withdraw_neon_tokens source v S) (\<lambda>S. Ok (S, storage))
     | EvmSetStorage a index v \<Rightarrow> Ok (S, add_write a index v storage)
     | EvmIncrementNonce a \<Rightarrow> rbind (increment_nonce a S) (\<lambda>S. Ok (S, storage))
     | EvmSetCode a code \<Rightarrow> rbind (deploy_contract a (buf_bytes code) S) (\<lambda>S. Ok (S, storage))
     | EvmSelfDestruct a \<Rightarrow> rbind (delete_account a S) (\<lambda>S. Ok (S, AList.delete a storage))
     | ExternalInstruction program_id accounts data seeds fee \<Rightarrow>
         rbind (external_instruction R program_id accounts data seeds S) (\<lambda>S. Ok (S, storage))))"

fun apply_actions :: "runtime \<Rightarrow> journal_action list \<Rightarrow> program_storage \<times> storage_writes \<Rightarrow> (program_storage \<times> storage_writes) result" where
  "apply_actions R [] s = Ok s"
| "apply_actions R (act # acts) s = rbind (apply_one R act s) (apply_actions R acts)"

section \<open>Storage\<close>

definition write_static :: "ether_data handle \<Rightarrow> u256 \<Rightarrow> bytes32 \<Rightarrow> program_storage \<Rightarrow> program_storage result" where
  "write_static contract index v S =
    rbind (handle_info contract S) (\<lambda>info.
    rbind (contract_storage info) (\<lambda>_.
    rbind (put_extension_part (unat index * 32) (be_bytes 32 v) info) (\<lambda>info.
    Ok (put_solana info S))))"

definition create_cell :: "runtime \<Rightarrow> pubkey \<Rightarrow> ether_data handle \<Rightarrow> u256 \<Rightarrow> u8 \<Rightarrow> bytes32 \<Rightarrow> program_storage
    \<Rightarrow> program_storage result" where
  "create_cell R operator contract index subindex v S =
    rbind (storage_address (\<lambda>base seed owner. rt_create_with_seed R base seed owner) (ps_program_id S) (hn_key contract) index)
      (\<lambda>(seed, k).
    rbind (ok_or (ps_solana S k) (ProgramError InvalidArgument)) (\<lambda>info.
    if oa_owner info \<noteq> sol_system_id (rt_solana R) then Err (ProgramError InvalidAccountData)
    else if v = 0 then Ok S
    else
      rbind (handle_info contract S) (\<lambda>contract_info.
      rbind (create_account_with_seed R operator contract (oa_owner contract_info) k seed (storage_size + 1 + 32) (ps_solana S)) (\<lambda>as.
      rbind (unwrap (as k)) (\<lambda>info.
      rbind (as_program_error (storage_create (rt_minimum_balance R) (oa_owner contract_info) (ed_address (hn_data contract))
          (ed_generation (hn_data contract)) index subindex v info)) (\<lambda>storage.
      let S = put_solana (ad_info storage) (S\<lparr>ps_solana := as\<rparr>) in
      Ok (S\<lparr>ps_cells := AList.update (ed_address (hn_data contract), index) (handle_of storage) (ps_cells S)\<rparr>)))))))"

definition write_cell :: "runtime \<Rightarrow> pubkey \<Rightarrow> ether_data handle \<Rightarrow> u256 \<Rightarrow> bytes32 \<Rightarrow> program_storage \<times> (pubkey \<times> u64) list
    \<Rightarrow> (program_storage \<times> (pubkey \<times> u64) list) result" where
  "write_cell R operator contract index v = (\<lambda>(S, transfers).
    (if unat index < STORAGE_ENTRIES_IN_CONTRACT_ACCOUNT then
       rbind (write_static contract index v S) (\<lambda>S. Ok (S, transfers))
     else
       let subindex = ucast (index AND 0xFF) :: u8;
           index = index AND NOT 0xFF in
       case map_of (ps_cells S) (ed_address (hn_data contract), index) of
         None \<Rightarrow> rbind (create_cell R operator contract index subindex v S) (\<lambda>S. Ok (S, transfers))
       | Some h \<Rightarrow>
           rbind (handle_info h S) (\<lambda>info.
           rbind (storage_set (Ok (rt_minimum_balance R)) (rt_realloc R) subindex v info transfers) (\<lambda>(info, transfers).
           Ok (put_solana info S, transfers)))))"

fun write_cells :: "runtime \<Rightarrow> pubkey \<Rightarrow> ether_data handle \<Rightarrow> (u256 \<times> bytes32) list \<Rightarrow> program_storage \<times> (pubkey \<times> u64) list
    \<Rightarrow> (program_storage \<times> (pubkey \<times> u64) list) result" where
  "write_cells R operator contract [] s = Ok s"
| "write_cells R operator contract ((index, v) # ws) s =
    rbind (write_cell R operator contract index v s) (write_cells R operator contract ws)"

fun write_contracts :: "runtime \<Rightarrow> pubkey \<Rightarrow> storage_writes \<Rightarrow> program_storage \<times> (pubkey \<times> u64) list
    \<Rightarrow> (program_storage \<times> (pubkey \<times> u64) list) result" where
  "write_contracts R operator [] s = Ok s"
| "write_contracts R operator ((a, ws) # rest) s =
    rbind (unwrap (map_of (ps_ethereum (fst s)) a)) (\<lambda>contract.
    rbind (rassert (is_contract (hn_data contract))) (\<lambda>_.
    rbind (write_cells R operator contract ws s) (write_contracts R operator rest)))"

fun send_transfers :: "runtime \<Rightarrow> pubkey \<Rightarrow> (pubkey \<times> u64) list \<Rightarrow> program_storage \<Rightarrow> program_storage result" where
  "send_transfers R operator [] S = Ok S"
| "send_transfers R operator ((k, lamports) # rest) S =
    rbind (rt_system R (CallTransfer operator k lamports) [] (ps_solana S)) (\<lambda>as.
    send_transfers R operator rest (S\<lparr>ps_solana := as\<rparr>))"

definition apply_storage :: "runtime \<Rightarrow> pubkey \<Rightarrow> storage_writes \<Rightarrow> program_storage \<Rightarrow> program_storage result" where
  "apply_storage R operator storage S =
    rbind (write_contracts R operator storage (S, [])) (\<lambda>(S, transfers). send_transfers R operator transfers S)"

section \<open>The whole\<close>

definition apply_state_change :: "runtime \<Rightarrow> pubkey \<Rightarrow> journal_action list \<Rightarrow> program_storage
    \<Rightarrow> (accounts_readiness \<times> program_storage) result" where
  "apply_state_change R operator actions S =
    (let actions = rearrange_actions actions in
     rbind (calc_accounts_operations R S actions) (\<lambda>operations.
     rbind (process_operations R operator operations S) (\<lambda>(readiness, S).
     if readiness = NeedMoreReallocations then Ok (NeedMoreReallocations, S)
     else
       rbind (create_missing R actions S) (\<lambda>S.
       rbind (apply_actions R actions (S, [])) (\<lambda>(S, storage).
       rbind (apply_storage R operator storage S) (\<lambda>S.
       Ok (Ready, S)))))))"

text \<open>The operator's account is moved into the function: it is returned, to be dropped by the caller.\<close>

definition transfer_gas_payment :: "runtime \<Rightarrow> address \<Rightarrow> ether_data account_data \<Rightarrow> u256 \<Rightarrow> program_storage
    \<Rightarrow> (ether_data account_data \<times> program_storage) result" where
  "transfer_gas_payment R origin operator v S =
    rbind (ps_balance R S origin) (\<lambda>origin_balance.
    if origin_balance < v then Err (ProgramError InsufficientFunds)
    else if ed_address (ad_data operator) = origin then Ok (operator, S)
    else if map_of (ps_ethereum S) (ed_address (ad_data operator)) \<noteq> None then
      rbind (transfer_neon_tokens R origin (ed_address (ad_data operator)) v S) (\<lambda>S. Ok (operator, S))
    else
      rbind (modify_ethereum origin (\<lambda>d. d\<lparr>ed_balance := ed_balance d - v\<rparr>) S) (\<lambda>S.
      Ok (account_modify (\<lambda>d. d\<lparr>ed_balance := ed_balance d + v\<rparr>) operator, S)))"

end
