(* ===== verification/Program_Checks.thy ===== *)
theory Program_Checks
  imports Apply State_Lifecycle
begin

text \<open>
  The accounts that an instruction expects at fixed places and the gas that it counts (\<open>program/src/account/operator.rs\<close>,
  \<open>incinerator.rs\<close>, \<open>treasury.rs\<close>, \<open>token.rs\<close>, \<open>program.rs\<close>, \<open>sysvar.rs\<close> and \<open>program/src/gasometer.rs\<close>).

  The keys that the Solana SDK fixes and the lists of the configuration are the record \<open>well_known\<close>;
  \<open>wk_loader_state\<close> decodes the state of the upgradeable loader.
\<close>

section \<open>Accounts at fixed places\<close>

datatype loader_state = LoaderProgramData "pubkey option" | LoaderOther

record well_known =
  wk_authorized_operators :: "pubkey list"
  wk_incinerator :: pubkey
  wk_sysvar_instructions :: pubkey
  wk_native_mint :: pubkey
  wk_upgradeable_loader :: pubkey
  wk_token_mint_decimals :: u8
  wk_treasury_pool_seed :: bytes
  wk_loader_state :: "bytes \<Rightarrow> loader_state option"
  wk_test_network :: bool

text \<open>\<open>binary_search\<close> in the sorted list\<close>

definition operator_not_whitelisted :: "runtime \<Rightarrow> owned_account \<Rightarrow> owned_account result" where
  "operator_not_whitelisted R info =
    (if oa_owner info \<noteq> sol_system_id (rt_solana R) then Err (ProgramError InvalidArgument)
     else if \<not> oa_is_signer info then Err (ProgramError InvalidArgument)
     else if 0 < length (oa_data info) then Err (ProgramError InvalidArgument)
     else Ok info)"

definition operator_from_account :: "well_known \<Rightarrow> runtime \<Rightarrow> owned_account \<Rightarrow> owned_account result" where
  "operator_from_account W R info =
    (if oa_key info \<notin> set (wk_authorized_operators W)
     then Err (ProgramError (to_program_error (AccountError UnauthorizedOperator)))
     else operator_not_whitelisted R info)"

definition incinerator_from_account :: "well_known \<Rightarrow> owned_account \<Rightarrow> owned_account result" where
  "incinerator_from_account W info =
    (if oa_key info \<noteq> wk_incinerator W then Err (ProgramError InvalidArgument) else Ok info)"

definition sysvar_instructions_from_account :: "well_known \<Rightarrow> owned_account \<Rightarrow> owned_account result" where
  "sysvar_instructions_from_account W info =
    (if oa_key info \<noteq> wk_sysvar_instructions W then Err (ProgramError InvalidArgument) else Ok info)"

definition neon_from_account :: "pubkey \<Rightarrow> owned_account \<Rightarrow> owned_account result" where
  "neon_from_account program_id info = (if program_id \<noteq> oa_key info then Err (ProgramError InvalidArgument) else Ok info)"

definition system_from_account :: "runtime \<Rightarrow> owned_account \<Rightarrow> owned_account result" where
  "system_from_account R info =
    (if oa_key info \<noteq> sol_system_id (rt_solana R) then Err (ProgramError InvalidArgument) else Ok info)"

definition token_from_account :: "runtime \<Rightarrow> owned_account \<Rightarrow> owned_account result" where
  "token_from_account R info =
    (if oa_key info \<noteq> sol_token_id (rt_solana R) then Err (ProgramError InvalidArgument) else Ok info)"

text \<open>\<open>token::State::from_account\<close> and \<open>token::Mint::from_account\<close>\<close>

definition token_state_from_account :: "runtime \<Rightarrow> owned_account \<Rightarrow> token_account result" where
  "token_state_from_account R info =
    (if oa_owner info \<noteq> sol_token_id (rt_solana R) then Err (ProgramError InvalidArgument)
     else as_program_error (sol_token_account_unpack (rt_solana R) (oa_data info)))"

definition token_mint_from_account :: "runtime \<Rightarrow> owned_account \<Rightarrow> token_mint result" where
  "token_mint_from_account R info =
    (if oa_owner info \<noteq> sol_token_id (rt_solana R) then Err (ProgramError InvalidArgument)
     else as_program_error (sol_token_mint_unpack (rt_solana R) (oa_data info)))"

subsection \<open>Treasuries\<close>

definition treasury_address :: "well_known \<Rightarrow> runtime \<Rightarrow> pubkey \<Rightarrow> u32 \<Rightarrow> pubkey \<times> u8" where
  "treasury_address W R program_id index =
     sol_find_program_address (rt_solana R) [wk_treasury_pool_seed W, le_bytes 4 index] program_id"

definition treasury_from_account :: "well_known \<Rightarrow> runtime \<Rightarrow> pubkey \<Rightarrow> u32 \<Rightarrow> owned_account \<Rightarrow> (owned_account \<times> u8) result" where
  "treasury_from_account W R program_id index info =
    (let (expected_key, bump_seed) = treasury_address W R program_id index in
     if oa_key info \<noteq> expected_key then Err (ProgramError InvalidArgument) else Ok (info, bump_seed))"

definition main_treasury_address :: "well_known \<Rightarrow> runtime \<Rightarrow> pubkey \<Rightarrow> pubkey \<times> u8" where
  "main_treasury_address W R program_id = sol_find_program_address (rt_solana R) [wk_treasury_pool_seed W] program_id"

definition main_treasury_from_account :: "well_known \<Rightarrow> runtime \<Rightarrow> pubkey \<Rightarrow> owned_account \<Rightarrow> (owned_account \<times> u8) result" where
  "main_treasury_from_account W R program_id info =
    (let (expected_key, bump_seed) = main_treasury_address W R program_id in
     if oa_key info \<noteq> expected_key then Err (ProgramError InvalidArgument)
     else if oa_owner info \<noteq> sol_token_id (rt_solana R) then Err (ProgramError InvalidArgument)
     else
       rbind (as_program_error (sol_token_account_unpack (rt_solana R) (oa_data info))) (\<lambda>account.
       if ta_mint account \<noteq> wk_native_mint W then Err (ProgramError InvalidArgument) else Ok (info, bump_seed)))"

section \<open>The gasometer\<close>

record gasometer =
  gm_paid_gas :: u256
  gm_gas :: u64
  gm_operator_balance :: u64

definition LAMPORTS_PER_SIGNATURE :: u64 where "LAMPORTS_PER_SIGNATURE = 5000"
definition WRITE_TO_HOLDER_TRX_COST :: u64 where "WRITE_TO_HOLDER_TRX_COST = LAMPORTS_PER_SIGNATURE"
definition CANCEL_TRX_COST :: u64 where "CANCEL_TRX_COST = LAMPORTS_PER_SIGNATURE"
definition LAST_ITERATION_COST :: u64 where "LAST_ITERATION_COST = LAMPORTS_PER_SIGNATURE"
definition HOLDER_MSG_SIZE :: u64 where "HOLDER_MSG_SIZE = 950"

definition saturating_add :: "'a::len word \<Rightarrow> 'a word \<Rightarrow> 'a word" where
  "saturating_add a b = (if a + b < a then - 1 else a + b)"

definition saturating_mul :: "'a::len word \<Rightarrow> 'a word \<Rightarrow> 'a word" where
  "saturating_mul a b = (if unat a * unat b < 2 ^ LENGTH('a) then a * b else - 1)"

definition gasometer_new :: "u256 option \<Rightarrow> owned_account \<Rightarrow> gasometer" where
  "gasometer_new paid_gas operator = \<lparr>gm_paid_gas = (case paid_gas of Some g \<Rightarrow> g | None \<Rightarrow> 0), gm_gas = 0,
     gm_operator_balance = oa_lamports operator\<rparr>"

definition used_gas :: "gasometer \<Rightarrow> u256" where
  "used_gas g = ucast (gm_gas g)"

definition used_gas_total :: "gasometer \<Rightarrow> u256" where
  "used_gas_total g = saturating_add (gm_paid_gas g) (ucast (gm_gas g))"

definition add_gas :: "u64 \<Rightarrow> gasometer \<Rightarrow> gasometer" where
  "add_gas n g = g\<lparr>gm_gas := saturating_add (gm_gas g) n\<rparr>"

definition record_operator_expenses :: "owned_account \<Rightarrow> gasometer \<Rightarrow> gasometer" where
  "record_operator_expenses operator g = add_gas (saturating_sub (gm_operator_balance g) (oa_lamports operator)) g"

definition record_solana_transaction_cost :: "gasometer \<Rightarrow> gasometer" where
  "record_solana_transaction_cost = add_gas LAMPORTS_PER_SIGNATURE"

definition record_iterative_overhead :: "gasometer \<Rightarrow> gasometer" where
  "record_iterative_overhead g = add_gas CANCEL_TRX_COST (add_gas LAST_ITERATION_COST g)"

definition record_write_to_holder :: "transaction \<Rightarrow> gasometer \<Rightarrow> gasometer" where
  "record_write_to_holder trx g =
    (let size_now = of_nat (tx_byte_len trx) :: u64;
         cost = saturating_mul ((size_now + (HOLDER_MSG_SIZE - 1)) div HOLDER_MSG_SIZE) WRITE_TO_HOLDER_TRX_COST
     in add_gas cost g)"

definition record_address_lookup_table :: "nat \<Rightarrow> gasometer \<Rightarrow> gasometer" where
  "record_address_lookup_table n g =
    (if n < 30 then g
     else
       let extend_count = (n + (30 - 1)) div 30;
           cost = of_nat (extend_count + 3) * LAMPORTS_PER_SIGNATURE
       in add_gas cost g)"

section \<open>What is counted\<close>

lemma saturating_add_unat: "unat (saturating_add a b) = min (unat a + unat b) (2 ^ LENGTH('a) - 1)" for a b :: "'a::len word"
proof (cases "unat a + unat b < 2 ^ LENGTH('a)")
  case True
  then have "unat (a + b) = unat a + unat b" by (simp add: unat_add_lem)
  then show ?thesis using True by (simp add: saturating_add_def word_less_nat_alt)
next
  case False
  have "unat a < 2 ^ LENGTH('a)" "unat b < 2 ^ LENGTH('a)" by (rule unat_less_2p)+
  then have "unat (a + b) = unat a + unat b - 2 ^ LENGTH('a)" using False by (simp add: unat_plus_if_size word_size)
  then have "unat (a + b) < unat a" using \<open>unat b < 2 ^ LENGTH('a)\<close> False by linarith
  then show ?thesis using False by (simp add: saturating_add_def word_less_nat_alt unsigned_minus_1_eq_mask mask_eq_exp_minus_1)
qed

text \<open>A transaction is charged for the signatures of the Solana transactions that carried it: its own, one for every
  950 bytes that were written to its holder, and the two that an iterative transaction may still need.\<close>

theorem begin_gas_counts_signatures:
  assumes "g = record_write_to_holder trx (record_iterative_overhead (record_solana_transaction_cost (gasometer_new None operator)))"
    and "tx_byte_len trx < 2 ^ 40"
  shows "unat (used_gas g) = 5000 * (3 + (tx_byte_len trx + 949) div 950) \<and> used_gas_total g = used_gas g"
proof -
  let ?n = "tx_byte_len trx"
  have n: "unat (of_nat ?n :: u64) = ?n" using assms(2) by (simp add: unsigned_of_nat take_bit_eq_mod)
  have "unat (of_nat ?n + 949 :: u64) = ?n + 949"
    using assms(2) n by (simp add: unat_word_ariths)
  then have d: "unat ((of_nat ?n + 949 :: u64) div 950) = (?n + 949) div 950" by (simp add: unat_div_distrib)
  moreover have "(?n + 949) div 950 < 2 ^ 40" using assms(2) by simp
  ultimately have "unat (((of_nat ?n + 949 :: u64) div 950) * 5000) = (?n + 949) div 950 * 5000"
    by (simp add: unat_word_ariths)
  then have cost: "unat (saturating_mul ((of_nat ?n + 949 :: u64) div 950) 5000) = (?n + 949) div 950 * 5000"
    using d \<open>(?n + 949) div 950 < 2 ^ 40\<close> by (simp add: saturating_mul_def)
  have "unat (gm_gas g) = 5000 * (3 + (?n + 949) div 950)"
    using cost \<open>(?n + 949) div 950 < 2 ^ 40\<close>
    by (simp add: assms(1) record_write_to_holder_def record_iterative_overhead_def record_solana_transaction_cost_def
        add_gas_def saturating_add_unat gasometer_new_def LAMPORTS_PER_SIGNATURE_def WRITE_TO_HOLDER_TRX_COST_def
        CANCEL_TRX_COST_def LAST_ITERATION_COST_def HOLDER_MSG_SIZE_def Let_def)
  moreover have "unat (used_gas g) = unat (gm_gas g)"
    using unat_less_2p [of "gm_gas g"] by (simp add: used_gas_def unsigned_ucast_eq take_bit_eq_mod)
  moreover have "gm_paid_gas g = 0"
    by (simp add: assms(1) record_write_to_holder_def record_iterative_overhead_def record_solana_transaction_cost_def
        add_gas_def gasometer_new_def Let_def)
  ultimately show ?thesis by (simp add: used_gas_total_def used_gas_def saturating_add_def)
qed

theorem begin_gas_counts_signatures_witness:
  "(let trx = \<lparr>tx_payload = Legacy \<lparr>l_nonce = 0, l_gas_price = 0, l_gas_limit = 0, l_target = None, l_value = 0,
         l_call_data = buf_empty, l_v = 0, l_r = 0, l_s = 0, l_chain_id = None, l_recovery_id = 0\<rparr>,
       tx_byte_len = 2000, tx_hash = 0, tx_signed_hash = 0\<rparr>;
     operator = \<lparr>oa_key = 9, oa_is_signer = True, oa_is_writable = True, oa_lamports = 70, oa_data = [], oa_owner = 0,
       oa_executable = False, oa_rent_epoch = 0\<rparr>
   in unat (used_gas (record_write_to_holder trx (record_iterative_overhead (record_solana_transaction_cost
        (gasometer_new None operator))))) = 30000)"
proof -
  let ?trx = "\<lparr>tx_payload = Legacy \<lparr>l_nonce = 0, l_gas_price = 0, l_gas_limit = 0, l_target = None, l_value = 0,
       l_call_data = buf_empty, l_v = 0, l_r = 0, l_s = 0, l_chain_id = None, l_recovery_id = 0\<rparr>,
     tx_byte_len = 2000, tx_hash = 0, tx_signed_hash = 0\<rparr> :: transaction"
  have "tx_byte_len ?trx < 2 ^ 40" by simp
  from begin_gas_counts_signatures [OF refl this] show ?thesis by (simp add: Let_def)
qed

end
