(* ===== verification/Account_Instructions.thy ===== *)
theory Account_Instructions
  imports Program_Checks
begin

text \<open>
  The instructions of the Solana program that manage accounts (\<open>program/src/instruction\<close>): creating an account,
  creating, writing and deleting a holder, depositing NEON, locking further accounts for an iterative transaction,
  cancelling it, and collecting a treasury.

  An instruction gets the keys of its accounts, in order and perhaps repeated, the bytes of its data and the store of
  accounts; it returns the new store.  When it fails the runtime keeps the old one, so an error carries no store.
\<close>

section \<open>Accounts of an instruction\<close>

definition account_at :: "pubkey list \<Rightarrow> nat \<Rightarrow> accounts \<Rightarrow> owned_account result" where
  "account_at keys i as = rbind (index_at keys i) (\<lambda>k. unwrap (as k))"

text \<open>\<open>&accounts[i..]\<close>\<close>

definition accounts_from :: "pubkey list \<Rightarrow> nat \<Rightarrow> accounts \<Rightarrow> owned_account list result" where
  "accounts_from keys i as =
    (if i \<le> length keys then foldr (\<lambda>k r. rbind (unwrap (as k)) (\<lambda>a. rbind r (\<lambda>rest. Ok (a # rest)))) (drop i keys) (Ok [])
     else Panic)"

definition put :: "owned_account \<Rightarrow> accounts \<Rightarrow> accounts" where
  "put info as = as(oa_key info \<mapsto> info)"

text \<open>\<open>array_ref!\<close>\<close>

definition array_at :: "bytes \<Rightarrow> nat \<Rightarrow> nat \<Rightarrow> bytes result" where
  "array_at bs offset n = (if offset + n \<le> length bs then Ok (take n (drop offset bs)) else Panic)"

text \<open>A changed header is saved when it is dropped.\<close>

definition save :: "'a packable \<Rightarrow> 'a account_data \<Rightarrow> accounts \<Rightarrow> accounts result" where
  "save P a as = rbind (account_drop P a) (\<lambda>info. Ok (put info as))"

section \<open>Creating an account\<close>

definition create_and_init_account :: "runtime \<Rightarrow> pubkey \<Rightarrow> pubkey \<Rightarrow> address \<Rightarrow> pubkey \<Rightarrow> u8 \<Rightarrow> usize \<Rightarrow> accounts
    \<Rightarrow> accounts result" where
  "create_and_init_account R program_id operator a k bump_seed space as =
    rbind (create_ether_account R program_id operator a k bump_seed space as) (\<lambda>as.
    rbind (unwrap (as k)) (\<lambda>info.
    rbind (as_program_error (account_init (rt_minimum_balance R) ether_account_packable program_id info
        (default_ether_data a bump_seed))) (\<lambda>account.
    Ok (put (ad_info account) as))))"

definition account_create :: "runtime \<Rightarrow> pubkey \<Rightarrow> pubkey list \<Rightarrow> bytes \<Rightarrow> accounts \<Rightarrow> accounts result" where
  "account_create R program_id keys ins as =
    rbind (account_at keys 0 as) (\<lambda>a0.
    rbind (operator_not_whitelisted R a0) (\<lambda>operator.
    rbind (account_at keys 1 as) (\<lambda>a1.
    rbind (system_from_account R a1) (\<lambda>_.
    rbind (account_at keys 2 as) (\<lambda>ether_account.
    rbind (array_at ins 0 20) (\<lambda>b.
    let a = from_be b :: address in
    if oa_owner ether_account \<noteq> sol_system_id (rt_solana R) then Err (ProgramError InvalidArgument)
    else
      let (expected_address, bump_seed) = find_solana_address R a program_id in
      if expected_address \<noteq> oa_key ether_account then Err (ProgramError InvalidArgument)
      else create_and_init_account R program_id (oa_key operator) a (oa_key ether_account) bump_seed ether_size as))))))"

section \<open>Holders\<close>

definition holder_create :: "runtime \<Rightarrow> pubkey \<Rightarrow> pubkey list \<Rightarrow> bytes \<Rightarrow> accounts \<Rightarrow> accounts result" where
  "holder_create R program_id keys ins as =
    rbind (account_at keys 0 as) (\<lambda>holder.
    rbind (account_at keys 1 as) (\<lambda>a1.
    rbind (operator_not_whitelisted R a1) (\<lambda>operator.
    rbind (array_at ins 0 8) (\<lambda>b.
    let seed_len = unat (from_le b :: u64) in
    rbind (unwrap (slice_get ins 8 (usize_wrap (8 + seed_len)))) (\<lambda>seed.
    if \<not> utf8_valid seed then Err (ProgramError InvalidArgument)
    else
      case rt_create_with_seed R (oa_key operator) seed program_id of
        Ok expected_holder \<Rightarrow>
          if expected_holder \<noteq> oa_key holder then Err (ProgramError InvalidArgument)
          else
            rbind (as_program_error (account_init (rt_minimum_balance R) holder_packable program_id holder
              \<lparr>hd_owner = oa_key operator, hd_transaction_hash = 0, hd_transaction_len = 0\<rparr>)) (\<lambda>h.
            Ok (put (ad_info h) as))
      | Err e \<Rightarrow> Err (ProgramError InvalidArgument)
      | Panic \<Rightarrow> Panic)))))"

definition holder_delete :: "runtime \<Rightarrow> pubkey \<Rightarrow> pubkey list \<Rightarrow> bytes \<Rightarrow> accounts \<Rightarrow> accounts result" where
  "holder_delete R program_id keys ins as =
    rbind (account_at keys 1 as) (\<lambda>a1.
    rbind (operator_not_whitelisted R a1) (\<lambda>operator.
    rbind (account_at keys 0 as) (\<lambda>info.
    rbind (account_tag program_id info) (\<lambda>tag.
    rbind (if tag = TAG_HOLDER then
             rbind (from_account holder_packable program_id info) (\<lambda>holder.
             holder_validate_owner (oa_key operator) holder)
           else if tag = TAG_FINALIZED_STATE then
             rbind (from_account finalized_packable program_id info) (\<lambda>f.
             if fd_owner (ad_data f) \<noteq> oa_key operator
             then Err (AccountError (HolderInvalidOwner (fd_owner (ad_data f)) (oa_key operator))) else Ok ())
           else Err (AccountError (AccountInvalidTag (oa_key info) TAG_HOLDER))) (\<lambda>_.
    let (info, operator) = account_delete info operator in Ok (put info (put operator as)))))))"

definition open_for_writing :: "pubkey \<Rightarrow> bytes32 \<Rightarrow> owned_account \<Rightarrow> holder_data account_data result" where
  "open_for_writing program_id transaction_hash info =
    rbind (account_tag program_id info) (\<lambda>tag.
    if tag = TAG_HOLDER then from_account holder_packable program_id info
    else if tag = TAG_FINALIZED_STATE then
      rbind (from_account finalized_packable program_id info) (\<lambda>f.
      account_replace holder_packable f \<lparr>hd_owner = fd_owner (ad_data f), hd_transaction_hash = transaction_hash,
        hd_transaction_len = 0\<rparr>)
    else Err (AccountError (AccountInvalidTag (oa_key info) TAG_HOLDER)))"

definition holder_write_part :: "runtime \<Rightarrow> pubkey \<Rightarrow> pubkey list \<Rightarrow> bytes \<Rightarrow> accounts \<Rightarrow> accounts result" where
  "holder_write_part R program_id keys ins as =
    rbind (array_at ins 0 32) (\<lambda>hash_bytes.
    rbind (array_at ins 32 8) (\<lambda>offset_bytes.
    let transaction_hash = from_be hash_bytes; offset = unat (from_le offset_bytes :: u64); data = drop 40 ins in
    rbind (account_at keys 0 as) (\<lambda>info.
    rbind (open_for_writing program_id transaction_hash info) (\<lambda>holder.
    rbind (account_at keys 1 as) (\<lambda>a1.
    rbind (operator_not_whitelisted R a1) (\<lambda>operator.
    rbind (holder_validate_owner (oa_key operator) holder) (\<lambda>_.
    rbind (if hd_transaction_hash (ad_data holder) \<noteq> transaction_hash then
             rbind (holder_clear holder) (\<lambda>holder.
             Ok (account_modify (\<lambda>d. d\<lparr>hd_transaction_hash := transaction_hash\<rparr>) holder))
           else Ok holder) (\<lambda>holder.
    rbind (holder_write offset data holder) (\<lambda>holder.
    save holder_packable holder as)))))))))"

section \<open>Depositing NEON\<close>

definition deposit_authority_seed :: bytes where
  "deposit_authority_seed = [0x44, 0x65, 0x70, 0x6F, 0x73, 0x69, 0x74]"

definition deposit_validate :: "well_known \<Rightarrow> runtime \<Rightarrow> pubkey \<Rightarrow> token_account \<Rightarrow> token_account \<Rightarrow> pubkey \<Rightarrow> pubkey \<Rightarrow> address
    \<Rightarrow> u8 result" where
  "deposit_validate W R program_id source pool pool_key ethereum_key a =
    (let (expected_solana_address, bump_seed) = find_solana_address R a program_id;
         authority = fst (sol_find_program_address (rt_solana R) [deposit_authority_seed] program_id) in
     if expected_solana_address \<noteq> ethereum_key then Err (ProgramError InvalidArgument)
     else if ta_mint source \<noteq> rt_token_mint R then Err (ProgramError InvalidArgument)
     else if pool_key \<noteq> sol_associated_token (rt_solana R) authority (rt_token_mint R) then Err (ProgramError InvalidArgument)
     else if ta_mint pool \<noteq> rt_token_mint R then Err (ProgramError InvalidArgument)
     else if ta_delegate source \<noteq> Some ethereum_key then Err (ProgramError InvalidArgument)
     else if ta_delegated_amount source < 1 then Err (ProgramError InvalidArgument)
     else Ok bump_seed)"

definition deposit_amount :: "well_known \<Rightarrow> u64 \<Rightarrow> u256" where
  "deposit_amount W amount = ucast amount * 10 ^ unat (18 - wk_token_mint_decimals W)"

definition deposit_execute :: "well_known \<Rightarrow> runtime \<Rightarrow> pubkey \<Rightarrow> pubkey \<Rightarrow> pubkey \<Rightarrow> pubkey \<Rightarrow> pubkey \<Rightarrow> u64 \<Rightarrow> pubkey \<Rightarrow> address
    \<Rightarrow> u8 \<Rightarrow> accounts \<Rightarrow> accounts result" where
  "deposit_execute W R program_id source_key pool_key token_key operator amount ethereum_key a bump_seed as =
    rbind (as_program_error (sol_token_make (rt_solana R) token_key (MakeTokenTransfer source_key pool_key ethereum_key amount))) (\<lambda>ins.
    rbind (rt_invoke R ins (pda_seeds a bump_seed) as) (\<lambda>as.
    rbind (unwrap (as ethereum_key)) (\<lambda>info.
    rbind (if oa_owner info = sol_system_id (rt_solana R)
           then create_and_init_account R program_id operator a ethereum_key bump_seed ether_size as else Ok as) (\<lambda>as.
    rbind (unwrap (as ethereum_key)) (\<lambda>info.
    rbind (as_program_error (from_account ether_account_packable program_id info)) (\<lambda>account.
    let d = deposit_amount W amount; balance = ed_balance (ad_data account) in
    if balance + d < balance then Err (ProgramError InvalidArgument)
    else save ether_account_packable (account_modify (\<lambda>h. h\<lparr>ed_balance := balance + d\<rparr>) account) as))))))"

definition neon_tokens_deposit :: "well_known \<Rightarrow> runtime \<Rightarrow> pubkey \<Rightarrow> pubkey list \<Rightarrow> bytes \<Rightarrow> accounts \<Rightarrow> accounts result" where
  "neon_tokens_deposit W R program_id keys ins as =
    rbind (account_at keys 0 as) (\<lambda>source_info.
    rbind (token_state_from_account R source_info) (\<lambda>source.
    rbind (account_at keys 1 as) (\<lambda>pool_info.
    rbind (token_state_from_account R pool_info) (\<lambda>pool.
    rbind (account_at keys 2 as) (\<lambda>ethereum_account.
    rbind (account_at keys 3 as) (\<lambda>a3.
    rbind (token_from_account R a3) (\<lambda>token_program.
    rbind (account_at keys 4 as) (\<lambda>a4.
    rbind (operator_not_whitelisted R a4) (\<lambda>operator.
    rbind (account_at keys 5 as) (\<lambda>a5.
    rbind (system_from_account R a5) (\<lambda>_.
    rbind (array_at ins 0 20) (\<lambda>b.
    let a = from_be b :: address in
    rbind (deposit_validate W R program_id source pool (oa_key pool_info) (oa_key ethereum_account) a) (\<lambda>bump_seed.
    deposit_execute W R program_id (oa_key source_info) (oa_key pool_info) (oa_key token_program) (oa_key operator)
      (ta_delegated_amount source) (oa_key ethereum_account) a bump_seed as)))))))))))))"

section \<open>Locking further accounts\<close>

text \<open>The loop: accounts that are locked already are skipped.\<close>

fun block_loop :: "pubkey \<Rightarrow> pubkey list \<Rightarrow> blocked_account list \<times> accounts \<Rightarrow> (blocked_account list \<times> accounts) result" where
  "block_loop program_id [] s = Ok s"
| "block_loop program_id (k # ks) (blocked, as) =
    rbind (unwrap (as k)) (\<lambda>info.
    if k \<in> ba_key ` set blocked then block_loop program_id ks (blocked, as)
    else
      rbind (case from_account ether_account_packable program_id info of
          Ok account \<Rightarrow>
            if ed_rw_blocked (ad_data account) then Err (ProgramError InvalidAccountData)
            else
              rbind (save ether_account_packable (account_modify (\<lambda>d. d\<lparr>ed_rw_blocked := True\<rparr>) account) as) (\<lambda>as.
              Ok (True, as))
        | _ \<Rightarrow> Ok (False, as)) (\<lambda>(ex, as).
      block_loop program_id ks (blocked @ [\<lparr>ba_key = k, ba_exists = ex, ba_is_writable = oa_is_writable info\<rparr>], as)))"

definition account_block_add :: "well_known \<Rightarrow> runtime \<Rightarrow> nat \<Rightarrow> pubkey \<Rightarrow> pubkey list \<Rightarrow> bytes \<Rightarrow> accounts \<Rightarrow> accounts result" where
  "account_block_add W R stack_height program_id keys ins as =
    rbind (rassert (stack_height = 1)) (\<lambda>_.
    rbind (account_at keys 0 as) (\<lambda>info.
    rbind (from_account state_packable program_id info) (\<lambda>state.
    rbind (account_at keys 1 as) (\<lambda>a1.
    rbind (operator_from_account W R a1) (\<lambda>operator.
    if st_owner (ad_data state) \<noteq> oa_key operator
    then Err (AccountError (HolderInvalidOwner (st_owner (ad_data state)) (oa_key operator)))
    else
      rbind (read_blocked_accounts state) (\<lambda>blocked.
      rbind (rassert (2 \<le> length keys)) (\<lambda>_.
      rbind (block_loop program_id (drop 2 keys) (blocked, as)) (\<lambda>(blocked, as).
      rbind (update_blocked_accounts blocked state) (\<lambda>state.
      save state_packable state as)))))))))"

section \<open>Cancelling\<close>

text \<open>The lock of every account that existed is taken away; the nonce of the sender counts the cancelled transaction.\<close>

fun unblock_loop :: "pubkey \<Rightarrow> address \<Rightarrow> (pubkey \<times> blocked_account) list \<Rightarrow> accounts \<Rightarrow> accounts result" where
  "unblock_loop program_id caller [] as = Ok as"
| "unblock_loop program_id caller ((k, blocked) # rest) as =
    (if \<not> ba_exists blocked then unblock_loop program_id caller rest as
     else
       rbind (unwrap (as k)) (\<lambda>info.
       rbind (case from_account ether_account_packable program_id info of
           Ok account \<Rightarrow>
             save ether_account_packable (account_modify (\<lambda>d. d\<lparr>ed_rw_blocked := False,
               ed_trx_count := (if ed_address d = caller then ed_trx_count d + 1 else ed_trx_count d)\<rparr>) account) as
         | _ \<Rightarrow> Ok as) (\<lambda>as.
       unblock_loop program_id caller rest as)))"

definition transaction_cancel :: "well_known \<Rightarrow> runtime \<Rightarrow> u64 result \<Rightarrow> pubkey \<Rightarrow> pubkey list \<Rightarrow> bytes \<Rightarrow> accounts \<Rightarrow> accounts result" where
  "transaction_cancel W R clock_slot program_id keys ins as =
    rbind (account_at keys 0 as) (\<lambda>storage_info.
    rbind (account_at keys 1 as) (\<lambda>a1.
    rbind (operator_from_account W R a1) (\<lambda>operator.
    rbind (account_at keys 2 as) (\<lambda>a2.
    rbind (incinerator_from_account W a2) (\<lambda>incinerator.
    rbind (accounts_from keys 3 as) (\<lambda>remaining_accounts.
    rbind (state_restore clock_slot program_id storage_info operator remaining_accounts True) (\<lambda>(storage, blocked_accounts).
    rbind (array_at ins 0 32) (\<lambda>b.
    if st_transaction_hash (ad_data storage) \<noteq> from_be b then Err (ProgramError InvalidInstructionData)
    else
      rbind (unblock_loop program_id (st_caller (ad_data storage)) (zip (drop 3 keys) blocked_accounts) as) (\<lambda>as.
      rbind (state_finalize (Burn incinerator) storage) (\<lambda>(f, incinerator).
      Ok (put (ad_info f) (put incinerator as))))))))))))"

section \<open>Collecting a treasury\<close>

definition collect_treasury :: "well_known \<Rightarrow> runtime \<Rightarrow> pubkey \<Rightarrow> pubkey list \<Rightarrow> bytes \<Rightarrow> accounts \<Rightarrow> accounts result" where
  "collect_treasury W R program_id keys ins as =
    rbind (array_at ins 0 4) (\<lambda>b.
    let treasury_index = from_le b :: u32 in
    rbind (account_at keys 0 as) (\<lambda>a0.
    rbind (main_treasury_from_account W R program_id a0) (\<lambda>(main_treasury, _).
    rbind (account_at keys 1 as) (\<lambda>a1.
    rbind (treasury_from_account W R program_id treasury_index a1) (\<lambda>(treasury, bump_seed).
    rbind (account_at keys 2 as) (\<lambda>a2.
    rbind (system_from_account R a2) (\<lambda>_.
    let available_lamports = saturating_sub (oa_lamports treasury) (rt_minimum_balance R (length (oa_data treasury))) in
    if 0 < available_lamports then
      rt_system R (CallTransfer (oa_key treasury) (oa_key main_treasury) available_lamports)
        [wk_treasury_pool_seed W, le_bytes 4 treasury_index, [bump_seed]] as
    else Ok as)))))))"

section \<open>The main treasury\<close>

definition upgrade_authority :: "well_known \<Rightarrow> runtime \<Rightarrow> pubkey \<Rightarrow> owned_account \<Rightarrow> pubkey result" where
  "upgrade_authority W R program_id program_data =
    (let expected = fst (sol_find_program_address (rt_solana R) [be_bytes 32 program_id] (wk_upgradeable_loader W)) in
     if oa_key program_data \<noteq> expected then Err (ProgramError InvalidArgument)
     else
       case wk_loader_state W (oa_data program_data) of
         None \<Rightarrow> Err (ProgramError InvalidAccountData)
       | Some LoaderOther \<Rightarrow> Err (ProgramError InvalidAccountData)
       | Some (LoaderProgramData None) \<Rightarrow> Err (ProgramError InvalidAccountData)
       | Some (LoaderProgramData (Some k)) \<Rightarrow> Ok k)"

definition create_main_treasury :: "well_known \<Rightarrow> runtime \<Rightarrow> pubkey \<Rightarrow> pubkey list \<Rightarrow> bytes \<Rightarrow> accounts \<Rightarrow> accounts result" where
  "create_main_treasury W R program_id keys ins as =
    rbind (account_at keys 0 as) (\<lambda>main_treasury.
    rbind (account_at keys 1 as) (\<lambda>program_data.
    rbind (account_at keys 2 as) (\<lambda>program_upgrade_auth.
    rbind (account_at keys 3 as) (\<lambda>a3.
    rbind (token_from_account R a3) (\<lambda>token_program.
    rbind (account_at keys 4 as) (\<lambda>a4.
    rbind (system_from_account R a4) (\<lambda>system_program.
    rbind (account_at keys 5 as) (\<lambda>mint.
    rbind (account_at keys 6 as) (\<lambda>a6.
    rbind (operator_not_whitelisted R a6) (\<lambda>payer.
    let (expected_key, bump_seed) = main_treasury_address W R program_id in
    if oa_key main_treasury \<noteq> expected_key then Err (ProgramError InvalidArgument)
    else if oa_key mint \<noteq> wk_native_mint W then Err (ProgramError InvalidArgument)
    else if oa_key system_program \<noteq> sol_system_id (rt_solana R) then Err (ProgramError InvalidArgument)
    else if oa_key token_program \<noteq> sol_token_id (rt_solana R) then Err (ProgramError InvalidArgument)
    else
      rbind (upgrade_authority W R program_id program_data) (\<lambda>expected_auth.
      if oa_key program_upgrade_auth \<noteq> expected_auth then Err (ProgramError InvalidArgument)
      else if \<not> oa_is_signer program_upgrade_auth then Err (ProgramError MissingRequiredSignature)
      else
        rbind (create_pda_account R (sol_token_id (rt_solana R)) (oa_key payer) (oa_key main_treasury)
          [wk_treasury_pool_seed W, [bump_seed]] (sol_token_account_len (rt_solana R)) as) (\<lambda>as.
        rbind (as_program_error (sol_token_make (rt_solana R) (oa_key token_program)
          (MakeInitializeAccount3 (oa_key main_treasury) (oa_key mint) (oa_key program_upgrade_auth)))) (\<lambda>i.
        rt_invoke R i [] as)))))))))))))"

section \<open>Test networks\<close>

definition test_upgrade_authority :: "well_known \<Rightarrow> runtime \<Rightarrow> pubkey \<Rightarrow> owned_account \<Rightarrow> pubkey result" where
  "test_upgrade_authority W R program_id program_data =
    (let expected = fst (sol_find_program_address (rt_solana R) [be_bytes 32 program_id] (wk_upgradeable_loader W)) in
     if oa_key program_data \<noteq> expected then Err (AccountError (AccountInvalidKey (oa_key program_data) expected))
     else
       case wk_loader_state W (oa_data program_data) of
         None \<Rightarrow> Err BincodeError
       | Some LoaderOther \<Rightarrow> Err (AccountError (AccountInvalidData (oa_key program_data)))
       | Some (LoaderProgramData None) \<Rightarrow> Err (Custom ''NeonEVM must have valid upgrade authority'')
       | Some (LoaderProgramData (Some k)) \<Rightarrow> Ok k)"

definition test_account_update_nonce :: "well_known \<Rightarrow> runtime \<Rightarrow> pubkey \<Rightarrow> pubkey list \<Rightarrow> bytes \<Rightarrow> accounts \<Rightarrow> accounts result" where
  "test_account_update_nonce W R program_id keys ins as =
    (if \<not> wk_test_network W then Err (ProgramError InvalidInstructionData)
     else
       rbind (array_at ins 0 8) (\<lambda>b.
       rbind (account_at keys 0 as) (\<lambda>signer.
       rbind (account_at keys 1 as) (\<lambda>program_data.
       rbind (account_at keys 2 as) (\<lambda>info.
       rbind (from_account ether_account_packable program_id info) (\<lambda>account.
       if \<not> oa_is_signer signer then Err (AccountError (AccountNotSigner (oa_key signer)))
       else
         rbind (test_upgrade_authority W R program_id program_data) (\<lambda>authority.
         if authority \<noteq> oa_key signer then Err (Custom ''Signer is not program upgrade authority'')
         else save ether_account_packable (account_modify (\<lambda>d. d\<lparr>ed_trx_count := from_le b\<rparr>) account) as)))))))"

end
