(* ===== verification/Transaction_Step.thy ===== *)
theory Transaction_Step
  imports Account_Instructions Executor_Db Transaction_Rlp
begin

text \<open>
  Executing a transaction (\<open>transaction_execute.rs\<close>, \<open>transaction_step.rs\<close> and the instructions
  \<open>transaction_execute_from_*\<close> and \<open>transaction_step_from_*\<close> of \<open>program/src/instruction\<close>): at once, or in
  iterations that save the executor and the machine in the state account and lock the accounts of the transaction.

  The crate \<open>rlp\<close>, and \<open>bincode\<close>, with which the executor and the machine are saved, are the record \<open>codec\<close>.  The state account and the treasury are not among the remaining
  accounts; the events for the log of Solana are left out.
\<close>

section \<open>The accounts of a transaction\<close>

record codec =
  cd_rlp :: rlp_crate
  cd_executor_bytes :: "executor \<Rightarrow> bytes"
  cd_executor_read :: "bytes \<Rightarrow> executor option"
  cd_machine_bytes :: "machine list \<Rightarrow> bytes"
  cd_machine_read :: "bytes \<Rightarrow> machine list option"

record setting =
  se_runtime :: runtime
  se_well_known :: well_known
  se_env :: env
  se_codec :: codec
  se_transfer :: system_transfer_call
  se_slot :: u64
  se_time :: u64

abbreviation read_transaction :: "setting \<Rightarrow> bytes \<Rightarrow> transaction result" where
  "read_transaction X \<equiv> from_rlp (env_keccak (se_env X)) (cd_rlp (se_codec X))"

abbreviation caller_of :: "setting \<Rightarrow> transaction \<Rightarrow> address result" where
  "caller_of X \<equiv> recover_caller_address (env_keccak (se_env X)) (env_crypto (se_env X))"

record trx_accounts =
  ta_operator :: pubkey
  ta_treasury :: owned_account
  ta_operator_ether :: "ether_data account_data"

definition PAYMENT_TO_TREASURE :: u64 where "PAYMENT_TO_TREASURE = 5000"
definition EVM_STEPS_MIN :: u64 where "EVM_STEPS_MIN = 500"
definition EVM_STEPS_LAST_ITERATION_MAX :: nat where "EVM_STEPS_LAST_ITERATION_MAX = 1"
definition GAS_LIMIT_MULTIPLIER_NO_CHAINID :: u256 where "GAS_LIMIT_MULTIPLIER_NO_CHAINID = 1000"

definition pay_treasury :: "setting \<Rightarrow> trx_accounts \<Rightarrow> program_storage \<Rightarrow> (trx_accounts \<times> program_storage) result" where
  "pay_treasury X T S =
    rbind (unwrap (ps_solana S (ta_operator T))) (\<lambda>operator.
    rbind (se_transfer X PAYMENT_TO_TREASURE (oa_lamports operator) (oa_lamports (ta_treasury T))) (\<lambda>(from', to').
    Ok (T\<lparr>ta_treasury := (ta_treasury T)\<lparr>oa_lamports := to'\<rparr>\<rparr>, put_solana (operator\<lparr>oa_lamports := from'\<rparr>) S)))"

definition database_of :: "setting \<Rightarrow> program_storage \<Rightarrow> executor database" where
  "database_of X S = executor_database (se_env X) (rt_solana (se_runtime X)) (backend (se_runtime X) S)"

definition start_machine :: "setting \<Rightarrow> program_storage \<Rightarrow> transaction \<Rightarrow> address \<Rightarrow> executor vm result" where
  "start_machine X S trx caller =
    (case machine_new (se_env X) (database_of X S) trx caller (executor_new (backend (se_runtime X) S), []) of
       (Ok m, (x, l)) \<Rightarrow> Ok \<lparr>cur = m, parents = [], db = x, logs = l\<rparr>
     | (Err e, _) \<Rightarrow> Err e
     | (Panic, _) \<Rightarrow> Panic)"

definition run_machine :: "setting \<Rightarrow> program_storage \<Rightarrow> u64 \<Rightarrow> executor vm \<Rightarrow> ((exit_status \<times> nat) \<times> executor vm) result" where
  "run_machine X S step_limit s =
    (case execute (se_env X) (database_of X S) step_limit s of
       (Ok r, s') \<Rightarrow> Ok (r, s')
     | (Err e, _) \<Rightarrow> Err e
     | (Panic, _) \<Rightarrow> Panic)"

text \<open>\<open>log_return_value\<close>; its code goes to the log.\<close>

definition log_return_value :: "exit_status \<Rightarrow> u8 result" where
  "log_return_value status =
    (case status of ExitStop \<Rightarrow> Ok 0x11 | ExitReturn _ \<Rightarrow> Ok 0x12 | ExitSuicide \<Rightarrow> Ok 0x13 | ExitRevert _ \<Rightarrow> Ok 0xd0
     | ExitStepLimit \<Rightarrow> Panic)"

definition operator_info :: "trx_accounts \<Rightarrow> program_storage \<Rightarrow> owned_account result" where
  "operator_info T S = unwrap (ps_solana S (ta_operator T))"

section \<open>In one Solana transaction\<close>

definition execute_validate :: "setting \<Rightarrow> program_storage \<Rightarrow> transaction \<Rightarrow> unit result" where
  "execute_validate X S trx =
    (if trx_chain_id trx \<noteq> Some (ucast (rt_chain_id (se_runtime X)))
     then Err (InvalidChainId (case trx_chain_id trx of Some c \<Rightarrow> c | None \<Rightarrow> 0))
     else check_for_blocked_accounts S)"

definition execute_transaction :: "setting \<Rightarrow> trx_accounts \<Rightarrow> program_storage \<Rightarrow> gasometer \<Rightarrow> transaction \<Rightarrow> address
    \<Rightarrow> (trx_accounts \<times> program_storage \<times> exit_status) result" where
  "execute_transaction X T S gasometer trx caller =
    rbind (pay_treasury X T S) (\<lambda>(T, S).
    rbind (start_machine X S trx caller) (\<lambda>s.
    rbind (run_machine X S (- 1) s) (\<lambda>((status, _), s).
    rbind (into_actions (db s)) (\<lambda>actions.
    rbind (apply_state_change (se_runtime X) (ta_operator T) actions S) (\<lambda>(readiness, S).
    rbind (rassert (readiness = Ready)) (\<lambda>_.
    rbind (operator_info T S) (\<lambda>operator.
    let gasometer = record_operator_expenses operator gasometer in
    if trx_gas_limit trx < used_gas gasometer then Err (OutOfGas (trx_gas_limit trx) (used_gas gasometer))
    else
      rbind (transfer_gas_payment (se_runtime X) caller (ta_operator_ether T)
          (saturating_mul (used_gas gasometer) (trx_gas_price trx)) S) (\<lambda>(operator_ether, S).
      rbind (log_return_value status) (\<lambda>_.
      Ok (T\<lparr>ta_operator_ether := operator_ether\<rparr>, S, status))))))))))"

section \<open>Saving the machine\<close>

definition reinit_with :: "account_storage \<Rightarrow> buffer \<Rightarrow> buffer result" where
  "reinit_with B b =
    (case buf_uninit_data b of
       Some (k, r) \<Rightarrow> rbind (as_map_solana_account B k) (\<lambda>info. Ok (buf_from_account (oa_key info) (oa_data info) r))
     | None \<Rightarrow> Ok b)"

fun reinit_list :: "account_storage \<Rightarrow> buffer list \<Rightarrow> buffer list result" where
  "reinit_list B [] = Ok []"
| "reinit_list B (b # bs) = rbind (reinit_with B b) (\<lambda>b. rbind (reinit_list B bs) (\<lambda>bs. Ok (b # bs)))"

definition reinit_frame :: "account_storage \<Rightarrow> machine \<Rightarrow> machine result" where
  "reinit_frame B m =
    rbind (reinit_with B (m_call_data m)) (\<lambda>call_data.
    rbind (reinit_with B (m_execution_code m)) (\<lambda>code.
    rbind (reinit_with B (m_return_data m)) (\<lambda>return_data.
    rbind (case m_container m of
        None \<Rightarrow> Ok None
      | Some c \<Rightarrow> rbind (reinit_list B (ccode c)) (\<lambda>cs. rbind (reinit_with B (cdata c)) (\<lambda>d.
          Ok (Some (c\<lparr>ccode := cs, cdata := d\<rparr>))))) (\<lambda>c.
    Ok (m\<lparr>m_call_data := call_data, m_execution_code := code, m_return_data := return_data, m_container := c\<rparr>)))))"

fun reinit_machine :: "account_storage \<Rightarrow> machine list \<Rightarrow> machine list result" where
  "reinit_machine B [] = Ok []"
| "reinit_machine B (m # ms) = rbind (reinit_frame B m) (\<lambda>m. rbind (reinit_machine B ms) (\<lambda>ms. Ok (m # ms)))"

text \<open>\<open>bincode::serialize_into\<close> a slice fails when the slice is too short.\<close>

definition serialize_evm_state :: "codec \<Rightarrow> executor vm \<Rightarrow> state_account \<Rightarrow> state_account result" where
  "serialize_evm_state C s a =
    rbind (evm_data a) (\<lambda>buffer.
    let backend_bytes = cd_executor_bytes C (db s); evm_bytes = cd_machine_bytes C (cur s # parents s) in
    if length buffer < length backend_bytes then Err BincodeError
    else if length buffer - length backend_bytes < length evm_bytes then Err BincodeError
    else
      rbind (put_evm_data (backend_bytes @ evm_bytes) a) (\<lambda>a.
      Ok (account_modify (\<lambda>d. d\<lparr>st_evm_state_len := of_nat (length backend_bytes),
        st_evm_machine_len := of_nat (length evm_bytes)\<rparr>) a)))"

definition deserialize_evm_state :: "setting \<Rightarrow> program_storage \<Rightarrow> state_account \<Rightarrow> executor vm result" where
  "deserialize_evm_state X S a =
    rbind (evm_data a) (\<lambda>buffer.
    let n = unat (st_evm_state_len (ad_data a)); k = unat (st_evm_machine_len (ad_data a)) in
    rbind (slice_at buffer 0 n) (\<lambda>executor_state_data.
    rbind (ok_or (cd_executor_read (se_codec X) executor_state_data) BincodeError) (\<lambda>x.
    rbind (slice_at buffer n k) (\<lambda>evm_bytes.
    rbind (ok_or (cd_machine_read (se_codec X) evm_bytes) BincodeError) (\<lambda>ms.
    rbind (reinit_machine (backend (se_runtime X) S) ms) (\<lambda>ms.
    case ms of
      m # rest \<Rightarrow> Ok \<lparr>cur = m, parents = rest, db = x, logs = []\<rparr>
    | [] \<Rightarrow> Err BincodeError))))))"

section \<open>In iterations\<close>

datatype kept_state = InProgress state_account | Finalized "finalized_data account_data"

definition pay_gas_cost :: "setting \<Rightarrow> u256 \<Rightarrow> trx_accounts \<Rightarrow> state_account \<Rightarrow> program_storage
    \<Rightarrow> (trx_accounts \<times> state_account \<times> program_storage) result" where
  "pay_gas_cost X gas T a S =
    (let v = saturating_mul gas (st_gas_price (ad_data a));
         a = account_modify (\<lambda>d. d\<lparr>st_gas_used := saturating_add (st_gas_used d) gas\<rparr>) a in
     rbind (transfer_gas_payment (se_runtime X) (st_caller (ad_data a)) (ta_operator_ether T) v S) (\<lambda>(operator_ether, S).
     Ok (T\<lparr>ta_operator_ether := operator_ether\<rparr>, a, S)))"

definition apply_results :: "setting \<Rightarrow> pubkey \<Rightarrow> (exit_status \<times> journal_action list) option \<Rightarrow> program_storage
    \<Rightarrow> (exit_status option \<times> program_storage) result" where
  "apply_results X operator results S =
    (case results of
       Some (exit_reason, actions) \<Rightarrow>
         rbind (apply_state_change (se_runtime X) operator actions S) (\<lambda>(readiness, S).
         Ok (if readiness = Ready then Some exit_reason else None, S))
     | None \<Rightarrow> Ok (None, S))"

definition finalize :: "setting \<Rightarrow> nat \<Rightarrow> trx_accounts \<Rightarrow> state_account \<Rightarrow> program_storage
    \<Rightarrow> (exit_status \<times> journal_action list) option \<Rightarrow> gasometer \<Rightarrow> (trx_accounts \<times> kept_state \<times> program_storage) result" where
  "finalize X steps_executed T a S results gasometer =
    rbind (if 0 < steps_executed then pay_treasury X T S else Ok (T, S)) (\<lambda>(T, S).
    rbind (apply_results X (ta_operator T) results S) (\<lambda>(exit_reason_opt, S).
    rbind (operator_info T S) (\<lambda>operator.
    let gasometer = record_operator_expenses operator gasometer;
        total_used_gas = used_gas_total gasometer;
        gas_limit = st_gas_limit (ad_data a) in
    if gas_limit < total_used_gas then Err (OutOfGas gas_limit total_used_gas)
    else
      rbind (pay_gas_cost X (used_gas gasometer) T a S) (\<lambda>(T, a, S).
      case exit_reason_opt of
        None \<Rightarrow> Ok (T, InProgress a, S)
      | Some exit_reason \<Rightarrow>
          rbind (log_return_value exit_reason) (\<lambda>_.
          let S = block_accounts False S in
          rbind (operator_info T S) (\<lambda>operator.
          rbind (state_finalize (ReturnToOperator operator) a) (\<lambda>(f, operator).
          Ok (T, Finalized f, put_solana operator S))))))))"

definition do_begin :: "setting \<Rightarrow> trx_accounts \<Rightarrow> state_account \<Rightarrow> program_storage \<Rightarrow> gasometer \<Rightarrow> transaction \<Rightarrow> address
    \<Rightarrow> (trx_accounts \<times> kept_state \<times> program_storage) result" where
  "do_begin X T a S gasometer trx caller =
    rbind (check_for_blocked_accounts S) (\<lambda>_.
    let S = block_accounts True S in
    rbind (start_machine X S trx caller) (\<lambda>s.
    rbind (serialize_evm_state (se_codec X) s a) (\<lambda>a.
    finalize X 0 T a S None gasometer)))"

text \<open>The part of an iteration that runs the machine: the exit status that was saved by an earlier one is not run again.\<close>

definition iterate :: "setting \<Rightarrow> u64 \<Rightarrow> state_account \<Rightarrow> program_storage
    \<Rightarrow> (exit_status \<times> nat \<times> executor vm \<times> state_account) result" where
  "iterate X step_count a S =
    rbind (deserialize_evm_state X S a) (\<lambda>s.
    rbind (case ex_exit_status (db s) of
        Some status \<Rightarrow> Ok ((status, 0), s)
      | None \<Rightarrow> run_machine X S step_count s) (\<lambda>((status, steps_executed), s).
    let s = (if status \<noteq> ExitStepLimit \<and> 0 < steps_executed then s\<lparr>db := set_exit_status status (db s)\<rparr> else s) in
    rbind (if 0 < steps_executed then serialize_evm_state (se_codec X) s a else Ok a) (\<lambda>a.
    Ok (status, steps_executed, s, a))))"

definition do_continue :: "setting \<Rightarrow> u64 \<Rightarrow> trx_accounts \<Rightarrow> state_account \<Rightarrow> program_storage \<Rightarrow> gasometer
    \<Rightarrow> (trx_accounts \<times> kept_state \<times> program_storage) result" where
  "do_continue X step_count T a S gasometer =
    (if step_count < EVM_STEPS_MIN \<and> 0 < st_gas_price (ad_data a)
     then Err (Custom ''Step limit below minimum'')
     else
       rbind (iterate X step_count a S) (\<lambda>(status, steps_executed, s, a).
       rbind (if status = ExitStepLimit \<or> EVM_STEPS_LAST_ITERATION_MAX < steps_executed then Ok None
              else rbind (into_actions (db s)) (\<lambda>actions. Ok (Some (status, actions)))) (\<lambda>results.
       finalize X steps_executed T a S results gasometer)))"

section \<open>The instructions\<close>

text \<open>The accounts at the first places, and the storage of the remaining ones\<close>

definition open_accounts_of_trx :: "setting \<Rightarrow> bool \<Rightarrow> nat \<Rightarrow> pubkey \<Rightarrow> u32 \<Rightarrow> pubkey list \<Rightarrow> accounts \<Rightarrow> trx_accounts result" where
  "open_accounts_of_trx X whitelisted i program_id treasury_index keys as =
    rbind (account_at keys i as) (\<lambda>a1.
    rbind (if whitelisted then operator_from_account (se_well_known X) (se_runtime X) a1
           else operator_not_whitelisted (se_runtime X) a1) (\<lambda>operator.
    rbind (account_at keys (i + 1) as) (\<lambda>a2.
    rbind (treasury_from_account (se_well_known X) (se_runtime X) program_id treasury_index a2) (\<lambda>(treasury, _).
    rbind (account_at keys (i + 2) as) (\<lambda>a3.
    rbind (from_account ether_account_packable program_id a3) (\<lambda>operator_ether.
    rbind (account_at keys (i + 3) as) (\<lambda>a4.
    rbind (system_from_account (se_runtime X) a4) (\<lambda>_.
    rbind (account_at keys (i + 4) as) (\<lambda>a5.
    rbind (neon_from_account program_id a5) (\<lambda>_.
    Ok \<lparr>ta_operator = oa_key operator, ta_treasury = treasury, ta_operator_ether = operator_ether\<rparr>))))))))))"

definition storage_of_trx :: "setting \<Rightarrow> nat \<Rightarrow> pubkey \<Rightarrow> pubkey list \<Rightarrow> trx_accounts \<Rightarrow> accounts \<Rightarrow> program_storage result" where
  "storage_of_trx X i program_id keys T as =
    rbind (accounts_from keys (i + 5) as) (\<lambda>remaining_accounts.
    rbind (unwrap (as (ta_operator T))) (\<lambda>operator.
    rbind (account_at keys (i + 3) as) (\<lambda>system.
    ps_new (se_runtime X) (se_slot X) (se_time X) program_id operator (Some system) remaining_accounts)))"

text \<open>What is written back when everything is dropped\<close>

definition close_trx :: "trx_accounts \<Rightarrow> program_storage \<Rightarrow> accounts \<Rightarrow> accounts result" where
  "close_trx T S as =
    rbind (ps_drop S) (\<lambda>solana.
    let as = put (ta_treasury T) (as ++ solana) in
    if ad_dirty (ta_operator_ether T) then save ether_account_packable (ta_operator_ether T) as else Ok as)"

definition close_state :: "kept_state \<Rightarrow> accounts \<Rightarrow> accounts result" where
  "close_state k as = (case k of InProgress a \<Rightarrow> save state_packable a as | Finalized f \<Rightarrow> Ok (put (ad_info f) as))"

definition transaction_execute_from_instruction :: "setting \<Rightarrow> pubkey \<Rightarrow> pubkey list \<Rightarrow> bytes \<Rightarrow> accounts \<Rightarrow> accounts result" where
  "transaction_execute_from_instruction X program_id keys ins as =
    rbind (array_at ins 0 4) (\<lambda>b.
    rbind (open_accounts_of_trx X False 0 program_id (from_le b) keys as) (\<lambda>T.
    rbind (read_transaction X (drop 4 ins)) (\<lambda>trx.
    rbind (caller_of X trx) (\<lambda>caller.
    rbind (storage_of_trx X 0 program_id keys T as) (\<lambda>S.
    rbind (operator_info T S) (\<lambda>operator.
    let gasometer = record_address_lookup_table (length keys) (record_solana_transaction_cost (gasometer_new None operator)) in
    rbind (execute_validate X S trx) (\<lambda>_.
    rbind (execute_transaction X T S gasometer trx caller) (\<lambda>(T, S, _).
    close_trx T S as))))))))"

definition transaction_execute_from_account :: "setting \<Rightarrow> pubkey \<Rightarrow> pubkey list \<Rightarrow> bytes \<Rightarrow> accounts \<Rightarrow> accounts result" where
  "transaction_execute_from_account X program_id keys ins as =
    rbind (array_at ins 0 4) (\<lambda>b.
    rbind (account_at keys 0 as) (\<lambda>a0.
    rbind (from_account holder_packable program_id a0) (\<lambda>holder.
    rbind (open_accounts_of_trx X False 1 program_id (from_le b) keys as) (\<lambda>T.
    rbind (holder_validate_owner (ta_operator T) holder) (\<lambda>_.
    rbind (holder_transaction holder) (\<lambda>message.
    rbind (read_transaction X message) (\<lambda>trx.
    rbind (holder_validate_transaction trx holder) (\<lambda>_.
    rbind (caller_of X trx) (\<lambda>caller.
    rbind (storage_of_trx X 1 program_id keys T as) (\<lambda>S.
    rbind (operator_info T S) (\<lambda>operator.
    let gasometer = record_write_to_holder trx (record_address_lookup_table (length keys)
          (record_solana_transaction_cost (gasometer_new None operator))) in
    rbind (execute_validate X S trx) (\<lambda>_.
    rbind (execute_transaction X T S gasometer trx caller) (\<lambda>(T, S, _).
    close_trx T S as)))))))))))))"

definition continue_trx :: "setting \<Rightarrow> pubkey \<Rightarrow> u64 \<Rightarrow> owned_account \<Rightarrow> owned_account list \<Rightarrow> trx_accounts \<Rightarrow> program_storage
    \<Rightarrow> (trx_accounts \<times> kept_state \<times> program_storage) result" where
  "continue_trx X program_id step_count storage_info remaining_accounts T S =
    rbind (operator_info T S) (\<lambda>operator.
    rbind (state_restore (Ok (se_slot X)) program_id storage_info operator remaining_accounts False) (\<lambda>(a, _).
    let gasometer = record_solana_transaction_cost (gasometer_new (Some (st_gas_used (ad_data a))) operator) in
    do_continue X step_count T a S gasometer))"

definition begin_trx :: "setting \<Rightarrow> pubkey \<Rightarrow> nat \<Rightarrow> bool \<Rightarrow> bool \<Rightarrow> owned_account \<Rightarrow> owned_account list \<Rightarrow> trx_accounts
    \<Rightarrow> program_storage \<Rightarrow> transaction \<Rightarrow> address \<Rightarrow> (trx_accounts \<times> kept_state \<times> program_storage) result" where
  "begin_trx X program_id n from_holder no_chain_id storage_info remaining_accounts T S trx caller =
    rbind (operator_info T S) (\<lambda>operator.
    rbind (state_new (rt_minimum_balance (se_runtime X)) (Ok (se_slot X)) (se_transfer X) program_id storage_info operator
        remaining_accounts caller trx) (\<lambda>(a, operator).
    let S = put_solana operator S;
        a = (if no_chain_id then account_modify (\<lambda>d. d\<lparr>st_gas_limit :=
               saturating_mul (st_gas_limit d) GAS_LIMIT_MULTIPLIER_NO_CHAINID\<rparr>) a else a);
        gasometer = record_iterative_overhead (record_address_lookup_table n (record_solana_transaction_cost
          (gasometer_new None operator)));
        gasometer = (if from_holder then record_write_to_holder trx gasometer else gasometer) in
    do_begin X T a S gasometer trx caller))"

definition transaction_step_from_instruction :: "setting \<Rightarrow> pubkey \<Rightarrow> pubkey list \<Rightarrow> bytes \<Rightarrow> accounts \<Rightarrow> accounts result" where
  "transaction_step_from_instruction X program_id keys ins as =
    rbind (array_at ins 0 4) (\<lambda>b.
    rbind (array_at ins 4 4) (\<lambda>step_bytes.
    rbind (slice_from 12 ins) (\<lambda>message.
    rbind (account_at keys 0 as) (\<lambda>storage_info.
    rbind (open_accounts_of_trx X True 1 program_id (from_le b) keys as) (\<lambda>T.
    rbind (storage_of_trx X 1 program_id keys T as) (\<lambda>S.
    rbind (accounts_from keys 6 as) (\<lambda>remaining_accounts.
    rbind (account_tag program_id storage_info) (\<lambda>tag.
    rbind (if tag = TAG_HOLDER \<or> tag = TAG_FINALIZED_STATE then
             rbind (read_transaction X message) (\<lambda>trx.
             rbind (caller_of X trx) (\<lambda>caller.
             begin_trx X program_id (length keys) False False storage_info remaining_accounts T S trx caller))
           else if tag = TAG_STATE then
             continue_trx X program_id (from_le step_bytes) storage_info remaining_accounts T S
           else Err (AccountError (AccountInvalidTag (oa_key storage_info) TAG_HOLDER))) (\<lambda>(T, k, S).
    rbind (close_trx T S as) (close_state k))))))))))"

text \<open>\<open>execute\<close> of \<open>transaction_step_from_account.rs\<close>, with the chain that a new transaction must be for\<close>

definition step_from_account :: "setting \<Rightarrow> u256 option \<Rightarrow> pubkey \<Rightarrow> pubkey list \<Rightarrow> bytes \<Rightarrow> accounts \<Rightarrow> accounts result" where
  "step_from_account X expected_chain_id program_id keys ins as =
    rbind (array_at ins 0 4) (\<lambda>b.
    rbind (array_at ins 4 4) (\<lambda>step_bytes.
    rbind (account_at keys 0 as) (\<lambda>storage_info.
    rbind (open_accounts_of_trx X True 1 program_id (from_le b) keys as) (\<lambda>T.
    rbind (storage_of_trx X 1 program_id keys T as) (\<lambda>S.
    rbind (accounts_from keys 6 as) (\<lambda>remaining_accounts.
    rbind (account_tag program_id storage_info) (\<lambda>tag.
    rbind (if tag = TAG_HOLDER then
             rbind (from_account holder_packable program_id storage_info) (\<lambda>holder.
             rbind (holder_validate_owner (ta_operator T) holder) (\<lambda>_.
             rbind (holder_transaction holder) (\<lambda>message.
             rbind (read_transaction X message) (\<lambda>trx.
             rbind (holder_validate_transaction trx holder) (\<lambda>_.
             if trx_chain_id trx \<noteq> expected_chain_id
             then Err (InvalidChainId (case trx_chain_id trx of Some c \<Rightarrow> c | None \<Rightarrow> 0))
             else
               rbind (caller_of X trx) (\<lambda>caller.
               begin_trx X program_id (length keys) True (expected_chain_id = None) storage_info remaining_accounts T S
                 trx caller))))))
           else if tag = TAG_STATE then
             continue_trx X program_id (from_le step_bytes) storage_info remaining_accounts T S
           else if tag = TAG_FINALIZED_STATE then Err (AccountError StorageAccountFinalized)
           else Err (AccountError (AccountInvalidTag (oa_key storage_info) TAG_HOLDER))) (\<lambda>(T, k, S).
    rbind (close_trx T S as) (close_state k)))))))))"

definition transaction_step_from_account :: "setting \<Rightarrow> pubkey \<Rightarrow> pubkey list \<Rightarrow> bytes \<Rightarrow> accounts \<Rightarrow> accounts result" where
  "transaction_step_from_account X = step_from_account X (Some (ucast (rt_chain_id (se_runtime X))))"

definition transaction_step_from_account_no_chainid :: "setting \<Rightarrow> pubkey \<Rightarrow> pubkey list \<Rightarrow> bytes \<Rightarrow> accounts \<Rightarrow> accounts result" where
  "transaction_step_from_account_no_chainid X = step_from_account X None"

end
