(* ===== verification/Entry_Point.thy ===== *)
theory Entry_Point
  imports Transaction_Step
begin

text \<open>
  The dispatch of the instructions of the Solana program (\<open>EvmInstruction\<close> of \<open>program/src/instruction/mod.rs\<close> and
  \<open>process_instruction\<close> of \<open>program/src/entrypoint.rs\<close>).
\<close>

datatype evm_instruction =
    DepositV03
  | CreateAccountV03
  | CollectTreasure
  | HolderCreate
  | HolderDelete
  | HolderWrite
  | TransactionExecuteFromInstruction
  | TransactionExecuteFromAccount
  | TransactionStepFromInstruction
  | TransactionStepFromAccount
  | TransactionStepFromAccountNoChainId
  | Cancel
  | CreateMainTreasury
  | AccountBlockAdd
  | TestAccountUpdateNonce

definition parse_instruction :: "u8 \<Rightarrow> evm_instruction result" where
  "parse_instruction tag =
    (if tag = 0x1e then Ok CollectTreasure
     else if tag = 0x1f then Ok TransactionExecuteFromInstruction
     else if tag = 0x20 then Ok TransactionStepFromInstruction
     else if tag = 0x21 then Ok TransactionStepFromAccount
     else if tag = 0x22 then Ok TransactionStepFromAccountNoChainId
     else if tag = 0x23 then Ok Cancel
     else if tag = 0x24 then Ok HolderCreate
     else if tag = 0x25 then Ok HolderDelete
     else if tag = 0x26 then Ok HolderWrite
     else if tag = 0x27 then Ok DepositV03
     else if tag = 0x28 then Ok CreateAccountV03
     else if tag = 0x29 then Ok CreateMainTreasury
     else if tag = 0x2A then Ok TransactionExecuteFromAccount
     else if tag = 0x2B then Ok AccountBlockAdd
     else if tag = 0x2C then Ok TestAccountUpdateNonce
     else Err (ProgramError InvalidInstructionData))"

definition process_instruction :: "setting \<Rightarrow> nat \<Rightarrow> pubkey \<Rightarrow> pubkey list \<Rightarrow> bytes \<Rightarrow> accounts \<Rightarrow> accounts result" where
  "process_instruction X stack_height program_id keys instruction_data as =
    (case instruction_data of
       [] \<Rightarrow> Err (ProgramError InvalidInstructionData)
     | tag # ins \<Rightarrow>
         rbind (parse_instruction tag) (\<lambda>i.
         as_program_error
           (case i of
              HolderCreate \<Rightarrow> holder_create (se_runtime X) program_id keys ins as
            | HolderDelete \<Rightarrow> holder_delete (se_runtime X) program_id keys ins as
            | HolderWrite \<Rightarrow> holder_write_part (se_runtime X) program_id keys ins as
            | DepositV03 \<Rightarrow> neon_tokens_deposit (se_well_known X) (se_runtime X) program_id keys ins as
            | Cancel \<Rightarrow> transaction_cancel (se_well_known X) (se_runtime X) (Ok (se_slot X)) program_id keys ins as
            | TransactionExecuteFromInstruction \<Rightarrow> transaction_execute_from_instruction X program_id keys ins as
            | TransactionExecuteFromAccount \<Rightarrow> transaction_execute_from_account X program_id keys ins as
            | TransactionStepFromInstruction \<Rightarrow> transaction_step_from_instruction X program_id keys ins as
            | TransactionStepFromAccount \<Rightarrow> transaction_step_from_account X program_id keys ins as
            | TransactionStepFromAccountNoChainId \<Rightarrow> transaction_step_from_account_no_chainid X program_id keys ins as
            | CreateAccountV03 \<Rightarrow> account_create (se_runtime X) program_id keys ins as
            | CollectTreasure \<Rightarrow> collect_treasury (se_well_known X) (se_runtime X) program_id keys ins as
            | CreateMainTreasury \<Rightarrow> create_main_treasury (se_well_known X) (se_runtime X) program_id keys ins as
            | AccountBlockAdd \<Rightarrow> account_block_add (se_well_known X) (se_runtime X) stack_height program_id keys ins as
            | TestAccountUpdateNonce \<Rightarrow> test_account_update_nonce (se_well_known X) (se_runtime X) program_id keys ins as)))"

end
