(* ===== verification/Apply_Laws.thy ===== *)
theory Apply_Laws
  imports Apply Journal
begin

text \<open>
  Applying the log does what the executor has read through it: the balances and nonces of the accounts afterwards are
  those that the executor computed, rearranging the actions changes none of them, and the gas is paid by the sender to
  the operator.
\<close>

section \<open>The headers of the opened accounts\<close>

definition eth :: "program_storage \<Rightarrow> address \<Rightarrow> ether_data option" where
  "eth S a = map_option hn_data (map_of (ps_ethereum S) a)"

definition balance_of :: "program_storage \<Rightarrow> address \<Rightarrow> u256" where
  "balance_of S a = (case eth S a of Some d \<Rightarrow> ed_balance d | None \<Rightarrow> 0)"

definition nonce_of :: "program_storage \<Rightarrow> address \<Rightarrow> u64" where
  "nonce_of S a = (case eth S a of Some d \<Rightarrow> ed_trx_count d | None \<Rightarrow> 0)"

lemma eth_simps [simp]:
  "eth (put_solana info S) = eth S" "eth (S\<lparr>ps_solana := as\<rparr>) = eth S" "eth (S\<lparr>ps_cells := cs\<rparr>) = eth S"
  by (auto simp: eth_def put_solana_def)

lemma eth_update: "eth (S\<lparr>ps_ethereum := AList.update a h (ps_ethereum S)\<rparr>) = (eth S)(a \<mapsto> hn_data h)"
  by (auto simp: eth_def update_conv' fun_eq_iff)

lemma eth_None_iff: "map_of (ps_ethereum S) a = None \<longleftrightarrow> eth S a = None"
  by (simp add: eth_def)

lemma modify_ethereum_Ok: "modify_ethereum a f S = Ok S' \<Longrightarrow> \<exists>d. eth S a = Some d \<and> eth S' = (eth S)(a \<mapsto> f d)"
  by (auto simp: modify_ethereum_def eth_update handle_modify_def split: option.splits) (auto simp: eth_def)

lemma modify_ethereum_total: "eth S a = Some d \<Longrightarrow> \<exists>S'. modify_ethereum a f S = Ok S' \<and> eth S' = (eth S)(a \<mapsto> f d)"
  by (auto simp: modify_ethereum_def eth_update handle_modify_def eth_def)

lemma map_account_Ok: "map_account none f R S a = Ok v \<Longrightarrow>
    (case map_of (ps_ethereum S) a of Some h \<Rightarrow> f h = Ok v | None \<Rightarrow> v = none)"
  by (auto simp: map_account_def ethereum_account_def rbind_Ok_iff split: option.splits)

lemma ps_balance_Ok: "ps_balance R S a = Ok v \<Longrightarrow> v = balance_of S a"
  using map_account_Ok [of 0 "\<lambda>h. Ok (ed_balance (hn_data h))" R S a v]
  by (auto simp: ps_balance_def balance_of_def eth_def split: option.splits)

lemma ps_balance_loaded: "eth S a \<noteq> None \<Longrightarrow> ps_balance R S a = Ok (balance_of S a)"
  by (auto simp: ps_balance_def map_account_def ethereum_account_def balance_of_def eth_def split: option.splits)

lemma ps_nonce_Ok: "ps_nonce R S a = Ok v \<Longrightarrow> v = nonce_of S a"
  using map_account_Ok [of 0 "\<lambda>h. Ok (ed_trx_count (hn_data h))" R S a v]
  by (auto simp: ps_nonce_def nonce_of_def eth_def split: option.splits)

section \<open>One action\<close>

lemma transfer_eth:
  assumes "transfer_neon_tokens R s t v S = Ok S'"
  shows "if s = t then S' = S
    else \<exists>ds dt. eth S s = Some ds \<and> eth S t = Some dt \<and> v \<le> ed_balance ds
      \<and> eth S' = (eth S)(s \<mapsto> ds\<lparr>ed_balance := ed_balance ds - v\<rparr>, t \<mapsto> dt\<lparr>ed_balance := ed_balance dt + v\<rparr>)"
proof (cases "s = t")
  case False
  then obtain b S1 where b: "ps_balance R S s = Ok b" "v \<le> b"
      and s: "modify_ethereum s (\<lambda>d. d\<lparr>ed_balance := ed_balance d - v\<rparr>) S = Ok S1"
      and t: "modify_ethereum t (\<lambda>d. d\<lparr>ed_balance := ed_balance d + v\<rparr>) S1 = Ok S'"
    using assms by (auto simp: transfer_neon_tokens_def rbind_Ok_iff not_less split: if_splits)
  from modify_ethereum_Ok [OF s] modify_ethereum_Ok [OF t] ps_balance_Ok [OF b(1)] b(2) False
  show ?thesis by (auto simp: balance_of_def)
qed (use assms in \<open>simp add: transfer_neon_tokens_def\<close>)

lemma withdraw_eth: "withdraw_neon_tokens s v S = Ok S' \<Longrightarrow>
    \<exists>d. eth S s = Some d \<and> v \<le> ed_balance d \<and> eth S' = (eth S)(s \<mapsto> d\<lparr>ed_balance := ed_balance d - v\<rparr>)"
  by (auto simp: withdraw_neon_tokens_def rbind_Ok_iff not_less split: if_splits dest!: modify_ethereum_Ok)
    (auto simp: eth_def)

lemma increment_eth: "increment_nonce a S = Ok S' \<Longrightarrow>
    \<exists>d. eth S a = Some d \<and> ed_trx_count d \<noteq> - 1 \<and> eth S' = (eth S)(a \<mapsto> d\<lparr>ed_trx_count := ed_trx_count d + 1\<rparr>)"
  by (auto simp: increment_nonce_def rbind_Ok_iff split: if_splits dest!: modify_ethereum_Ok) (auto simp: eth_def)

lemma delete_eth: "delete_account a S = Ok S' \<Longrightarrow> \<exists>d. eth S a = Some d
    \<and> eth S' = (eth S)(a \<mapsto> d\<lparr>ed_trx_count := 0, ed_generation := ed_generation d + 1, ed_code_size := 0\<rparr>)"
proof -
  assume "delete_account a S = Ok S'"
  then obtain S1 account S2 S3 where 1: "modify_ethereum a (\<lambda>d. d\<lparr>ed_trx_count := 0\<rparr>) S = Ok S1"
      and 2: "modify_ethereum a (\<lambda>d. d\<lparr>ed_generation := ed_generation d + 1\<rparr>) S1 = Ok S2"
      and wipe: "(if is_contract (hn_data account) then fill_extension account S2 else Ok S2) = Ok S3"
      and 4: "modify_ethereum a (\<lambda>d. d\<lparr>ed_code_size := 0\<rparr>) S3 = Ok S'"
    unfolding delete_account_def by (force simp: rbind_Ok_iff split: if_splits)
  from wipe have 3: "eth S3 = eth S2" by (auto simp: fill_extension_def rbind_Ok_iff split: if_splits)
  from modify_ethereum_Ok [OF 1] modify_ethereum_Ok [OF 2] 3 modify_ethereum_Ok [OF 4]
  show ?thesis by auto
qed

lemma deploy_eth: "deploy_contract a code S = Ok S' \<Longrightarrow> \<exists>d. eth S a = Some d
    \<and> eth S' = (eth S)(a \<mapsto> d\<lparr>ed_code_size := of_nat (length code)\<rparr>)"
  by (auto simp: deploy_contract_def rbind_Ok_iff split: if_splits dest!: modify_ethereum_Ok)

lemma external_eth: "external_instruction R p as data seeds S = Ok S' \<Longrightarrow> eth S' = eth S"
  by (auto simp: external_instruction_def rbind_Ok_iff)

lemma apply_one_balance:
  assumes "apply_one R act (S, st) = Ok (S', st')" and "balance_after a [act] (balance_of S a) = Ok v"
  shows "balance_of S' a = v"
proof (cases act)
  case (NeonTransfer s t w)
  then have "transfer_neon_tokens R s t w S = Ok S'" using assms(1) by (auto simp: apply_one_def rbind_Ok_iff)
  from transfer_eth [OF this] assms(2) NeonTransfer show ?thesis
    by (cases "s = t") (auto simp: balance_of_def rbind_Ok_iff checked_sub_u256_def checked_add_u256_def split: if_splits)
next
  case (NeonWithdraw s w)
  then have "withdraw_neon_tokens s w S = Ok S'" using assms(1) by (auto simp: apply_one_def rbind_Ok_iff)
  from withdraw_eth [OF this] assms(2) NeonWithdraw show ?thesis
    by (auto simp: balance_of_def rbind_Ok_iff checked_sub_u256_def split: if_splits)
next
  case (EvmIncrementNonce b)
  then have "increment_nonce b S = Ok S'" using assms(1) by (auto simp: apply_one_def rbind_Ok_iff)
  from increment_eth [OF this] assms(2) EvmIncrementNonce show ?thesis by (auto simp: balance_of_def)
next
  case (EvmSelfDestruct b)
  then have "delete_account b S = Ok S'" using assms(1) by (auto simp: apply_one_def rbind_Ok_iff)
  from delete_eth [OF this] assms(2) EvmSelfDestruct show ?thesis by (auto simp: balance_of_def)
next
  case (EvmSetCode b code)
  then have "deploy_contract b (buf_bytes code) S = Ok S'" using assms(1) by (auto simp: apply_one_def rbind_Ok_iff)
  from deploy_eth [OF this] assms(2) EvmSetCode show ?thesis by (auto simp: balance_of_def)
next
  case (EvmSetStorage b i w)
  then show ?thesis using assms by (auto simp: apply_one_def)
next
  case (ExternalInstruction p as data seeds fee)
  then have "external_instruction R p as data seeds S = Ok S'" using assms(1) by (auto simp: apply_one_def rbind_Ok_iff)
  from external_eth [OF this] assms(2) ExternalInstruction show ?thesis by (simp add: balance_of_def)
qed

lemma apply_one_nonce:
  assumes "apply_one R act (S, st) = Ok (S', st')" and "nonce_after a [act] (nonce_of S a) = Ok v" and "act \<noteq> EvmSelfDestruct a"
  shows "nonce_of S' a = v"
proof (cases act)
  case (NeonTransfer s t w)
  then have "transfer_neon_tokens R s t w S = Ok S'" using assms(1) by (auto simp: apply_one_def rbind_Ok_iff)
  from transfer_eth [OF this] assms(2) NeonTransfer show ?thesis by (auto simp: nonce_of_def split: if_splits)
next
  case (NeonWithdraw s w)
  then have "withdraw_neon_tokens s w S = Ok S'" using assms(1) by (auto simp: apply_one_def rbind_Ok_iff)
  from withdraw_eth [OF this] assms(2) NeonWithdraw show ?thesis by (auto simp: nonce_of_def)
next
  case (EvmIncrementNonce b)
  then have "increment_nonce b S = Ok S'" using assms(1) by (auto simp: apply_one_def rbind_Ok_iff)
  from increment_eth [OF this] assms(2) EvmIncrementNonce show ?thesis by (auto simp: nonce_of_def split: if_splits)
next
  case (EvmSelfDestruct b)
  then have "delete_account b S = Ok S'" using assms(1) by (auto simp: apply_one_def rbind_Ok_iff)
  from delete_eth [OF this] assms(2,3) EvmSelfDestruct show ?thesis by (auto simp: nonce_of_def)
next
  case (EvmSetCode b code)
  then have "deploy_contract b (buf_bytes code) S = Ok S'" using assms(1) by (auto simp: apply_one_def rbind_Ok_iff)
  from deploy_eth [OF this] assms(2) EvmSetCode show ?thesis by (auto simp: nonce_of_def)
next
  case (EvmSetStorage b i w)
  then show ?thesis using assms by (auto simp: apply_one_def)
next
  case (ExternalInstruction p as data seeds fee)
  then have "external_instruction R p as data seeds S = Ok S'" using assms(1) by (auto simp: apply_one_def rbind_Ok_iff)
  from external_eth [OF this] assms(2) ExternalInstruction show ?thesis by (simp add: nonce_of_def)
qed

lemma balance_after_Cons: "balance_after a (act # acts) n = rbind (balance_after a [act] n) (balance_after a acts)"
  using balance_after_append [of a "[act]" acts] by simp

lemma nonce_after_Cons: "nonce_after a (act # acts) n = rbind (nonce_after a [act] n) (nonce_after a acts)"
  using nonce_after_append [of a "[act]" acts] by simp

lemma apply_actions_balance:
  "apply_actions R acts (S, st) = Ok (S', st') \<Longrightarrow> balance_after a acts (balance_of S a) = Ok v \<Longrightarrow> balance_of S' a = v"
proof (induction acts arbitrary: S st)
  case (Cons act acts)
  then obtain S1 st1 where one: "apply_one R act (S, st) = Ok (S1, st1)" and rest: "apply_actions R acts (S1, st1) = Ok (S', st')"
    by (auto simp: rbind_Ok_iff)
  obtain n where "balance_after a [act] (balance_of S a) = Ok n" "balance_after a acts n = Ok v"
    using Cons.prems(2) by (auto simp only: balance_after_Cons [of a act acts] rbind_Ok_iff)
  then show ?case using Cons.IH [OF rest] apply_one_balance [OF one] by simp
qed simp

lemma apply_actions_nonce:
  "apply_actions R acts (S, st) = Ok (S', st') \<Longrightarrow> nonce_after a acts (nonce_of S a) = Ok v \<Longrightarrow> EvmSelfDestruct a \<notin> set acts
    \<Longrightarrow> nonce_of S' a = v"
proof (induction acts arbitrary: S st)
  case (Cons act acts)
  then obtain S1 st1 where one: "apply_one R act (S, st) = Ok (S1, st1)" and rest: "apply_actions R acts (S1, st1) = Ok (S', st')"
    by (auto simp: rbind_Ok_iff)
  obtain n where "nonce_after a [act] (nonce_of S a) = Ok n" "nonce_after a acts n = Ok v"
    using Cons.prems(2) by (auto simp only: nonce_after_Cons [of a act acts] rbind_Ok_iff)
  then show ?case using Cons.IH [OF rest] apply_one_nonce [OF one] Cons.prems(3) by auto
qed simp

section \<open>Rearranging\<close>

lemma rearrange_loop_balance:
  "balance_after a (fst (rearrange_loop D acts)) = balance_after a acts"
proof (induction acts)
  case (Cons act acts)
  show ?case by (rule ext, cases act) (simp_all add: Let_def case_prod_beta Cons.IH)
qed simp

lemma rearrange_loop_destructs: "snd (rearrange_loop D acts) = filter (\<lambda>act. \<exists>a. act = EvmSelfDestruct a) acts"
  by (induction acts) (auto split: journal_action.splits simp: Let_def case_prod_beta)

lemma balance_after_destructs: "balance_after a (filter (\<lambda>act. \<exists>a. act = EvmSelfDestruct a) acts) = Ok"
  by (rule ext, induction acts) auto

lemma nonce_after_destructs: "nonce_after a (filter (\<lambda>act. \<exists>a. act = EvmSelfDestruct a) acts) = Ok"
  by (rule ext, induction acts) auto

lemma rearrange_loop_nonce:
  "a \<notin> D \<Longrightarrow> nonce_after a (fst (rearrange_loop D acts)) = nonce_after a acts"
proof (induction acts)
  case (Cons act acts)
  show ?case by (rule ext, cases act) (use Cons.prems in \<open>auto simp add: Let_def case_prod_beta Cons.IH\<close>)
qed simp

lemma find_code_destructs: "find_code a (filter (\<lambda>act. \<exists>a. act = EvmSelfDestruct a) acts) = None"
  by (induction acts) auto

lemma rearrange_loop_code: "a \<notin> D \<Longrightarrow> find_code a (fst (rearrange_loop D acts)) = find_code a acts"
  by (induction acts) (auto split: journal_action.splits simp: Let_def case_prod_beta)

lemma find_storage_destructs: "find_storage a i (rev (filter (\<lambda>act. \<exists>a. act = EvmSelfDestruct a) acts)) = None"
  by (induction acts) (auto simp: find_storage_append)

lemma rearrange_loop_storage:
  "a \<notin> D \<Longrightarrow> find_storage a i (rev (fst (rearrange_loop D acts))) = find_storage a i (rev acts)"
  by (induction acts) (auto split: journal_action.splits simp: Let_def case_prod_beta find_storage_append split: option.splits)

text \<open>The actions that are applied before the destructions\<close>

definition is_kept :: "address set \<Rightarrow> journal_action \<Rightarrow> bool" where
  "is_kept destroyed act =
    (case act of
       EvmSetStorage a _ _ \<Rightarrow> a \<notin> destroyed
     | EvmSetCode a _ \<Rightarrow> a \<notin> destroyed
     | EvmIncrementNonce a \<Rightarrow> a \<notin> destroyed
     | EvmSelfDestruct a \<Rightarrow> False
     | _ \<Rightarrow> True)"

definition is_destruct :: "journal_action \<Rightarrow> bool" where
  "is_destruct act = (case act of EvmSelfDestruct a \<Rightarrow> True | _ \<Rightarrow> False)"

lemma rearrange_loop_filters: "rearrange_loop D acts = (filter (is_kept D) acts, filter is_destruct acts)"
  by (induction acts) (auto simp: is_kept_def is_destruct_def split: journal_action.splits)

lemma rearrange_loop_kept:
  "act \<in> set (fst (rearrange_loop D acts)) \<Longrightarrow> act \<in> set acts
     \<and> (case act of EvmSetStorage a _ _ \<Rightarrow> a \<notin> D | EvmSetCode a _ \<Rightarrow> a \<notin> D | EvmIncrementNonce a \<Rightarrow> a \<notin> D
        | EvmSelfDestruct a \<Rightarrow> False | _ \<Rightarrow> True)"
  by (auto simp: rearrange_loop_filters is_kept_def split: journal_action.splits)

lemma destroyed_iff: "a \<in> accounts_to_destroy acts \<longleftrightarrow> EvmSelfDestruct a \<in> set acts"
  by (auto simp: accounts_to_destroy_def List.map_filter_def split: journal_action.splits)

lemma rearrange_balance: "balance_after a (rearrange_actions acts) n = balance_after a acts n"
  by (simp add: rearrange_actions_def case_prod_beta balance_after_append rearrange_loop_balance rearrange_loop_destructs
      balance_after_destructs)

lemma rearrange_nonce: "a \<notin> accounts_to_destroy acts \<Longrightarrow> nonce_after a (rearrange_actions acts) n = nonce_after a acts n"
  by (simp add: rearrange_actions_def case_prod_beta nonce_after_append rearrange_loop_nonce rearrange_loop_destructs
      nonce_after_destructs)

text \<open>C30: the rearranged log is, in the order of the log, every external instruction, transfer and withdrawal and the changes of
  nonce, code and storage of the accounts that are not destroyed, and then, in the order of the log, every destruction and
  nothing else.  It has the same balance for every address, and the same nonce, code and storage for every account that is
  not destroyed.\<close>

theorem rearrange_keeps_meaning:
  "rearrange_actions acts = filter (is_kept (accounts_to_destroy acts)) acts @ filter is_destruct acts
   \<and> balance_after a (rearrange_actions acts) n = balance_after a acts n
   \<and> (a \<notin> accounts_to_destroy acts \<longrightarrow> nonce_after a (rearrange_actions acts) k = nonce_after a acts k
       \<and> find_code a (rearrange_actions acts) = find_code a acts
       \<and> find_storage a i (rev (rearrange_actions acts)) = find_storage a i (rev acts))"
proof -
  have split: "rearrange_actions acts = filter (is_kept (accounts_to_destroy acts)) acts @ filter is_destruct acts"
    by (simp add: rearrange_actions_def rearrange_loop_filters)
  have destructs: "filter is_destruct acts = filter (\<lambda>act. \<exists>a. act = EvmSelfDestruct a) acts"
    by (rule filter_cong) (auto simp: is_destruct_def split: journal_action.splits)
  have "find_code a (rearrange_actions acts) = find_code a acts"
      "find_storage a i (rev (rearrange_actions acts)) = find_storage a i (rev acts)" if "a \<notin> accounts_to_destroy acts"
    using rearrange_loop_code [OF that, of acts] rearrange_loop_storage [OF that, of i acts]
    unfolding split rev_append find_code_append find_storage_append rearrange_loop_filters destructs
    by (simp_all add: find_code_destructs find_storage_destructs split: option.split)
  with split show ?thesis using rearrange_balance rearrange_nonce by blast
qed

section \<open>The whole\<close>

lemma process_operations_eth: "process_operations R operator ops S = Ok (r, S') \<Longrightarrow> eth S' = eth S"
proof (induction ops arbitrary: S r)
  case (Cons x ops)
  obtain a operation where x: "x = (a, operation)" by (cases x)
  then obtain r1 S1 r2 where one: "process_operation R operator a operation S = Ok (r1, S1)"
      and rest: "process_operations R operator ops S1 = Ok (r2, S')"
    using Cons.prems by (auto simp: rbind_Ok_iff)
  have "eth S1 = eth S"
    using one by (cases operation) (auto simp: process_operation_def rbind_Ok_iff Let_def case_prod_beta)
  then show ?case using Cons.IH [OF rest] by simp
qed simp

lemma create_account_eth:
  assumes "create_account_if_not_exists R a S = Ok S'"
  shows "eth S a \<noteq> None \<and> eth S' = eth S \<or> eth S a = None \<and> (\<exists>bump. eth S' = (eth S)(a \<mapsto> default_ether_data a bump))"
proof (cases "map_of (ps_ethereum S) a")
  case None
  then obtain info bump account where init: "account_init (rt_minimum_balance R) ether_account_packable (ps_program_id S) info
        (default_ether_data a bump) = Ok account"
      and S': "S' = (let S = put_solana (ad_info account) S in
        S\<lparr>ps_ethereum := AList.update (ed_address (ad_data account)) (handle_of account) (ps_ethereum S)\<rparr>)"
    using assms by (auto simp: create_account_if_not_exists_def rbind_Ok_iff Let_def case_prod_beta)
  have "ad_data account = default_ether_data a bump" by (rule ether_account.init_opens(2) [OF init])
  then have "eth S' = (eth S)(a \<mapsto> default_ether_data a bump)"
    by (simp add: S' Let_def eth_update handle_of_def default_ether_data_def)
  then show ?thesis using None by (auto simp: eth_None_iff)
qed (use assms in \<open>auto simp: create_account_if_not_exists_def eth_def\<close>)

lemma create_missing_state:
  "create_missing R acts S = Ok S' \<Longrightarrow> balance_of S' = balance_of S \<and> nonce_of S' = nonce_of S"
proof (induction acts arbitrary: S)
  case (Cons act acts)
  show ?case
  proof (cases "created_by act")
    case (Some a)
    then obtain S1 where one: "create_account_if_not_exists R a S = Ok S1" and rest: "create_missing R acts S1 = Ok S'"
      using Cons.prems by (auto simp: rbind_Ok_iff)
    have "balance_of S1 = balance_of S \<and> nonce_of S1 = nonce_of S"
      using create_account_eth [OF one] by (auto simp: balance_of_def nonce_of_def fun_eq_iff default_ether_data_def)
    then show ?thesis using Cons.IH [OF rest] by simp
  qed (use Cons in auto)
qed simp

lemma create_cell_eth: "create_cell R operator contract index i v S = Ok S' \<Longrightarrow> eth S' = eth S"
  by (auto simp: create_cell_def rbind_Ok_iff Let_def split: if_splits)

lemma write_cell_eth: "write_cell R operator contract index v (S, t) = Ok (S', t') \<Longrightarrow> eth S' = eth S"
  by (auto simp: write_cell_def write_static_def rbind_Ok_iff Let_def dest: create_cell_eth split: if_splits option.splits)

lemma write_cells_eth: "write_cells R operator contract ws (S, t) = Ok (S', t') \<Longrightarrow> eth S' = eth S"
proof (induction ws arbitrary: S t)
  case (Cons w ws)
  obtain i v where w: "w = (i, v)" by (cases w)
  then obtain S1 t1 where "write_cell R operator contract i v (S, t) = Ok (S1, t1)" "write_cells R operator contract ws (S1, t1) = Ok (S', t')"
    using Cons.prems by (auto simp: rbind_Ok_iff)
  then show ?case using Cons.IH write_cell_eth by metis
qed simp

lemma write_contracts_eth: "write_contracts R operator ws (S, t) = Ok (S', t') \<Longrightarrow> eth S' = eth S"
proof (induction ws arbitrary: S t)
  case (Cons w ws)
  obtain a v where w: "w = (a, v)" by (cases w)
  then obtain c S1 t1 where "write_cells R operator c v (S, t) = Ok (S1, t1)" "write_contracts R operator ws (S1, t1) = Ok (S', t')"
    using Cons.prems by (auto simp: rbind_Ok_iff)
  then show ?case using Cons.IH write_cells_eth by metis
qed simp

lemma send_transfers_eth: "send_transfers R operator ts S = Ok S' \<Longrightarrow> eth S' = eth S"
  by (induction ts arbitrary: S) (auto simp: rbind_Ok_iff)

lemma apply_storage_eth: "apply_storage R operator storage S = Ok S' \<Longrightarrow> eth S' = eth S"
  by (auto simp: apply_storage_def rbind_Ok_iff dest!: write_contracts_eth send_transfers_eth)

text \<open>C31: what the executor read through its log at the end of a transaction is what the accounts hold when the log has been
  applied: every balance, and every nonce of an account that is not destroyed.\<close>

theorem applied_is_what_was_read:
  assumes "apply_state_change R operator (ex_actions x) S = Ok (Ready, S')"
  shows "(ex_balance (backend R S) a x = Ok v \<longrightarrow> balance_of S' a = v)
    \<and> (ex_nonce (backend R S) a x = Ok n \<longrightarrow> EvmSelfDestruct a \<notin> set (ex_actions x) \<longrightarrow> nonce_of S' a = n)"
proof -
  let ?acts = "rearrange_actions (ex_actions x)"
  obtain ops r S1 S2 S3 st where ops: "process_operations R operator ops S = Ok (r, S1)"
      and create: "create_missing R ?acts S1 = Ok S2" and run: "apply_actions R ?acts (S2, []) = Ok (S3, st)"
      and storage: "apply_storage R operator st S3 = Ok S'"
    using assms by (auto simp: apply_state_change_def Let_def rbind_Ok_iff split: if_splits)
  have "balance_of S2 = balance_of S" "nonce_of S2 = nonce_of S"
    using create_missing_state [OF create] process_operations_eth [OF ops]
    by (auto simp: balance_of_def nonce_of_def fun_eq_iff)
  moreover have "balance_of S' a = balance_of S3 a" "nonce_of S' a = nonce_of S3 a"
    using apply_storage_eth [OF storage] by (simp_all add: balance_of_def nonce_of_def)
  moreover have "ex_balance (backend R S) a x = Ok v \<Longrightarrow> balance_after a (ex_actions x) (balance_of S a) = Ok v"
    by (auto simp: ex_balance_def backend_def rbind_Ok_iff dest: ps_balance_Ok)
  moreover have "ex_nonce (backend R S) a x = Ok n \<Longrightarrow> nonce_after a (ex_actions x) (nonce_of S a) = Ok n"
    by (auto simp: ex_nonce_def backend_def rbind_Ok_iff dest: ps_nonce_Ok)
  moreover have "EvmSelfDestruct a \<in> set ?acts \<longleftrightarrow> EvmSelfDestruct a \<in> set (ex_actions x)"
    using rearrange_loop_kept [of "EvmSelfDestruct a" _ "ex_actions x"]
    by (auto simp: rearrange_actions_def case_prod_beta rearrange_loop_destructs)
  ultimately show ?thesis
    using apply_actions_balance [OF run, of a v] apply_actions_nonce [OF run, of a n]
    by (auto simp: rearrange_balance rearrange_nonce destroyed_iff)
qed

section \<open>The log applies\<close>

text \<open>The actions that only touch opened accounts\<close>

definition plain_on :: "program_storage \<Rightarrow> journal_action \<Rightarrow> bool" where
  "plain_on S act =
    (case act of
       NeonTransfer s t v \<Rightarrow> eth S s \<noteq> None \<and> eth S t \<noteq> None
     | NeonWithdraw s v \<Rightarrow> eth S s \<noteq> None
     | EvmIncrementNonce a \<Rightarrow> eth S a \<noteq> None
     | EvmSetStorage a i v \<Rightarrow> True
     | _ \<Rightarrow> False)"

lemma apply_one_total:
  assumes "plain_on S act" and "\<And>a. eth S a \<noteq> None \<Longrightarrow> \<exists>v. balance_after a [act] (balance_of S a) = Ok v"
    and "\<And>a. eth S a \<noteq> None \<Longrightarrow> \<exists>n. nonce_after a [act] (nonce_of S a) = Ok n"
  shows "\<exists>S' st'. apply_one R act (S, st) = Ok (S', st') \<and> dom (eth S') = dom (eth S)"
proof (cases act)
  case (NeonTransfer s t v)
  then obtain ds dt where d: "eth S s = Some ds" "eth S t = Some dt" using assms(1) by (auto simp: plain_on_def)
  show ?thesis
  proof (cases "s = t")
    case False
    obtain S1 where S1: "modify_ethereum s (\<lambda>d. d\<lparr>ed_balance := ed_balance d - v\<rparr>) S = Ok S1"
        "eth S1 = (eth S)(s \<mapsto> ds\<lparr>ed_balance := ed_balance ds - v\<rparr>)"
      using modify_ethereum_total [OF d(1)] by blast
    then have "eth S1 t = Some dt" using False d by simp
    then obtain S2 where S2: "modify_ethereum t (\<lambda>d. d\<lparr>ed_balance := ed_balance d + v\<rparr>) S1 = Ok S2"
        "eth S2 = (eth S1)(t \<mapsto> dt\<lparr>ed_balance := ed_balance dt + v\<rparr>)"
      using modify_ethereum_total by blast
    have "v \<le> balance_of S s" using assms(2) [of s] NeonTransfer False d
      by (auto simp: checked_sub_u256_def rbind_Ok_iff split: if_splits)
    then have "transfer_neon_tokens R s t v S = Ok S2"
      using False d S1(1) S2(1) ps_balance_loaded [of S s R] by (simp add: transfer_neon_tokens_def eth_None_iff)
    then show ?thesis using NeonTransfer S1(2) S2(2) d by (auto simp: apply_one_def)
  qed (use NeonTransfer in \<open>simp add: apply_one_def transfer_neon_tokens_def\<close>)
next
  case (NeonWithdraw s v)
  then obtain d where d: "eth S s = Some d" using assms(1) by (auto simp: plain_on_def)
  then obtain S1 where S1: "modify_ethereum s (\<lambda>d. d\<lparr>ed_balance := ed_balance d - v\<rparr>) S = Ok S1"
      "eth S1 = (eth S)(s \<mapsto> d\<lparr>ed_balance := ed_balance d - v\<rparr>)"
    using modify_ethereum_total [OF d] by blast
  have "v \<le> ed_balance d" using assms(2) [of s] NeonWithdraw d
    by (auto simp: checked_sub_u256_def rbind_Ok_iff balance_of_def split: if_splits)
  then have "withdraw_neon_tokens s v S = Ok S1" using d S1(1) by (auto simp: withdraw_neon_tokens_def eth_def)
  then show ?thesis using NeonWithdraw S1(2) d by (auto simp: apply_one_def)
next
  case (EvmIncrementNonce a)
  then obtain d where d: "eth S a = Some d" using assms(1) by (auto simp: plain_on_def)
  then obtain S1 where S1: "modify_ethereum a (\<lambda>d. d\<lparr>ed_trx_count := ed_trx_count d + 1\<rparr>) S = Ok S1"
      "eth S1 = (eth S)(a \<mapsto> d\<lparr>ed_trx_count := ed_trx_count d + 1\<rparr>)"
    using modify_ethereum_total [OF d] by blast
  have "ed_trx_count d \<noteq> - 1" using assms(3) [of a] EvmIncrementNonce d by (auto simp: nonce_of_def)
  then have "increment_nonce a S = Ok S1" using d S1(1) by (auto simp: increment_nonce_def eth_def)
  then show ?thesis using EvmIncrementNonce S1(2) d by (auto simp: apply_one_def)
qed (use assms(1) in \<open>auto simp: plain_on_def apply_one_def\<close>)

lemma plain_on_dom: "dom (eth S') = dom (eth S) \<Longrightarrow> plain_on S' act = plain_on S act"
  by (auto simp: plain_on_def domIff set_eq_iff split: journal_action.splits)

lemma apply_actions_total:
  assumes "list_all (plain_on S) acts" and "\<And>a. eth S a \<noteq> None \<Longrightarrow> \<exists>v. balance_after a acts (balance_of S a) = Ok v"
    and "\<And>a. eth S a \<noteq> None \<Longrightarrow> \<exists>n. nonce_after a acts (nonce_of S a) = Ok n"
  shows "\<exists>S' st'. apply_actions R acts (S, st) = Ok (S', st')"
  using assms
proof (induction acts arbitrary: S st)
  case (Cons act acts)
  note b = Cons.prems(2) [unfolded balance_after_Cons [of _ act acts]]
  note n = Cons.prems(3) [unfolded nonce_after_Cons [of _ act acts]]
  have step: "\<exists>v. balance_after a [act] (balance_of S a) = Ok v" "\<exists>v. nonce_after a [act] (nonce_of S a) = Ok v"
    if "eth S a \<noteq> None" for a
    using b [OF that] n [OF that] by (auto simp only: rbind_Ok_iff)
  obtain S1 st1 where one: "apply_one R act (S, st) = Ok (S1, st1)" and dom: "dom (eth S1) = dom (eth S)"
    using apply_one_total [where S = S and act = act and R = R and st = st, OF _ step] Cons.prems(1) by auto
  then have loaded: "eth S1 a \<noteq> None \<longleftrightarrow> eth S a \<noteq> None" for a by (auto simp: dom_def set_eq_iff)
  have kept: "act \<noteq> EvmSelfDestruct a" for a using Cons.prems(1) by (auto simp: plain_on_def)
  have "\<exists>v. balance_after a acts (balance_of S1 a) = Ok v" if "eth S1 a \<noteq> None" for a
    using b [of a] that [unfolded loaded] apply_one_balance [OF one, of a] by (auto simp only: rbind_Ok_iff)
  moreover have "\<exists>v. nonce_after a acts (nonce_of S1 a) = Ok v" if "eth S1 a \<noteq> None" for a
    using n [of a] that [unfolded loaded] apply_one_nonce [OF one _ kept [of a]] by (auto simp only: rbind_Ok_iff)
  moreover have "list_all (plain_on S1) acts" using Cons.prems(1) plain_on_dom [OF dom] by (simp add: list_all_iff)
  ultimately show ?case using Cons.IH [of S1 st1] one by auto
qed simp

section \<open>Paying for gas\<close>

definition operator_balance :: "ether_data account_data \<Rightarrow> program_storage \<Rightarrow> u256" where
  "operator_balance operator S =
    (case eth S (ed_address (ad_data operator)) of Some d \<Rightarrow> ed_balance d | None \<Rightarrow> ed_balance (ad_data operator))"

lemma gas_payment_eth:
  assumes "transfer_gas_payment R origin operator v S = Ok (operator', S')"
  shows "v \<le> balance_of S origin \<and> nonce_of S' = nonce_of S
    \<and> (if ed_address (ad_data operator) = origin then S' = S \<and> operator' = operator
       else unat (balance_of S' origin) + unat v = unat (balance_of S origin)
         \<and> operator_balance operator' S' = operator_balance operator S + v
         \<and> (\<forall>a. a \<noteq> origin \<longrightarrow> a \<noteq> ed_address (ad_data operator) \<longrightarrow> balance_of S' a = balance_of S a))"
proof -
  let ?op = "ed_address (ad_data operator)"
  obtain b where b: "ps_balance R S origin = Ok b" "\<not> b < v"
    using assms by (auto simp: transfer_gas_payment_def rbind_Ok_iff split: if_splits)
  then have enough: "v \<le> balance_of S origin" using ps_balance_Ok [OF b(1)] by simp
  have sub: "unat (x - v) + unat v = unat x" if "v \<le> x" for x :: u256 using that by (simp add: unat_sub_if_size word_le_nat_alt)
  consider (self) "?op = origin" | (loaded) d where "?op \<noteq> origin" "eth S ?op = Some d" | (own) "?op \<noteq> origin" "eth S ?op = None"
    by (cases "eth S ?op") auto
  then show ?thesis
  proof cases
    case self
    then show ?thesis using assms b enough by (simp add: transfer_gas_payment_def)
  next
    case loaded
    then have "transfer_neon_tokens R origin ?op v S = Ok S'" "operator' = operator"
      using assms b by (auto simp: transfer_gas_payment_def eth_None_iff rbind_Ok_iff)
    with transfer_eth [OF this(1)] loaded enough sub show ?thesis
      by (auto simp: balance_of_def nonce_of_def operator_balance_def fun_eq_iff)
  next
    case own
    then have op': "operator' = account_modify (\<lambda>d. d\<lparr>ed_balance := ed_balance d + v\<rparr>) operator"
        and m: "modify_ethereum origin (\<lambda>d. d\<lparr>ed_balance := ed_balance d - v\<rparr>) S = Ok S'"
      using assms b by (auto simp: transfer_gas_payment_def eth_None_iff rbind_Ok_iff)
    from modify_ethereum_Ok [OF m] own enough sub show ?thesis
      by (auto simp: balance_of_def nonce_of_def operator_balance_def fun_eq_iff op' account_modify_def)
  qed
qed

text \<open>C33: paying for gas takes exactly its price from the sender, who has it, gives it to the operator, and leaves every
  other balance; the nonces stay.  An operator who is the sender pays nothing.\<close>

theorem gas_payment_moves_price:
  assumes "transfer_gas_payment R origin operator v S = Ok (operator', S')"
  shows "v \<le> balance_of S origin \<and> nonce_of S' = nonce_of S
    \<and> (if ed_address (ad_data operator) = origin then S' = S \<and> operator' = operator
       else unat (balance_of S' origin) + unat v = unat (balance_of S origin)
         \<and> operator_balance operator' S' = operator_balance operator S + v
         \<and> (\<forall>a. a \<noteq> origin \<longrightarrow> a \<noteq> ed_address (ad_data operator) \<longrightarrow> balance_of S' a = balance_of S a))"
  using assms by (rule gas_payment_eth)

section \<open>Contracts without code\<close>

definition codeless :: "program_storage \<Rightarrow> address \<Rightarrow> bool" where
  "codeless S a \<longleftrightarrow> (case eth S a of Some d \<Rightarrow> ed_code_size d = 0 | None \<Rightarrow> True)"

lemma deploy_empty_panics: "eth S a \<noteq> None \<Longrightarrow> deploy_contract a [] S = Panic"
proof -
  assume "eth S a \<noteq> None"
  then obtain d where d: "eth S a = Some d" by blast
  then obtain h where h: "map_of (ps_ethereum S) a = Some h" by (auto simp: eth_def)
  obtain S1 where "modify_ethereum a (\<lambda>d. d\<lparr>ed_code_size := of_nat (length ([] :: bytes))\<rparr>) S = Ok S1"
    using modify_ethereum_total [OF d] by blast
  then show ?thesis
    using h by (auto simp: deploy_contract_def rassert_def handle_info_def rbind_def unwrap_def split: option.split)
qed

lemma deploy_empty_fails: "deploy_contract a [] S \<noteq> Ok S'"
  using deploy_empty_panics [of S a] deploy_eth [of a "[]" S S'] by auto

lemma process_operations_codeless: "process_operations R operator ops S = Ok (r, S') \<Longrightarrow> codeless S' a = codeless S a"
  by (simp add: codeless_def process_operations_eth)

lemma create_missing_codeless: "create_missing R acts S = Ok S' \<Longrightarrow> codeless S a \<Longrightarrow> codeless S' a"
proof (induction acts arbitrary: S)
  case (Cons act acts)
  show ?case
  proof (cases "created_by act")
    case (Some b)
    then obtain S1 where one: "create_account_if_not_exists R b S = Ok S1" and rest: "create_missing R acts S1 = Ok S'"
      using Cons.prems by (auto simp: rbind_Ok_iff)
    have "codeless S1 a"
      using create_account_eth [OF one] Cons.prems(2) by (auto simp: codeless_def default_ether_data_def)
    then show ?thesis using Cons.IH [OF rest] by simp
  qed (use Cons in auto)
qed simp

lemma create_missing_dom:
  "create_missing R acts S = Ok S' \<Longrightarrow> dom (eth S) \<union> set (List.map_filter created_by acts) \<subseteq> dom (eth S')"
proof (induction acts arbitrary: S)
  case (Cons act acts)
  show ?case
  proof (cases "created_by act")
    case (Some b)
    then obtain S1 where one: "create_account_if_not_exists R b S = Ok S1" and rest: "create_missing R acts S1 = Ok S'"
      using Cons.prems by (auto simp: rbind_Ok_iff)
    have "insert b (dom (eth S)) \<subseteq> dom (eth S1)"
      using create_account_eth [OF one] by auto
    then show ?thesis using Cons.IH [OF rest] Some by (auto simp: List.map_filter_simps)
  qed (use Cons in \<open>auto simp: List.map_filter_simps\<close>)
qed (simp add: List.map_filter_simps)

lemma delete_dom: "fst ` set (AList.delete k al) = fst ` set al - {k}"
  by (auto simp: AList.delete_eq)

lemma add_write_dom: "fst ` set (add_write a i v st) = insert a (fst ` set st)"
  by (simp add: add_write_def AList.dom_update)

text \<open>One action: what it keeps of the accounts and of the collected writes\<close>

lemma apply_one_codes:
  assumes "apply_one R act (S, st) = Ok (S', st')"
  shows "dom (eth S) \<subseteq> dom (eth S')"
    and "codeless S a \<Longrightarrow> \<forall>code. act \<noteq> EvmSetCode a code \<Longrightarrow> codeless S' a"
    and "a \<in> fst ` set st \<Longrightarrow> act \<noteq> EvmSelfDestruct a \<Longrightarrow> a \<in> fst ` set st'"
    and "act = EvmSetStorage a i v \<Longrightarrow> a \<in> fst ` set st'"
    and "\<not> (act = EvmSetCode a code \<and> buf_bytes code = [])"
proof -
  note act = assms [unfolded apply_one_def]
  show "dom (eth S) \<subseteq> dom (eth S')"
    using act by (cases act) (auto simp: rbind_Ok_iff dest!: transfer_eth withdraw_eth increment_eth delete_eth deploy_eth external_eth
      split: if_splits)
  show "codeless S a \<Longrightarrow> \<forall>code. act \<noteq> EvmSetCode a code \<Longrightarrow> codeless S' a"
    using act by (cases act) (auto simp: rbind_Ok_iff codeless_def dest!: transfer_eth withdraw_eth increment_eth delete_eth deploy_eth
      external_eth split: if_splits)
  have "st' = st \<or> (\<exists>b i v. st' = add_write b i v st) \<or> (\<exists>b. act = EvmSelfDestruct b \<and> st' = AList.delete b st)"
    using act by (cases act) (auto simp: rbind_Ok_iff)
  then show "a \<in> fst ` set st \<Longrightarrow> act \<noteq> EvmSelfDestruct a \<Longrightarrow> a \<in> fst ` set st'"
    by (elim disjE exE conjE) (simp_all add: add_write_dom delete_dom)
  show "act = EvmSetStorage a i v \<Longrightarrow> a \<in> fst ` set st'"
    using act add_write_dom [of a i v st] by auto
  show "\<not> (act = EvmSetCode a code \<and> buf_bytes code = [])"
    using act by (auto simp: rbind_Ok_iff deploy_empty_fails)
qed

lemma apply_actions_codes:
  "apply_actions R acts (S, st) = Ok (S', st') \<Longrightarrow> dom (eth S) \<subseteq> dom (eth S')
     \<and> (codeless S a \<longrightarrow> (\<forall>code. EvmSetCode a code \<notin> set acts) \<longrightarrow> codeless S' a)
     \<and> (a \<in> fst ` set st \<or> (\<exists>i v. EvmSetStorage a i v \<in> set acts) \<longrightarrow> EvmSelfDestruct a \<notin> set acts \<longrightarrow> a \<in> fst ` set st')
     \<and> (\<forall>code. EvmSetCode a code \<in> set acts \<longrightarrow> buf_bytes code \<noteq> [])"
proof (induction acts arbitrary: S st)
  case (Cons act acts)
  obtain S1 st1 where one: "apply_one R act (S, st) = Ok (S1, st1)" and rest: "apply_actions R acts (S1, st1) = Ok (S', st')"
    using Cons.prems by (auto simp: rbind_Ok_iff)
  note step = apply_one_codes [OF one] and later = Cons.IH [OF rest]
  have "dom (eth S) \<subseteq> dom (eth S')" using step(1) later by blast
  moreover have "codeless S a \<longrightarrow> (\<forall>code. EvmSetCode a code \<notin> set (act # acts)) \<longrightarrow> codeless S' a"
    using step(2) [of a] later by (metis list.set_intros)
  moreover have "a \<in> fst ` set st \<or> (\<exists>i v. EvmSetStorage a i v \<in> set (act # acts)) \<longrightarrow> EvmSelfDestruct a \<notin> set (act # acts)
      \<longrightarrow> a \<in> fst ` set st'"
    using step(3,4) [of a] later by auto
  moreover have "\<forall>code. EvmSetCode a code \<in> set (act # acts) \<longrightarrow> buf_bytes code \<noteq> []"
    using step(5) [of a] later by auto
  ultimately show ?case by blast
qed simp

lemma write_contracts_codes:
  "write_contracts R operator ws (S, t) = Ok (S', t') \<Longrightarrow> a \<in> fst ` set ws \<Longrightarrow> \<not> codeless S a"
proof (induction ws arbitrary: S t)
  case (Cons w ws)
  obtain b v where w: "w = (b, v)" by (cases w)
  then obtain c S1 t1 where c: "map_of (ps_ethereum S) b = Some c" "is_contract (hn_data c)"
      and one: "write_cells R operator c v (S, t) = Ok (S1, t1)" and rest: "write_contracts R operator ws (S1, t1) = Ok (S', t')"
    using Cons.prems(1) by (auto simp: rbind_Ok_iff unwrap_def split: option.splits)
  have "\<not> codeless S b" using c by (auto simp: codeless_def eth_def is_contract_def code_size_def)
  moreover have "codeless S1 a = codeless S a" by (simp add: codeless_def write_cells_eth [OF one])
  ultimately show ?case using Cons.IH [OF rest] Cons.prems(2) w by auto
qed simp

lemma write_codeless_panics: "codeless S a \<Longrightarrow> write_contracts R operator ((a, ws) # rest) (S, t) = Panic"
  by (auto simp: codeless_def eth_def is_contract_def code_size_def rassert_def unwrap_def split: option.splits)

lemma apply_actions_append: "apply_actions R (xs @ ys) = (\<lambda>s. rbind (apply_actions R xs s) (apply_actions R ys))"
proof (induction xs)
  case (Cons act acts)
  show ?case by (simp add: Cons.IH rbind_assoc fun_eq_iff)
qed (simp add: fun_eq_iff)

lemma write_contracts_append:
  "write_contracts R operator (xs @ ys) = (\<lambda>s. rbind (write_contracts R operator xs s) (write_contracts R operator ys))"
proof (induction xs)
  case (Cons x xs)
  show ?case by (cases x) (simp add: Cons.IH rbind_assoc fun_eq_iff)
qed (simp add: fun_eq_iff)

lemma set_rearranged: "EvmSelfDestruct a \<notin> set acts \<Longrightarrow>
    (EvmSelfDestruct a \<in> set (rearrange_actions acts)) = False
    \<and> (EvmSetCode a code \<in> set (rearrange_actions acts)) = (EvmSetCode a code \<in> set acts)
    \<and> (EvmSetStorage a i v \<in> set (rearrange_actions acts)) = (EvmSetStorage a i v \<in> set acts)"
  by (auto simp: rearrange_actions_def rearrange_loop_filters is_kept_def is_destruct_def destroyed_iff)

text \<open>C34: a log that deploys an empty code, as the constructor of a contract may return it, or that writes to the storage of an
  account that has no code and gets none, as a constructor that stops leaves it, is never applied, unless it destroys the
  account.  It fails with a panic, not with an error of the program, whenever what comes before succeeds: in
  \<open>deploy_contract\<close> when the accounts are there and the actions before the deployment are applied, and in \<open>apply_storage\<close>
  when all the actions are applied and the storage of the contracts before is written.\<close>

theorem empty_contract_never_applies:
  assumes "EvmSelfDestruct a \<notin> set acts"
    and "(\<exists>code. EvmSetCode a code \<in> set acts \<and> buf_bytes code = [])
      \<or> (\<exists>i v. EvmSetStorage a i v \<in> set acts) \<and> codeless S a \<and> (\<forall>code. EvmSetCode a code \<notin> set acts)"
  shows "(\<forall>S'. apply_state_change R operator acts S \<noteq> Ok (Ready, S'))
    \<and> (\<forall>ops S1 S2. calc_accounts_operations R S (rearrange_actions acts) = Ok ops \<longrightarrow> process_operations R operator ops S = Ok (Ready, S1)
       \<longrightarrow> create_missing R (rearrange_actions acts) S1 = Ok S2 \<longrightarrow>
         (\<forall>pre code post S3 st. rearrange_actions acts = pre @ EvmSetCode a code # post \<longrightarrow> buf_bytes code = []
            \<longrightarrow> apply_actions R pre (S2, []) = Ok (S3, st) \<longrightarrow> apply_state_change R operator acts S = Panic)
       \<and> (\<forall>S3 pre ws post S4 ts. apply_actions R (rearrange_actions acts) (S2, []) = Ok (S3, pre @ (a, ws) # post)
            \<longrightarrow> write_contracts R operator pre (S3, []) = Ok (S4, ts) \<longrightarrow> apply_state_change R operator acts S = Panic))"
proof -
  let ?acts = "rearrange_actions acts"
  have writes_codeless: "codeless S3 a \<and> a \<in> fst ` set st"
    if "process_operations R operator ops S = Ok (r, S1)" "create_missing R ?acts S1 = Ok S2"
      and run: "apply_actions R ?acts (S2, []) = Ok (S3, st)" for ops r S1 S2 S3 st
    using apply_actions_codes [OF run, of a] assms create_missing_codeless [OF that(2), of a] process_operations_codeless [OF that(1), of a]
      set_rearranged [OF assms(1)] by blast
  have "apply_state_change R operator acts S \<noteq> Ok (Ready, S')" for S'
  proof
    assume "apply_state_change R operator acts S = Ok (Ready, S')"
    then obtain ops r S1 S2 S3 st S4 ts where ran: "process_operations R operator ops S = Ok (r, S1)" "create_missing R ?acts S1 = Ok S2"
        "apply_actions R ?acts (S2, []) = Ok (S3, st)" "write_contracts R operator st (S3, []) = Ok (S4, ts)"
      by (auto simp: apply_state_change_def apply_storage_def Let_def rbind_Ok_iff split: if_splits)
    show False using writes_codeless [OF ran(1-3)] write_contracts_codes [OF ran(4)] by blast
  qed
  moreover have "apply_state_change R operator acts S = Panic"
    if "calc_accounts_operations R S ?acts = Ok ops" "process_operations R operator ops S = Ok (Ready, S1)"
      and created: "create_missing R ?acts S1 = Ok S2" and split: "?acts = pre @ EvmSetCode a code # post" "buf_bytes code = []"
      and pre: "apply_actions R pre (S2, []) = Ok (S3, st)" for ops S1 S2 pre code post S3 st
  proof -
    have "a \<in> dom (eth S2)"
      using create_missing_dom [OF created] unfolding split by (auto simp: List.map_filter_def created_by_def)
    moreover have "dom (eth S2) \<subseteq> dom (eth S3)" using apply_actions_codes [OF pre] by blast
    ultimately have "a \<in> dom (eth S3)" by blast
    then have "apply_one R (EvmSetCode a code) (S3, st) = Panic"
      using deploy_empty_panics [of S3 a] split(2) by (auto simp: apply_one_def)
    then have "apply_actions R ?acts (S2, []) = Panic" unfolding split by (simp add: apply_actions_append pre)
    then show ?thesis using that by (simp add: apply_state_change_def Let_def)
  qed
  moreover have "apply_state_change R operator acts S = Panic"
    if "calc_accounts_operations R S ?acts = Ok ops" "process_operations R operator ops S = Ok (Ready, S1)"
      "create_missing R ?acts S1 = Ok S2" and run: "apply_actions R ?acts (S2, []) = Ok (S3, pre @ (a, ws) # post)"
      and pre: "write_contracts R operator pre (S3, []) = Ok (S4, ts)" for ops S1 S2 S3 pre ws post S4 ts
  proof -
    have "codeless S4 a" using writes_codeless [OF that(2,3) run] write_contracts_eth [OF pre] by (simp add: codeless_def)
    then have "apply_storage R operator (pre @ (a, ws) # post) S3 = Panic"
      by (simp add: apply_storage_def write_contracts_append pre write_codeless_panics del: write_contracts.simps)
    then show ?thesis using that by (simp add: apply_state_change_def Let_def)
  qed
  ultimately show ?thesis by blast
qed

section \<open>A small state\<close>

definition demo_runtime :: runtime where
  "demo_runtime = \<lparr>rt_solana = demo_solana\<lparr>sol_find_program_address := (\<lambda>seeds p. (from_be (concat seeds), 255))\<rparr>,
     rt_minimum_balance = (\<lambda>n. 10), rt_create_with_seed = (\<lambda>base seed p. Ok (from_be seed)), rt_keccak = (\<lambda>bs. 0),
     rt_realloc = (\<lambda>i n. Ok (i\<lparr>oa_data := take n (oa_data i) @ replicate (n - length (oa_data i)) 0\<rparr>)),
     rt_system = (\<lambda>c seeds as. Ok as), rt_invoke = (\<lambda>i seeds as. Ok as), rt_token_mint = 7, rt_chain_id = 245022934,
     rt_slot_hashes_id = 99\<rparr>"

definition demo_header :: "address \<Rightarrow> u64 \<Rightarrow> u256 \<Rightarrow> ether_data" where
  "demo_header a nonce balance = \<lparr>ed_address = a, ed_bump_seed = 255, ed_trx_count = nonce, ed_balance = balance,
     ed_generation = 0, ed_code_size = 0, ed_rw_blocked = False\<rparr>"

definition demo_ps :: program_storage where
  "demo_ps = \<lparr>ps_program_id = 8, ps_operator = 9, ps_slot = 0, ps_timestamp = 0,
     ps_solana = [21 \<mapsto> (demo_account 21 50 8)\<lparr>oa_data := TAG_ACCOUNT_V3 # ether_pack (demo_header 0x1001 4 100)\<rparr>,
       22 \<mapsto> (demo_account 22 50 8)\<lparr>oa_data := TAG_ACCOUNT_V3 # ether_pack (demo_header 0x1002 1 7)\<rparr>],
     ps_ethereum = [(0x1001, \<lparr>hn_dirty = False, hn_data = demo_header 0x1001 4 100, hn_key = 21\<rparr>),
       (0x1002, \<lparr>hn_dirty = False, hn_data = demo_header 0x1002 1 7, hn_key = 22\<rparr>)],
     ps_cells = []\<rparr>"

definition demo_log :: executor where
  "demo_log = (executor_new (backend demo_runtime demo_ps))
     \<lparr>ex_actions := [EvmIncrementNonce 0x1001, NeonTransfer 0x1001 0x1002 5]\<rparr>"

lemma demo_eth: "eth demo_ps = [0x1001 \<mapsto> demo_header 0x1001 4 100, 0x1002 \<mapsto> demo_header 0x1002 1 7]"
  by (auto simp: eth_def demo_ps_def fun_eq_iff)

lemma demo_reads:
  "ex_balance (backend demo_runtime demo_ps) 0x1001 demo_log = Ok 95"
  "ex_balance (backend demo_runtime demo_ps) 0x1002 demo_log = Ok 12"
  "ex_nonce (backend demo_runtime demo_ps) 0x1001 demo_log = Ok 5"
  "ex_nonce (backend demo_runtime demo_ps) 0x1002 demo_log = Ok 1"
  by (simp_all add: ex_balance_def ex_nonce_def backend_def demo_log_def ps_balance_def ps_nonce_def map_account_def
      ethereum_account_def demo_ps_def demo_header_def checked_sub_u256_def checked_add_u256_def)

theorem rearrange_keeps_meaning_witness:
  "(let acts = [EvmIncrementNonce 1, EvmSelfDestruct 1, NeonTransfer 1 2 5, EvmIncrementNonce 2, EvmSetStorage 2 0 7] in
     rearrange_actions acts = [NeonTransfer 1 2 5, EvmIncrementNonce 2, EvmSetStorage 2 0 7, EvmSelfDestruct 1]
     \<and> balance_after 1 (rearrange_actions acts) 9 = Ok 4 \<and> nonce_after 2 (rearrange_actions acts) 3 = Ok 4
     \<and> find_storage 2 0 (rev (rearrange_actions acts)) = Some 7)"
  using rearrange_keeps_meaning [of "[EvmIncrementNonce 1, EvmSelfDestruct 1, NeonTransfer 1 2 5, EvmIncrementNonce 2, EvmSetStorage 2 0 7]" 1 9]
    rearrange_keeps_meaning [of "[EvmIncrementNonce 1, EvmSelfDestruct 1, NeonTransfer 1 2 5, EvmIncrementNonce 2, EvmSetStorage 2 0 7]" 2 9 3 0]
  by (auto simp: destroyed_iff checked_sub_u256_def Let_def is_kept_def is_destruct_def)

theorem applied_is_what_was_read_witness:
  "(case apply_state_change demo_runtime 9 [EvmIncrementNonce 0x1001, NeonTransfer 0x1001 0x1002 5] demo_ps of
     Ok (Ready, S') \<Rightarrow> balance_of S' 0x1001 = 95 \<and> nonce_of S' 0x1001 = 5 | _ \<Rightarrow> False)"
proof -
  have acts: "ex_actions demo_log = [EvmIncrementNonce 0x1001, NeonTransfer 0x1001 0x1002 5]" by (simp add: demo_log_def)
  have rearranged: "rearrange_actions (ex_actions demo_log) = ex_actions demo_log"
    by (simp add: acts rearrange_actions_def accounts_to_destroy_def List.map_filter_def)
  have ops: "calc_accounts_operations demo_runtime demo_ps (ex_actions demo_log) = Ok []"
    by (simp add: acts calc_accounts_operations_def needed_by_def ps_solana_account_space_def solana_address_def demo_ps_def
        demo_account_def demo_runtime_def demo_solana_def space_needed_def ether_size ether_pack_def)
  have create: "create_missing demo_runtime (ex_actions demo_log) demo_ps = Ok demo_ps"
    by (simp add: acts created_by_def create_account_if_not_exists_def eth_None_iff demo_eth)
  obtain S' st where run: "apply_actions demo_runtime (ex_actions demo_log) (demo_ps, []) = Ok (S', st)"
      and st: "st = []"
    by (simp add: acts apply_one_def increment_nonce_def transfer_neon_tokens_def modify_ethereum_def handle_modify_def
        demo_ps_def demo_header_def ps_balance_def map_account_def ethereum_account_def)
  have whole: "apply_state_change demo_runtime 9 (ex_actions demo_log) demo_ps = Ok (Ready, S')"
    by (simp add: apply_state_change_def rearranged ops create run st apply_storage_def Let_def)
  show ?thesis
    using applied_is_what_was_read [OF whole, of "0x1001" 95 5] whole demo_reads by (simp add: acts)
qed

theorem gas_payment_moves_price_witness:
  "(case transfer_gas_payment demo_runtime 0x1001 \<lparr>ad_dirty = False, ad_data = demo_header 0x1002 1 7, ad_info = demo_account 22 50 8\<rparr>
      30 demo_ps of
     Ok (operator, S') \<Rightarrow> unat (balance_of S' 0x1001) = 70 | _ \<Rightarrow> False)"
proof -
  let ?op = "\<lparr>ad_dirty = False, ad_data = demo_header 0x1002 1 7, ad_info = demo_account 22 50 8\<rparr>"
  obtain op' S' where run: "transfer_gas_payment demo_runtime 0x1001 ?op 30 demo_ps = Ok (op', S')"
    by (simp add: transfer_gas_payment_def transfer_neon_tokens_def modify_ethereum_def handle_modify_def
        demo_ps_def demo_header_def ps_balance_def map_account_def ethereum_account_def)
  have "unat (balance_of demo_ps 0x1001) = 100" by (simp add: balance_of_def demo_eth demo_header_def)
  with gas_payment_moves_price [OF run] show ?thesis by (simp add: run) (simp add: demo_header_def)
qed

theorem empty_contract_never_applies_witness:
  "apply_state_change demo_runtime 9 [EvmIncrementNonce 0x1001, EvmSetCode 0x1002 buf_empty] demo_ps = Panic
   \<and> apply_state_change demo_runtime 9 [EvmSetStorage 0x1002 0 7, EvmIncrementNonce 0x1001] demo_ps = Panic"
proof
  let ?deploy = "[EvmIncrementNonce 0x1001, EvmSetCode 0x1002 buf_empty]"
  let ?store = "[EvmSetStorage 0x1002 0 7, EvmIncrementNonce 0x1001]"
  have same: "rearrange_actions ?deploy = ?deploy" "rearrange_actions ?store = ?store"
    by (simp_all add: rearrange_actions_def accounts_to_destroy_def List.map_filter_def)
  have ops: "calc_accounts_operations demo_runtime demo_ps ?deploy = Ok []" "calc_accounts_operations demo_runtime demo_ps ?store = Ok []"
    by (simp_all add: calc_accounts_operations_def needed_by_def ps_solana_account_space_def solana_address_def demo_ps_def
        demo_account_def demo_runtime_def demo_solana_def space_needed_def ether_size ether_pack_def buf_len_def)
  have create: "create_missing demo_runtime ?deploy demo_ps = Ok demo_ps" "create_missing demo_runtime ?store demo_ps = Ok demo_ps"
    by (simp_all add: created_by_def create_account_if_not_exists_def eth_None_iff demo_eth)
  obtain S1 st where pre: "apply_actions demo_runtime [EvmIncrementNonce 0x1001] (demo_ps, []) = Ok (S1, st)"
    by (simp add: apply_one_def increment_nonce_def modify_ethereum_def demo_ps_def demo_header_def)
  have empty: "buf_bytes buf_empty = []" by simp
  have run1: "process_operations demo_runtime 9 [] demo_ps = Ok (Ready, demo_ps)" by simp
  have cond1: "EvmSelfDestruct 0x1002 \<notin> set ?deploy" "(\<exists>code. EvmSetCode 0x1002 code \<in> set ?deploy \<and> buf_bytes code = [])
      \<or> (\<exists>i v. EvmSetStorage 0x1002 i v \<in> set ?deploy) \<and> codeless demo_ps 0x1002 \<and> (\<forall>code. EvmSetCode 0x1002 code \<notin> set ?deploy)"
    by auto
  note late1 = conjunct2 [OF empty_contract_never_applies [OF cond1], rule_format, unfolded same, OF ops(1) run1 create(1)]
  show "apply_state_change demo_runtime 9 ?deploy demo_ps = Panic"
    by (rule conjunct1 [OF late1, rule_format, of "[EvmIncrementNonce 0x1001]", OF _ empty pre]) simp
  have cond2: "EvmSelfDestruct 0x1002 \<notin> set ?store" "(\<exists>code. EvmSetCode 0x1002 code \<in> set ?store \<and> buf_bytes code = [])
      \<or> (\<exists>i v. EvmSetStorage 0x1002 i v \<in> set ?store) \<and> codeless demo_ps 0x1002 \<and> (\<forall>code. EvmSetCode 0x1002 code \<notin> set ?store)"
    by (auto simp: codeless_def demo_eth demo_header_def)
  note late2 = conjunct2 [OF empty_contract_never_applies [OF cond2], rule_format, unfolded same, OF ops(2) run1 create(2)]
  obtain S2 where run: "apply_actions demo_runtime ?store (demo_ps, []) = Ok (S2, [] @ (0x1002, [(0, 7)]) # [])"
    by (simp add: apply_one_def increment_nonce_def modify_ethereum_def demo_ps_def demo_header_def add_write_def)
  show "apply_state_change demo_runtime 9 ?store demo_ps = Panic"
    by (rule conjunct2 [OF late2, rule_format, OF run]) simp
qed

end
