(* ===== verification/Transaction_Rlp_Laws.thy ===== *)
theory Transaction_Rlp_Laws
  imports Rlp_Reader
begin

text \<open>
  What reading a transaction promises: the encoding of a transaction is read back as that transaction, with the hashes that
  Ethereum defines for it.  The crate \<open>rlp\<close> enters through what it documents of encoded items (\<open>rlp_documented\<close>).
\<close>

section \<open>Items are found\<close>

lemma bytes_laws:
  assumes "rlp_documented K" and "length b < usize_bound"
  shows "rl_is_data K (rlp_encode (RlpBytes b))" and "rl_is_empty K (rlp_encode (RlpBytes b)) \<longleftrightarrow> b = []"
    and "rl_data K (rlp_encode (RlpBytes b)) = Inr b" and "rl_value K (rlp_encode (RlpBytes b)) = Inr b"
  using assms by (simp_all add: rlp_documented_def documented_bytes_def Let_def)

lemma list_laws:
  assumes "rlp_documented K" and "length (rlp_encode (RlpList ts)) < usize_bound"
  shows "check_rlp_len K (rlp_encode (RlpList ts)) = Ok ()"
    and "i < length ts \<Longrightarrow> rlp_at K (rlp_encode (RlpList ts)) i = Ok (rlp_encode (ts ! i))"
    and "i < length ts \<Longrightarrow> rl_at_with_offset K (rlp_encode (RlpList ts)) i
      = Inr (rlp_encode (ts ! i), header_size (length (rlp_concat ts)) + length (rlp_concat (take i ts)))"
    and "i = length ts \<Longrightarrow> \<not> rlp_has K (rlp_encode (RlpList ts)) i"
    and "rl_iter K (rlp_encode (RlpList ts)) = map rlp_encode ts"
    and "rl_payload_info K (rlp_encode (RlpList ts)) = Inr (header_size (length (rlp_concat ts)), length (rlp_concat ts))"
    and "rl_is_list K (rlp_encode (RlpList ts))"
proof -
  have n: "length (rlp_concat ts) < usize_bound" using assms(2) by (simp add: length_encode_list)
  then have laws: "documented_list K ts" using assms(1) by (simp add: rlp_documented_def)
  then show "i < length ts \<Longrightarrow> rl_at_with_offset K (rlp_encode (RlpList ts)) i
      = Inr (rlp_encode (ts ! i), header_size (length (rlp_concat ts)) + length (rlp_concat (take i ts)))"
    "rl_iter K (rlp_encode (RlpList ts)) = map rlp_encode ts"
    "rl_payload_info K (rlp_encode (RlpList ts)) = Inr (header_size (length (rlp_concat ts)), length (rlp_concat ts))"
    by (simp_all add: documented_list_def Let_def)
  then show "check_rlp_len K (rlp_encode (RlpList ts)) = Ok ()"
    "i < length ts \<Longrightarrow> rlp_at K (rlp_encode (RlpList ts)) i = Ok (rlp_encode (ts ! i))"
    using assms(2) by (simp_all add: check_rlp_len_def rlp_at_def length_encode_list)
  show "i = length ts \<Longrightarrow> \<not> rlp_has K (rlp_encode (RlpList ts)) i"
    using laws by (auto simp: documented_list_def Let_def rlp_has_def)
  have "unat (0xC0 :: u8) \<le> unat (of_nat (prefix_byte 192 (length (rlp_concat ts))) :: u8)"
    using length_prefix_byte(2) [OF n, of 192] by (simp add: prefix_byte_def)
  then have "(0xC0 :: u8) \<le> of_nat (prefix_byte 192 (length (rlp_concat ts)))" by (simp only: word_le_nat_alt)
  then show "rl_is_list K (rlp_encode (RlpList ts))"
    unfolding encode_list_byte [OF n] using assms(1) by (simp only: rlp_documented_def)
qed

lemma length_be_min_word: "length (be_min (unat (v :: u256))) \<le> 32"
  using unat_less_2p [of v] by (intro be_min_length) simp

section \<open>Fields are read back\<close>

lemma decode_uint:
  assumes "rlp_documented K"
  shows "decode_u256 K (rlp_encode (rlp_uint (unat v))) = Ok v"
proof -
  have "rl_value K (rlp_encode (rlp_uint (unat v))) = Inr (be_min (unat v))"
    unfolding rlp_uint_def using length_be_min_word [of v] by (intro bytes_laws [OF assms]) simp
  moreover have "\<not> (be_min (unat v) \<noteq> [] \<and> hd (be_min (unat v)) = 0)" using be_min_hd be_min_positive by blast
  moreover have "from_be (replicate (32 - length (be_min (unat v))) 0 @ be_min (unat v)) = v"
    by (simp add: from_be_def nat_of_le_append_zeros nat_of_le_be_min)
  ultimately show ?thesis using length_be_min_word [of v] by (simp add: decode_u256_def)
qed

lemma decode_address_encoded:
  assumes "rlp_documented K"
  shows "decode_address K (rlp_encode (RlpBytes (be_bytes 20 a))) = Ok a"
  by (simp add: decode_address_def bytes_laws [OF assms] codec)

lemma decode_key_encoded:
  assumes "rlp_documented K"
  shows "decode_storage_key K (rlp_encode (RlpBytes (be_bytes 32 k))) = Ok k"
  by (simp add: decode_storage_key_def bytes_laws [OF assms] codec)

definition target_item :: "address option \<Rightarrow> rlp_item" where
  "target_item target = RlpBytes (case target of None \<Rightarrow> [] | Some a \<Rightarrow> be_bytes 20 a)"

lemma decode_target_encoded:
  assumes "rlp_documented K"
  shows "decode_target K (rlp_encode (target_item target)) = Ok target"
proof (cases target)
  case (Some a)
  have "be_bytes 20 a \<noteq> []" by (metis length_be_bytes list.size(3) zero_neq_numeral)
  then show ?thesis
    by (simp add: Some decode_target_def target_item_def bytes_laws [OF assms] decode_address_encoded [OF assms])
qed (simp add: decode_target_def target_item_def bytes_laws [OF assms])

lemma decode_data: "rlp_documented K \<Longrightarrow> length b < usize_bound \<Longrightarrow> rl (rl_data K (rlp_encode (RlpBytes b))) = Ok b"
  by (simp add: bytes_laws)

lemma decode_small:
  assumes "rlp_documented K"
  shows "rl (rl_u64 K (rlp_encode (rlp_uint (unat n)))) = Ok n" and "rl (rl_u8 K (rlp_encode (rlp_uint (unat k)))) = Ok k"
  using assms by (simp_all add: rlp_documented_def)

text \<open>An item is shorter than the list that it is in.\<close>

lemma length_item: "t \<in> set ts \<Longrightarrow> length (rlp_encode t) \<le> length (rlp_encode (RlpList ts))"
proof -
  have "t \<in> set ts \<Longrightarrow> length (rlp_encode t) \<le> length (rlp_concat ts)" by (induction ts) auto
  then show "t \<in> set ts \<Longrightarrow> ?thesis" by (simp add: length_encode_list)
qed

lemma collect_encoded: "(\<And>x. x \<in> set xs \<Longrightarrow> f (h x) = Ok x) \<Longrightarrow> collect f (map h xs) = Ok xs"
  by (induction xs) simp_all

lemma length_bytes_item: "length b \<le> length (rlp_encode (RlpBytes b))"
  by (simp add: rlp_encode.simps)

definition entry_item :: "address \<times> bytes32 list \<Rightarrow> rlp_item" where
  "entry_item entry = RlpList [RlpBytes (be_bytes 20 (fst entry)), RlpList (map (\<lambda>k. RlpBytes (be_bytes 32 k)) (snd entry))]"

lemma decode_entry_encoded:
  assumes "rlp_documented K" and "length (rlp_encode (entry_item entry)) < usize_bound"
  shows "decode_entry K (rlp_encode (entry_item entry)) = Ok entry"
proof -
  let ?keys = "map (\<lambda>k. RlpBytes (be_bytes 32 k)) (snd entry)"
  have "length (rlp_encode (RlpList ?keys)) \<le> length (rlp_encode (entry_item entry))"
    unfolding entry_item_def by (rule length_item) simp
  then have keys: "rl_iter K (rlp_encode (RlpList ?keys)) = map rlp_encode ?keys"
    using assms(2) by (intro list_laws(5) [OF assms(1)]) linarith
  have "collect (decode_storage_key K) (map rlp_encode ?keys) = Ok (snd entry)"
    unfolding map_map by (rule collect_encoded) (simp add: decode_key_encoded [OF assms(1)])
  then show ?thesis
    using assms(2) list_laws(2,7) [OF assms(1)] by (simp add: decode_entry_def entry_item_def keys decode_address_encoded [OF assms(1)])
qed

section \<open>Transactions are read back\<close>

definition legacy_items :: "legacy_tx \<Rightarrow> rlp_item list" where
  "legacy_items t = [rlp_uint (unat (l_nonce t)), rlp_uint (unat (l_gas_price t)), rlp_uint (unat (l_gas_limit t)),
     target_item (l_target t), rlp_uint (unat (l_value t)), RlpBytes (buf_bytes (l_call_data t)),
     rlp_uint (unat (l_v t)), rlp_uint (unat (l_r t)), rlp_uint (unat (l_s t))]"

text \<open>EIP-155: \<open>v\<close> holds the parity of the signature and the chain, or the parity alone.\<close>

definition v_of :: "u256 option \<Rightarrow> u8 \<Rightarrow> u256" where
  "v_of chain parity = (case chain of None \<Rightarrow> 27 + ucast parity | Some c \<Rightarrow> 35 + 2 * c + ucast parity)"

definition legacy_wf :: "legacy_tx \<Rightarrow> bool" where
  "legacy_wf t \<longleftrightarrow> l_recovery_id t \<le> 1 \<and> (\<forall>c. l_chain_id t = Some c \<longrightarrow> c < 2 ^ 254)
     \<and> l_v t = v_of (l_chain_id t) (l_recovery_id t) \<and> l_call_data t = buf_from_slice (buf_bytes (l_call_data t))"

text \<open>What is signed: the first six fields, and with a chain the chain and two empty fields\<close>

definition legacy_signed :: "legacy_tx \<Rightarrow> rlp_item" where
  "legacy_signed t = RlpList (take 6 (legacy_items t)
     @ (case l_chain_id t of None \<Rightarrow> [] | Some c \<Rightarrow> [rlp_uint (unat c), rlp_uint 0, rlp_uint 0]))"

lemma chain_of_v_of:
  assumes "parity \<le> 1" and "\<forall>c. chain = Some c \<longrightarrow> c < 2 ^ 254"
  shows "chain_of_v (v_of chain parity) = Ok (chain, parity)"
proof (cases chain)
  case None
  have "parity = 0 \<or> parity = 1" using assms(1) by (simp add: word_le_nat_alt word_unat_eq_iff) linarith
  then show ?thesis by (auto simp: None v_of_def chain_of_v_def)
next
  case (Some c)
  let ?v = "35 + 2 * c + ucast parity :: u256" and ?p = "unat parity"
  have c: "unat c < 2 ^ 254" using assms(2) Some by (simp add: word_less_nat_alt)
  have p: "?p = 0 \<or> ?p = 1" using assms(1) by (simp add: word_le_nat_alt) linarith
  then have v: "unat ?v = 35 + 2 * unat c + ?p"
    using c by (auto simp: unat_word_ariths unsigned_ucast_eq take_bit_eq_mod)
  have v1: "unat (?v - 1) = 34 + 2 * unat c + ?p" using v by (subst unat_sub) (simp_all add: word_le_nat_alt)
  have half: "unat ((?v - 1) div 2) = 17 + unat c" unfolding unat_div_distrib v1 using p by auto
  have "unat ((?v - 1) div 2 - 17) = unat c" using half by (subst unat_sub) (simp_all add: word_le_nat_alt)
  moreover have "35 \<le> ?v" using v by (simp add: word_le_nat_alt)
  moreover have "of_bool (?v mod 2 = 0) = parity"
  proof -
    have "unat (?v mod 2) = (1 + ?p) mod 2" unfolding unat_mod_distrib v by simp presburger
    then show ?thesis using p by (auto simp: word_unat_eq_iff)
  qed
  ultimately show ?thesis by (simp add: Some v_of_def chain_of_v_def word_unat_eq_iff)
qed

lemma decode_legacy_encoded:
  assumes K: "rlp_documented K" and len: "length (rlp_encode (RlpList (legacy_items t))) < usize_bound" and "legacy_wf t"
  shows "decode_legacy K (rlp_encode (RlpList (legacy_items t))) = Ok t"
proof -
  have "RlpBytes (buf_bytes (l_call_data t)) \<in> set (legacy_items t)" by (simp add: legacy_items_def)
  then have "length (buf_bytes (l_call_data t)) < usize_bound"
    using length_item length_bytes_item len by (meson le_less_trans)
  note data = decode_data [OF K this]
  have "chain_of_v (l_v t) = Ok (l_chain_id t, l_recovery_id t)"
    using chain_of_v_of assms(3) by (simp add: legacy_wf_def)
  moreover have "l_call_data t = buf_from_slice (buf_bytes (l_call_data t))" using assms(3) by (simp add: legacy_wf_def)
  moreover have n: "length (legacy_items t) = 9" by (simp add: legacy_items_def)
  moreover have "rlp_at K (rlp_encode (RlpList (legacy_items t))) i = Ok (rlp_encode (legacy_items t ! i))" if "i < 9" for i
    using list_laws(2) [OF K len] that n by simp
  moreover note list_laws(1) [OF K len] list_laws(4) [OF K len, of 9]
  ultimately show ?thesis
    by (simp add: decode_legacy_def)
      (simp add: legacy_items_def decode_uint [OF K] decode_small [OF K] decode_target_encoded [OF K] data)
qed

definition access_items :: "access_list_tx \<Rightarrow> rlp_item list" where
  "access_items t = [rlp_uint (unat (a_chain_id t)), rlp_uint (unat (a_nonce t)), rlp_uint (unat (a_gas_price t)),
     rlp_uint (unat (a_gas_limit t)), target_item (a_target t), rlp_uint (unat (a_value t)), RlpBytes (buf_bytes (a_call_data t)),
     RlpList (map entry_item (a_access_list t)), rlp_uint (unat (a_recovery_id t)), rlp_uint (unat (a_r t)), rlp_uint (unat (a_s t))]"

lemma decode_access_encoded:
  assumes K: "rlp_documented K" and len: "length (rlp_encode (RlpList (access_items t))) < usize_bound"
    and own: "a_call_data t = buf_from_slice (buf_bytes (a_call_data t))"
  shows "decode_access_list K (rlp_encode (RlpList (access_items t))) = Ok t"
proof -
  have "RlpBytes (buf_bytes (a_call_data t)) \<in> set (access_items t)" by (simp add: access_items_def)
  then have "length (buf_bytes (a_call_data t)) < usize_bound"
    using length_item length_bytes_item len by (meson le_less_trans)
  note data = decode_data [OF K this]
  have "RlpList (map entry_item (a_access_list t)) \<in> set (access_items t)" by (simp add: access_items_def)
  then have list: "length (rlp_encode (RlpList (map entry_item (a_access_list t)))) < usize_bound"
    using length_item len by (meson le_less_trans)
  then have "decode_entry K (rlp_encode (entry_item e)) = Ok e" if "e \<in> set (a_access_list t)" for e
    using that length_item [of "entry_item e" "map entry_item (a_access_list t)"]
    by (intro decode_entry_encoded [OF K]) simp
  then have entries: "collect (decode_entry K) (rl_iter K (rlp_encode (RlpList (map entry_item (a_access_list t)))))
      = Ok (a_access_list t)"
    unfolding list_laws(5) [OF K list] map_map by (intro collect_encoded) simp
  have n: "length (access_items t) = 11" by (simp add: access_items_def)
  moreover have "rlp_at K (rlp_encode (RlpList (access_items t))) i = Ok (rlp_encode (access_items t ! i))" if "i < 11" for i
    using list_laws(2) [OF K len] that n by simp
  moreover note list_laws(1) [OF K len] list_laws(4) [OF K len, of 11] own
  ultimately show ?thesis
    by (simp add: decode_access_list_def)
      (simp add: access_items_def decode_uint [OF K] decode_small [OF K] decode_target_encoded [OF K] data entries)
qed

section \<open>The hash that was signed\<close>

lemma body_slice:
  assumes "i < length ts"
  shows "slice_range (header_size (length (rlp_concat ts))) (header_size (length (rlp_concat ts)) + length (rlp_concat (take i ts)))
    (rlp_encode (RlpList ts)) = Ok (rlp_concat (take i ts))"
proof -
  have "rlp_concat ts = rlp_concat (take i ts) @ rlp_concat (drop i ts)"
    by (metis append_take_drop_id concat_append map_append)
  then show ?thesis by (simp add: slice_range_def rlp_encode.simps)
qed

lemma legacy_signature_encoded:
  assumes K: "rlp_documented K" and len: "length (rlp_encode (RlpList (legacy_items t))) + 64 < usize_bound"
  shows "calculate_legacy_signature keccak K (rlp_encode (RlpList (legacy_items t))) (l_chain_id t)
    = Ok (keccak (rlp_encode (legacy_signed t)))"
proof -
  let ?ts = "legacy_items t" and ?tail = "case l_chain_id t of None \<Rightarrow> [] | Some c \<Rightarrow> [rlp_uint (unat c), rlp_uint 0, rlp_uint 0]"
  have six: "6 < length ?ts" by (simp add: legacy_items_def)
  have "length (rlp_concat (take 6 ?ts)) \<le> length (rlp_concat ?ts)"
    by (metis append_take_drop_id concat_append le_add1 length_append map_append)
  then have "length (rlp_concat (take 6 ?ts)) + 64 < usize_bound" using len by (simp add: length_encode_list)
  moreover have "length (rlp_concat ?tail) \<le> 64"
  proof (cases "l_chain_id t")
    case (Some c)
    have "length (rlp_encode (rlp_uint (unat c))) \<le> 33"
      using length_be_min_word [of c] by (simp add: rlp_uint_def rlp_encode.simps header_size_def)
    moreover have "length (rlp_encode (rlp_uint 0)) = 1" by (simp add: rlp_uint_def rlp_encode.simps header_size_def)
    ultimately show ?thesis by (simp add: Some)
  qed simp
  moreover have "(case l_chain_id t of None \<Rightarrow> [] | Some c \<Rightarrow> chain_id_trailer c) = rlp_concat ?tail"
    by (simp add: chain_id_trailer_encode split: option.split)
  ultimately show ?thesis
    using list_laws(3) [OF K _ six] list_laws(6) [OF K] len
    by (simp add: calculate_legacy_signature_def body_slice [OF six] Let_def list_header_prefix)
      (simp add: legacy_signed_def rlp_encode.simps(2))
qed

lemma access_signature_encoded:
  assumes K: "rlp_documented K" and len: "length (rlp_encode (RlpList (access_items t))) < usize_bound"
  shows "eip2718_signed_hash keccak K [1] (rlp_encode (RlpList (access_items t))) 8
    = Ok (keccak (1 # rlp_encode (RlpList (take 8 (access_items t)))))"
proof -
  let ?ts = "access_items t"
  have eight: "8 < length ?ts" by (simp add: access_items_def)
  have "length (rlp_concat (take 8 ?ts)) \<le> length (rlp_concat ?ts)"
    by (metis append_take_drop_id concat_append le_add1 length_append map_append)
  then have "length (rlp_concat (take 8 ?ts)) < usize_bound" using len by (simp add: length_encode_list)
  then show ?thesis
    using list_laws(3) [OF K len eight] list_laws(6) [OF K len]
    by (simp add: eip2718_signed_hash_def body_slice [OF eight] list_header_prefix)
      (simp add: rlp_encode.simps(2))
qed

section \<open>Whole transactions\<close>

primrec payload_bytes :: "transaction_payload \<Rightarrow> bytes" where
  "payload_bytes (Legacy t) = rlp_encode (RlpList (legacy_items t))"
| "payload_bytes (AccessList t) = 0x01 # rlp_encode (RlpList (access_items t))"

primrec payload_signed :: "transaction_payload \<Rightarrow> bytes" where
  "payload_signed (Legacy t) = rlp_encode (legacy_signed t)"
| "payload_signed (AccessList t) = 0x01 # rlp_encode (RlpList (take 8 (access_items t)))"

primrec payload_wf :: "transaction_payload \<Rightarrow> bool" where
  "payload_wf (Legacy t) \<longleftrightarrow> legacy_wf t"
| "payload_wf (AccessList t) \<longleftrightarrow> a_call_data t = buf_from_slice (buf_bytes (a_call_data t))"

text \<open>C7: a transaction that is encoded as Ethereum defines it is read back with all of its fields, its length, its hash, and
  the hash that its sender signed: with the chain of EIP-155 if it names one, without if it does not, and as a typed
  transaction of EIP-2930.\<close>

theorem transaction_reads_back:
  assumes "rlp_documented K" and "payload_wf p" and "length (payload_bytes p) + 64 < usize_bound"
  shows "from_rlp keccak K (payload_bytes p) = Ok \<lparr>tx_payload = p, tx_byte_len = length (payload_bytes p),
    tx_hash = keccak (payload_bytes p), tx_signed_hash = keccak (payload_signed p)\<rparr>"
proof (cases p)
  case (Legacy t)
  let ?raw = "rlp_encode (RlpList (legacy_items t))"
  have len: "length ?raw + 64 < usize_bound" using assms(3) Legacy by simp
  then have len': "length ?raw < usize_bound" by simp
  have wf: "legacy_wf t" using assms(2) Legacy by simp
  show ?thesis
    using list_laws(6,7) [OF assms(1) len'] decode_legacy_encoded [OF assms(1) len' wf]
      legacy_signature_encoded [OF assms(1) len] len'
    by (simp add: Legacy from_rlp_def get_type_def from_payload_def length_encode_list)
next
  case (AccessList t)
  let ?raw = "rlp_encode (RlpList (access_items t))"
  have len: "length ?raw < usize_bound" using assms(3) AccessList by simp
  have "\<not> rl_is_list K (1 # ?raw)" using assms(1) by (simp add: rlp_documented_def word_le_nat_alt)
  then show ?thesis
    using list_laws(6) [OF assms(1) len] decode_access_encoded [OF assms(1) len] assms(2,3)
      access_signature_encoded [OF assms(1) len]
    by (simp add: AccessList from_rlp_def get_type_def index_at_def from_payload_def length_encode_list)
qed

theorem transaction_reads_back_witness:
  "from_rlp from_be plain_rlp (payload_bytes (Legacy \<lparr>l_nonce = 7, l_gas_price = 1000, l_gas_limit = 21000, l_target = Some 0x1002,
      l_value = 5, l_call_data = buf_from_slice [1, 2], l_v = 35 + 2 * 111 + 1, l_r = 3, l_s = 4, l_chain_id = Some 111,
      l_recovery_id = 1\<rparr>))
    = Ok \<lparr>tx_payload = Legacy \<lparr>l_nonce = 7, l_gas_price = 1000, l_gas_limit = 21000, l_target = Some 0x1002, l_value = 5,
        l_call_data = buf_from_slice [1, 2], l_v = 258, l_r = 3, l_s = 4, l_chain_id = Some 111, l_recovery_id = 1\<rparr>,
      tx_byte_len = 38,
      tx_hash = from_be ([0xe5, 7, 0x82, 3, 0xe8, 0x82, 0x52, 0x08, 0x94] @ be_bytes 20 (0x1002 :: address) @ [5, 0x82, 1, 2, 0x82, 1, 2, 3, 4]),
      tx_signed_hash = from_be ([0xe3, 7, 0x82, 3, 0xe8, 0x82, 0x52, 0x08, 0x94] @ be_bytes 20 (0x1002 :: address)
        @ [5, 0x82, 1, 2, 0x6f, 0x80, 0x80])\<rparr>"
proof -
  have "be_min 1000 = [3, 0xe8]" "be_min 21000 = [0x52, 0x08]" "be_min 258 = [1, 2]" "be_min 7 = [7]" "be_min 5 = [5]"
      "be_min 3 = [3]" "be_min 4 = [4]" "be_min 111 = [111]"
    by (simp_all add: be_min.simps)
  then show ?thesis
    using transaction_reads_back [OF plain_rlp_documented, of "Legacy \<lparr>l_nonce = 7, l_gas_price = 1000, l_gas_limit = 21000,
        l_target = Some 0x1002, l_value = 5, l_call_data = buf_from_slice [1, 2], l_v = 35 + 2 * 111 + 1, l_r = 3, l_s = 4,
        l_chain_id = Some 111, l_recovery_id = 1\<rparr>" from_be]
    by (simp add: legacy_wf_def v_of_def legacy_items_def legacy_signed_def target_item_def rlp_uint_def rlp_encode.simps
        length_prefix_def word_less_nat_alt word_le_nat_alt)
qed

text \<open>A type that the program does not know ends in a panic, not in an error; so does a dynamic-fee transaction.\<close>

lemma unsupported_type_panics:
  assumes "rlp_documented K" and "2 \<le> b" and "b < 0xC0"
  shows "from_rlp keccak K (b # bs) = Panic"
proof -
  have "b \<noteq> 0" "b \<noteq> 1" using assms(2) by (auto simp: word_le_nat_alt)
  moreover have "\<not> rl_is_list K (b # bs)" using assms(1,3) by (simp add: rlp_documented_def not_le)
  ultimately show ?thesis by (simp add: from_rlp_def get_type_def index_at_def)
qed

end
