(* ===== verification/Account_Locks.thy ===== *)
theory Account_Locks
  imports Transaction_Laws
begin

text \<open>
  The accounts of an instruction as an invariant (\<open>ps_wf\<close>): every handle was read from an account of its own, whose header
  still has the tag of the handle.  Opening the accounts establishes it, locking keeps it, and saving them writes every
  header back, so that an account which one transaction has locked is locked for the next instruction that opens it.
\<close>

section \<open>The invariant\<close>

definition opened :: "'a packable \<Rightarrow> program_storage \<Rightarrow> 'a handle \<Rightarrow> bool" where
  "opened P S h \<longleftrightarrow> (\<exists>info a. ps_solana S (hn_key h) = Some info \<and> from_account P (ps_program_id S) info = Ok a
     \<and> (hn_dirty h \<or> ad_data a = hn_data h))"

definition ps_wf :: "program_storage \<Rightarrow> bool" where
  "ps_wf S \<longleftrightarrow> (\<forall>k info. ps_solana S k = Some info \<longrightarrow> oa_key info = k)
     \<and> distinct (map fst (ps_ethereum S))
     \<and> inj_on (\<lambda>(a, h). hn_key h) (set (ps_ethereum S))
     \<and> (\<forall>(a, h) \<in> set (ps_ethereum S). ed_address (hn_data h) = a \<and> opened ether_account_packable S h)
     \<and> (\<forall>(k, h) \<in> set (ps_cells S). opened storage_packable S h)"

section \<open>Opening\<close>

lemma set_AList_update: "set (AList.update k v xs) \<subseteq> insert (k, v) (set xs)"
  by (induction xs) auto

lemma collect_key: "\<forall>(k, info) \<in> set (collect_accounts_by_key as). k = oa_key info \<and> info \<in> set as"
    and collect_distinct: "distinct (map fst (collect_accounts_by_key as))"
proof -
  have "(\<forall>(k, info) \<in> set (foldl (\<lambda>m a. AList.update (oa_key a) a m) m as). k = oa_key info \<and> info \<in> set as \<union> snd ` set m)
      \<and> distinct (map fst (foldl (\<lambda>m a. AList.update (oa_key a) a m) m as))"
    if "\<forall>(k, info) \<in> set m. k = oa_key info" "distinct (map fst m)" for m
    using that
  proof (induction as arbitrary: m)
    case (Cons a as)
    have "\<forall>(k, info) \<in> set (AList.update (oa_key a) a m). k = oa_key info" "distinct (map fst (AList.update (oa_key a) a m))"
      using Cons.prems set_AList_update [of "oa_key a" a m] by (auto simp: distinct_update)
    from Cons.IH [OF this] show ?case using set_AList_update [of "oa_key a" a m] by fastforce
  qed force
  from this [of "[]"] show "\<forall>(k, info) \<in> set (collect_accounts_by_key as). k = oa_key info \<and> info \<in> set as"
    and "distinct (map fst (collect_accounts_by_key as))"
    by (simp_all add: collect_accounts_by_key_def)
qed

text \<open>What one account adds\<close>

definition reads_as :: "'a packable \<Rightarrow> pubkey \<Rightarrow> owned_account \<Rightarrow> 'a handle \<Rightarrow> bool" where
  "reads_as P program_id info h \<longleftrightarrow> (\<exists>a. from_account P program_id info = Ok a \<and> h = handle_of a)"

lemma open_accounts_cases:
  assumes "open_accounts program_id (info # rest) S = Ok S'"
  obtains (other) "open_accounts program_id rest S = Ok S'"
    | (ethereum) a where "from_account ether_account_packable program_id info = Ok a"
        "open_accounts program_id rest (S\<lparr>ps_ethereum := AList.update (ed_address (ad_data a)) (handle_of a) (ps_ethereum S)\<rparr>) = Ok S'"
    | (cell) a where "from_account storage_packable program_id info = Ok a"
        "open_accounts program_id rest (S\<lparr>ps_cells := AList.update (sd_address (ad_data a), sd_index (ad_data a)) (handle_of a) (ps_cells S)\<rparr>) = Ok S'"
  using assms by (auto simp: rbind_Ok_iff as_program_error_Ok split: if_splits result.splits)

lemma open_accounts_frame: "open_accounts program_id infos S = Ok S' \<Longrightarrow>
    S' = S\<lparr>ps_ethereum := ps_ethereum S', ps_cells := ps_cells S'\<rparr>
    \<and> (distinct (map fst (ps_ethereum S)) \<longrightarrow> distinct (map fst (ps_ethereum S')))"
proof (induction infos arbitrary: S)
  case (Cons info infos)
  from Cons.prems show ?case
    by (cases rule: open_accounts_cases) (use Cons.IH in \<open>fastforce simp: distinct_update\<close>)+
qed simp

lemma open_accounts_ethereum:
  "open_accounts program_id infos S = Ok S' \<Longrightarrow> (a, h) \<in> set (ps_ethereum S') \<Longrightarrow> (a, h) \<in> set (ps_ethereum S)
     \<or> (\<exists>info \<in> set infos. reads_as ether_account_packable program_id info h \<and> ed_address (hn_data h) = a)"
proof (induction infos arbitrary: S)
  case (Cons info infos)
  from Cons.prems(1) show ?case
  proof (cases rule: open_accounts_cases)
    case other
    then show ?thesis using Cons.IH Cons.prems(2) by fastforce
  next
    case (ethereum x)
    from Cons.IH [OF ethereum(2) Cons.prems(2)] show ?thesis
      using set_AList_update [of "ed_address (ad_data x)" "handle_of x" "ps_ethereum S"] ethereum(1)
      by (fastforce simp: reads_as_def handle_of_def)
  next
    case (cell x)
    from Cons.IH [OF cell(2) Cons.prems(2)] show ?thesis by fastforce
  qed
qed simp

lemma open_accounts_cells:
  "open_accounts program_id infos S = Ok S' \<Longrightarrow> (k, h) \<in> set (ps_cells S') \<Longrightarrow> (k, h) \<in> set (ps_cells S)
     \<or> (\<exists>info \<in> set infos. reads_as storage_packable program_id info h)"
proof (induction infos arbitrary: S)
  case (Cons info infos)
  from Cons.prems(1) show ?case
  proof (cases rule: open_accounts_cases)
    case other
    then show ?thesis using Cons.IH Cons.prems(2) by fastforce
  next
    case (ethereum x)
    from Cons.IH [OF ethereum(2) Cons.prems(2)] show ?thesis by fastforce
  next
    case (cell x)
    from Cons.IH [OF cell(2) Cons.prems(2)] show ?thesis
      using set_AList_update [of "(sd_address (ad_data x), sd_index (ad_data x))" "handle_of x" "ps_cells S"] cell(1)
      by (fastforce simp: reads_as_def)
  qed
qed simp

lemma open_accounts_finds:
  assumes "from_account ether_account_packable program_id info = Ok x"
    and "\<forall>i \<in> set infos. \<forall>y. from_account ether_account_packable program_id i = Ok y
      \<longrightarrow> ed_address (ad_data y) = ed_address (ad_data x) \<longrightarrow> i = info"
    and "open_accounts program_id infos S = Ok S'"
    and "info \<in> set infos \<or> map_of (ps_ethereum S) (ed_address (ad_data x)) = Some (handle_of x)"
  shows "map_of (ps_ethereum S') (ed_address (ad_data x)) = Some (handle_of x)"
  using assms(2-4)
proof (induction infos arbitrary: S)
  case (Cons i infos)
  show ?case
  proof (cases "i = info")
    case True
    have "account_tag program_id info = Ok TAG_ACCOUNT_V3" "oa_owner info = program_id"
      using ether_account.tag_of_account [OF assms(1)] assms(1)
      by (auto simp: ether_account_packable_def from_account_def split: if_splits)
    then have "open_accounts program_id infos (S\<lparr>ps_ethereum := AList.update (ed_address (ad_data x)) (handle_of x) (ps_ethereum S)\<rparr>) = Ok S'"
      using Cons.prems(2) assms(1) True by (simp add: as_program_error_def)
    from Cons.IH [OF _ this] Cons.prems(1) show ?thesis by (simp add: update_conv')
  next
    case False
    from Cons.prems(2) show ?thesis
    proof (cases rule: open_accounts_cases)
      case other
      then show ?thesis using Cons.IH Cons.prems(1,3) False by fastforce
    next
      case (ethereum y)
      then have "ed_address (ad_data y) \<noteq> ed_address (ad_data x)" using Cons.prems(1) False by auto
      then show ?thesis using Cons.IH [OF _ ethereum(2)] Cons.prems(1,3) False by (simp add: update_conv')
    next
      case (cell y)
      then show ?thesis using Cons.IH [OF _ cell(2)] Cons.prems(1,3) False by simp
    qed
  qed
qed simp

section \<open>Clearing outdated cells\<close>

lemma clear_outdated_frame:
  assumes "clear_outdated R ks S = Ok S'"
  shows "ps_ethereum S' = ps_ethereum S \<and> ps_program_id S' = ps_program_id S"
  using assms
proof (induction ks arbitrary: S)
  case (Cons k ks)
  then show ?case by (fastforce simp: rbind_Ok_iff put_solana_def split: if_splits)
qed simp

text \<open>An account that is changed but for its header\<close>

definition same_header :: "'a packable \<Rightarrow> pubkey \<Rightarrow> owned_account \<Rightarrow> owned_account \<Rightarrow> bool" where
  "same_header P program_id info info' \<longleftrightarrow> (\<forall>a. from_account P program_id info = Ok a
     \<longrightarrow> (\<exists>a'. from_account P program_id info' = Ok a' \<and> ad_data a' = ad_data a))"

lemma opened_put:
  assumes "opened P S h" and "ps_solana S (oa_key info') = Some info" and "same_header P (ps_program_id S) info info'"
  shows "opened P (put_solana info' S) h"
proof (cases "hn_key h = oa_key info'")
  case True
  with assms(1,2) obtain a where "from_account P (ps_program_id S) info = Ok a" "hn_dirty h \<or> ad_data a = hn_data h"
    by (auto simp: opened_def)
  then show ?thesis using assms(3) True by (force simp: opened_def put_solana_def same_header_def)
qed (use assms(1) in \<open>simp add: opened_def put_solana_def\<close>)

lemma ps_wf_put:
  assumes "ps_wf S" and "ps_solana S (oa_key info') = Some info"
    and "same_header ether_account_packable (ps_program_id S) info info'"
    and "same_header storage_packable (ps_program_id S) info info'"
  shows "ps_wf (put_solana info' S)"
proof -
  note wf = assms(1) [unfolded ps_wf_def]
  have eq: "ps_ethereum (put_solana info' S) = ps_ethereum S" "ps_cells (put_solana info' S) = ps_cells S"
    by (simp_all add: put_solana_def)
  have "\<forall>k i. ps_solana (put_solana info' S) k = Some i \<longrightarrow> oa_key i = k" using wf by (auto simp: put_solana_def)
  moreover have "\<forall>(a, h) \<in> set (ps_ethereum S). ed_address (hn_data h) = a \<and> opened ether_account_packable (put_solana info' S) h"
    using wf opened_put [OF _ assms(2,3)] by blast
  moreover have "\<forall>(k, h) \<in> set (ps_cells S). opened storage_packable (put_solana info' S) h"
    using wf opened_put [OF _ assms(2,4)] by blast
  ultimately show ?thesis using wf unfolding ps_wf_def eq by blast
qed

lemma same_header_lamports: "same_header P program_id info (info\<lparr>oa_lamports := n\<rparr>)"
  by (auto simp: same_header_def from_account_def split_account_data_def rbind_Ok_iff split: if_splits)

text \<open>\<open>realloc\<close> to the size of the header keeps the header.\<close>

lemma from_account_take:
  assumes "account_size P \<le> n"
  shows "from_account P program_id (info\<lparr>oa_data := take n (oa_data info), oa_lamports := l\<rparr>)
    = (case from_account P program_id info of Ok a \<Rightarrow> Ok (a\<lparr>ad_info := info\<lparr>oa_data := take n (oa_data info), oa_lamports := l\<rparr>\<rparr>)
       | Err e \<Rightarrow> Err e | Panic \<Rightarrow> Panic)"
  using assms by (cases "oa_data info") (auto simp: from_account_def split_account_data_def account_size_def take_Cons' min_def)

lemma storage_clear_keeps:
  assumes "storage_clear rent realloc g \<lparr>ad_dirty = dirty, ad_data = d, ad_info = info\<rparr> operator = Ok (a, operator')"
    and "realloc_ok realloc" and "from_account storage_packable program_id info = Ok x"
  shows "oa_key (ad_info a) = oa_key info" and "same_header storage_packable program_id info (ad_info a)" and "ad_dirty a"
    and "\<exists>n. operator' = operator\<lparr>oa_lamports := n\<rparr>"
    and "oa_owner (ad_info a) = oa_owner info" and "oa_data (ad_info a) = take storage_size (oa_data info)"
proof -
  obtain info' b where r: "realloc info storage_size = Ok info'" and b: "rent = Ok b"
    using assms(1) by (auto simp: storage_clear_def rbind_Ok_iff Let_def account_modify_def)
  define l where "l = oa_lamports info' - (if b storage_size \<le> oa_lamports info' then oa_lamports info' - b storage_size else 0)"
  have a: "ad_info a = info'\<lparr>oa_lamports := l\<rparr>" and "ad_dirty a" "\<exists>n. operator' = operator\<lparr>oa_lamports := n\<rparr>"
    using assms(1) r b by (auto simp: storage_clear_def Let_def account_modify_def l_def)
  then show "ad_dirty a" "\<exists>n. operator' = operator\<lparr>oa_lamports := n\<rparr>" by blast+
  have size: "storage_size = account_size storage_packable" "storage_size \<le> length (oa_data info)"
    using assms(3) by (auto simp: from_account_def split_account_data_def account_size_def rbind_Ok_iff split: if_splits)
  have info': "info' = info\<lparr>oa_data := oa_data info'\<rparr>" and "length (oa_data info') = storage_size"
      "take (length (oa_data info)) (oa_data info') = take storage_size (oa_data info)"
    using assms(2) r unfolding realloc_ok_def by blast+
  then have data: "oa_data info' = take storage_size (oa_data info)" using size(2) by simp
  have eq: "ad_info a = info\<lparr>oa_data := take storage_size (oa_data info), oa_lamports := l\<rparr>"
    unfolding a data [symmetric] by (subst info') simp
  then show "oa_key (ad_info a) = oa_key info" "oa_owner (ad_info a) = oa_owner info"
    "oa_data (ad_info a) = take storage_size (oa_data info)" by simp_all
  have "account_size storage_packable \<le> storage_size" using size(1) by simp
  from from_account_take [OF this] show "same_header storage_packable program_id info (ad_info a)"
    unfolding eq same_header_def by simp
qed

lemma ps_wf_cell:
  assumes "ps_wf S" and "opened storage_packable S h"
  shows "ps_wf (S\<lparr>ps_cells := AList.update k h (ps_cells S)\<rparr>)"
  using assms set_AList_update [of k h "ps_cells S"] unfolding ps_wf_def opened_def by auto

lemma other_header:
  "from_account storage_packable program_id info = Ok x \<Longrightarrow> same_header ether_account_packable program_id info info'"
  using storage_account.other_tag [of program_id info x ether_account_packable]
  by (auto simp: same_header_def ether_account_packable_def storage_packable_def account_tags)

lemma clear_outdated_wf:
  assumes "clear_outdated R ks S = Ok S'" and "realloc_ok (rt_realloc R)" and "ps_wf S"
  shows "ps_wf S'"
  using assms(1,3)
proof (induction ks arbitrary: S)
  case (Cons k ks)
  obtain h owner where h: "map_of (ps_cells S) k = Some h"
      and owner: "map_of (ps_ethereum S) (sd_address (hn_data h)) = Some owner"
    using Cons.prems(1) by (auto simp: rbind_Ok_iff unwrap_def split: option.splits)
  show ?case
  proof (cases "sd_generation (hn_data h) \<noteq> ed_generation (hn_data owner)")
    case False
    then show ?thesis using Cons h owner by simp
  next
    case True
    obtain info operator a operator' where info: "ps_solana S (hn_key h) = Some info"
        and operator: "ps_solana S (ps_operator S) = Some operator"
        and clear: "storage_clear (Ok (rt_minimum_balance R)) (rt_realloc R) (ed_generation (hn_data owner))
          \<lparr>ad_dirty = hn_dirty h, ad_data = hn_data h, ad_info = info\<rparr> operator = Ok (a, operator')"
        and rest: "clear_outdated R ks (put_solana operator' (put_solana (ad_info a)
          (S\<lparr>ps_cells := AList.update k (handle_of a) (ps_cells S)\<rparr>))) = Ok S'"
      using Cons.prems(1) h owner True by (auto simp: rbind_Ok_iff handle_info_def unwrap_def split: option.splits)
    note wf = Cons.prems(2)
    have "opened storage_packable S h" using wf map_of_SomeD [OF h] by (auto simp: ps_wf_def)
    then obtain x where x: "from_account storage_packable (ps_program_id S) info = Ok x" using info by (auto simp: opened_def)
    note keeps = storage_clear_keeps [OF clear assms(2) x]
    have key: "oa_key info = hn_key h" "oa_key operator = ps_operator S" using wf info operator by (auto simp: ps_wf_def)
    let ?S1 = "S\<lparr>ps_cells := AList.update k (handle_of a) (ps_cells S)\<rparr>"
    have "opened storage_packable S (handle_of a)"
      using info x keeps(1,3) key by (auto simp: opened_def handle_of_def)
    then have "ps_wf ?S1" by (rule ps_wf_cell [OF wf])
    then have wf2: "ps_wf (put_solana (ad_info a) ?S1)"
      by (rule ps_wf_put [where info = info]) (use info keeps(1,2) key x in \<open>auto intro: other_header\<close>)
    obtain n where operator': "operator' = operator\<lparr>oa_lamports := n\<rparr>" using keeps(4) by blast
    have "ps_wf (put_solana operator' (put_solana (ad_info a) ?S1))"
    proof (cases "hn_key h = ps_operator S")
      case False
      then show ?thesis
        by (intro ps_wf_put [OF wf2, where info = operator])
          (use operator keeps(1) key in \<open>auto simp: put_solana_def operator' same_header_lamports\<close>)
    next
      case True
      then have "operator = info" using info operator by simp
      obtain x' where x': "from_account storage_packable (ps_program_id S) (ad_info a) = Ok x'" "ad_data x' = ad_data x"
        using keeps(2) x by (auto simp: same_header_def)
      obtain y where y: "from_account storage_packable (ps_program_id S) operator' = Ok y" "ad_data y = ad_data x"
        using same_header_lamports [of storage_packable "ps_program_id S" info n] x
        by (auto simp: same_header_def operator' \<open>operator = info\<close>)
      have "same_header storage_packable (ps_program_id S) (ad_info a) operator'"
        using x' y by (auto simp: same_header_def)
      moreover have "same_header ether_account_packable (ps_program_id S) (ad_info a) operator'"
        by (rule other_header [OF x'(1)])
      ultimately show ?thesis
        by (intro ps_wf_put [OF wf2, where info = "ad_info a"])
          (use keeps(1) key True in \<open>auto simp: put_solana_def operator'\<close>)
    qed
    then show ?thesis by (rule Cons.IH [OF rest])
  qed
qed simp

section \<open>The storage of an instruction\<close>

lemma reads_as_opened:
  assumes "reads_as P program_id info h" and "ps_program_id S = program_id" and "ps_solana S (oa_key info) = Some info"
  shows "opened P S h" and "hn_key h = oa_key info"
  using assms by (auto simp: reads_as_def opened_def handle_of_def from_account_def rbind_Ok_iff split: if_splits)

lemma reads_as_unique: "reads_as P program_id info h \<Longrightarrow> reads_as P program_id info h' \<Longrightarrow> h' = h"
  by (auto simp: reads_as_def)

lemma open_accounts_wf:
  assumes "open_accounts program_id (map snd m) S = Ok S'"
    and S: "ps_program_id S = program_id" "ps_solana S = map_of m" "ps_ethereum S = []" "ps_cells S = []"
    and keys: "\<forall>(k, info) \<in> set m. k = oa_key info" "distinct (map fst m)"
  shows "ps_wf S'"
proof -
  have frame: "S' = S\<lparr>ps_ethereum := ps_ethereum S', ps_cells := ps_cells S'\<rparr>" and dist: "distinct (map fst (ps_ethereum S'))"
    using open_accounts_frame [OF assms(1)] S by simp_all
  have S': "ps_program_id S' = program_id" "ps_solana S' = map_of m" by (subst frame, simp add: S)+
  have find: "map_of m (oa_key info) = Some info" if "info \<in> set (map snd m)" for info
    using that keys by (auto simp: map_of_eq_Some_iff)
  have eth: "\<exists>info. map_of m (oa_key info) = Some info \<and> reads_as ether_account_packable program_id info h \<and> ed_address (hn_data h) = a"
    if "(a, h) \<in> set (ps_ethereum S')" for a h
    using open_accounts_ethereum [OF assms(1) that] find S by auto
  have cell: "\<exists>info. map_of m (oa_key info) = Some info \<and> reads_as storage_packable program_id info h"
    if "(k, h) \<in> set (ps_cells S')" for k h
    using open_accounts_cells [OF assms(1) that] find S by auto
  have "inj_on (\<lambda>(a, h). hn_key h) (set (ps_ethereum S'))"
  proof (rule inj_onI, clarify)
    fix a h a' h' assume "(a, h) \<in> set (ps_ethereum S')" "(a', h') \<in> set (ps_ethereum S')" and key: "hn_key h = hn_key h'"
    then obtain info info' where
        "map_of m (oa_key info) = Some info" "reads_as ether_account_packable program_id info h" "ed_address (hn_data h) = a"
        "map_of m (oa_key info') = Some info'" "reads_as ether_account_packable program_id info' h'" "ed_address (hn_data h') = a'"
      using eth by metis
    moreover from this have "hn_key h = oa_key info" "hn_key h' = oa_key info'" using reads_as_opened(2) [OF _ S'(1)] S'(2) by simp_all
    ultimately show "a = a' \<and> h = h'" using key reads_as_unique by (metis option.inject)
  qed
  moreover have "\<forall>k info. ps_solana S' k = Some info \<longrightarrow> oa_key info = k"
    using keys(1) S'(2) by (auto dest: map_of_SomeD)
  moreover have "\<forall>(a, h) \<in> set (ps_ethereum S'). ed_address (hn_data h) = a \<and> opened ether_account_packable S' h"
    using eth reads_as_opened(1) [OF _ S'(1)] S'(2) by fastforce
  moreover have "\<forall>(k, h) \<in> set (ps_cells S'). opened storage_packable S' h"
    using cell reads_as_opened(1) [OF _ S'(1)] S'(2) by fastforce
  ultimately show ?thesis using dist by (simp add: ps_wf_def)
qed

lemma new_storage_wf:
  assumes "realloc_ok (rt_realloc R)"
    and "ps_new R slot_now timestamp program_id operator system_program as = Ok S"
  shows "ps_wf S"
proof -
  let ?m = "collect_accounts_by_key (as @ [operator] @ (case system_program of Some s \<Rightarrow> [s] | None \<Rightarrow> []))"
  obtain S1 where opens: "open_accounts program_id (map snd ?m)
         \<lparr>ps_program_id = program_id, ps_operator = oa_key operator, ps_slot = slot_now, ps_timestamp = timestamp,
          ps_solana = map_of ?m, ps_ethereum = [], ps_cells = []\<rparr> = Ok S1"
      and clears: "clear_outdated R (map fst (ps_cells S1)) S1 = Ok S"
    using assms(2) unfolding ps_new_def Let_def rbind_Ok_iff by blast
  have "ps_wf S1"
    by (rule open_accounts_wf [OF opens]) (use collect_key collect_distinct in \<open>fastforce+\<close>)
  then show ?thesis by (rule clear_outdated_wf [OF clears assms(1)])
qed

text \<open>C13: Creating the storage of an instruction establishes its invariant: every account is held under its own key,
  every address and every key has at most one handle, the handle of an address carries that address, and every handle was
  read from an account whose header still has its tag, also for the cells that were cleared because their contract has a
  newer generation.\<close>

theorem ps_new_wf:
  assumes "realloc_ok (rt_realloc R)"
    and "ps_new R slot_now timestamp program_id operator system_program as = Ok S"
  shows "ps_wf S"
  using assms by (rule new_storage_wf)

section \<open>What an instruction changes\<close>

lemma opened_ethereum: "opened P (S\<lparr>ps_ethereum := E\<rparr>) h = opened P S h"
  by (simp add: opened_def)

lemma ps_wf_map:
  assumes "ps_wf S" and g: "\<And>a h. hn_key (g a h) = hn_key h \<and> ed_address (hn_data (g a h)) = ed_address (hn_data h)
      \<and> (g a h = h \<or> hn_dirty (g a h))"
  shows "ps_wf (S\<lparr>ps_ethereum := map (\<lambda>(a, h). (a, g a h)) (ps_ethereum S)\<rparr>)"
proof -
  note wf = assms(1) [unfolded ps_wf_def]
  have "inj_on (\<lambda>(a, h). hn_key h) ((\<lambda>(a, h). (a, g a h)) ` set (ps_ethereum S))"
  proof (rule inj_onI, clarify)
    fix a h a' h' assume "(a, h) \<in> set (ps_ethereum S)" "(a', h') \<in> set (ps_ethereum S)" "hn_key (g a h) = hn_key (g a' h')"
    moreover from this have "hn_key h = hn_key h'" using g by metis
    moreover have "inj_on (\<lambda>(a, h). hn_key h) (set (ps_ethereum S))" using wf by blast
    ultimately have "(a, h) = (a', h')" using inj_onD [of "\<lambda>(a, h). hn_key h" "set (ps_ethereum S)" "(a, h)" "(a', h')"] by simp
    then show "a = a' \<and> g a h = g a' h'" by simp
  qed
  moreover have "opened ether_account_packable S (g a h)" if "opened ether_account_packable S h" for a h
    using that g [of a h] by (cases "g a h = h") (auto simp: opened_def)
  then have "\<forall>(a, h) \<in> set (ps_ethereum S). ed_address (hn_data (g a h)) = a \<and> opened ether_account_packable S (g a h)"
    using wf g by (auto simp: case_prod_beta)
  moreover have "fst \<circ> (\<lambda>(a, h). (a, g a h)) = fst" by auto
  ultimately show ?thesis using wf by (simp add: ps_wf_def opened_ethereum case_prod_beta)
qed

lemma AList_update_map:
  "map_of xs k = Some v \<Longrightarrow> distinct (map fst xs) \<Longrightarrow> AList.update k w xs = map (\<lambda>(k', v'). (k', if k' = k then w else v')) xs"
  by (induction xs) (force intro: map_idI [symmetric] split: if_splits)+

lemma ps_wf_modify:
  assumes "modify_ethereum a f S = Ok S'" and "ps_wf S" and "\<forall>d. ed_address (f d) = ed_address d"
  shows "ps_wf S' \<and> map fst (ps_ethereum S') = map fst (ps_ethereum S)"
proof -
  obtain h where h: "map_of (ps_ethereum S) a = Some h"
      and S': "S' = S\<lparr>ps_ethereum := AList.update a (handle_modify f h) (ps_ethereum S)\<rparr>"
    using assms(1) by (auto simp: modify_ethereum_def split: option.splits)
  let ?g = "\<lambda>a' h'. if a' = a then handle_modify f h' else h'"
  have dist: "distinct (map fst (ps_ethereum S))" using assms(2) by (simp add: ps_wf_def)
  have "AList.update a (handle_modify f h) (ps_ethereum S) = map (\<lambda>(a', h'). (a', if a' = a then handle_modify f h else h')) (ps_ethereum S)"
    by (rule AList_update_map [OF h dist])
  also have "\<dots> = map (\<lambda>(a', h'). (a', ?g a' h')) (ps_ethereum S)"
  proof (rule map_cong [OF refl])
    fix x assume "x \<in> set (ps_ethereum S)"
    then show "(\<lambda>(a', h'). (a', if a' = a then handle_modify f h else h')) x = (\<lambda>(a', h'). (a', ?g a' h')) x"
      using map_of_is_SomeI [OF dist, of "fst x" "snd x"] h by (auto simp: case_prod_beta)
  qed
  finally have eq: "S' = S\<lparr>ps_ethereum := map (\<lambda>(a', h'). (a', ?g a' h')) (ps_ethereum S)\<rparr>" by (simp add: S')
  have "ps_wf S'" unfolding eq by (rule ps_wf_map [OF assms(2)]) (use assms(3) in \<open>simp add: handle_modify_def\<close>)
  then show ?thesis by (simp add: eq comp_def case_prod_beta)
qed

lemma ps_wf_block: "ps_wf S \<Longrightarrow> ps_wf (block_accounts b S)"
  unfolding block_accounts_def by (rule ps_wf_map) (simp_all add: handle_modify_def)

lemma ps_wf_transfer:
  assumes "transfer_neon_tokens R source target v S = Ok S'" and "ps_wf S"
  shows "ps_wf S' \<and> map fst (ps_ethereum S') = map fst (ps_ethereum S)"
proof -
  have "ps_wf S' \<and> map fst (ps_ethereum S') = map fst (ps_ethereum S)"
    if "modify_ethereum source (\<lambda>d. d\<lparr>ed_balance := ed_balance d - v\<rparr>) S = Ok S1"
      "modify_ethereum target (\<lambda>d. d\<lparr>ed_balance := ed_balance d + v\<rparr>) S1 = Ok S'" for S1
    using ps_wf_modify [OF that(1) assms(2)] ps_wf_modify [OF that(2)] by simp
  then show ?thesis using assms by (auto simp: transfer_neon_tokens_def rbind_Ok_iff split: if_splits)
qed

lemma ps_wf_payment:
  assumes "transfer_gas_payment R origin operator v S = Ok (operator', S')" and "ps_wf S"
  shows "ps_wf S' \<and> map fst (ps_ethereum S') = map fst (ps_ethereum S)"
  using assms ps_wf_transfer [of R origin "ed_address (ad_data operator)" v S S'] ps_wf_modify [of origin _ S S']
  by (auto simp: transfer_gas_payment_def rbind_Ok_iff split: if_splits)

section \<open>Saving\<close>

lemma account_drop_key: "account_drop P \<lparr>ad_dirty = b, ad_data = d, ad_info = info\<rparr> = Ok info' \<Longrightarrow> oa_key info' = oa_key info"
  by (auto simp: account_drop_def rbind_Ok_iff split: if_splits result.splits)

lemma drop_handles_frame:
  assumes "drop_handles P hs S = Ok S'" and "\<forall>k info. ps_solana S k = Some info \<longrightarrow> oa_key info = k"
  shows "ps_cells S' = ps_cells S \<and> (\<forall>k info. ps_solana S' k = Some info \<longrightarrow> oa_key info = k)
    \<and> (\<forall>k. k \<notin> hn_key ` set hs \<longrightarrow> ps_solana S' k = ps_solana S k)"
  using assms
proof (induction hs arbitrary: S)
  case (Cons h hs)
  from Cons.prems(1) obtain info info' where info: "ps_solana S (hn_key h) = Some info"
      and drops: "account_drop P \<lparr>ad_dirty = hn_dirty h, ad_data = hn_data h, ad_info = info\<rparr> = Ok info'"
      and rest: "drop_handles P hs (put_solana info' S) = Ok S'"
    by (auto simp: drop_handle_def handle_info_def unwrap_def rbind_Ok_iff split: option.splits)
  have key: "oa_key info' = hn_key h" using account_drop_key [OF drops] info Cons.prems(2) by auto
  have "\<forall>k i. ps_solana (put_solana info' S) k = Some i \<longrightarrow> oa_key i = k"
    using Cons.prems(2) by (auto simp: put_solana_def)
  from Cons.IH [OF rest this] show ?case by (simp add: put_solana_def key)
qed simp

context packable_laws
begin

lemma drop_saves:
  assumes "opened P S h" and "ps_solana S (hn_key h) = Some info"
    and "account_drop P \<lparr>ad_dirty = hn_dirty h, ad_data = hn_data h, ad_info = info\<rparr> = Ok info'"
  shows "\<exists>x. from_account P (ps_program_id S) info' = Ok x \<and> ad_data x = hn_data h"
proof (cases "hn_dirty h")
  case True
  obtain a where a: "from_account P (ps_program_id S) info = Ok a" using assms(1,2) by (auto simp: opened_def)
  have "ad_info a = info" using a by (auto simp: from_account_def rbind_Ok_iff split: if_splits)
  then have eq: "account_modify (\<lambda>_. hn_data h) a = \<lparr>ad_dirty = hn_dirty h, ad_data = hn_data h, ad_info = info\<rparr>"
    by (simp add: account_modify_def True)
  have "oa_is_writable info" using assms(3) True by (auto simp: account_drop_def rbind_Ok_iff rassert_def split: if_splits)
  from save_opens [OF a this, of "\<lambda>_. hn_data h"] show ?thesis using assms(3) by (auto simp: eq)
next
  case False
  then show ?thesis using assms by (auto simp: opened_def account_drop_def)
qed

lemma drop_handles_save:
  assumes "drop_handles P hs S = Ok S'" and "\<forall>k info. ps_solana S k = Some info \<longrightarrow> oa_key info = k"
    and "distinct (map hn_key hs)" and "\<forall>h \<in> set hs. opened P S h" and "h \<in> set hs"
  shows "\<exists>info x. ps_solana S' (hn_key h) = Some info \<and> from_account P (ps_program_id S) info = Ok x \<and> ad_data x = hn_data h"
  using assms
proof (induction hs arbitrary: S)
  case (Cons g hs)
  from Cons.prems(1) obtain info info' where info: "ps_solana S (hn_key g) = Some info"
      and drops: "account_drop P \<lparr>ad_dirty = hn_dirty g, ad_data = hn_data g, ad_info = info\<rparr> = Ok info'"
      and rest: "drop_handles P hs (put_solana info' S) = Ok S'"
    by (auto simp: drop_handle_def handle_info_def unwrap_def rbind_Ok_iff split: option.splits)
  have key: "oa_key info' = hn_key g" using account_drop_key [OF drops] info Cons.prems(2) by auto
  have keyed: "\<forall>k i. ps_solana (put_solana info' S) k = Some i \<longrightarrow> oa_key i = k"
    using Cons.prems(2) by (auto simp: put_solana_def)
  show ?case
  proof (cases "h = g")
    case True
    have "ps_solana S' (hn_key g) = Some info'"
      using drop_handles_frame [OF rest keyed] Cons.prems(3) by (auto simp: put_solana_def key)
    then show ?thesis using drop_saves [OF _ info drops] Cons.prems(4) True by auto
  next
    case False
    have "\<forall>h \<in> set hs. opened P (put_solana info' S) h"
    proof
      fix h assume "h \<in> set hs"
      then have "hn_key h \<in> hn_key ` set hs" "opened P S h" using Cons.prems(4) by auto
      moreover from this have "hn_key h \<noteq> hn_key g" using Cons.prems(3) by auto
      ultimately show "opened P (put_solana info' S) h" by (simp add: opened_def put_solana_def key)
    qed
    moreover have "ps_program_id (put_solana info' S) = ps_program_id S" by (simp add: put_solana_def)
    ultimately show ?thesis using Cons.IH [OF rest keyed] Cons.prems(3,5) False by simp
  qed
qed simp

end

lemma ps_drop_saves:
  assumes "ps_wf S" and "ps_drop S = Ok saved" and "(a, h) \<in> set (ps_ethereum S)"
  shows "\<exists>info x. saved (hn_key h) = Some info \<and> oa_key info = hn_key h
    \<and> from_account ether_account_packable (ps_program_id S) info = Ok x \<and> ad_data x = hn_data h"
proof -
  note wf = assms(1) [unfolded ps_wf_def]
  obtain S1 S2 where 1: "drop_handles ether_account_packable (map snd (ps_ethereum S)) S = Ok S1"
      and 2: "drop_handles storage_packable (map snd (ps_cells S1)) S1 = Ok S2" and saved: "saved = ps_solana S2"
    using assms(2) by (auto simp: ps_drop_def rbind_Ok_iff)
  have keyed: "\<forall>k info. ps_solana S k = Some info \<longrightarrow> oa_key info = k" using wf by blast
  have "distinct (ps_ethereum S)" "inj_on (\<lambda>(a, h). hn_key h) (set (ps_ethereum S))" using wf by (auto simp: distinct_map)
  then have "distinct (map hn_key (map snd (ps_ethereum S)))" by (simp add: distinct_map comp_def case_prod_beta inj_on_def)
  moreover have "\<forall>h \<in> set (map snd (ps_ethereum S)). opened ether_account_packable S h" using wf by auto
  moreover have "h \<in> set (map snd (ps_ethereum S))" using assms(3) by force
  ultimately obtain info x where info: "ps_solana S1 (hn_key h) = Some info"
      and x: "from_account ether_account_packable (ps_program_id S) info = Ok x" "ad_data x = hn_data h"
    using ether_account.drop_handles_save [OF 1 keyed] by blast
  note frame1 = drop_handles_frame [OF 1 keyed]
  have "ps_cells S1 = ps_cells S" using frame1 by blast
  moreover have "hn_key h \<notin> hn_key ` set (map snd (ps_cells S))"
  proof
    assume "hn_key h \<in> hn_key ` set (map snd (ps_cells S))"
    then obtain c where c: "opened storage_packable S c" "hn_key c = hn_key h" using wf by auto
    moreover have "opened ether_account_packable S h" using wf assms(3) by auto
    ultimately obtain i y z where "from_account storage_packable (ps_program_id S) i = Ok y"
        "from_account ether_account_packable (ps_program_id S) i = Ok z"
      by (auto simp: opened_def)
    then show False using storage_account.other_tag [of "ps_program_id S" i y ether_account_packable]
      by (auto simp: ether_account_packable_def storage_packable_def account_tags)
  qed
  ultimately have "saved (hn_key h) = Some info" "oa_key info = hn_key h"
    using drop_handles_frame [OF 2] frame1 info by (simp_all add: saved)
  then show ?thesis using x by blast
qed

section \<open>Opening again\<close>

lemma collect_finds:
  assumes "info \<in> set as" and "\<forall>i \<in> set as. oa_key i = oa_key info \<longrightarrow> i = info"
  shows "info \<in> set (map snd (collect_accounts_by_key as))"
proof -
  have "oa_key info \<in> fst ` set m \<or> info \<in> set as \<Longrightarrow> oa_key info \<in> fst ` set (foldl (\<lambda>m a. AList.update (oa_key a) a m) m as)" for m as
  proof (induction as arbitrary: m)
    case (Cons b as)
    then have "oa_key info \<in> fst ` set (AList.update (oa_key b) b m) \<or> info \<in> set as" by (simp only: dom_update) auto
    from Cons.IH [OF this] show ?case by simp
  qed simp
  then obtain i where i: "(oa_key info, i) \<in> set (collect_accounts_by_key as)"
    using assms(1) unfolding collect_accounts_by_key_def by force
  then have "oa_key info = oa_key i" "i \<in> set as" using collect_key [of as] by auto
  then have "i = info" using assms(2) by simp
  then show ?thesis using i by force
qed

text \<open>The accounts that the next instruction gets, as they are on the chain: the address of a contract is at one key.\<close>

definition same_chain :: "accounts \<Rightarrow> pubkey \<Rightarrow> pubkey \<Rightarrow> address \<Rightarrow> owned_account list \<Rightarrow> bool" where
  "same_chain chain program_id k a as \<longleftrightarrow> (\<forall>i \<in> set as. chain (oa_key i) = Some i
     \<and> (\<forall>x. from_account ether_account_packable program_id i = Ok x \<longrightarrow> ed_address (ad_data x) = a \<longrightarrow> oa_key i = k))"

lemma saved_reopens:
  assumes "ps_wf S" and "ps_drop S = Ok saved" and "(a, h) \<in> set (ps_ethereum S)"
    and "chain (hn_key h) = saved (hn_key h)"
    and "same_chain chain (ps_program_id S) (hn_key h) a (as @ [operator] @ (case system_program of Some s \<Rightarrow> [s] | None \<Rightarrow> []))"
    and "hn_key h \<in> oa_key ` set as"
    and "ps_new R slot_now timestamp (ps_program_id S) operator system_program as = Ok S'"
  shows "eth S' a = Some (hn_data h)"
proof -
  let ?as = "as @ [operator] @ (case system_program of Some s \<Rightarrow> [s] | None \<Rightarrow> [])"
  let ?m = "collect_accounts_by_key ?as"
  obtain info x where info: "saved (hn_key h) = Some info" "oa_key info = hn_key h"
      and x: "from_account ether_account_packable (ps_program_id S) info = Ok x" "ad_data x = hn_data h"
    using ps_drop_saves [OF assms(1-3)] by blast
  have a: "ed_address (ad_data x) = a" using assms(1,3) x(2) by (auto simp: ps_wf_def)
  have same: "i = info" if "i \<in> set ?as" "oa_key i = hn_key h" for i
  proof -
    have "chain (oa_key i) = Some i" using assms(5) that(1) unfolding same_chain_def by blast
    then show ?thesis using assms(4) info(1) that(2) by simp
  qed
  obtain j where "j \<in> set as" "oa_key j = hn_key h" using assms(6) by auto
  moreover from this have "j = info" by (intro same) simp_all
  ultimately have "info \<in> set ?as" by simp
  moreover have "\<forall>i \<in> set ?as. oa_key i = oa_key info \<longrightarrow> i = info" using same info(2) by metis
  ultimately have found: "info \<in> set (map snd ?m)" by (rule collect_finds)
  have only: "\<forall>i \<in> set (map snd ?m). \<forall>y. from_account ether_account_packable (ps_program_id S) i = Ok y
      \<longrightarrow> ed_address (ad_data y) = ed_address (ad_data x) \<longrightarrow> i = info"
  proof (intro ballI allI impI)
    fix i y assume i: "i \<in> set (map snd ?m)" and "from_account ether_account_packable (ps_program_id S) i = Ok y"
      and "ed_address (ad_data y) = ed_address (ad_data x)"
    moreover have "i \<in> set ?as" using i collect_key [of ?as] by fastforce
    ultimately have "oa_key i = hn_key h" "i \<in> set ?as" using assms(5) a unfolding same_chain_def by blast+
    then show "i = info" by (intro same)
  qed
  obtain S1 where opens: "open_accounts (ps_program_id S) (map snd ?m)
         \<lparr>ps_program_id = ps_program_id S, ps_operator = oa_key operator, ps_slot = slot_now, ps_timestamp = timestamp,
          ps_solana = map_of ?m, ps_ethereum = [], ps_cells = []\<rparr> = Ok S1"
      and clears: "clear_outdated R (map fst (ps_cells S1)) S1 = Ok S'"
    using assms(7) unfolding ps_new_def Let_def rbind_Ok_iff by blast
  from open_accounts_finds [OF x(1) only opens] found have "map_of (ps_ethereum S1) a = Some (handle_of x)" by (simp add: a)
  then show ?thesis using clear_outdated_frame [OF clears] x(2) by (simp add: eth_def handle_of_def)
qed

text \<open>C12: what an instruction has written to an account is what the next one reads: when the accounts of an instruction are
  saved and an account is opened again, its address has the header that the instruction left, changed or not.\<close>

theorem saved_accounts_reopen:
  assumes "ps_wf S" and "ps_drop S = Ok saved" and "(a, h) \<in> set (ps_ethereum S)"
    and "chain (hn_key h) = saved (hn_key h)"
    and "same_chain chain (ps_program_id S) (hn_key h) a (as @ [operator] @ (case system_program of Some s \<Rightarrow> [s] | None \<Rightarrow> []))"
    and "hn_key h \<in> oa_key ` set as"
    and "ps_new R slot_now timestamp (ps_program_id S) operator system_program as = Ok S'"
  shows "eth S' a = Some (hn_data h)"
  using assms by (rule saved_reopens)

section \<open>Locks\<close>

definition all_locked :: "program_storage \<Rightarrow> bool" where
  "all_locked S \<longleftrightarrow> (\<forall>(a, h) \<in> set (ps_ethereum S). ed_rw_blocked (hn_data h))"

lemma locked_block: "all_locked (block_accounts True S)"
  by (auto simp: all_locked_def block_accounts_def handle_modify_def)

lemma locked_modify:
  assumes "modify_ethereum a f S = Ok S'" and "all_locked S" and "\<forall>d. ed_rw_blocked (f d) = ed_rw_blocked d"
  shows "all_locked S'"
proof -
  obtain h where h: "(a, h) \<in> set (ps_ethereum S)" and S': "ps_ethereum S' = AList.update a (handle_modify f h) (ps_ethereum S)"
    using assms(1) by (auto simp: modify_ethereum_def split: option.splits dest: map_of_SomeD)
  have "ed_rw_blocked (hn_data h')" if "(b, h') \<in> set (ps_ethereum S')" for b h'
  proof -
    have "(b, h') = (a, handle_modify f h) \<or> (b, h') \<in> set (ps_ethereum S)" using that set_AList_update [of a "handle_modify f h" "ps_ethereum S"]
      unfolding S' by auto
    then show ?thesis using assms(2,3) h by (auto simp: all_locked_def handle_modify_def)
  qed
  then show ?thesis by (auto simp: all_locked_def)
qed

lemma locked_payment:
  assumes "transfer_gas_payment R origin operator v S = Ok (operator', S')" and "all_locked S"
  shows "all_locked S'"
proof -
  have "all_locked S'" if "modify_ethereum s (\<lambda>d. d\<lparr>ed_balance := ed_balance d - v\<rparr>) S = Ok S1"
      "modify_ethereum t (\<lambda>d. d\<lparr>ed_balance := ed_balance d + v\<rparr>) S1 = Ok S'" for s t S1
    using locked_modify [OF that(1) assms(2)] locked_modify [OF that(2)] by simp
  moreover have "all_locked S'" if "modify_ethereum origin (\<lambda>d. d\<lparr>ed_balance := ed_balance d - v\<rparr>) S = Ok S'"
    using locked_modify [OF that assms(2)] by simp
  ultimately show ?thesis using assms
    by (auto simp: transfer_gas_payment_def transfer_neon_tokens_def rbind_Ok_iff split: if_splits)
qed

lemma do_begin_locks:
  assumes "do_begin X T st S gasometer trx caller = Ok (T', kept, S')" and "ps_wf S"
  shows "ps_wf S' \<and> all_locked S' \<and> map fst (ps_ethereum S') = map fst (ps_ethereum S)"
proof -
  obtain st1 where fin: "finalize X 0 T st1 (block_accounts True S) None gasometer = Ok (T', kept, S')"
    using assms(1) by (auto simp: do_begin_def rbind_Ok_iff Let_def)
  then obtain g st2 T2 where paid: "pay_gas_cost X g T st1 (block_accounts True S) = Ok (T2, st2, S')"
    by (auto simp: finalize_def apply_results_def rbind_Ok_iff Let_def split: if_splits)
  then obtain origin operator v operator' where pay: "transfer_gas_payment (se_runtime X) origin operator v (block_accounts True S) = Ok (operator', S')"
    by (auto simp: pay_gas_cost_def rbind_Ok_iff Let_def)
  have "map fst (ps_ethereum (block_accounts True S)) = map fst (ps_ethereum S)"
    by (simp add: block_accounts_def comp_def case_prod_beta)
  then show ?thesis
    using ps_wf_payment [OF pay ps_wf_block [OF assms(2)]] locked_payment [OF pay locked_block] by simp
qed

lemma locked_is_refused: "eth S a = Some d \<Longrightarrow> ed_rw_blocked d \<Longrightarrow> check_for_blocked_accounts S = Err (ProgramError InvalidAccountData)"
  by (force simp: check_for_blocked_accounts_def eth_def list_ex_iff dest: map_of_SomeD)

text \<open>C6: an iterative transaction that has begun keeps every other transaction off its accounts: as soon as its accounts
  are saved, an instruction that opens one of them cannot begin another transaction and cannot execute one at once; both fail
  with the same error before anything is run.\<close>

theorem locked_account_excludes:
  assumes "ps_wf S" and "do_begin X T st S gasometer trx caller = Ok (T', kept, S1)"
    and "ps_drop S1 = Ok saved" and "(a, h) \<in> set (ps_ethereum S1)" and "chain (hn_key h) = saved (hn_key h)"
    and "same_chain chain (ps_program_id S1) (hn_key h) a (as @ [operator] @ (case system_program of Some s \<Rightarrow> [s] | None \<Rightarrow> []))"
    and "hn_key h \<in> oa_key ` set as"
    and "ps_new (se_runtime X) slot_now timestamp (ps_program_id S1) operator system_program as = Ok S2"
  shows "do_begin X T2 st2 S2 gasometer2 trx2 caller2 = Err (ProgramError InvalidAccountData)
    \<and> (trx_chain_id trx2 = Some (ucast (rt_chain_id (se_runtime X)))
       \<longrightarrow> execute_validate X S2 trx2 = Err (ProgramError InvalidAccountData))"
proof -
  have S1: "ps_wf S1" "all_locked S1" using do_begin_locks [OF assms(2,1)] by blast+
  have "eth S2 a = Some (hn_data h)" by (rule saved_reopens [OF S1(1) assms(3-8)])
  moreover have "ed_rw_blocked (hn_data h)" using S1(2) assms(4) by (auto simp: all_locked_def)
  ultimately show ?thesis using locked_is_refused by (simp add: do_begin_def execute_validate_def)
qed

section \<open>Two accounts and a cell\<close>

definition demo_contract :: "pubkey \<Rightarrow> ether_data \<Rightarrow> owned_account" where
  "demo_contract k d = (demo_account k 50 8)\<lparr>oa_data := TAG_ACCOUNT_V3 # ether_pack d\<rparr>"

definition demo_cell :: "pubkey \<Rightarrow> storage_data \<Rightarrow> owned_account" where
  "demo_cell k d = (demo_account k 50 8)\<lparr>oa_data := TAG_CONTRACT_STORAGE # storage_pack d @ 4 # be_bytes 32 (90 :: u256)\<rparr>"

lemma demo_keys: "oa_key (demo_contract k d) = k" "oa_owner (demo_contract k d) = 8" "oa_key (demo_cell k c) = k"
    "oa_owner (demo_cell k c) = 8" "oa_key (demo_account k n p) = k" "oa_owner (demo_account k n p) = p"
    "oa_lamports (demo_account k n p) = n" "oa_lamports (demo_cell k c) = 50" "oa_is_writable (demo_contract k d)"
  by (simp_all add: demo_contract_def demo_cell_def demo_account_def)

lemma demo_tags: "account_tag 8 (demo_contract k d) = Ok TAG_ACCOUNT_V3" "account_tag 8 (demo_cell k c) = Ok TAG_CONTRACT_STORAGE"
  by (simp_all add: demo_contract_def demo_cell_def demo_account_def account_tag_def)

lemma demo_opens:
  "from_account ether_account_packable 8 (demo_contract k d) = Ok \<lparr>ad_dirty = False, ad_data = d, ad_info = demo_contract k d\<rparr>"
  "from_account storage_packable 8 (demo_cell k c) = Ok \<lparr>ad_dirty = False, ad_data = c, ad_info = demo_cell k c\<rparr>"
  using ether_account.open_packed [of "demo_account k 50 8" 8 d "[]"]
    storage_account.open_packed [of "demo_account k 50 8" 8 c "4 # be_bytes 32 (90 :: u256)"]
  by (simp_all add: demo_contract_def demo_cell_def demo_account_def ether_account_packable_def storage_packable_def)

lemma as_program_error_of_Ok [simp]: "as_program_error (Ok x) = Ok x"
  by simp

lemma demo_tag_values [simp]: "TAG_CONTRACT_STORAGE \<noteq> TAG_ACCOUNT_V3"
  by (simp add: account_tags)

lemma demo_realloc: "realloc_ok (rt_realloc demo_runtime)"
  by (auto simp: realloc_ok_def demo_runtime_def min_def)

theorem ps_new_wf_witness:
  "(case ps_new demo_runtime 0 0 8 (demo_account 9 400 0) None [demo_contract 21 (demo_header 0x1001 4 100),
        demo_cell 23 \<lparr>sd_address = 0x1001, sd_generation = 5, sd_index = 0x100\<rparr>] of
     Ok S \<Rightarrow> ps_wf S \<and> (case map_of (ps_cells S) (0x1001, 0x100) of Some h \<Rightarrow> sd_generation (hn_data h) = 0 | None \<Rightarrow> False)
   | _ \<Rightarrow> False)"
proof -
  let ?as = "[demo_contract 21 (demo_header 0x1001 4 100), demo_cell 23 \<lparr>sd_address = 0x1001, sd_generation = 5, sd_index = 0x100\<rparr>]"
  have "\<exists>S h. ps_new demo_runtime 0 0 8 (demo_account 9 400 0) None ?as = Ok S
      \<and> map_of (ps_cells S) (0x1001, 0x100) = Some h \<and> sd_generation (hn_data h) = 0"
    by (simp add: ps_new_def collect_accounts_by_key_def demo_keys demo_tags demo_opens handle_of_def Let_def)
      (simp add: demo_header_def handle_info_def storage_clear_def account_modify_def demo_keys demo_runtime_def Let_def put_solana_def)
  then obtain S h where run: "ps_new demo_runtime 0 0 8 (demo_account 9 400 0) None ?as = Ok S"
      and h: "map_of (ps_cells S) (0x1001, 0x100) = Some h" "sd_generation (hn_data h) = 0" by blast
  from ps_new_wf [OF demo_realloc run] show ?thesis by (simp add: run h)
qed

text \<open>Both contracts opened, then locked by a transaction that has begun\<close>

definition demo_opened :: program_storage where
  "demo_opened = \<lparr>ps_program_id = 8, ps_operator = 9, ps_slot = 0, ps_timestamp = 0,
     ps_solana = [9 \<mapsto> demo_account 9 400 0, 22 \<mapsto> demo_contract 22 (demo_header 0x1002 1 7),
       21 \<mapsto> demo_contract 21 (demo_header 0x1001 4 100)],
     ps_ethereum = [(0x1001, \<lparr>hn_dirty = False, hn_data = demo_header 0x1001 4 100, hn_key = 21\<rparr>),
       (0x1002, \<lparr>hn_dirty = False, hn_data = demo_header 0x1002 1 7, hn_key = 22\<rparr>)],
     ps_cells = []\<rparr>"

abbreviation locked_header :: "address \<Rightarrow> u64 \<Rightarrow> u256 \<Rightarrow> ether_data" where
  "locked_header a n b \<equiv> (demo_header a n b)\<lparr>ed_rw_blocked := True\<rparr>"

definition demo_locked :: program_storage where
  "demo_locked = demo_opened\<lparr>ps_ethereum := [(0x1001, \<lparr>hn_dirty = True, hn_data = locked_header 0x1001 4 100, hn_key = 21\<rparr>),
       (0x1002, \<lparr>hn_dirty = True, hn_data = locked_header 0x1002 1 7, hn_key = 22\<rparr>)]\<rparr>"

lemma demo_addresses: "ed_address (demo_header a n b) = a" "ed_address (locked_header a n b) = a"
  by (simp_all add: demo_header_def)

lemma demo_ps_new: "ps_new R 0 0 8 (demo_account 9 400 0) None
    [demo_contract 21 (demo_header 0x1001 4 100), demo_contract 22 (demo_header 0x1002 1 7)] = Ok demo_opened"
  by (simp add: ps_new_def collect_accounts_by_key_def demo_keys demo_tags demo_opens handle_of_def Let_def demo_addresses
      demo_opened_def fun_eq_iff)

lemma demo_opened_wf: "ps_wf demo_opened"
  by (rule new_storage_wf [OF demo_realloc demo_ps_new])

definition demo_call :: transaction where
  "demo_call = \<lparr>tx_payload = Legacy \<lparr>l_nonce = 4, l_gas_price = 0, l_gas_limit = 20000, l_target = Some 0x1002, l_value = 0,
     l_call_data = buf_empty, l_v = 0, l_r = 0, l_s = 0, l_chain_id = Some 245022934, l_recovery_id = 0\<rparr>,
     tx_byte_len = 0, tx_hash = 77, tx_signed_hash = 0\<rparr>"

lemma demo_started: "\<exists>s. start_machine demo_setting (block_accounts True demo_opened) demo_call 0x1001 = Ok s"
proof -
  let ?B = "backend demo_runtime (block_accounts True demo_opened)"
  have reads: "as_nonce ?B 0x1001 = Ok 4" "as_balance ?B 0x1001 = Ok 100" "as_code_size ?B 0x1001 = Ok 0" "as_code ?B 0x1002 = Ok buf_empty"
      "as_chain_id ?B = 245022934"
    by (simp_all add: backend_def ps_nonce_def ps_balance_def ps_code_size_def ps_code_def map_account_def ethereum_account_def
        block_accounts_def demo_opened_def handle_modify_def demo_header_def code_size_def)
      (simp add: demo_runtime_def)
  have "\<exists>m x l. machine_new demo_env (executor_database demo_env L ?B) demo_call 0x1001 (executor_new ?B, []) = (Ok m, (x, l))" for L
    by (simp add: machine_new_def new_call_def demo_call_def trx_nonce_def trx_chain_id_def trx_value_def trx_target_def
      trx_call_data_def boot_read_def boot_db_def boot_log_def exec_simps executor_database_def executor_new_def reads
      ex_nonce_def ex_balance_def ex_code_size_def ex_code_def is_precompile_extension_def ex_increment_nonce_def
      push_action_def ex_snapshot_def ex_transfer_def read_container_def has_eof_magic_def EOF_MAGIC_def)
  then obtain m x l where "machine_new demo_env (executor_database demo_env (rt_solana demo_runtime) ?B) demo_call 0x1001 (executor_new ?B, []) = (Ok m, (x, l))"
    by blast
  then show ?thesis by (simp add: start_machine_def database_of_def) (simp add: demo_setting_def)
qed

lemma demo_begins:
  "\<exists>T' kept. do_begin demo_setting demo_trx_accounts (demo_state_of 0 0 0) demo_opened (gasometer_new None (demo_account 9 400 0)) demo_call 0x1001
     = Ok (T', kept, demo_locked)"
proof -
  obtain s where start: "start_machine demo_setting (block_accounts True demo_opened) demo_call 0x1001 = Ok s" using demo_started by blast
  have check: "check_for_blocked_accounts demo_opened = Ok ()"
    by (simp add: check_for_blocked_accounts_def demo_opened_def demo_header_def)
  have data: "evm_data (demo_state_of 0 0 0) = Ok ([1, 7, 7] @ replicate 20 0)"
    by (simp add: evm_data_Ok evm_data_region_def blocked_accounts_region_def demo_state_of_def demo_account_def state_size)
  obtain a' where saved: "serialize_evm_state demo_codec s (demo_state_of 0 0 0) = Ok a'"
      and a': "ad_data a' = (ad_data (demo_state_of 0 0 0))\<lparr>st_evm_state_len := 1, st_evm_machine_len := 2\<rparr>"
    by (simp add: serialize_evm_state_def data)
      (simp add: demo_codec_def put_evm_data_def put_slice_def evm_data_region_def account_modify_def
        blocked_accounts_region_def demo_state_of_def demo_account_def state_size)
  have op: "operator_info demo_trx_accounts (block_accounts True demo_opened) = Ok (demo_account 9 400 0)"
    by (simp add: operator_info_def demo_trx_accounts_def block_accounts_def demo_opened_def)
  have g: "record_operator_expenses (demo_account 9 400 0) (gasometer_new None (demo_account 9 400 0))
      = \<lparr>gm_paid_gas = 0, gm_gas = 0, gm_operator_balance = 400\<rparr>"
    by (simp add: record_operator_expenses_def gasometer_new_def demo_account_def add_gas_def saturating_add_def saturating_sub_def)
  have codec: "se_codec demo_setting = demo_codec" "se_runtime demo_setting = demo_runtime" by (simp_all add: demo_setting_def)
  have pay: "\<exists>op'. transfer_gas_payment demo_runtime 0x1001 (ta_operator_ether demo_trx_accounts) 0 (block_accounts True demo_opened)
      = Ok (op', demo_locked)"
    by (simp add: transfer_gas_payment_def ps_balance_def map_account_def ethereum_account_def transfer_neon_tokens_def
        modify_ethereum_def block_accounts_def handle_modify_def demo_opened_def demo_locked_def demo_trx_accounts_def demo_header_def)
  then show ?thesis
    by (simp add: do_begin_def check start saved codec finalize_def apply_results_def op Let_def)
      (auto simp: g used_gas_total_def used_gas_def saturating_add_def pay_gas_cost_def Let_def a' account_modify_def
        saturating_mul_def demo_state_of_def codec)
qed

lemma demo_drop_one: "account_drop ether_account_packable \<lparr>ad_dirty = True, ad_data = d', ad_info = demo_contract k d\<rparr> = Ok (demo_contract k d')"
  using ether_account.split_fresh [where info = "demo_account k 50 8" and t = TAG_ACCOUNT_V3 and d = d and rest = "[]"]
  by (simp add: account_drop_def demo_keys) (simp add: demo_contract_def ether_account_packable_def)

lemma demo_drop: "\<exists>saved. ps_drop demo_locked = Ok saved \<and> saved 21 = Some (demo_contract 21 (locked_header 0x1001 4 100))
    \<and> saved 22 = Some (demo_contract 22 (locked_header 0x1002 1 7)) \<and> saved 9 = Some (demo_account 9 400 0)"
  by (simp add: ps_drop_def demo_locked_def demo_opened_def drop_handle_def handle_info_def demo_drop_one put_solana_def demo_keys)

lemma demo_reopens: "\<exists>S. ps_new R 0 0 8 (demo_account 9 400 0) None
    [demo_contract 21 (locked_header 0x1001 4 100), demo_contract 22 (locked_header 0x1002 1 7)] = Ok S"
  by (simp add: ps_new_def collect_accounts_by_key_def demo_keys demo_tags demo_opens handle_of_def Let_def demo_addresses)

lemma demo_same_chain:
  assumes "chain 21 = Some (demo_contract 21 (locked_header 0x1001 4 100))" "chain 22 = Some (demo_contract 22 (locked_header 0x1002 1 7))"
    "chain 9 = Some (demo_account 9 400 0)"
  shows "same_chain chain 8 21 0x1001 ([demo_contract 21 (locked_header 0x1001 4 100), demo_contract 22 (locked_header 0x1002 1 7)]
    @ [demo_account 9 400 0] @ (case None of Some s \<Rightarrow> [s] | None \<Rightarrow> []))"
  using assms by (simp add: same_chain_def demo_keys demo_opens demo_addresses) (simp add: from_account_def demo_keys)

lemma demo_locked_wf: "ps_wf demo_locked"
  using demo_begins do_begin_locks demo_opened_wf by blast

lemma demo_locked_parts: "ps_program_id demo_locked = 8" "(0x1001, \<lparr>hn_dirty = True, hn_data = locked_header 0x1001 4 100, hn_key = 21\<rparr>) \<in> set (ps_ethereum demo_locked)"
  by (simp_all add: demo_locked_def demo_opened_def)

theorem saved_accounts_reopen_witness:
  "(case ps_drop demo_locked of
     Ok saved \<Rightarrow> (case ps_new demo_runtime 0 0 8 (demo_account 9 400 0) None (map (the \<circ> saved) [21, 22]) of
        Ok S \<Rightarrow> (case eth S 0x1001 of Some d \<Rightarrow> ed_rw_blocked d \<and> ed_balance d = 100 | None \<Rightarrow> False) | _ \<Rightarrow> False)
   | _ \<Rightarrow> False)"
proof -
  obtain saved where saved: "ps_drop demo_locked = Ok saved" and at: "saved 21 = Some (demo_contract 21 (locked_header 0x1001 4 100))"
      "saved 22 = Some (demo_contract 22 (locked_header 0x1002 1 7))" "saved 9 = Some (demo_account 9 400 0)"
    using demo_drop by blast
  obtain S where new: "ps_new demo_runtime 0 0 8 (demo_account 9 400 0) None
      [demo_contract 21 (locked_header 0x1001 4 100), demo_contract 22 (locked_header 0x1002 1 7)] = Ok S"
    using demo_reopens by blast
  have "eth S 0x1001 = Some (locked_header 0x1001 4 100)"
    using saved_accounts_reopen [OF demo_locked_wf saved demo_locked_parts(2), of saved "[demo_contract 21 (locked_header 0x1001 4 100),
        demo_contract 22 (locked_header 0x1002 1 7)]" "demo_account 9 400 0" None demo_runtime 0 0 S] demo_same_chain [OF at] new
    by (simp add: demo_locked_parts demo_keys)
  then show ?thesis by (simp add: saved at new) (simp add: demo_header_def)
qed

theorem locked_account_excludes_witness:
  "(let g = gasometer_new None (demo_account 9 400 0) in
   case do_begin demo_setting demo_trx_accounts (demo_state_of 0 0 0) demo_opened g demo_call 0x1001 of
     Ok (_, _, S1) \<Rightarrow> (case ps_drop S1 of
        Ok saved \<Rightarrow> (case ps_new demo_runtime 0 0 8 (demo_account 9 400 0) None (map (the \<circ> saved) [21, 22]) of
           Ok S2 \<Rightarrow> do_begin demo_setting demo_trx_accounts (demo_state_of 0 0 0) S2 g demo_call 0x1001 = Err (ProgramError InvalidAccountData)
             \<and> execute_validate demo_setting S2 demo_call = Err (ProgramError InvalidAccountData)
         | _ \<Rightarrow> False) | _ \<Rightarrow> False)
   | _ \<Rightarrow> False)"
proof -
  obtain T' kept where begun: "do_begin demo_setting demo_trx_accounts (demo_state_of 0 0 0) demo_opened
      (gasometer_new None (demo_account 9 400 0)) demo_call 0x1001 = Ok (T', kept, demo_locked)"
    using demo_begins by blast
  obtain saved where saved: "ps_drop demo_locked = Ok saved" and at: "saved 21 = Some (demo_contract 21 (locked_header 0x1001 4 100))"
      "saved 22 = Some (demo_contract 22 (locked_header 0x1002 1 7))" "saved 9 = Some (demo_account 9 400 0)"
    using demo_drop by blast
  obtain S where new: "ps_new demo_runtime 0 0 8 (demo_account 9 400 0) None
      [demo_contract 21 (locked_header 0x1001 4 100), demo_contract 22 (locked_header 0x1002 1 7)] = Ok S"
    using demo_reopens by blast
  have runtime: "se_runtime demo_setting = demo_runtime" and chain: "trx_chain_id demo_call = Some (ucast (rt_chain_id demo_runtime))"
    by (simp_all add: demo_setting_def demo_call_def trx_chain_id_def demo_runtime_def)
  have "do_begin demo_setting demo_trx_accounts (demo_state_of 0 0 0) S (gasometer_new None (demo_account 9 400 0)) demo_call 0x1001
      = Err (ProgramError InvalidAccountData) \<and> execute_validate demo_setting S demo_call = Err (ProgramError InvalidAccountData)"
    using locked_account_excludes [OF demo_opened_wf begun saved demo_locked_parts(2), of saved "[demo_contract 21 (locked_header 0x1001 4 100),
        demo_contract 22 (locked_header 0x1002 1 7)]" "demo_account 9 400 0" None 0 0 S] demo_same_chain [OF at] new
    by (simp add: demo_locked_parts demo_keys runtime chain)
  then show ?thesis by (simp add: begun saved at new)
qed

end
