(* ===== verification/Apply_Total.thy ===== *)
theory Apply_Total
  imports Account_Locks
begin

text \<open>
  Logs that are applied without an error: transfers, withdrawals and nonces of opened accounts and writes to the slots in
  the accounts of contracts.  Afterwards the accounts are read as the executor has read them through the log.
\<close>

section \<open>What the actions leave\<close>

text \<open>The keys and sizes of code of the opened accounts\<close>

definition held :: "program_storage \<Rightarrow> address \<Rightarrow> (pubkey \<times> u32) option" where
  "held S a = map_option (\<lambda>h. (hn_key h, ed_code_size (hn_data h))) (map_of (ps_ethereum S) a)"

definition writes_of :: "address \<Rightarrow> journal_action list \<Rightarrow> (u256 \<times> bytes32) list" where
  "writes_of a acts = List.map_filter (\<lambda>act. case act of EvmSetStorage b i v \<Rightarrow> if b = a then Some (i, v) else None | _ \<Rightarrow> None) acts"

definition collected :: "storage_writes \<Rightarrow> address \<Rightarrow> (u256 \<times> bytes32) list" where
  "collected st a = (case map_of st a of Some ws \<Rightarrow> ws | None \<Rightarrow> [])"

lemma writes_of_simps [simp]: "writes_of a [] = []"
    "writes_of a (act # acts) = (case act of EvmSetStorage b i v \<Rightarrow> if b = a then [(i, v)] else [] | _ \<Rightarrow> []) @ writes_of a acts"
  by (simp_all add: writes_of_def List.map_filter_simps split: journal_action.split)

lemma find_storage_writes: "find_storage a i (rev acts) = map_of (rev (writes_of a acts)) i"
proof (induction acts)
  case (Cons act acts)
  show ?case by (cases act) (auto simp: find_storage_append Cons.IH map_add_def split: option.split)
qed simp

lemma held_dom: "held S' = held S \<Longrightarrow> dom (eth S') = dom (eth S)"
proof -
  assume "held S' = held S"
  moreover have "dom (held T) = dom (eth T)" for T by (auto simp: held_def eth_def)
  ultimately show ?thesis by metis
qed

lemma modify_held:
  assumes "modify_ethereum a f S = Ok S'" and "\<forall>d. ed_code_size (f d) = ed_code_size d"
  shows "ps_solana S' = ps_solana S \<and> held S' = held S"
  using assms by (auto simp: modify_ethereum_def held_def update_conv' handle_modify_def fun_eq_iff split: option.splits)

lemma apply_one_held:
  assumes "apply_one R act (S, st) = Ok (S', st')" and "plain_on S act"
  shows "ps_solana S' = ps_solana S \<and> held S' = held S
    \<and> st' = (case act of EvmSetStorage a i v \<Rightarrow> add_write a i v st | _ \<Rightarrow> st)"
  using assms
  by (auto simp: apply_one_def plain_on_def transfer_neon_tokens_def withdraw_neon_tokens_def increment_nonce_def rbind_Ok_iff
      split: journal_action.splits if_splits dest!: modify_held)

lemma add_write_distinct: "distinct (map fst st) \<Longrightarrow> distinct (map fst (add_write a i v st))"
  by (simp add: add_write_def distinct_update)

lemma collected_add: "collected (add_write a i v st) b = collected st b @ (if b = a then [(i, v)] else [])"
  by (simp add: collected_def add_write_def update_conv' split: option.split)

lemma apply_actions_held:
  "apply_actions R acts (S, st) = Ok (S', st') \<Longrightarrow> list_all (plain_on S) acts \<Longrightarrow>
     ps_solana S' = ps_solana S \<and> held S' = held S \<and> (\<forall>a. collected st' a = collected st a @ writes_of a acts)
     \<and> (distinct (map fst st) \<longrightarrow> distinct (map fst st'))"
proof (induction acts arbitrary: S st)
  case (Cons act acts)
  from Cons.prems(1) obtain S1 st1 where one: "apply_one R act (S, st) = Ok (S1, st1)"
      and rest: "apply_actions R acts (S1, st1) = Ok (S', st')"
    by (auto simp: rbind_Ok_iff)
  note 1 = apply_one_held [OF one] 
  have "list_all (plain_on S1) acts"
    using Cons.prems(2) 1 plain_on_dom [OF held_dom, of S1 S] by (simp add: list_all_iff)
  from Cons.IH [OF rest this] 1 Cons.prems(2) show ?case
    by (cases act) (auto simp: collected_add add_write_distinct)
qed simp

lemma add_write_nonempty: "[] \<notin> snd ` set st \<Longrightarrow> [] \<notin> snd ` set (add_write b i v st)"
  using set_AList_update [of b "(case map_of st b of Some ws \<Rightarrow> ws | None \<Rightarrow> []) @ [(i, v)]" st]
  by (auto simp: add_write_def)

lemma apply_actions_nonempty:
  "apply_actions R acts (S, st) = Ok (S', st') \<Longrightarrow> [] \<notin> snd ` set st \<Longrightarrow> [] \<notin> snd ` set st'"
proof (induction acts arbitrary: S st)
  case (Cons act acts)
  from Cons.prems(1) obtain S1 st1 where one: "apply_one R act (S, st) = Ok (S1, st1)"
      and rest: "apply_actions R acts (S1, st1) = Ok (S', st')"
    by (auto simp: rbind_Ok_iff)
  have "st1 = st \<or> (\<exists>b i v. st1 = add_write b i v st) \<or> (\<exists>b. st1 = AList.delete b st)"
    using one by (cases act) (auto simp: apply_one_def rbind_Ok_iff)
  moreover have "set (AList.delete b st) \<subseteq> set st" for b by (simp add: AList.delete_eq)
  ultimately have "[] \<notin> snd ` set st1" using add_write_nonempty [OF Cons.prems(2)] Cons.prems(2) by blast
  from Cons.IH [OF rest this] show ?case .
qed auto

section \<open>The slots in the account of a contract\<close>

definition slot_at :: "bytes \<Rightarrow> nat \<Rightarrow> bytes32" where
  "slot_at data j = from_be (take 32 (drop (ether_size + j * 32) data))"

definition room :: "program_storage \<Rightarrow> pubkey \<Rightarrow> bool" where
  "room S k \<longleftrightarrow> (\<exists>info. ps_solana S k = Some info \<and> oa_key info = k \<and> ether_size + INTERNAL_STORAGE_SIZE \<le> length (oa_data info))"

definition slots :: "program_storage \<Rightarrow> pubkey \<Rightarrow> nat \<Rightarrow> bytes32" where
  "slots S k j = (case ps_solana S k of Some info \<Rightarrow> slot_at (oa_data info) j | None \<Rightarrow> 0)"

lemma internal_size: "INTERNAL_STORAGE_SIZE = 2048"
  by (simp add: INTERNAL_STORAGE_SIZE_def STORAGE_ENTRIES_IN_CONTRACT_ACCOUNT_def)

lemma slice_eqI:
  assumes "length xs = length ys" and "\<And>k. k < n \<Longrightarrow> p + k < length ys \<Longrightarrow> xs ! (p + k) = ys ! (p + k)"
  shows "take n (drop p xs) = take n (drop p ys)"
  using assms by (intro nth_equalityI) auto

lemma slot_at_put:
  assumes "length bs = 32" and "p + 32 * i + 32 \<le> length data"
  shows "take 32 (drop (p + j * 32) (take (p + i * 32) data @ bs @ drop (p + i * 32 + 32) data))
    = (if j = i then bs else take 32 (drop (p + j * 32) data))"
proof (cases "j = i")
  case True
  then show ?thesis using assms by simp
next
  case False
  let ?new = "take (p + i * 32) data @ bs @ drop (p + i * 32 + 32) data"
  have "length ?new = length data" using assms by simp
  moreover have "?new ! (p + j * 32 + k) = data ! (p + j * 32 + k)" if "k < 32" "p + j * 32 + k < length data" for k
  proof (cases "j < i")
    case True
    then have "p + j * 32 + k < p + i * 32" using that(1) by linarith
    then show ?thesis using assms by (simp add: nth_append)
  next
    case F: False
    then have "p + i * 32 + 32 \<le> p + j * 32 + k" using False by linarith
    then obtain m where m: "p + j * 32 + k = p + i * 32 + 32 + m" using le_Suc_ex by blast
    then show ?thesis using assms that unfolding m by (simp add: nth_append)
  qed
  ultimately have "take 32 (drop (p + j * 32) ?new) = take 32 (drop (p + j * 32) data)"
    by (rule slice_eqI)
  then show ?thesis using False by simp
qed

lemma write_static_slots:
  assumes "room S (hn_key c)" and "unat i < 64"
  shows "\<exists>S'. write_static c i v S = Ok S' \<and> ps_ethereum S' = ps_ethereum S \<and> ps_cells S' = ps_cells S
    \<and> (\<forall>k. room S' k = room S k) \<and> (\<forall>k j. slots S' k j = (if k = hn_key c \<and> j = unat i then v else slots S k j))"
proof -
  obtain info where info: "ps_solana S (hn_key c) = Some info" "oa_key info = hn_key c"
      and len: "ether_size + 2048 \<le> length (oa_data info)"
    using assms(1) by (auto simp: room_def internal_size)
  let ?b = "ether_size + unat i * 32"
  define data where "data = take ?b (oa_data info) @ be_bytes 32 v @ drop (?b + 32) (oa_data info)"
  have put: "put_slice ?b (be_bytes 32 v) (oa_data info) = Ok data" using len assms(2) by (simp add: put_slice_Ok data_def)
  let ?S = "put_solana (info\<lparr>oa_data := data\<rparr>) S"
  have "write_static c i v S = Ok ?S"
    using info(1) len put by (simp add: write_static_def handle_info_def unwrap_def contract_storage_def extension_part_def slice_from_def
        slice_at_def internal_size put_extension_part_def)
  moreover have "length data = length (oa_data info)" using put_slice_parts(1) [OF put] .
  moreover have "slot_at data j = (if j = unat i then v else slot_at (oa_data info) j)" for j
    using slot_at_put [of "be_bytes 32 v" ether_size "unat i" "oa_data info" j] len assms(2)
    by (simp add: slot_at_def data_def from_be_be_bytes)
  ultimately show ?thesis
    using info by (intro exI [of _ ?S]) (auto simp: put_solana_def room_def slots_def)
qed

lemma write_cells_slots:
  "room S (hn_key c) \<Longrightarrow> \<forall>(i, v) \<in> set ws. unat i < 64 \<Longrightarrow>
   \<exists>S'. write_cells R operator c ws (S, t) = Ok (S', t) \<and> ps_ethereum S' = ps_ethereum S \<and> ps_cells S' = ps_cells S
    \<and> (\<forall>k. room S' k = room S k)
    \<and> (\<forall>k j. slots S' k (unat j) = (if k = hn_key c then (case map_of (rev ws) j of Some v \<Rightarrow> v | None \<Rightarrow> slots S k (unat j))
        else slots S k (unat j)))"
proof (induction ws arbitrary: S)
  case (Cons w ws)
  obtain i v where w: "w = (i, v)" by (cases w)
  have i: "unat i < 64" using Cons.prems(2) w by auto
  obtain S1 where 1: "write_static c i v S = Ok S1" "ps_ethereum S1 = ps_ethereum S" "ps_cells S1 = ps_cells S"
      "\<forall>k. room S1 k = room S k" "\<forall>k j. slots S1 k j = (if k = hn_key c \<and> j = unat i then v else slots S k j)"
    using write_static_slots [OF Cons.prems(1) i] by blast
  have "room S1 (hn_key c)" using 1(4) Cons.prems(1) by simp
  from Cons.IH [OF this] Cons.prems(2) obtain S2 where 2: "write_cells R operator c ws (S1, t) = Ok (S2, t)"
      "ps_ethereum S2 = ps_ethereum S1" "ps_cells S2 = ps_cells S1" "\<forall>k. room S2 k = room S1 k"
      "\<forall>k j. slots S2 k (unat j) = (if k = hn_key c then (case map_of (rev ws) j of Some v \<Rightarrow> v | None \<Rightarrow> slots S1 k (unat j))
        else slots S1 k (unat j))"
    by auto
  have "write_cells R operator c (w # ws) (S, t) = Ok (S2, t)"
    using 1(1) 2(1) i by (simp add: w write_cell_def STORAGE_ENTRIES_IN_CONTRACT_ACCOUNT_def)
  moreover have "slots S2 k (unat j) = (if k = hn_key c then (case map_of (rev (w # ws)) j of Some v \<Rightarrow> v | None \<Rightarrow> slots S k (unat j))
        else slots S k (unat j))" for k j
    using 2(5) 1(5) word_unat_eq_iff [of j i] by (auto simp: w map_add_def split: option.split)
  ultimately show ?case using 1 2 by (intro exI [of _ S2]) simp
qed (auto split: option.split)

definition keys_apart :: "program_storage \<Rightarrow> bool" where
  "keys_apart S \<longleftrightarrow> (\<forall>a k n a' n'. held S a = Some (k, n) \<longrightarrow> held S a' = Some (k, n') \<longrightarrow> a = a')"

definition takes_static :: "program_storage \<Rightarrow> address \<Rightarrow> (u256 \<times> bytes32) list \<Rightarrow> bool" where
  "takes_static S a ws \<longleftrightarrow> (\<exists>k n. held S a = Some (k, n) \<and> n \<noteq> 0 \<and> room S k) \<and> (\<forall>(i, v) \<in> set ws. unat i < 64)"

lemma write_contracts_slots:
  "keys_apart S \<Longrightarrow> distinct (map fst st) \<Longrightarrow> \<forall>(a, ws) \<in> set st. takes_static S a ws \<Longrightarrow>
   \<exists>S'. write_contracts R operator st (S, t) = Ok (S', t) \<and> ps_ethereum S' = ps_ethereum S \<and> ps_cells S' = ps_cells S
    \<and> (\<forall>k. room S' k = room S k)
    \<and> (\<forall>a k n j. held S a = Some (k, n) \<longrightarrow>
        slots S' k (unat j) = (case map_of (rev (collected st a)) j of Some v \<Rightarrow> v | None \<Rightarrow> slots S k (unat j)))"
proof (induction st arbitrary: S)
  case (Cons w st)
  obtain b ws where w: "w = (b, ws)" by (cases w)
  obtain c where c: "map_of (ps_ethereum S) b = Some c" "is_contract (hn_data c)" "room S (hn_key c)"
      and static: "\<forall>(i, v) \<in> set ws. unat i < 64"
    using Cons.prems(3) by (auto simp: w takes_static_def held_def is_contract_def code_size_def unat_eq_0)
  obtain S1 where 1: "write_cells R operator c ws (S, t) = Ok (S1, t)" "ps_ethereum S1 = ps_ethereum S" "ps_cells S1 = ps_cells S"
      "\<forall>k. room S1 k = room S k"
      "\<forall>k j. slots S1 k (unat j) = (if k = hn_key c then (case map_of (rev ws) j of Some v \<Rightarrow> v | None \<Rightarrow> slots S k (unat j))
        else slots S k (unat j))"
    using write_cells_slots [OF c(3) static] by blast
  have held: "held S1 = held S" using 1(2) by (simp add: held_def fun_eq_iff)
  have "keys_apart S1" "\<forall>(a, ws) \<in> set st. takes_static S1 a ws"
    using Cons.prems 1(4) by (simp_all add: keys_apart_def takes_static_def held)
  from Cons.IH [OF this(1) _ this(2)] Cons.prems(2) obtain S2 where 2: "write_contracts R operator st (S1, t) = Ok (S2, t)"
      "ps_ethereum S2 = ps_ethereum S1" "ps_cells S2 = ps_cells S1" "\<forall>k. room S2 k = room S1 k"
      "\<forall>a k n j. held S a = Some (k, n) \<longrightarrow>
        slots S2 k (unat j) = (case map_of (rev (collected st a)) j of Some v \<Rightarrow> v | None \<Rightarrow> slots S1 k (unat j))"
    by (auto simp: held)
  have "write_contracts R operator (w # st) (S, t) = Ok (S2, t)"
    using 1(1) 2(1) c by (simp add: w unwrap_def rassert_def)
  moreover have "slots S2 k (unat j) = (case map_of (rev (collected (w # st) a)) j of Some v \<Rightarrow> v | None \<Rightarrow> slots S k (unat j))"
    if a: "held S a = Some (k, n)" for a k n j
  proof (cases "a = b")
    case True
    then have "collected st a = []" using Cons.prems(2) by (auto simp: w collected_def split: option.split dest!: map_of_SomeD intro: rev_image_eqI)
    moreover have "k = hn_key c" using a True c(1) by (simp add: held_def)
    moreover have "collected (w # st) a = ws" by (simp add: w True collected_def)
    ultimately show ?thesis using 2(5) [rule_format, OF a, of j] 1(5) [rule_format, of k j] by simp
  next
    case False
    have "held S b = Some (hn_key c, ed_code_size (hn_data c))" by (simp add: held_def c(1))
    then have "k \<noteq> hn_key c" using Cons.prems(1) a False by (auto simp: keys_apart_def)
    moreover have "collected (w # st) a = collected st a" using False by (simp add: w collected_def)
    ultimately show ?thesis using 2(5) [rule_format, OF a, of j] 1(5) [rule_format, of k j] by (simp split: option.split)
  qed
  ultimately show ?case using 1 2 by (intro exI [of _ S2]) simp
qed (auto simp: collected_def)


section \<open>The other phases\<close>

definition has_slots :: "program_storage \<Rightarrow> address \<Rightarrow> bool" where
  "has_slots S a \<longleftrightarrow> (\<exists>h info. map_of (ps_ethereum S) a = Some h \<and> is_contract (hn_data h) \<and> ps_solana S (hn_key h) = Some info
     \<and> ether_size + INTERNAL_STORAGE_SIZE \<le> length (oa_data info))"

text \<open>Actions on opened accounts; of the writes to storage those to the slots in the account of a contract\<close>

definition applies_plainly :: "program_storage \<Rightarrow> journal_action \<Rightarrow> bool" where
  "applies_plainly S act \<longleftrightarrow> plain_on S act
     \<and> (case act of EvmSetStorage a i v \<Rightarrow> unat i < STORAGE_ENTRIES_IN_CONTRACT_ACCOUNT \<and> has_slots S a | _ \<Rightarrow> True)"

lemma plain_rearranged: "list_all (plain_on S) acts \<Longrightarrow> rearrange_actions acts = acts"
proof -
  assume plain: "list_all (plain_on S) acts"
  have "EvmSelfDestruct a \<notin> set acts" for a using plain by (auto simp: list_all_iff plain_on_def)
  then have none: "accounts_to_destroy acts = {}" by (auto simp: destroyed_iff)
  have "filter (is_kept {}) acts = acts" "filter is_destruct acts = []"
    using plain by (auto simp: list_all_iff plain_on_def is_kept_def is_destruct_def intro!: filter_True filter_False split: journal_action.splits)
  then show ?thesis by (simp add: rearrange_actions_def rearrange_loop_filters none)
qed

lemma space_of_plain:
  "list_all (plain_on S) acts \<Longrightarrow> \<forall>(a, n) \<in> set m. eth S a \<noteq> None \<and> n = ether_size
     \<Longrightarrow> \<forall>(a, n) \<in> set (space_by_account acts m). eth S a \<noteq> None \<and> n = ether_size"
proof (induction acts arbitrary: m)
  case (Cons act acts)
  show ?case
  proof (cases "needed_by act")
    case (Some x)
    then obtain a where x: "x = (a, 0)" "eth S a \<noteq> None"
      using Cons.prems(1) by (auto simp: needed_by_def plain_on_def split: journal_action.splits)
    have "\<forall>(b, n) \<in> set (AList.update a ether_size m). eth S b \<noteq> None \<and> n = ether_size"
      using set_AList_update [of a ether_size m] Cons.prems(2) x(2) by auto
    moreover have "(case map_of m a of Some max_size \<Rightarrow> AList.update a (max (space_needed 0) max_size) m
         | None \<Rightarrow> AList.update a (space_needed 0) m) = AList.update a ether_size m"
      using Cons.prems(2) by (auto simp: space_needed_def split: option.split dest!: map_of_SomeD)
    ultimately show ?thesis using Cons.IH Cons.prems(1) Some x(1) by simp
  qed (use Cons in simp)
qed simp

lemma opened_account:
  assumes "ps_wf S" and "map_of (ps_ethereum S) a = Some h"
  shows "\<exists>info. ps_solana S (hn_key h) = Some info \<and> oa_key info = hn_key h \<and> oa_owner info = ps_program_id S
    \<and> ether_size \<le> length (oa_data info)"
proof -
  obtain info x where "ps_solana S (hn_key h) = Some info" "from_account ether_account_packable (ps_program_id S) info = Ok x"
    using assms map_of_SomeD [OF assms(2)] by (auto simp: ps_wf_def opened_def)
  then show ?thesis using assms(1)
    by (auto simp: ps_wf_def from_account_def split_account_data_def ether_account_packable_def account_size_def rbind_Ok_iff split: if_splits)
qed

lemma no_operations:
  assumes "ps_wf S" and "ps_program_id S \<noteq> sol_system_id (rt_solana R)"
  shows "\<forall>(a, n) \<in> set m. eth S a \<noteq> None \<and> n = ether_size \<Longrightarrow> operations_for R S m = Ok []"
proof (induction m)
  case (Cons x m)
  obtain a n where x: "x = (a, n)" by (cases x)
  then obtain h where h: "map_of (ps_ethereum S) a = Some h" using Cons.prems by (auto simp: eth_def)
  obtain info where "ps_solana S (hn_key h) = Some info" "oa_owner info = ps_program_id S" "ether_size \<le> length (oa_data info)"
    using opened_account [OF assms(1) h] by blast
  then show ?case using Cons assms(2) h
    by (simp add: x ps_solana_account_space_def solana_address_def unwrap_def rassert_def)
qed simp

lemma nothing_missing: "list_all (plain_on S) acts \<Longrightarrow> create_missing R acts S = Ok S"
  by (induction acts)
    (auto simp: created_by_def plain_on_def create_account_if_not_exists_def eth_def split: journal_action.splits option.splits)

lemma ps_storage_slots:
  assumes "map_of (ps_ethereum S) a = Some h" and "is_contract (hn_data h)" and "room S (hn_key h)" and "unat i < 64"
  shows "ps_storage R S a i = Ok (slots S (hn_key h) (unat i))"
proof -
  obtain info where info: "ps_solana S (hn_key h) = Some info" "ether_size + 2048 \<le> length (oa_data info)"
    using assms(3) by (auto simp: room_def internal_size)
  have "take 32 (drop (unat i * 32) (take 2048 (drop ether_size (oa_data info)))) = take 32 (drop (ether_size + unat i * 32) (oa_data info))"
    using assms(4) by (simp add: drop_take min_def add.commute)
  then show ?thesis using assms info
    by (simp add: ps_storage_def STORAGE_ENTRIES_IN_CONTRACT_ACCOUNT_def map_account_def ethereum_account_def handle_info_def unwrap_def
      contract_storage_def extension_part_def slice_from_def slice_at_def internal_size slots_def slot_at_def) linarith
qed


lemma static_writes:
  "list_all (applies_plainly S) acts \<Longrightarrow> (i, v) \<in> set (writes_of a acts) \<Longrightarrow> unat i < 64 \<and> has_slots S a"
  by (induction acts)
    (auto simp: applies_plainly_def STORAGE_ENTRIES_IN_CONTRACT_ACCOUNT_def split: journal_action.splits if_splits)

lemma wf_keys_apart: "ps_wf S \<Longrightarrow> keys_apart S"
proof -
  assume wf: "ps_wf S"
  have "a = a'" if "map_of (ps_ethereum S) a = Some h" "map_of (ps_ethereum S) a' = Some h'" "hn_key h = hn_key h'" for a a' h h'
    using wf map_of_SomeD [OF that(1)] map_of_SomeD [OF that(2)] that(3) unfolding ps_wf_def inj_on_def by fastforce
  then show ?thesis by (auto simp: keys_apart_def held_def)
qed

lemma has_slots_room: "ps_wf S \<Longrightarrow> has_slots S a \<Longrightarrow> \<exists>k n. held S a = Some (k, n) \<and> n \<noteq> 0 \<and> room S k"
proof -
  assume wf: "ps_wf S" and "has_slots S a"
  then obtain h info where h: "map_of (ps_ethereum S) a = Some h" "is_contract (hn_data h)" "ps_solana S (hn_key h) = Some info"
      "ether_size + INTERNAL_STORAGE_SIZE \<le> length (oa_data info)"
    unfolding has_slots_def by blast
  moreover have "oa_key info = hn_key h" using wf h(3) by (simp add: ps_wf_def)
  moreover have "ed_code_size (hn_data h) \<noteq> 0" using h(2) by (auto simp: is_contract_def code_size_def)
  ultimately show ?thesis by (simp add: held_def room_def)
qed

text \<open>C32: on opened accounts that are well formed (\<open>ps_wf\<close>), of a program that is not the system program, a log is applied
  without an error, and in one go, when it is made of transfers, withdrawals, nonces of opened accounts and writes to the slots in the accounts of opened contracts, and the executor can read the balance and the nonce of every
  opened account through it without an underflow or overflow.  Afterwards the accounts are read as the executor read them
  through the log: every balance, every nonce, and every slot in the account of a contract.\<close>

theorem readable_log_applies:
  assumes "ps_wf S" and "ps_program_id S \<noteq> sol_system_id (rt_solana R)" and "list_all (applies_plainly S) (ex_actions x)"
    and "\<And>a. eth S a \<noteq> None \<Longrightarrow> \<exists>v. ex_balance (backend R S) a x = Ok v"
    and "\<And>a. eth S a \<noteq> None \<Longrightarrow> \<exists>n. ex_nonce (backend R S) a x = Ok n"
  shows "\<exists>S'. apply_state_change R operator (ex_actions x) S = Ok (Ready, S')
    \<and> (\<forall>a. eth S a \<noteq> None \<longrightarrow> ps_balance R S' a = ex_balance (backend R S) a x \<and> ps_nonce R S' a = ex_nonce (backend R S) a x
        \<and> (\<forall>i. has_slots S a \<longrightarrow> unat i < STORAGE_ENTRIES_IN_CONTRACT_ACCOUNT \<longrightarrow>
             ps_storage R S' a i = ex_storage (backend R S) a i x))"
proof -
  let ?acts = "ex_actions x"
  have plain: "list_all (plain_on S) ?acts" using assms(3) by (auto simp: list_all_iff applies_plainly_def)
  have loaded: "ps_nonce R T a = Ok (nonce_of T a)" "ps_balance R T a = Ok (balance_of T a)" if "eth T a \<noteq> None" for T a
    using that by (auto simp: ps_nonce_def ps_balance_def map_account_def ethereum_account_def nonce_of_def balance_of_def eth_def
      split: option.splits)
  have read: "ex_balance (backend R S) a x = balance_after a ?acts (balance_of S a)"
      "ex_nonce (backend R S) a x = nonce_after a ?acts (nonce_of S a)" if "eth S a \<noteq> None" for a
    using that by (simp_all add: ex_balance_def ex_nonce_def backend_def loaded)
  obtain S1 st where run: "apply_actions R ?acts (S, []) = Ok (S1, st)"
    using apply_actions_total [OF plain, of R "[]"] assms(4,5) read by metis
  note kept = apply_actions_held [OF run plain]
  have rooms: "room S1 k = room S k" "slots S1 k j = slots S k j" for k j using kept by (simp_all add: room_def slots_def)
  have st: "collected st a = writes_of a ?acts" for a using kept by (simp add: collected_def)
  have distinct: "distinct (map fst st)" using kept by simp
  have apart: "keys_apart S1" using wf_keys_apart [OF assms(1)] kept by (simp add: keys_apart_def)
  have "takes_static S1 a ws" if entry: "(a, ws) \<in> set st" for a ws
  proof -
    have ws: "ws = writes_of a ?acts" using st [of a] map_of_is_SomeI [OF distinct entry] by (simp add: collected_def)
    have "ws \<noteq> []" using apply_actions_nonempty [OF run] entry by force
    then obtain i v where "(i, v) \<in> set (writes_of a ?acts)" unfolding ws by (cases "writes_of a ?acts") auto
    then show ?thesis using static_writes [OF assms(3)] has_slots_room [OF assms(1)] kept
      by (auto simp: takes_static_def ws rooms)
  qed
  then obtain S' where S': "write_contracts R operator st (S1, []) = Ok (S', [])" "ps_ethereum S' = ps_ethereum S1"
      "\<forall>k. room S' k = room S1 k"
      "\<forall>a k n j. held S1 a = Some (k, n) \<longrightarrow>
        slots S' k (unat j) = (case map_of (rev (collected st a)) j of Some v \<Rightarrow> v | None \<Rightarrow> slots S1 k (unat j))"
    using write_contracts_slots [OF apart distinct, of R operator "[]"] by blast
  have eth: "eth S' = eth S1" by (simp add: eth_def S'(2) fun_eq_iff)
  have "apply_state_change R operator ?acts S = Ok (Ready, S')"
    using no_operations [OF assms(1,2) space_of_plain [OF plain]] nothing_missing [OF plain] run S'(1)
    by (simp add: apply_state_change_def plain_rearranged [OF plain] calc_accounts_operations_def apply_storage_def Let_def)
  moreover have "ps_balance R S' a = ex_balance (backend R S) a x \<and> ps_nonce R S' a = ex_nonce (backend R S) a x"
    if a: "eth S a \<noteq> None" for a
  proof -
    have "eth S' a \<noteq> None" using a held_dom [of S1 S] kept by (auto simp: eth)
    moreover have "EvmSelfDestruct a \<notin> set ?acts" using plain by (auto simp: list_all_iff plain_on_def)
    ultimately show ?thesis using assms(4,5) [OF a] apply_actions_balance [OF run, of a] apply_actions_nonce [OF run, of a]
      by (auto simp: read [OF a] loaded balance_of_def nonce_of_def eth)
  qed
  moreover have "ps_storage R S' a i = ex_storage (backend R S) a i x"
    if slots: "has_slots S a" and i: "unat i < STORAGE_ENTRIES_IN_CONTRACT_ACCOUNT" for a i
  proof -
    obtain h where h: "map_of (ps_ethereum S) a = Some h" "is_contract (hn_data h)" "room S (hn_key h)"
      using slots assms(1) by (auto simp: has_slots_def room_def ps_wf_def)
    have held1: "held S1 a = Some (hn_key h, ed_code_size (hn_data h))" using kept h(1) by (simp add: held_def fun_eq_iff)
    then obtain h1 where h1: "map_of (ps_ethereum S') a = Some h1" "hn_key h1 = hn_key h" "is_contract (hn_data h1)"
      using h(2) by (auto simp: held_def S'(2) is_contract_def code_size_def)
    have i: "unat i < 64" using i by (simp add: STORAGE_ENTRIES_IN_CONTRACT_ACCOUNT_def)
    have "ps_storage R S' a i = Ok (slots S' (hn_key h) (unat i))"
      using ps_storage_slots [OF h1(1,3) _ i, of R] h1(2) h(3) S'(3) rooms by simp
    also have "slots S' (hn_key h) (unat i) = (case find_storage a i (rev ?acts) of Some v \<Rightarrow> v | None \<Rightarrow> slots S (hn_key h) (unat i))"
      using S'(4) [rule_format, OF held1, of i] by (simp add: st rooms find_storage_writes cong: option.case_cong)
    finally show ?thesis using ps_storage_slots [OF h i, of R] by (simp add: ex_storage_def backend_def split: option.split)
  qed
  ultimately show ?thesis by blast
qed

section \<open>A contract with slots\<close>

definition demo_contract_header :: ether_data where
  "demo_contract_header = (demo_header 0x1002 1 7)\<lparr>ed_code_size := 5\<rparr>"

definition demo_filled_info :: owned_account where
  "demo_filled_info = (demo_account 22 50 8)\<lparr>oa_data := TAG_ACCOUNT_V3 # ether_pack demo_contract_header
     @ replicate INTERNAL_STORAGE_SIZE 0 @ [0x60, 1, 0x60, 2, 0]\<rparr>"

definition demo_filled :: program_storage where
  "demo_filled = demo_opened\<lparr>ps_solana := (ps_solana demo_opened)(22 \<mapsto> demo_filled_info),
     ps_ethereum := [(0x1001, \<lparr>hn_dirty = False, hn_data = demo_header 0x1001 4 100, hn_key = 21\<rparr>),
       (0x1002, \<lparr>hn_dirty = False, hn_data = demo_contract_header, hn_key = 22\<rparr>)]\<rparr>"

definition demo_filled_log :: executor where
  "demo_filled_log = (executor_new (backend demo_runtime demo_filled))\<lparr>ex_actions := [EvmIncrementNonce 0x1001,
     EvmSetStorage 0x1002 3 9, NeonTransfer 0x1001 0x1002 5, EvmSetStorage 0x1002 3 90]\<rparr>"

lemma demo_filled_opens: "from_account ether_account_packable 8 demo_filled_info
    = Ok \<lparr>ad_dirty = False, ad_data = demo_contract_header, ad_info = demo_filled_info\<rparr>"
  using ether_account.open_packed [of "demo_account 22 50 8" 8 demo_contract_header
      "replicate INTERNAL_STORAGE_SIZE 0 @ [0x60, 1, 0x60, 2, 0]"]
  by (simp add: demo_filled_info_def demo_account_def ether_account_packable_def)

lemma demo_filled_keys: "oa_key demo_filled_info = 22" "ed_address demo_contract_header = 0x1002"
  by (simp_all add: demo_filled_info_def demo_account_def demo_contract_header_def demo_header_def)

lemma demo_filled_wf: "ps_wf demo_filled"
  by (simp add: ps_wf_def demo_filled_def demo_opened_def opened_def demo_keys demo_opens demo_filled_opens demo_filled_keys demo_addresses)

lemma demo_filled_eth: "eth demo_filled = [0x1001 \<mapsto> demo_header 0x1001 4 100, 0x1002 \<mapsto> demo_contract_header]"
  by (auto simp: eth_def demo_filled_def fun_eq_iff)

lemma demo_has_slots: "has_slots demo_filled 0x1002"
  by (simp add: has_slots_def demo_filled_def demo_filled_info_def demo_contract_header_def demo_header_def is_contract_def code_size_def
      demo_account_def ether_size ether_pack_def internal_size)

theorem readable_log_applies_witness:
  "(case apply_state_change demo_runtime 9 (ex_actions demo_filled_log) demo_filled of
     Ok (Ready, S') \<Rightarrow> ps_balance demo_runtime S' 0x1001 = Ok 95 \<and> ps_nonce demo_runtime S' 0x1001 = Ok 5
       \<and> ps_storage demo_runtime S' 0x1002 3 = Ok 90 | _ \<Rightarrow> False)"
proof -
  let ?B = "backend demo_runtime demo_filled"
  have program: "ps_program_id demo_filled \<noteq> sol_system_id (rt_solana demo_runtime)"
    by (simp add: demo_filled_def demo_opened_def demo_runtime_def demo_solana_def)
  have applies: "list_all (applies_plainly demo_filled) (ex_actions demo_filled_log)"
    by (simp add: demo_filled_log_def applies_plainly_def plain_on_def demo_filled_eth demo_has_slots
        STORAGE_ENTRIES_IN_CONTRACT_ACCOUNT_def)
  have reads: "ex_balance ?B 0x1001 demo_filled_log = Ok 95" "ex_balance ?B 0x1002 demo_filled_log = Ok 12"
      "ex_nonce ?B 0x1001 demo_filled_log = Ok 5" "ex_nonce ?B 0x1002 demo_filled_log = Ok 1"
      "ex_storage ?B 0x1002 3 demo_filled_log = Ok 90"
    by (simp_all add: ex_balance_def ex_nonce_def ex_storage_def backend_def demo_filled_log_def ps_balance_def ps_nonce_def map_account_def
        ethereum_account_def demo_filled_def demo_contract_header_def demo_header_def checked_sub_u256_def checked_add_u256_def)
  have loaded: "eth demo_filled a \<noteq> None \<longleftrightarrow> a = 0x1001 \<or> a = 0x1002" for a by (simp add: demo_filled_eth)
  have "\<exists>v. ex_balance ?B a demo_filled_log = Ok v" "\<exists>n. ex_nonce ?B a demo_filled_log = Ok n" if "eth demo_filled a \<noteq> None" for a
    using that reads unfolding loaded by auto
  from readable_log_applies [OF demo_filled_wf program applies this] obtain S'
    where run: "apply_state_change demo_runtime 9 (ex_actions demo_filled_log) demo_filled = Ok (Ready, S')"
      and read: "\<And>a. eth demo_filled a \<noteq> None \<Longrightarrow> ps_balance demo_runtime S' a = ex_balance ?B a demo_filled_log
        \<and> ps_nonce demo_runtime S' a = ex_nonce ?B a demo_filled_log
        \<and> (\<forall>i. has_slots demo_filled a \<longrightarrow> unat i < STORAGE_ENTRIES_IN_CONTRACT_ACCOUNT
             \<longrightarrow> ps_storage demo_runtime S' a i = ex_storage ?B a i demo_filled_log)" by blast
  have "ps_balance demo_runtime S' 0x1001 = Ok 95 \<and> ps_nonce demo_runtime S' 0x1001 = Ok 5" "ps_storage demo_runtime S' 0x1002 3 = Ok 90"
    using read [of "0x1001"] read [of "0x1002"] reads demo_has_slots
    by (simp_all add: demo_filled_eth STORAGE_ENTRIES_IN_CONTRACT_ACCOUNT_def)
  then show ?thesis by (simp add: run)
qed

end
