(* ===== verification/Emulator.thy ===== *)
theory Emulator
  imports Apply Program_Checks Transaction_Step
begin

text \<open>
  The emulator of the off-chain library (\<open>lib/src/account_storage.rs\<close>, \<open>commands/emulate.rs\<close>, \<open>get_storage_at.rs\<close>,
  \<open>get_ether_account_data.rs\<close> and the overrides of \<open>program/src/evm/tracing/mod.rs\<close>): it runs a transaction on accounts that
  it loads from a node of Solana, and says which accounts the transaction needs and what it costs.

  The trait \<open>Rpc\<close> is the record \<open>rpc\<close>: one state of the chain, where \<open>None\<close> is a failed call.  The accounts that were loaded
  are kept in two caches, the state \<open>emulator\<close>; the entries that reads of the executor add to them are not followed, since
  the executor of the model takes a storage of values.  The time of the block is not negative.
\<close>

section \<open>The node\<close>

record sol_account =
  sa_lamports :: u64
  sa_data :: bytes
  sa_owner :: pubkey
  sa_executable :: bool
  sa_rent_epoch :: u64

definition sol_account_default :: sol_account where
  "sol_account_default = \<lparr>sa_lamports = 0, sa_data = [], sa_owner = 0, sa_executable = False, sa_rent_epoch = 0\<rparr>"

definition make_account_info :: "pubkey \<Rightarrow> sol_account \<Rightarrow> owned_account" where
  "make_account_info k a = \<lparr>oa_key = k, oa_is_signer = False, oa_is_writable = False, oa_lamports = sa_lamports a, oa_data = sa_data a,
     oa_owner = sa_owner a, oa_executable = sa_executable a, oa_rent_epoch = sa_rent_epoch a\<rparr>"

record rpc =
  rpc_get_account :: "pubkey \<Rightarrow> sol_account option"
  rpc_get_account_with_commitment :: "pubkey \<Rightarrow> sol_account option option"
  rpc_get_multiple_accounts :: "pubkey list \<Rightarrow> sol_account option list option"
  rpc_get_slot :: "u64 option"
  rpc_get_block_time :: "u64 \<Rightarrow> u64 option"

section \<open>Overrides\<close>

record block_overrides =
  bo_number :: "u64 option"
  bo_time :: "u64 option"

record account_override =
  ao_nonce :: "u64 option"
  ao_code :: "bytes option"
  ao_balance :: "u256 option"
  ao_state :: "(u256 \<rightharpoonup> u256) option"
  ao_state_diff :: "(u256 \<rightharpoonup> u256) option"

definition apply_override :: "account_override \<Rightarrow> ether_data account_data \<Rightarrow> ether_data account_data" where
  "apply_override v a =
    (let a = (case ao_nonce v of Some n \<Rightarrow> account_modify (\<lambda>d. d\<lparr>ed_trx_count := n\<rparr>) a | None \<Rightarrow> a);
         a = (case ao_balance v of Some b \<Rightarrow> account_modify (\<lambda>d. d\<lparr>ed_balance := b\<rparr>) a | None \<Rightarrow> a) in
     case ao_code v of Some c \<Rightarrow> account_modify (\<lambda>d. d\<lparr>ed_code_size := of_nat (length c)\<rparr>) a | None \<Rightarrow> a)"

section \<open>The storage\<close>

record neon_account =
  na_address :: address
  na_key :: pubkey
  na_writable :: bool
  na_new :: bool
  na_size :: usize
  na_size_current :: usize
  na_resize_steps :: usize
  na_data :: "sol_account option"

definition neon_account_new :: "address \<Rightarrow> pubkey \<Rightarrow> sol_account option \<Rightarrow> bool \<Rightarrow> neon_account" where
  "neon_account_new a k account writable =
    (case account of
       Some d \<Rightarrow> \<lparr>na_address = a, na_key = k, na_writable = writable, na_new = False, na_size = length (sa_data d),
         na_size_current = length (sa_data d), na_resize_steps = 0, na_data = Some d\<rparr>
     | None \<Rightarrow> \<lparr>na_address = a, na_key = k, na_writable = writable, na_new = True, na_size = 0, na_size_current = 0,
         na_resize_steps = 0, na_data = None\<rparr>)"

record cached_account =
  ca_key :: pubkey
  ca_is_writable :: bool
  ca_data :: "sol_account option"

record emulator =
  em_accounts :: "address \<Rightarrow> neon_account option"
  em_solana :: "pubkey \<Rightarrow> cached_account option"

record emulator_config =
  ec_runtime :: runtime
  ec_env :: env
  ec_rpc :: rpc
  ec_evm_loader :: pubkey
  ec_block_number :: u64
  ec_block_timestamp :: u64
  ec_neon_token_mint :: pubkey
  ec_chain_id :: u64
  ec_state_overrides :: "(address \<Rightarrow> account_override option) option"

definition FAKE_OPERATOR :: pubkey where
  "FAKE_OPERATOR = 0xbb1e2755db60c8391fc5ea736b0cefd4e04b728c215c614383f0f0a80000000"

definition make_solana_program_address :: "emulator_config \<Rightarrow> address \<Rightarrow> pubkey \<times> u8" where
  "make_solana_program_address C a =
    sol_find_program_address (rt_solana (ec_runtime C)) [[ACCOUNT_SEED_VERSION], be_bytes 20 a] (ec_evm_loader C)"

definition rpc_load :: "emulator_config \<Rightarrow> address \<Rightarrow> bool \<Rightarrow> neon_account" where
  "rpc_load C a writable =
    (let k = fst (make_solana_program_address C a) in neon_account_new a k (rpc_get_account (ec_rpc C) k) writable)"

text \<open>\<open>new\<close> takes the slot and its time from the overrides, or else from the node; \<open>None\<close> is a failed call.\<close>

definition emulator_new :: "runtime \<Rightarrow> env \<Rightarrow> rpc \<Rightarrow> pubkey \<Rightarrow> pubkey \<Rightarrow> u64 \<Rightarrow> block_overrides option
    \<Rightarrow> (address \<Rightarrow> account_override option) option \<Rightarrow> (emulator_config \<times> emulator) option" where
  "emulator_new R E rpc evm_loader token_mint chain_id overrides state_overrides =
    Option.bind (case Option.bind overrides bo_number of None \<Rightarrow> rpc_get_slot rpc | Some n \<Rightarrow> Some n) (\<lambda>block_number.
    Option.bind (case Option.bind overrides bo_time of None \<Rightarrow> rpc_get_block_time rpc block_number | Some t \<Rightarrow> Some t) (\<lambda>time.
    Some (\<lparr>ec_runtime = R, ec_env = E, ec_rpc = rpc, ec_evm_loader = evm_loader, ec_block_number = block_number,
        ec_block_timestamp = time, ec_neon_token_mint = token_mint, ec_chain_id = chain_id,
        ec_state_overrides = state_overrides\<rparr>,
      \<lparr>em_accounts = Map.empty, em_solana = Map.empty\<rparr>)))"

definition put_cached :: "(pubkey \<times> sol_account option) \<Rightarrow> emulator \<Rightarrow> emulator" where
  "put_cached e s = (case e of (k, d) \<Rightarrow> s\<lparr>em_solana := (em_solana s)(k \<mapsto> \<lparr>ca_key = k, ca_is_writable = False, ca_data = d\<rparr>)\<rparr>)"

definition put_neon :: "emulator_config \<Rightarrow> (address \<times> sol_account option) \<Rightarrow> emulator \<Rightarrow> emulator" where
  "put_neon C e s = (case e of (a, d) \<Rightarrow>
     s\<lparr>em_accounts := (em_accounts s)(a \<mapsto> neon_account_new a (fst (make_solana_program_address C a)) d False)\<rparr>)"

definition initialize_cached_accounts :: "emulator_config \<Rightarrow> address list \<Rightarrow> pubkey list \<Rightarrow> emulator \<Rightarrow> emulator" where
  "initialize_cached_accounts C addresses solana_accounts s =
    (case rpc_get_multiple_accounts (ec_rpc C) (map (fst \<circ> make_solana_program_address C) addresses @ solana_accounts) of
       Some accounts \<Rightarrow>
         fold put_cached (zip solana_accounts (drop (length addresses) accounts))
           (fold (put_neon C) (zip addresses (take (length addresses) accounts)) s)
     | None \<Rightarrow> s)"

definition with_accounts :: "runtime \<Rightarrow> env \<Rightarrow> rpc \<Rightarrow> pubkey \<Rightarrow> pubkey \<Rightarrow> u64 \<Rightarrow> address list \<Rightarrow> pubkey list \<Rightarrow> block_overrides option
    \<Rightarrow> (address \<Rightarrow> account_override option) option \<Rightarrow> (emulator_config \<times> emulator) option" where
  "with_accounts R E rpc evm_loader token_mint chain_id accounts solana_accounts overrides state_overrides =
    map_option (\<lambda>(C, s). (C, initialize_cached_accounts C accounts solana_accounts s))
      (emulator_new R E rpc evm_loader token_mint chain_id overrides state_overrides)"

text \<open>\<open>get_account\<close>: an entry without data is loaded again.\<close>

definition em_get_account :: "emulator_config \<Rightarrow> pubkey \<Rightarrow> (emulator, sol_account option option) exec" where
  "em_get_account C k = (\<lambda>s.
    case Option.bind (em_solana s k) ca_data of
      Some d \<Rightarrow> (Ok (Some (Some d)), s)
    | None \<Rightarrow>
        (case rpc_get_account_with_commitment (ec_rpc C) k of
           None \<Rightarrow> (Ok None, s)
         | Some v \<Rightarrow> (Ok (Some v), s\<lparr>em_solana := (em_solana s)(k \<mapsto>
             (case em_solana s k of
                Some c \<Rightarrow> c\<lparr>ca_data := v\<rparr>
              | None \<Rightarrow> \<lparr>ca_key = k, ca_is_writable = False, ca_data = v\<rparr>))\<rparr>)))"

definition get_account_from_solana :: "emulator_config \<Rightarrow> address \<Rightarrow> pubkey \<times> sol_account option" where
  "get_account_from_solana C a =
    (let k = fst (make_solana_program_address C a) in (k, rpc_get_account (ec_rpc C) k))"

definition add_ethereum_account :: "emulator_config \<Rightarrow> address \<Rightarrow> bool \<Rightarrow> (emulator, bool) exec" where
  "add_ethereum_account C a writable = (\<lambda>s.
    case em_accounts s a of
      Some n \<Rightarrow> (Ok True, s\<lparr>em_accounts := (em_accounts s)(a \<mapsto> n\<lparr>na_writable := na_writable n \<or> writable\<rparr>)\<rparr>)
    | None \<Rightarrow> (Ok False, s\<lparr>em_accounts := (em_accounts s)(a \<mapsto> rpc_load C a writable)\<rparr>))"

definition add_solana_account :: "emulator_config \<Rightarrow> pubkey \<Rightarrow> bool \<Rightarrow> (emulator, unit) exec" where
  "add_solana_account C k is_writable = modify (\<lambda>s.
    if k = sol_system_id (rt_solana (ec_runtime C)) then s
    else if k = FAKE_OPERATOR then s
    else
      case em_solana s k of
        Some c \<Rightarrow> if is_writable then s\<lparr>em_solana := (em_solana s)(k \<mapsto> c\<lparr>ca_is_writable := True\<rparr>)\<rparr> else s
      | None \<Rightarrow> s\<lparr>em_solana := (em_solana s)(k \<mapsto> \<lparr>ca_key = k, ca_is_writable = is_writable, ca_data = None\<rparr>)\<rparr>)"

section \<open>Reading\<close>

definition override_of :: "emulator_config \<Rightarrow> address \<Rightarrow> account_override option" where
  "override_of C a = Option.bind (ec_state_overrides C) (\<lambda>m. m a)"

text \<open>
  The account that was opened is dropped at the end.  It was not opened for writing, so dropping it either does nothing
  or panics: the loaded data never changes.
\<close>

definition with_account :: "emulator_config \<Rightarrow> address \<Rightarrow> 'r \<Rightarrow> (ether_data account_data \<Rightarrow> 'r result) \<Rightarrow> (emulator, 'r) exec" where
  "with_account C a fallback f =
    and_then (add_ethereum_account C a False) (\<lambda>_.
    and_then (reads (\<lambda>s. unwrap (em_accounts s a))) (\<lambda>n.
    case na_data n of
      None \<Rightarrow> ret fallback
    | Some d \<Rightarrow>
        (case from_account ether_account_packable (ec_evm_loader C) (make_account_info (na_key n) d) of
           Ok account \<Rightarrow> lift (f account)
         | Err _ \<Rightarrow> ret fallback
         | Panic \<Rightarrow> panic)))"

definition ethereum_account_map_or :: "emulator_config \<Rightarrow> address \<Rightarrow> 'r \<Rightarrow> (ether_data account_data \<Rightarrow> 'r) \<Rightarrow> (emulator, 'r) exec" where
  "ethereum_account_map_or C a fallback f = with_account C a fallback (\<lambda>account.
     let account = (case override_of C a of Some v \<Rightarrow> apply_override v account | None \<Rightarrow> account) in
     rbind (account_drop ether_account_packable account) (\<lambda>_. Ok (f account)))"

definition ethereum_contract_map_or :: "emulator_config \<Rightarrow> address \<Rightarrow> 'r \<Rightarrow> (ether_data account_data \<Rightarrow> 'r result) \<Rightarrow> (emulator, 'r) exec" where
  "ethereum_contract_map_or C a fallback f = with_account C a fallback (\<lambda>account.
     if is_contract (ad_data account) then f account else Ok fallback)"

definition em_exists :: "emulator_config \<Rightarrow> address \<Rightarrow> (emulator, bool) exec" where
  "em_exists C a = and_then (add_ethereum_account C a False) (\<lambda>_. gets (\<lambda>s. em_accounts s a \<noteq> None))"

definition em_nonce :: "emulator_config \<Rightarrow> address \<Rightarrow> (emulator, u64) exec" where
  "em_nonce C a = ethereum_account_map_or C a 0 (\<lambda>x. ed_trx_count (ad_data x))"

definition em_balance :: "emulator_config \<Rightarrow> address \<Rightarrow> (emulator, u256) exec" where
  "em_balance C a = ethereum_account_map_or C a 0 (\<lambda>x. ed_balance (ad_data x))"

definition em_code_size :: "emulator_config \<Rightarrow> address \<Rightarrow> (emulator, usize) exec" where
  "em_code_size C a = ethereum_account_map_or C a 0 (\<lambda>x. code_size (ad_data x))"

definition em_generation :: "emulator_config \<Rightarrow> address \<Rightarrow> (emulator, u32) exec" where
  "em_generation C a = ethereum_account_map_or C a 0 (\<lambda>x. ed_generation (ad_data x))"

definition em_code_hash :: "emulator_config \<Rightarrow> address \<Rightarrow> (emulator, bytes32) exec" where
  "em_code_hash C a =
    and_then (ethereum_account_map_or C a True (\<lambda>x. ed_trx_count (ad_data x) = 0 \<and> ed_balance (ad_data x) = 0
      \<and> ed_code_size (ad_data x) = 0)) (\<lambda>is_non_existent_account.
    if is_non_existent_account then ret 0
    else
      ethereum_contract_map_or C a (rt_keccak (ec_runtime C) []) (\<lambda>x.
        rbind (contract_code (ad_data x) (ad_info x)) (\<lambda>code. Ok (rt_keccak (ec_runtime C) code))))"

definition em_code :: "emulator_config \<Rightarrow> address \<Rightarrow> (emulator, buffer) exec" where
  "em_code C a = ethereum_contract_map_or C a buf_empty (\<lambda>x.
     case Option.bind (override_of C a) ao_code of
       Some code \<Rightarrow> Ok (buf_from_slice code)
     | None \<Rightarrow> rbind (contract_code (ad_data x) (ad_info x)) (\<lambda>code. Ok (buf_from_slice code)))"

definition em_solana_account_space :: "emulator_config \<Rightarrow> address \<Rightarrow> (emulator, usize option) exec" where
  "em_solana_account_space C a = ethereum_account_map_or C a None (\<lambda>x. Some (length (oa_data (ad_info x))))"

text \<open>The part of \<open>storage\<close> that an override answers: a whole state, or a difference to it\<close>

definition overridden_storage :: "emulator_config \<Rightarrow> address \<Rightarrow> u256 \<Rightarrow> bytes32 option result" where
  "overridden_storage C a index =
    (case override_of C a of
       None \<Rightarrow> Ok None
     | Some v \<Rightarrow>
         (case (ao_state v, ao_state_diff v) of
            (None, None) \<Rightarrow> Ok None
          | (Some _, Some _) \<Rightarrow> Panic
          | (Some state, None) \<Rightarrow> Ok (Some (case state index of Some x \<Rightarrow> x | None \<Rightarrow> 0))
          | (None, Some diff) \<Rightarrow> Ok (diff index)))"

definition em_cell_key :: "emulator_config \<Rightarrow> pubkey \<Rightarrow> u256 \<Rightarrow> pubkey result" where
  "em_cell_key C base index =
    rbind (storage_address (rt_create_with_seed (ec_runtime C)) (ec_evm_loader C) base index) (\<lambda>(_, k). Ok k)"

definition em_cell :: "emulator_config \<Rightarrow> address \<Rightarrow> u256 \<Rightarrow> u8 \<Rightarrow> pubkey \<Rightarrow> sol_account \<Rightarrow> (emulator, bytes32) exec" where
  "em_cell C a index subindex k account =
    (if sa_owner account = sol_system_id (rt_solana (ec_runtime C)) then ret 0
     else
       (case from_account storage_packable (ec_evm_loader C) (make_account_info k account) of
          Ok x \<Rightarrow>
            if sd_address (ad_data x) \<noteq> a \<or> sd_index (ad_data x) \<noteq> index then ret 0
            else
              and_then (em_generation C a) (\<lambda>generation.
              if sd_generation (ad_data x) \<noteq> generation then ret 0 else lift (storage_get (ad_info x) subindex))
        | _ \<Rightarrow> panic))"

definition em_storage :: "emulator_config \<Rightarrow> address \<Rightarrow> u256 \<Rightarrow> (emulator, bytes32) exec" where
  "em_storage C a index =
    and_then (lift (overridden_storage C a index)) (\<lambda>overridden.
    case overridden of
      Some v \<Rightarrow> ret v
    | None \<Rightarrow>
        if unat index < STORAGE_ENTRIES_IN_CONTRACT_ACCOUNT then
          ethereum_contract_map_or C a 0 (\<lambda>x.
            rbind (contract_storage (ad_info x)) (\<lambda>cells.
            rbind (slice_at cells (unat index * 32) 32) (\<lambda>b. Ok (from_be b))))
        else
          and_then (lift (em_cell_key C (fst (make_solana_program_address C a)) (index AND NOT 0xFF))) (\<lambda>k.
          and_then (add_solana_account C k False) (\<lambda>_.
          and_then (em_get_account C k) (\<lambda>response.
          and_then (lift (unwrap response)) (\<lambda>account.
          case account of
            None \<Rightarrow> ret 0
          | Some d \<Rightarrow> em_cell C a (index AND NOT 0xFF) (ucast (index AND 0xFF)) k d)))))"

definition em_block_hash :: "emulator_config \<Rightarrow> u64 \<Rightarrow> (emulator, bytes32) exec" where
  "em_block_hash C n =
    (let k = rt_slot_hashes_id (ec_runtime C) in
     and_then (add_solana_account C k False) (\<lambda>_.
     and_then (em_get_account C k) (\<lambda>response.
     case response of
       Some (Some account) \<Rightarrow> lift (rbind (find_slot_hash n (sa_data account)) (\<lambda>b. Ok (from_be b)))
     | _ \<Rightarrow> panic)))"

definition em_map_solana_account :: "emulator_config \<Rightarrow> pubkey \<Rightarrow> (emulator, owned_account) exec" where
  "em_map_solana_account C k =
    and_then (add_solana_account C k False) (\<lambda>_.
    and_then (em_get_account C k) (\<lambda>response.
    ret (make_account_info k (case response of Some (Some account) \<Rightarrow> account | _ \<Rightarrow> sol_account_default))))"

definition em_clone_solana_account :: "emulator_config \<Rightarrow> pubkey \<Rightarrow> (emulator, owned_account) exec" where
  "em_clone_solana_account C k =
    (if k = FAKE_OPERATOR then
       ret \<lparr>oa_key = FAKE_OPERATOR, oa_is_signer = True, oa_is_writable = False, oa_lamports = 100 * 1000000000, oa_data = [],
         oa_owner = sol_system_id (rt_solana (ec_runtime C)), oa_executable = False, oa_rent_epoch = 0\<rparr>
     else and_then (em_map_solana_account C k) (\<lambda>info. ret (owned_account_of (ec_evm_loader C) info)))"

text \<open>The storage as the executor sees it\<close>

definition em_value :: "(emulator, 'a) exec \<Rightarrow> emulator \<Rightarrow> 'a result" where
  "em_value m s = fst (m s)"

definition emulator_backend :: "emulator_config \<Rightarrow> emulator \<Rightarrow> account_storage" where
  "emulator_backend C s = \<lparr>as_neon_token_mint = ec_neon_token_mint C, as_program_id = ec_evm_loader C, as_operator = FAKE_OPERATOR,
     as_block_number = ucast (ec_block_number C), as_block_timestamp = ucast (ec_block_timestamp C),
     as_block_hash = (\<lambda>n. em_value (em_block_hash C n) s), as_chain_id = ec_chain_id C,
     as_nonce = (\<lambda>a. em_value (em_nonce C a) s), as_balance = (\<lambda>a. em_value (em_balance C a) s),
     as_code_size = (\<lambda>a. em_value (em_code_size C a) s), as_code_hash = (\<lambda>a. em_value (em_code_hash C a) s),
     as_code = (\<lambda>a. em_value (em_code C a) s), as_storage = (\<lambda>a i. em_value (em_storage C a i) s),
     as_clone_solana_account = (\<lambda>k. em_value (em_clone_solana_account C k) s),
     as_map_solana_account = (\<lambda>k. em_value (em_map_solana_account C k) s),
     as_solana_address = make_solana_program_address C\<rparr>"

section \<open>The accounts and the cost of a transaction\<close>

fun add_metas :: "emulator_config \<Rightarrow> account_meta list \<Rightarrow> (emulator, unit) exec" where
  "add_metas C [] = ret ()"
| "add_metas C (m # ms) = and_then (add_solana_account C (am_pubkey m) (am_is_writable m)) (\<lambda>_. add_metas C ms)"

definition em_apply_action :: "emulator_config \<Rightarrow> journal_action \<Rightarrow> u64 \<Rightarrow> (emulator, u64) exec" where
  "em_apply_action C act gas =
    (case act of
       NeonTransfer source target v \<Rightarrow>
         and_then (add_ethereum_account C source True) (\<lambda>_. and_then (add_ethereum_account C target True) (\<lambda>_. ret gas))
     | NeonWithdraw source v \<Rightarrow> and_then (add_ethereum_account C source True) (\<lambda>_. ret gas)
     | EvmSetStorage a index v \<Rightarrow>
         if unat index < STORAGE_ENTRIES_IN_CONTRACT_ACCOUNT then and_then (add_ethereum_account C a True) (\<lambda>_. ret gas)
         else
           and_then (lift (em_cell_key C (fst (make_solana_program_address C a)) index)) (\<lambda>k.
           and_then (add_solana_account C k True) (\<lambda>_.
           and_then (em_storage C a index) (\<lambda>old.
           ret (if old = 0 then saturating_add gas (rt_minimum_balance (ec_runtime C) (storage_size + (1 + 32))) else gas))))
     | EvmIncrementNonce a \<Rightarrow> and_then (add_ethereum_account C a True) (\<lambda>_. ret gas)
     | EvmSetCode a code \<Rightarrow> and_then (add_ethereum_account C a True) (\<lambda>_. ret gas)
     | EvmSelfDestruct a \<Rightarrow> and_then (add_ethereum_account C a True) (\<lambda>_. ret gas)
     | ExternalInstruction program_id metas data seed fee \<Rightarrow>
         and_then (add_solana_account C program_id False) (\<lambda>_.
         and_then (add_metas C metas) (\<lambda>_. ret (saturating_add gas fee))))"

fun em_apply_actions :: "emulator_config \<Rightarrow> journal_action list \<Rightarrow> u64 \<Rightarrow> (emulator, u64) exec" where
  "em_apply_actions C [] gas = ret gas"
| "em_apply_actions C (act # acts) gas = and_then (em_apply_action C act gas) (em_apply_actions C acts)"

text \<open>The default method of the trait, on the emulator's \<open>solana_account_space\<close>\<close>

fun em_operations_for :: "emulator_config \<Rightarrow> (address \<times> usize) list \<Rightarrow> (emulator, (address \<times> account_operation) list) exec" where
  "em_operations_for C [] = ret []"
| "em_operations_for C ((a, space) # rest) =
    and_then (em_solana_account_space C a) (\<lambda>current.
    and_then (em_operations_for C rest) (\<lambda>ops.
    ret (case current of
        None \<Rightarrow> (a, CreateAccount space) # ops
      | Some space_current \<Rightarrow> if space_current < space then (a, ResizeAccount space_current space) # ops else ops)))"

definition em_calc_accounts_operations :: "emulator_config \<Rightarrow> journal_action list
    \<Rightarrow> (emulator, (address \<times> account_operation) list) exec" where
  "em_calc_accounts_operations C acts = em_operations_for C (space_by_account acts [])"

definition new_size_of :: "account_operation \<Rightarrow> usize" where
  "new_size_of op = (case op of CreateAccount space \<Rightarrow> space | ResizeAccount _ to' \<Rightarrow> to')"

definition resized :: "usize \<Rightarrow> neon_account \<Rightarrow> neon_account" where
  "resized new_size n = n\<lparr>na_size := new_size, na_resize_steps := ((new_size - na_size_current n) - 1) div MAX_PERMITTED_DATA_INCREASE\<rparr>"

fun apply_operations_loop :: "emulator_config \<Rightarrow> (address \<times> account_operation) list \<Rightarrow> u64 \<Rightarrow> usize \<Rightarrow> (emulator, u64 \<times> usize) exec" where
  "apply_operations_loop C [] gas iterations = ret (gas, iterations)"
| "apply_operations_loop C ((a, op) # ops) gas iterations =
    (let new_size = new_size_of op in
     and_then (gets (\<lambda>s. map_option (resized new_size) (em_accounts s a))) (\<lambda>n.
     and_then (modify (\<lambda>s. case n of Some n \<Rightarrow> s\<lparr>em_accounts := (em_accounts s)(a \<mapsto> n)\<rparr> | None \<Rightarrow> s)) (\<lambda>_.
     apply_operations_loop C ops (saturating_add gas (rt_minimum_balance (ec_runtime C) new_size))
       (case n of Some n \<Rightarrow> max iterations (na_resize_steps n) | None \<Rightarrow> iterations))))"

definition apply_accounts_operations :: "emulator_config \<Rightarrow> (address \<times> account_operation) list \<Rightarrow> (emulator, u64) exec" where
  "apply_accounts_operations C ops =
    and_then (apply_operations_loop C ops 0 0) (\<lambda>(gas, iterations).
    ret (saturating_add gas (of_nat iterations * LAMPORTS_PER_SIGNATURE)))"

section \<open>Emulating a transaction\<close>

datatype neon_error = ClientError | TooManySteps | AccountNotFound pubkey | EvmLoaderError error | SolanaProgramError program_error

datatype 'a neon_result = Done 'a | Failed neon_error | Panicked

record tx_params =
  tp_nonce :: "u64 option"
  tp_from :: address
  tp_to :: "address option"
  tp_data :: "bytes option"
  tp_value :: "u256 option"
  tp_gas_limit :: "u256 option"
  tp_access_list :: "(address \<times> bytes list) list option"

record emulation_result =
  er_exit_status :: exit_status
  er_steps_executed :: u64
  er_used_gas :: u64
  er_actions :: "journal_action list"

definition option_or :: "'a option \<Rightarrow> 'a \<Rightarrow> 'a" where
  "option_or x d = (case x of Some y \<Rightarrow> y | None \<Rightarrow> d)"

fun access_items :: "(address \<times> bytes list) list \<Rightarrow> (address \<times> bytes32 list) list result" where
  "access_items [] = Ok []"
| "access_items ((a, ks) # rest) =
    rbind (rassert (list_all (\<lambda>k. length k = 32) ks)) (\<lambda>_.
    rbind (access_items rest) (\<lambda>items. Ok ((a, map from_be ks) # items)))"

definition emulated_transaction :: "tx_params \<Rightarrow> u64 \<Rightarrow> u64 \<Rightarrow> transaction result" where
  "emulated_transaction p nonce chain_id =
    rbind (case tp_access_list p of
        Some items \<Rightarrow>
          rbind (access_items items) (\<lambda>access_list.
          Ok (AccessList \<lparr>a_nonce = nonce, a_gas_price = 0, a_gas_limit = option_or (tp_gas_limit p) (- 1), a_target = tp_to p,
            a_value = option_or (tp_value p) 0, a_call_data = buf_from_slice (option_or (tp_data p) []), a_r = 0, a_s = 0,
            a_chain_id = ucast chain_id, a_recovery_id = 0, a_access_list = access_list\<rparr>))
      | None \<Rightarrow>
          Ok (Legacy \<lparr>l_nonce = nonce, l_gas_price = 0, l_gas_limit = option_or (tp_gas_limit p) (- 1), l_target = tp_to p,
            l_value = option_or (tp_value p) 0, l_call_data = buf_from_slice (option_or (tp_data p) []), l_v = 0, l_r = 0, l_s = 0,
            l_chain_id = Some (ucast chain_id), l_recovery_id = 0\<rparr>)) (\<lambda>payload.
    Ok \<lparr>tx_payload = payload, tx_byte_len = 0, tx_hash = 0, tx_signed_hash = 0\<rparr>)"

text \<open>The run of the machine, on a new executor\<close>

definition run_emulated :: "emulator_config \<Rightarrow> emulator \<Rightarrow> transaction \<Rightarrow> address \<Rightarrow> u64
    \<Rightarrow> (exit_status \<times> journal_action list \<times> nat) result" where
  "run_emulated C s trx origin step_limit =
    (let B = emulator_backend C s; D = executor_database (ec_env C) (rt_solana (ec_runtime C)) B in
     case machine_new (ec_env C) D trx origin (executor_new B, []) of
       (Ok m, (x, l)) \<Rightarrow>
         (case execute (ec_env C) D step_limit \<lparr>cur = m, parents = [], db = x, logs = l\<rparr> of
            (Ok (status, steps), vm) \<Rightarrow>
              if status = ExitStepLimit then Ok (status, [], steps)
              else rbind (into_actions (db vm)) (\<lambda>actions. Ok (status, actions, steps))
          | (Err e, _) \<Rightarrow> Err e
          | (Panic, _) \<Rightarrow> Panic)
     | (Err e, _) \<Rightarrow> Err e
     | (Panic, _) \<Rightarrow> Panic)"

definition steps_cost :: "u64 \<Rightarrow> u64" where
  "steps_cost steps = ((steps + (EVM_STEPS_MIN - 1)) div EVM_STEPS_MIN) * (LAMPORTS_PER_SIGNATURE + PAYMENT_TO_TREASURE)"

text \<open>What the accounts and the actions cost, after the run\<close>

definition emulated_gas :: "emulator_config \<Rightarrow> journal_action list \<Rightarrow> u64 \<Rightarrow> (emulator, u64) exec" where
  "emulated_gas C actions steps =
    and_then (em_calc_accounts_operations C actions) (\<lambda>operations.
    and_then (em_apply_actions C actions 0) (\<lambda>actions_gas.
    and_then (apply_accounts_operations C operations) (\<lambda>accounts_gas.
    ret (steps_cost steps + 2 * LAMPORTS_PER_SIGNATURE + actions_gas + accounts_gas))))"

definition lift_result :: "'a result \<Rightarrow> 'a neon_result" where
  "lift_result r = (case r of Ok x \<Rightarrow> Done x | Err e \<Rightarrow> Failed (EvmLoaderError e) | Panic \<Rightarrow> Panicked)"

definition emulate_trx :: "emulator_config \<Rightarrow> tx_params \<Rightarrow> u64 \<Rightarrow> u64 \<Rightarrow> emulator \<Rightarrow> emulation_result neon_result \<times> emulator" where
  "emulate_trx C p chain_id step_limit s =
    (case (case tp_nonce p of Some n \<Rightarrow> ret n | None \<Rightarrow> em_nonce C (tp_from p)) s of
       (Ok nonce, s) \<Rightarrow>
         (case rbind (emulated_transaction p nonce chain_id) (\<lambda>trx. run_emulated C s trx (tp_from p) step_limit) of
            Ok (status, actions, steps) \<Rightarrow>
              if status = ExitStepLimit then (Failed TooManySteps, s)
              else
                (case emulated_gas C actions (of_nat steps) s of
                   (Ok gas, s) \<Rightarrow> (Done \<lparr>er_exit_status = status, er_steps_executed = of_nat steps, er_used_gas = gas,
                     er_actions = actions\<rparr>, s)
                 | (Err e, s) \<Rightarrow> (Failed (EvmLoaderError e), s)
                 | (Panic, s) \<Rightarrow> (Panicked, s))
          | Err e \<Rightarrow> (Failed (EvmLoaderError e), s)
          | Panic \<Rightarrow> (Panicked, s))
     | (Err e, s) \<Rightarrow> (Failed (EvmLoaderError e), s)
     | (Panic, s) \<Rightarrow> (Panicked, s))"

definition SYSVAR_RENT :: pubkey where
  "SYSVAR_RENT = 0x06A7D517192C5C51218CC94C3D4AF17F58DAEE089BA1FD44E3DBD98A00000000"

text \<open>\<open>Stubs\<close> (\<open>lib/src/syscall_stubs.rs\<close>): the rent that the program sees is that of the node; bincode is the parameter \<open>read_rent\<close>,
  from the bytes of the account to the least balance of an account of a length.\<close>

definition setup_syscall_stubs :: "(bytes \<Rightarrow> (usize \<Rightarrow> u64) option) \<Rightarrow> runtime \<Rightarrow> rpc \<Rightarrow> runtime neon_result" where
  "setup_syscall_stubs read_rent R rpc =
    (case rpc_get_account rpc SYSVAR_RENT of
       None \<Rightarrow> Failed ClientError
     | Some a \<Rightarrow>
         (case read_rent (sa_data a) of
            None \<Rightarrow> Failed (SolanaProgramError InvalidArgument)
          | Some minimum_balance \<Rightarrow> Done (R\<lparr>rt_minimum_balance := minimum_balance\<rparr>)))"

definition emulate_transaction :: "(bytes \<Rightarrow> (usize \<Rightarrow> u64) option) \<Rightarrow> runtime \<Rightarrow> env \<Rightarrow> rpc \<Rightarrow> pubkey \<Rightarrow> tx_params \<Rightarrow> pubkey \<Rightarrow> u64
    \<Rightarrow> u64 \<Rightarrow> address list \<Rightarrow> pubkey list \<Rightarrow> block_overrides option \<Rightarrow> (address \<Rightarrow> account_override option) option
    \<Rightarrow> (emulation_result \<times> emulator) neon_result" where
  "emulate_transaction read_rent R E rpc evm_loader p token_mint chain_id step_limit accounts solana_accounts overrides state_overrides =
    (case setup_syscall_stubs read_rent R rpc of
       Failed e \<Rightarrow> Failed e
     | Panicked \<Rightarrow> Panicked
     | Done R \<Rightarrow>
    (case with_accounts R E rpc evm_loader token_mint chain_id accounts solana_accounts overrides state_overrides of
       None \<Rightarrow> Failed ClientError
     | Some (C, s) \<Rightarrow>
         (case emulate_trx C p chain_id step_limit s of
            (Done r, s) \<Rightarrow> Done (r, s)
          | (Failed e, _) \<Rightarrow> Failed e
          | (Panicked, _) \<Rightarrow> Panicked)))"

section \<open>Queries\<close>

text \<open>\<open>get_storage_at.rs\<close>\<close>

definition get_storage_at :: "emulator_config \<Rightarrow> address \<Rightarrow> u256 \<Rightarrow> bytes32 result" where
  "get_storage_at C a index =
    (case get_account_from_solana C a of
       (_, None) \<Rightarrow> Ok 0
     | (k, Some d) \<Rightarrow>
         rbind (from_account ether_account_packable (ec_evm_loader C) (make_account_info k d)) (\<lambda>account.
         if \<not> is_contract (ad_data account) then Ok 0
         else if unat index < STORAGE_ENTRIES_IN_CONTRACT_ACCOUNT then
           rbind (contract_storage (ad_info account)) (\<lambda>cells.
           rbind (slice_at cells (unat index * 32) 32) (\<lambda>b. Ok (from_be b)))
         else
           rbind (em_cell_key C (oa_key (ad_info account)) (index AND NOT 0xFF)) (\<lambda>cell.
           case rpc_get_account (ec_rpc C) cell of
             None \<Rightarrow> Ok 0
           | Some d \<Rightarrow>
               if sa_owner d = sol_system_id (rt_solana (ec_runtime C)) then Ok 0
               else
                 rbind (from_account storage_packable (ec_evm_loader C) (make_account_info cell d)) (\<lambda>x.
                 if sd_address (ad_data x) \<noteq> a \<or> sd_index (ad_data x) \<noteq> index AND NOT 0xFF
                    \<or> sd_generation (ad_data x) \<noteq> ed_generation (ad_data account) then Ok 0
                 else storage_get (ad_info x) (ucast (index AND 0xFF))))))"

text \<open>\<open>get_ether_account_data.rs\<close>: the address, the header and the code\<close>

definition get_ether_account_data :: "emulator_config \<Rightarrow> address \<Rightarrow> (pubkey \<times> ether_data \<times> bytes) neon_result" where
  "get_ether_account_data C a =
    (case get_account_from_solana C a of
       (k, None) \<Rightarrow> Failed (AccountNotFound k)
     | (k, Some d) \<Rightarrow>
         (case from_account ether_account_packable (ec_evm_loader C) (make_account_info k d) of
            Ok account \<Rightarrow>
              lift_result (rbind (if is_contract (ad_data account) then contract_code (ad_data account) (ad_info account) else Ok [])
                (\<lambda>code. Ok (k, ad_data account, code)))
          | _ \<Rightarrow> Panicked))"

end
