(* ===== verification/Emulator_Laws.thy ===== *)
theory Emulator_Laws
  imports Emulator Account_Locks
begin

text \<open>
  What the emulator promises: its answers do not depend on what it has cached, and without overrides they are those of the
  program on the same accounts.
\<close>

section \<open>The caches\<close>

definition rpc_is :: "rpc \<Rightarrow> (pubkey \<Rightarrow> sol_account option) \<Rightarrow> bool" where
  "rpc_is rpc chain \<longleftrightarrow> rpc_get_account rpc = chain \<and> rpc_get_account_with_commitment rpc = (\<lambda>k. Some (chain k))
     \<and> rpc_get_multiple_accounts rpc = (\<lambda>ks. Some (map chain ks))"

abbreviation key_of :: "emulator_config \<Rightarrow> address \<Rightarrow> pubkey" where
  "key_of C a \<equiv> fst (make_solana_program_address C a)"

text \<open>The caches agree with the chain; the accounts at the addresses \<open>D\<close> have been loaded.\<close>

definition em_ok :: "emulator_config \<Rightarrow> (pubkey \<Rightarrow> sol_account option) \<Rightarrow> address set \<Rightarrow> emulator \<Rightarrow> bool" where
  "em_ok C chain D s \<longleftrightarrow> (\<forall>a n. em_accounts s a = Some n \<longrightarrow> na_key n = key_of C a \<and> na_data n = chain (key_of C a)
       \<and> na_size_current n = (case chain (key_of C a) of Some d \<Rightarrow> length (sa_data d) | None \<Rightarrow> 0))
     \<and> (\<forall>k c. em_solana s k = Some c \<longrightarrow> ca_data c = None \<or> ca_data c = chain k)
     \<and> D \<subseteq> dom (em_accounts s)"

definition answers :: "emulator_config \<Rightarrow> (pubkey \<Rightarrow> sol_account option) \<Rightarrow> (emulator, 'a) exec \<Rightarrow> 'a result \<Rightarrow> address set \<Rightarrow> bool" where
  "answers C chain m v A \<longleftrightarrow> (\<forall>D s. em_ok C chain D s \<longrightarrow> (\<exists>s'. m s = (v, s') \<and> em_ok C chain (D \<union> A) s'))"

named_theorems answering \<open>what a computation answers, whatever is cached\<close>

lemma em_ok_mono: "em_ok C chain D s \<Longrightarrow> D' \<subseteq> D \<Longrightarrow> em_ok C chain D' s"
  by (auto simp: em_ok_def)

lemma answers_mono: "answers C chain m v A \<Longrightarrow> B \<subseteq> A \<Longrightarrow> answers C chain m v B"
  unfolding answers_def by (meson em_ok_mono Un_mono order_refl)

lemma answersD: "answers C chain m v A \<Longrightarrow> em_ok C chain D s \<Longrightarrow> fst (m s) = v \<and> em_ok C chain (D \<union> A) (snd (m s))"
  unfolding answers_def by force

lemma answersE:
  assumes "answers C chain m v A" and "em_ok C chain D s"
  obtains s' where "m s = (v, s')" and "em_ok C chain (D \<union> A) s'"
  using assms unfolding answers_def by blast

lemma answers_ret [answering]: "answers C chain (ret x) (Ok x) {}"
  by (simp add: answers_def ret_def)

lemma answers_lift [answering]: "answers C chain (lift r) r {}"
  by (simp add: answers_def lift_def)

lemma answers_panic [answering]: "answers C chain panic Panic {}"
  by (simp add: answers_def panic_def)

lemma answers_then:
  assumes "answers C chain m r A" and "\<And>x. r = Ok x \<Longrightarrow> answers C chain (f x) (g x) B"
  shows "answers C chain (and_then m f) (rbind r g) A"
    and "r = Ok x \<Longrightarrow> answers C chain (and_then m f) (g x) (A \<union> B)"
proof -
  have "\<exists>s'. and_then m f s = (rbind r g, s') \<and> em_ok C chain (D \<union> A) s'" if ok: "em_ok C chain D s" for D s
  proof -
    obtain s1 where 1: "m s = (r, s1)" "em_ok C chain (D \<union> A) s1" by (rule answersE [OF assms(1) ok])
    show ?thesis
    proof (cases r)
      case (Ok x)
      then obtain s2 where "f x s1 = (g x, s2)" "em_ok C chain (D \<union> A \<union> B) s2"
        using assms(2) 1(2) by (fastforce simp: answers_def)
      then show ?thesis using 1 Ok em_ok_mono by (fastforce simp: and_then_def)
    qed (use 1 in \<open>auto simp: and_then_def\<close>)
  qed
  then show "answers C chain (and_then m f) (rbind r g) A" by (auto simp: answers_def)
  assume r: "r = Ok x"
  show "answers C chain (and_then m f) (g x) (A \<union> B)"
    unfolding answers_def
  proof (intro allI impI)
    fix D s assume "em_ok C chain D s"
    then obtain s1 where 1: "m s = (Ok x, s1)" "em_ok C chain (D \<union> A) s1" using answersE [OF assms(1)] r by metis
    then obtain s2 where "f x s1 = (g x, s2)" "em_ok C chain (D \<union> A \<union> B) s2"
      using assms(2) [OF r] by (fastforce simp: answers_def)
    then show "\<exists>s'. and_then m f s = (g x, s') \<and> em_ok C chain (D \<union> (A \<union> B)) s'" using 1 by (simp add: and_then_def Un_assoc)
  qed
qed

lemma answers_some_ret: "\<exists>v. answers C chain (ret x) v {}"
  by (rule exI, rule answers_ret)

lemma answers_bind:
  assumes "answers C chain m r {}" and "\<And>x. r = Ok x \<Longrightarrow> answers C chain (f x) (g x) {}"
  shows "answers C chain (and_then m f) (rbind r g) {}"
  by (rule answers_then(1) [OF assms])

text \<open>A step whose own result is not used\<close>

definition adds :: "emulator_config \<Rightarrow> (pubkey \<Rightarrow> sol_account option) \<Rightarrow> (emulator, 'b) exec \<Rightarrow> address set \<Rightarrow> bool" where
  "adds C chain m A \<longleftrightarrow> (\<forall>D s. em_ok C chain D s \<longrightarrow> (\<exists>x s'. m s = (Ok x, s') \<and> em_ok C chain (D \<union> A) s'))"

lemma addsE:
  assumes "adds C chain m A" and "em_ok C chain D s"
  obtains x s' where "m s = (Ok x, s')" and "em_ok C chain (D \<union> A) s'"
  using assms unfolding adds_def by blast

lemma answers_adds:
  assumes "adds C chain m A" and "\<And>x. answers C chain (f x) v B"
  shows "answers C chain (and_then m f) v (A \<union> B)"
  unfolding answers_def
proof (intro allI impI)
  fix D s assume "em_ok C chain D s"
  then obtain x s1 where 1: "m s = (Ok x, s1)" "em_ok C chain (D \<union> A) s1" using assms(1) unfolding adds_def by blast
  then obtain s2 where "f x s1 = (v, s2)" "em_ok C chain (D \<union> A \<union> B) s2" using assms(2) by (fastforce simp: answers_def)
  then show "\<exists>s'. and_then m f s = (v, s') \<and> em_ok C chain (D \<union> (A \<union> B)) s'" using 1 by (simp add: and_then_def Un_assoc)
qed

lemma adds_ethereum:
  assumes "rpc_is (ec_rpc C) chain"
  shows "adds C chain (add_ethereum_account C a w) {a}"
  unfolding adds_def
proof (intro allI impI)
  fix D s assume ok: "em_ok C chain D s"
  show "\<exists>x s'. add_ethereum_account C a w s = (Ok x, s') \<and> em_ok C chain (D \<union> {a}) s'"
  proof (cases "em_accounts s a")
    case None
    then show ?thesis using ok assms
      by (auto simp: add_ethereum_account_def em_ok_def rpc_load_def neon_account_new_def rpc_is_def Let_def split: option.splits)
  next
    case (Some n)
    then show ?thesis using ok by (auto simp: add_ethereum_account_def em_ok_def)
  qed
qed

lemma adds_solana: "adds C chain (add_solana_account C k w) {}"
  unfolding adds_def
proof (intro allI impI)
  fix D s assume ok: "em_ok C chain D s"
  show "\<exists>x s'. add_solana_account C k w s = (Ok x, s') \<and> em_ok C chain (D \<union> {}) s'"
    using ok by (auto simp: add_solana_account_def modify_def em_ok_def split: option.splits)
qed

lemma answers_get_account:
  assumes "rpc_is (ec_rpc C) chain"
  shows "answers C chain (em_get_account C k) (Ok (Some (chain k))) {}"
  unfolding answers_def
proof (intro allI impI)
  fix D s assume ok: "em_ok C chain D s"
  show "\<exists>s'. em_get_account C k s = (Ok (Some (chain k)), s') \<and> em_ok C chain (D \<union> {}) s'"
  proof (cases "Option.bind (em_solana s k) ca_data")
    case None
    then show ?thesis using ok assms by (auto simp: em_get_account_def rpc_is_def em_ok_def split: option.splits)
  next
    case (Some d)
    then obtain c where "em_solana s k = Some c" "ca_data c = Some d" by (auto simp: bind_eq_Some_conv)
    then have "chain k = Some d" using ok unfolding em_ok_def by (metis option.distinct(1))
    then show ?thesis using ok Some by (auto simp: em_get_account_def)
  qed
qed

section \<open>The answers\<close>

definition opened_at :: "emulator_config \<Rightarrow> (pubkey \<Rightarrow> sol_account option) \<Rightarrow> address \<Rightarrow> ether_data account_data option" where
  "opened_at C chain a = Option.bind (chain (key_of C a)) (\<lambda>d.
     case from_account ether_account_packable (ec_evm_loader C) (make_account_info (key_of C a) d) of Ok x \<Rightarrow> Some x | _ \<Rightarrow> None)"

definition account_value :: "emulator_config \<Rightarrow> (pubkey \<Rightarrow> sol_account option) \<Rightarrow> address \<Rightarrow> 'r \<Rightarrow> (ether_data account_data \<Rightarrow> 'r result) \<Rightarrow> 'r result" where
  "account_value C chain a d f = (case opened_at C chain a of Some x \<Rightarrow> f x | None \<Rightarrow> Ok d)"

lemma from_account_no_panic: "from_account P program_id info \<noteq> Panic"
  by (auto simp: from_account_def split_account_data_def)

lemma answers_with_account:
  assumes "rpc_is (ec_rpc C) chain"
  shows "answers C chain (with_account C a d f) (account_value C chain a d f) {a}"
  unfolding answers_def
proof (intro allI impI)
  fix D s assume ok: "em_ok C chain D s"
  obtain b s1 where 1: "add_ethereum_account C a False s = (Ok b, s1)" "em_ok C chain (D \<union> {a}) s1"
    by (rule addsE [OF adds_ethereum [OF assms] ok])
  then obtain n where "em_accounts s1 a = Some n" "na_key n = key_of C a" "na_data n = chain (key_of C a)"
    by (auto simp: em_ok_def)
  then have "with_account C a d f s = (account_value C chain a d f, s1)"
    using 1(1) from_account_no_panic [of ether_account_packable "ec_evm_loader C"]
    by (auto simp: with_account_def account_value_def opened_at_def exec_simps split: option.splits result.splits)
  then show "\<exists>s'. with_account C a d f s = (account_value C chain a d f, s') \<and> em_ok C chain (D \<union> {a}) s'" using 1(2) by simp
qed

definition map_value :: "emulator_config \<Rightarrow> (pubkey \<Rightarrow> sol_account option) \<Rightarrow> address \<Rightarrow> 'r \<Rightarrow> (ether_data account_data \<Rightarrow> 'r) \<Rightarrow> 'r result" where
  "map_value C chain a d f = account_value C chain a d (\<lambda>account.
     let account = (case override_of C a of Some v \<Rightarrow> apply_override v account | None \<Rightarrow> account) in
     rbind (account_drop ether_account_packable account) (\<lambda>_. Ok (f account)))"

definition contract_value :: "emulator_config \<Rightarrow> (pubkey \<Rightarrow> sol_account option) \<Rightarrow> address \<Rightarrow> 'r \<Rightarrow> (ether_data account_data \<Rightarrow> 'r result) \<Rightarrow> 'r result" where
  "contract_value C chain a d f = account_value C chain a d (\<lambda>account. if is_contract (ad_data account) then f account else Ok d)"

definition cell_value :: "emulator_config \<Rightarrow> (pubkey \<Rightarrow> sol_account option) \<Rightarrow> address \<Rightarrow> u256 \<Rightarrow> u8 \<Rightarrow> pubkey \<Rightarrow> sol_account \<Rightarrow> bytes32 result" where
  "cell_value C chain a index subindex k account =
    (if sa_owner account = sol_system_id (rt_solana (ec_runtime C)) then Ok 0
     else
       (case from_account storage_packable (ec_evm_loader C) (make_account_info k account) of
          Ok x \<Rightarrow>
            if sd_address (ad_data x) \<noteq> a \<or> sd_index (ad_data x) \<noteq> index then Ok 0
            else
              rbind (map_value C chain a 0 (\<lambda>x. ed_generation (ad_data x))) (\<lambda>generation.
              if sd_generation (ad_data x) \<noteq> generation then Ok 0 else storage_get (ad_info x) subindex)
        | _ \<Rightarrow> Panic))"

definition storage_value :: "emulator_config \<Rightarrow> (pubkey \<Rightarrow> sol_account option) \<Rightarrow> address \<Rightarrow> u256 \<Rightarrow> bytes32 result" where
  "storage_value C chain a index =
    rbind (overridden_storage C a index) (\<lambda>overridden.
    case overridden of
      Some v \<Rightarrow> Ok v
    | None \<Rightarrow>
        if unat index < STORAGE_ENTRIES_IN_CONTRACT_ACCOUNT then
          contract_value C chain a 0 (\<lambda>x.
            rbind (contract_storage (ad_info x)) (\<lambda>cells.
            rbind (slice_at cells (unat index * 32) 32) (\<lambda>b. Ok (from_be b))))
        else
          rbind (em_cell_key C (key_of C a) (index AND NOT 0xFF)) (\<lambda>k.
          case chain k of
            None \<Rightarrow> Ok 0
          | Some d \<Rightarrow> cell_value C chain a (index AND NOT 0xFF) (ucast (index AND 0xFF)) k d))"

definition code_hash_value :: "emulator_config \<Rightarrow> (pubkey \<Rightarrow> sol_account option) \<Rightarrow> address \<Rightarrow> bytes32 result" where
  "code_hash_value C chain a =
    rbind (map_value C chain a True (\<lambda>x. ed_trx_count (ad_data x) = 0 \<and> ed_balance (ad_data x) = 0 \<and> ed_code_size (ad_data x) = 0))
      (\<lambda>is_non_existent_account.
    if is_non_existent_account then Ok 0
    else contract_value C chain a (rt_keccak (ec_runtime C) []) (\<lambda>x.
      rbind (contract_code (ad_data x) (ad_info x)) (\<lambda>code. Ok (rt_keccak (ec_runtime C) code))))"

lemma answers_map:
  "rpc_is (ec_rpc C) chain \<Longrightarrow> answers C chain (ethereum_account_map_or C a d f) (map_value C chain a d f) {a}"
  unfolding ethereum_account_map_or_def map_value_def by (rule answers_with_account)

lemma answers_contract:
  "rpc_is (ec_rpc C) chain \<Longrightarrow> answers C chain (ethereum_contract_map_or C a d f) (contract_value C chain a d f) {}"
  unfolding ethereum_contract_map_or_def contract_value_def by (rule answers_mono [OF answers_with_account]) auto

lemma answers_map0:
  "rpc_is (ec_rpc C) chain \<Longrightarrow> answers C chain (ethereum_account_map_or C a d f) (map_value C chain a d f) {}"
  by (rule answers_mono [OF answers_map]) auto

lemma answers_cell:
  assumes "rpc_is (ec_rpc C) chain"
  shows "answers C chain (em_cell C a i j k d) (cell_value C chain a i j k d) {}"
proof -
  have "answers C chain (and_then (em_generation C a) (\<lambda>generation. if x \<noteq> generation then ret 0 else lift r))
      (rbind (map_value C chain a 0 (\<lambda>x. ed_generation (ad_data x))) (\<lambda>generation. if x \<noteq> generation then Ok 0 else r)) {}" for x r
    unfolding em_generation_def
    by (rule answers_bind [OF answers_map0 [OF assms]]) (simp add: answering)
  then show ?thesis
    by (auto simp: em_cell_def cell_value_def answering split: result.splits)
qed

lemma answers_storage:
  assumes "rpc_is (ec_rpc C) chain"
  shows "answers C chain (em_storage C a i) (storage_value C chain a i) {}"
proof -
  have node: "answers C chain (and_then (add_solana_account C k False) (\<lambda>_.
          and_then (em_get_account C k) (\<lambda>response.
          and_then (lift (unwrap response)) (\<lambda>account.
          case account of None \<Rightarrow> ret 0 | Some d \<Rightarrow> em_cell C a m j k d))))
        (case chain k of None \<Rightarrow> Ok 0 | Some d \<Rightarrow> cell_value C chain a m j k d) {}" for k m j
  proof -
    have "answers C chain (and_then (em_get_account C k) (\<lambda>response.
          and_then (lift (unwrap response)) (\<lambda>account.
          case account of None \<Rightarrow> ret 0 | Some d \<Rightarrow> em_cell C a m j k d)))
        (rbind (Ok (Some (chain k))) (\<lambda>response. rbind (unwrap response) (\<lambda>account.
          case account of None \<Rightarrow> Ok 0 | Some d \<Rightarrow> cell_value C chain a m j k d))) {}"
      by (intro answers_bind [OF answers_get_account [OF assms]] answers_bind [OF answers_lift])
        (auto simp: answering answers_cell [OF assms] split: option.split)
    then show ?thesis using answers_adds [OF adds_solana] by fastforce
  qed
  show ?thesis
    unfolding em_storage_def storage_value_def
  proof (rule answers_bind [OF answers_lift])
    fix x
    have "answers C chain (and_then (lift r) (\<lambda>k.
          and_then (add_solana_account C k False) (\<lambda>_.
          and_then (em_get_account C k) (\<lambda>response.
          and_then (lift (unwrap response)) (\<lambda>account.
          case account of None \<Rightarrow> ret 0 | Some d \<Rightarrow> em_cell C a m j k d)))))
        (rbind r (\<lambda>k. case chain k of None \<Rightarrow> Ok 0 | Some d \<Rightarrow> cell_value C chain a m j k d)) {}" for r m j
      by (rule answers_bind [OF answers_lift node])
    then show "answers C chain (case x of
        Some v \<Rightarrow> ret v
      | None \<Rightarrow>
          if unat i < STORAGE_ENTRIES_IN_CONTRACT_ACCOUNT then
            ethereum_contract_map_or C a 0 (\<lambda>x.
              rbind (contract_storage (ad_info x)) (\<lambda>cells.
              rbind (slice_at cells (unat i * 32) 32) (\<lambda>b. Ok (from_be b))))
          else
            and_then (lift (em_cell_key C (key_of C a) (i AND NOT 0xFF))) (\<lambda>k.
            and_then (add_solana_account C k False) (\<lambda>_.
            and_then (em_get_account C k) (\<lambda>response.
            and_then (lift (unwrap response)) (\<lambda>account.
            case account of
              None \<Rightarrow> ret 0
            | Some d \<Rightarrow> em_cell C a (i AND NOT 0xFF) (ucast (i AND 0xFF)) k d)))))
        (case x of
          Some v \<Rightarrow> Ok v
        | None \<Rightarrow>
            if unat i < STORAGE_ENTRIES_IN_CONTRACT_ACCOUNT then
              contract_value C chain a 0 (\<lambda>x.
                rbind (contract_storage (ad_info x)) (\<lambda>cells.
                rbind (slice_at cells (unat i * 32) 32) (\<lambda>b. Ok (from_be b))))
            else
              rbind (em_cell_key C (key_of C a) (i AND NOT 0xFF)) (\<lambda>k.
              case chain k of
                None \<Rightarrow> Ok 0
              | Some d \<Rightarrow> cell_value C chain a (i AND NOT 0xFF) (ucast (i AND 0xFF)) k d)) {}"
      using answers_contract [OF assms] answers_ret by (cases x; cases "unat i < STORAGE_ENTRIES_IN_CONTRACT_ACCOUNT") (simp_all only: option.case if_True if_False)
  qed
qed

lemma answers_code_hash:
  assumes "rpc_is (ec_rpc C) chain"
  shows "answers C chain (em_code_hash C a) (code_hash_value C chain a) {}"
  unfolding em_code_hash_def code_hash_value_def
  by (rule answers_bind [OF answers_map0 [OF assms]]) (auto simp: answering answers_contract [OF assms])

lemma answers_block_hash:
  assumes "rpc_is (ec_rpc C) chain"
  shows "answers C chain (em_block_hash C n) (case chain (rt_slot_hashes_id (ec_runtime C)) of
      Some account \<Rightarrow> rbind (find_slot_hash n (sa_data account)) (\<lambda>b. Ok (from_be b)) | None \<Rightarrow> Panic) {}"
proof -
  have "answers C chain (and_then (em_get_account C k) (\<lambda>response. case response of
        Some (Some account) \<Rightarrow> lift (rbind (find_slot_hash n (sa_data account)) (\<lambda>b. Ok (from_be b))) | _ \<Rightarrow> panic))
      (rbind (Ok (Some (chain k))) (\<lambda>response. case response of
        Some (Some account) \<Rightarrow> rbind (find_slot_hash n (sa_data account)) (\<lambda>b. Ok (from_be b)) | _ \<Rightarrow> Panic)) {}" for k
    by (rule answers_bind [OF answers_get_account [OF assms]]) (auto simp: answering split: option.split)
  then show ?thesis using answers_adds [OF adds_solana] unfolding em_block_hash_def Let_def by fastforce
qed

lemma answers_map_solana:
  assumes "rpc_is (ec_rpc C) chain"
  shows "answers C chain (em_map_solana_account C k)
    (Ok (make_account_info k (case chain k of Some account \<Rightarrow> account | None \<Rightarrow> sol_account_default))) {}"
proof -
  have "answers C chain (and_then (em_get_account C k) (\<lambda>response.
        ret (make_account_info k (case response of Some (Some account) \<Rightarrow> account | _ \<Rightarrow> sol_account_default))))
      (rbind (Ok (Some (chain k))) (\<lambda>response. Ok (make_account_info k (case response of Some (Some account) \<Rightarrow> account | _ \<Rightarrow> sol_account_default)))) {}"
    by (rule answers_bind [OF answers_get_account [OF assms]]) (auto simp: answering)
  then show ?thesis using answers_adds [OF adds_solana] unfolding em_map_solana_account_def by (fastforce split: option.splits)
qed

lemma answers_clone_solana:
  assumes "rpc_is (ec_rpc C) chain"
  shows "\<exists>v. answers C chain (em_clone_solana_account C k) v {}"
proof (cases "k = FAKE_OPERATOR")
  case True
  then show ?thesis unfolding em_clone_solana_account_def using True by (simp only: if_True) (rule exI, rule answers_ret)
next
  case False
  then show ?thesis
    using answers_bind [OF answers_map_solana [OF assms] answers_ret] by (auto simp: em_clone_solana_account_def)
qed

section \<open>The result does not depend on the caches\<close>

lemma same_answer:
  "answers C chain m v A \<Longrightarrow> em_ok C chain D s \<Longrightarrow> em_value m s = v"
  by (auto simp: em_value_def elim: answersE)

lemma backend_cached:
  assumes "rpc_is (ec_rpc C) chain" and "em_ok C chain D s" and "em_ok C chain D' s'"
  shows "emulator_backend C s = emulator_backend C s'"
proof -
  have eq: "em_value m s = em_value m s'" if "answers C chain m v A" for m :: "(emulator, 'a) exec" and v A
    using same_answer [OF that assms(2)] same_answer [OF that assms(3)] by simp
  have "em_value (em_nonce C a) s = em_value (em_nonce C a) s'" "em_value (em_balance C a) s = em_value (em_balance C a) s'"
      "em_value (em_code_size C a) s = em_value (em_code_size C a) s'" for a
    unfolding em_nonce_def em_balance_def em_code_size_def by (rule same_answer [OF answers_map0 [OF assms(1)] assms(2), THEN trans],
      rule same_answer [OF answers_map0 [OF assms(1)] assms(3), symmetric])+
  moreover have "em_value (em_code C a) s = em_value (em_code C a) s'" for a
    unfolding em_code_def by (rule same_answer [OF answers_contract [OF assms(1)] assms(2), THEN trans],
      rule same_answer [OF answers_contract [OF assms(1)] assms(3), symmetric])
  moreover have "em_value (em_code_hash C a) s = em_value (em_code_hash C a) s'" for a
    using same_answer [OF answers_code_hash [OF assms(1)]] assms(2,3) by metis
  moreover have "em_value (em_storage C a i) s = em_value (em_storage C a i) s'" for a i
    using same_answer [OF answers_storage [OF assms(1)]] assms(2,3) by metis
  moreover have "em_value (em_block_hash C n) s = em_value (em_block_hash C n) s'" for n
    using same_answer [OF answers_block_hash [OF assms(1)]] assms(2,3) by metis
  moreover have "em_value (em_map_solana_account C k) s = em_value (em_map_solana_account C k) s'" for k
    using same_answer [OF answers_map_solana [OF assms(1)]] assms(2,3) by metis
  moreover have "em_value (em_clone_solana_account C k) s = em_value (em_clone_solana_account C k) s'" for k
    using answers_clone_solana [OF assms(1)] same_answer assms(2,3) by metis
  ultimately show ?thesis by (simp add: emulator_backend_def)
qed

fun operations_value :: "emulator_config \<Rightarrow> (pubkey \<Rightarrow> sol_account option) \<Rightarrow> (address \<times> usize) list
    \<Rightarrow> (address \<times> account_operation) list result" where
  "operations_value C chain [] = Ok []"
| "operations_value C chain ((a, space) # rest) =
    rbind (map_value C chain a None (\<lambda>x. Some (length (oa_data (ad_info x))))) (\<lambda>current.
    rbind (operations_value C chain rest) (\<lambda>ops.
    Ok (case current of
        None \<Rightarrow> (a, CreateAccount space) # ops
      | Some space_current \<Rightarrow> if space_current < space then (a, ResizeAccount space_current space) # ops else ops)))"

definition loaded_by :: "(address \<times> account_operation) list result \<Rightarrow> address set" where
  "loaded_by r = (case r of Ok ops \<Rightarrow> fst ` set ops | _ \<Rightarrow> {})"

lemma answers_operations:
  assumes "rpc_is (ec_rpc C) chain"
  shows "answers C chain (em_operations_for C m) (operations_value C chain m) (loaded_by (operations_value C chain m))"
proof (induction m)
  case Nil
  then show ?case using answers_ret by (simp add: loaded_by_def)
next
  case (Cons e rest)
  obtain a space where e: "e = (a, space)" by (cases e)
  let ?r = "map_value C chain a None (\<lambda>x. Some (length (oa_data (ad_info x))))"
  let ?next = "\<lambda>current ops. case current of None \<Rightarrow> (a, CreateAccount space) # ops
      | Some space_current \<Rightarrow> if space_current < space then (a, ResizeAccount space_current space) # ops else ops"
  note head = answers_map [OF assms, of a None "\<lambda>x. Some (length (oa_data (ad_info x)))"]
  have rest: "answers C chain (and_then (em_operations_for C rest) (\<lambda>ops. ret (?next current ops)))
      (rbind (operations_value C chain rest) (\<lambda>ops. Ok (?next current ops))) (loaded_by (operations_value C chain rest))" for current
    by (rule answers_then(1) [OF Cons.IH answers_ret])
  show ?case
  proof (cases ?r)
    case (Ok current)
    have eq: "operations_value C chain (e # rest) = rbind (operations_value C chain rest) (\<lambda>ops. Ok (?next current ops))"
      by (simp add: e Ok)
    have sub: "loaded_by (rbind (operations_value C chain rest) (\<lambda>ops. Ok (?next current ops)))
        \<subseteq> {a} \<union> loaded_by (operations_value C chain rest)"
      by (auto simp: loaded_by_def rbind_def split: result.splits option.splits if_splits)
    have "answers C chain (em_operations_for C (e # rest))
        (rbind (operations_value C chain rest) (\<lambda>ops. Ok (?next current ops))) ({a} \<union> loaded_by (operations_value C chain rest))"
      using answers_then(2) [OF head rest Ok] by (simp only: e em_operations_for.simps em_solana_account_space_def)
    from answers_mono [OF this sub] show ?thesis unfolding eq .
  next
    case (Err x)
    then show ?thesis using answers_mono [OF answers_then(1) [OF head rest]] by (simp add: e em_solana_account_space_def loaded_by_def)
  next
    case Panic
    then show ?thesis using answers_mono [OF answers_then(1) [OF head rest]] by (simp add: e em_solana_account_space_def loaded_by_def)
  qed
qed

lemma adds_metas: "adds C chain (add_metas C ms) {}"
proof (induction ms)
  case Nil
  then show ?case by (simp add: adds_def ret_def)
next
  case (Cons m ms)
  show ?case
    unfolding adds_def
  proof (intro allI impI)
    fix D s assume ok: "em_ok C chain D s"
    obtain x s1 where 1: "add_solana_account C (am_pubkey m) (am_is_writable m) s = (Ok x, s1)" "em_ok C chain (D \<union> {}) s1"
      by (rule addsE [OF adds_solana ok])
    obtain y s2 where "add_metas C ms s1 = (Ok y, s2)" "em_ok C chain (D \<union> {} \<union> {}) s2" by (rule addsE [OF Cons.IH 1(2)])
    then show "\<exists>x s'. add_metas C (m # ms) s = (Ok x, s') \<and> em_ok C chain (D \<union> {}) s'" using 1 by (simp add: and_then_def)
  qed
qed

lemma answers_after:
  assumes "adds C chain m A" and "\<And>x. \<exists>v. answers C chain (f x) v {}" and "\<And>x y. f x = f y"
  shows "\<exists>v. answers C chain (and_then m f) v {}"
proof -
  obtain v where "answers C chain (f undefined) v {}" using assms(2) by blast
  then have "answers C chain (and_then m f) v (A \<union> {})" using assms(3) by (intro answers_adds [OF assms(1)]) metis
  then show ?thesis using answers_mono by blast
qed

lemma answers_action:
  assumes "rpc_is (ec_rpc C) chain"
  shows "\<exists>v. answers C chain (em_apply_action C act gas) v {}"
proof -
  have one: "\<exists>v. answers C chain (and_then (add_ethereum_account C a True) (\<lambda>_. ret gas)) v {}" for a
    by (rule answers_after [OF adds_ethereum [OF assms] answers_some_ret]) simp
  have two: "\<exists>v. answers C chain (and_then (add_ethereum_account C a True) (\<lambda>_. and_then (add_ethereum_account C b True) (\<lambda>_. ret gas))) v {}" for a b
    by (rule answers_after [OF adds_ethereum [OF assms] one]) simp
  have ext: "\<exists>v. answers C chain (and_then (add_solana_account C k False) (\<lambda>_. and_then (add_metas C ms) (\<lambda>_. ret g))) v {}" for k ms g
    by (rule answers_after [OF adds_solana answers_after [OF adds_metas answers_some_ret]]) simp_all
  have cell: "\<exists>v. answers C chain (and_then (lift r) (\<lambda>k. and_then (add_solana_account C k True) (\<lambda>_.
      and_then (em_storage C a i) (\<lambda>old. ret (g old))))) v {}" for r a i and g :: "bytes32 \<Rightarrow> u64"
  proof -
    have "answers C chain (and_then (em_storage C a i) (\<lambda>old. ret (g old))) (rbind (storage_value C chain a i) (\<lambda>old. Ok (g old))) {}"
      by (rule answers_bind [OF answers_storage [OF assms] answers_ret])
    from answers_adds [OF adds_solana this]
    have "answers C chain (and_then (add_solana_account C k True) (\<lambda>_. and_then (em_storage C a i) (\<lambda>old. ret (g old))))
        (rbind (storage_value C chain a i) (\<lambda>old. Ok (g old))) {}" for k
      by simp
    from answers_bind [OF answers_lift this] show ?thesis by (rule exI)
  qed
  show ?thesis
  proof (cases act)
    case (EvmSetStorage a i v)
    then show ?thesis
      using one [of a] cell by (cases "unat i < STORAGE_ENTRIES_IN_CONTRACT_ACCOUNT") (simp_all only: em_apply_action_def journal_action.case if_True if_False)
  qed (simp_all only: em_apply_action_def journal_action.case one two ext)
qed

lemma answers_actions:
  assumes "rpc_is (ec_rpc C) chain"
  shows "\<exists>v. answers C chain (em_apply_actions C acts gas) v {}"
proof (induction acts arbitrary: gas)
  case Nil
  then show ?case using answers_some_ret by simp
next
  case (Cons act acts)
  obtain v where v: "answers C chain (em_apply_action C act gas) v {}" using answers_action [OF assms] by blast
  obtain w where w: "\<And>gas. answers C chain (em_apply_actions C acts gas) (w gas) {}" using Cons.IH by metis
  have "answers C chain (and_then (em_apply_action C act gas) (em_apply_actions C acts)) (rbind v w) {}"
    by (rule answers_bind [OF v w])
  then show ?case by (simp only: em_apply_actions.simps) (rule exI)
qed

lemma operations_loop_value:
  "fst ` set ops \<subseteq> D \<Longrightarrow> \<exists>v. \<forall>s. em_ok C chain D s \<longrightarrow> fst (apply_operations_loop C ops gas iterations s) = Ok v"
proof (induction ops arbitrary: gas iterations)
  case Nil
  then show ?case by (simp add: ret_def)
next
  case (Cons e ops)
  obtain a op where e: "e = (a, op)" by (cases e)
  let ?size = "case chain (key_of C a) of Some d \<Rightarrow> length (sa_data d) | None \<Rightarrow> 0"
  let ?steps = "((new_size_of op - ?size) - 1) div MAX_PERMITTED_DATA_INCREASE"
  let ?gas = "saturating_add gas (rt_minimum_balance (ec_runtime C) (new_size_of op))"
  obtain v where v: "\<forall>s. em_ok C chain D s \<longrightarrow> fst (apply_operations_loop C ops ?gas (max iterations ?steps) s) = Ok v"
    using Cons.IH [of ?gas "max iterations ?steps"] Cons.prems by (meson image_mono order_trans set_subset_Cons)
  have "fst (apply_operations_loop C (e # ops) gas iterations s) = Ok v" if ok: "em_ok C chain D s" for s
  proof -
    obtain n where n: "em_accounts s a = Some n" using ok Cons.prems by (auto simp: em_ok_def e)
    then have size: "na_size_current n = ?size" using ok by (auto simp: em_ok_def)
    let ?s = "s\<lparr>em_accounts := (em_accounts s)(a \<mapsto> resized (new_size_of op) n)\<rparr>"
    have "em_ok C chain D ?s" using ok n by (auto simp: em_ok_def resized_def)
    moreover have "apply_operations_loop C (e # ops) gas iterations s = apply_operations_loop C ops ?gas (max iterations ?steps) ?s"
      by (simp add: e exec_simps Let_def n resized_def size)
    ultimately show ?thesis using v by simp
  qed
  then show ?case by blast
qed

lemma gas_cached:
  assumes "rpc_is (ec_rpc C) chain" and "em_ok C chain {} s" and "em_ok C chain {} s'"
  shows "fst (emulated_gas C actions steps s) = fst (emulated_gas C actions steps s')"
proof -
  let ?ops = "operations_value C chain (space_by_account actions [])"
  obtain v where v: "answers C chain (em_apply_actions C actions 0) v {}" using answers_actions [OF assms(1)] by blast
  have "\<exists>w. \<forall>ops s. ?ops = Ok ops \<longrightarrow> em_ok C chain (loaded_by ?ops) s \<longrightarrow> fst (apply_operations_loop C ops 0 0 s) = Ok w"
  proof (cases ?ops)
    case (Ok ops)
    then have "fst ` set ops \<subseteq> loaded_by ?ops" by (simp add: loaded_by_def)
    from operations_loop_value [OF this] show ?thesis using Ok by (metis result.inject(1))
  qed simp_all
  then obtain w where loop: "\<And>ops s. ?ops = Ok ops \<Longrightarrow> em_ok C chain (loaded_by ?ops) s \<Longrightarrow> fst (apply_operations_loop C ops 0 0 s) = Ok w"
    by blast
  have run: "fst (emulated_gas C actions steps s) = rbind ?ops (\<lambda>_. rbind v (\<lambda>actions_gas. Ok (steps_cost steps + 2 * LAMPORTS_PER_SIGNATURE
      + actions_gas + saturating_add (fst w) (of_nat (snd w) * LAMPORTS_PER_SIGNATURE))))" if ok: "em_ok C chain {} s" for s
  proof -
    obtain s1 where 1: "em_calc_accounts_operations C actions s = (?ops, s1)" "em_ok C chain ({} \<union> loaded_by ?ops) s1"
      using answersE [OF answers_operations [OF assms(1)] ok] unfolding em_calc_accounts_operations_def by blast
    obtain s2 where 2: "em_apply_actions C actions 0 s1 = (v, s2)" "em_ok C chain ({} \<union> loaded_by ?ops \<union> {}) s2"
      by (rule answersE [OF v 1(2)])
    show ?thesis
    proof (cases ?ops)
      case (Ok ops)
      have "fst (apply_operations_loop C ops 0 0 s2) = Ok w" by (rule loop [OF Ok]) (use 2(2) in simp)
      then obtain s3 where 3: "apply_operations_loop C ops 0 0 s2 = (Ok w, s3)" by (cases "apply_operations_loop C ops 0 0 s2") simp
      have acc: "apply_accounts_operations C ops s2 = (Ok (saturating_add (fst w) (of_nat (snd w) * LAMPORTS_PER_SIGNATURE)), s3)"
        by (simp add: apply_accounts_operations_def and_then_def 3 ret_def case_prod_beta)
      show ?thesis using 1(1) 2(1) acc by (cases v) (simp_all add: emulated_gas_def and_then_def Ok ret_def)
    next
      case (Err e)
      then show ?thesis using 1(1) by (simp add: emulated_gas_def and_then_def)
    next
      case Panic
      then show ?thesis using 1(1) by (simp add: emulated_gas_def and_then_def)
    qed
  qed
  show ?thesis using run [OF assms(2)] run [OF assms(3)] by simp
qed

lemma emulation_cached:
  assumes "rpc_is (ec_rpc C) chain" and "em_ok C chain {} s" and "em_ok C chain {} s'"
  shows "fst (emulate_trx C p chain_id step_limit s) = fst (emulate_trx C p chain_id step_limit s')"
proof -
  let ?nonce = "case tp_nonce p of Some n \<Rightarrow> ret n | None \<Rightarrow> em_nonce C (tp_from p)"
  obtain v where v: "answers C chain ?nonce v {}"
  proof (cases "tp_nonce p")
    case None
    then show thesis using answers_map0 [OF assms(1), of "tp_from p" 0 "\<lambda>x. ed_trx_count (ad_data x)"] that
      by (simp add: em_nonce_def)
  next
    case (Some n)
    then show thesis using answers_ret [of C chain n] that by simp
  qed
  obtain s1 s2 where 1: "?nonce s = (v, s1)" "em_ok C chain {} s1" and 2: "?nonce s' = (v, s2)" "em_ok C chain {} s2"
    using answersE [OF v assms(2)] answersE [OF v assms(3)] by (metis Un_empty_left)
  have same: "run_emulated C s1 trx origin lim = run_emulated C s2 trx origin lim" for trx origin lim
    using backend_cached [OF assms(1) 1(2) 2(2)] by (simp add: run_emulated_def)
  have gas: "fst (emulated_gas C acts n s1) = fst (emulated_gas C acts n s2)" for acts n
    by (rule gas_cached [OF assms(1) 1(2) 2(2)])
  show ?thesis
  proof (cases v)
    case (Ok nonce)
    let ?r = "rbind (emulated_transaction p nonce chain_id) (\<lambda>trx. run_emulated C s2 trx (tp_from p) step_limit)"
    show ?thesis
    proof (cases ?r)
      case r: (Ok x)
      obtain status actions steps where x: "x = (status, actions, steps)" by (cases x)
      obtain g t1 t2 where "emulated_gas C actions (of_nat steps) s1 = (g, t1)" "emulated_gas C actions (of_nat steps) s2 = (g, t2)"
        using gas [of actions "of_nat steps"] by (metis prod.collapse)
      then show ?thesis using r by (cases g) (simp_all add: emulate_trx_def 1(1) 2(1) Ok same x)
    qed (simp_all add: emulate_trx_def 1(1) 2(1) Ok same)
  qed (simp_all add: emulate_trx_def 1(1) 2(1))
qed

lemma put_cached_ok: "em_ok C chain D s \<Longrightarrow> em_ok C chain D (put_cached (k, chain k) s)"
  by (auto simp: em_ok_def put_cached_def)

lemma put_neon_ok: "em_ok C chain D s \<Longrightarrow> em_ok C chain D (put_neon C (a, chain (key_of C a)) s)"
  by (auto simp: em_ok_def put_neon_def neon_account_new_def split: option.splits)

lemma initialized_ok:
  assumes "rpc_is (ec_rpc C) chain" and "em_ok C chain {} s"
  shows "em_ok C chain {} (initialize_cached_accounts C addresses ks s)"
proof -
  have neon: "em_ok C chain {} (fold (put_neon C) (zip as (map (chain \<circ> key_of C) as)) s)"
    if "em_ok C chain {} s" for as s using that by (induction as arbitrary: s) (simp_all add: put_neon_ok comp_def)
  have cached: "em_ok C chain {} (fold put_cached (zip ks (map chain ks)) s)"
    if "em_ok C chain {} s" for ks s using that by (induction ks arbitrary: s) (simp_all add: put_cached_ok)
  show ?thesis
    using assms(1) cached [OF neon [OF assms(2)]] by (simp add: initialize_cached_accounts_def rpc_is_def comp_def)
qed

text \<open>What a caller of the emulator sees\<close>

definition reported :: "(emulation_result \<times> emulator) neon_result \<Rightarrow> emulation_result neon_result" where
  "reported r = (case r of Done (x, _) \<Rightarrow> Done x | Failed e \<Rightarrow> Failed e | Panicked \<Rightarrow> Panicked)"

text \<open>C10: what is emulated does not depend on what was loaded before: with a node whose answers agree with one state of the chain,
  the accounts and keys that a caller names to have them loaded in one request change neither the exit status, nor the number
  of steps, nor the actions, nor the gas, nor the error.\<close>

theorem emulation_ignores_preloading:
  assumes "rpc_is rpc chain"
  shows "reported (emulate_transaction read_rent R E rpc evm_loader p token_mint chain_id step_limit accounts solana_accounts overrides state_overrides)
    = reported (emulate_transaction read_rent R E rpc evm_loader p token_mint chain_id step_limit [] [] overrides state_overrides)"
proof -
  have reads: "reported (case r of (Done r, s) \<Rightarrow> Done (r, s) | (Failed e, _) \<Rightarrow> Failed e | (Panicked, _) \<Rightarrow> Panicked) = fst r" for r
    by (auto simp: reported_def split: prod.split neon_result.split)
  have same: "fst (emulate_trx C p chain_id step_limit (initialize_cached_accounts C accounts solana_accounts s))
      = fst (emulate_trx C p chain_id step_limit (initialize_cached_accounts C [] [] s))"
    if "emulator_new R E rpc evm_loader token_mint chain_id overrides state_overrides = Some (C, s)" for R C s
  proof -
    have rpc: "rpc_is (ec_rpc C) chain" and ok: "em_ok C chain {} s"
      using that assms by (auto simp: emulator_new_def bind_eq_Some_conv em_ok_def)
    show ?thesis by (rule emulation_cached [OF rpc]) (rule initialized_ok [OF rpc ok])+
  qed
  show ?thesis
    by (cases "setup_syscall_stubs read_rent R rpc")
      (auto simp: emulate_transaction_def with_accounts_def reads same split: option.split)
qed

section \<open>Overrides\<close>

lemma from_account_info: "from_account P program_id info = Ok x \<Longrightarrow> ad_info x = info \<and> \<not> ad_dirty x \<and> oa_owner info = program_id"
  by (auto simp: from_account_def rbind_Ok_iff split: if_splits)

lemma opened_at_Some: "opened_at C chain a = Some x \<longleftrightarrow> (\<exists>d. chain (key_of C a) = Some d
    \<and> from_account ether_account_packable (ec_evm_loader C) (make_account_info (key_of C a) d) = Ok x)"
proof (cases "chain (key_of C a)")
  case (Some d)
  then show ?thesis
    by (cases "from_account ether_account_packable (ec_evm_loader C) (make_account_info (key_of C a) d)") (simp_all add: opened_at_def)
qed (simp add: opened_at_def)

lemma opened_at_info: "opened_at C chain a = Some x \<Longrightarrow> \<not> oa_is_writable (ad_info x) \<and> \<not> ad_dirty x"
  by (auto simp: opened_at_Some make_account_info_def dest: from_account_info)

lemma apply_override_drops:
  assumes "ao_nonce v \<noteq> None \<or> ao_balance v \<noteq> None \<or> ao_code v \<noteq> None" and "\<not> oa_is_writable (ad_info x)"
  shows "account_drop ether_account_packable (apply_override v x) = Panic"
  using assms by (auto simp: apply_override_def account_modify_def account_drop_def Let_def split: option.splits)

lemma map_value_panics:
  assumes "opened_at C chain a = Some x" and "override_of C a = Some v" and "ao_nonce v \<noteq> None \<or> ao_balance v \<noteq> None \<or> ao_code v \<noteq> None"
  shows "map_value C chain a d f = Panic"
  using apply_override_drops [OF assms(3)] opened_at_info [OF assms(1)] by (simp add: map_value_def account_value_def assms(1,2) Let_def)

text \<open>C38: an override of the nonce, the balance or the code of an account that exists on the chain does not answer with the
  value that was asked for: every read of the header panics, because the account counts as changed when it is dropped and
  was not opened for writing.\<close>

theorem override_panics:
  assumes "rpc_is (ec_rpc C) chain" and "em_ok C chain {} s" and "opened_at C chain a = Some x" and "override_of C a = Some v"
    and "ao_nonce v \<noteq> None \<or> ao_balance v \<noteq> None \<or> ao_code v \<noteq> None"
  shows "em_value (em_nonce C a) s = Panic \<and> em_value (em_balance C a) s = Panic \<and> em_value (em_code_size C a) s = Panic
    \<and> em_value (em_generation C a) s = Panic"
  using same_answer [OF answers_map0 [OF assms(1)] assms(2)] map_value_panics [OF assms(3,4,5)]
  unfolding em_nonce_def em_balance_def em_code_size_def em_generation_def by metis

section \<open>The two readers of the storage\<close>

text \<open>C35: the query for a storage slot and the read of the emulated machine agree on a contract without overrides: the one answers
  with a value if and only if the other answers with the same value, for the slots inside the account of the contract and
  for those in accounts of their own.\<close>

theorem storage_at_agrees:
  assumes "rpc_is (ec_rpc C) chain" and "em_ok C chain {} s" and "opened_at C chain a = Some x" and "is_contract (ad_data x)"
    and "override_of C a = None"
  shows "get_storage_at C a index = Ok v \<longleftrightarrow> em_value (em_storage C a index) s = Ok v"
proof -
  let ?k = "key_of C a"
  obtain d where d: "chain ?k = Some d" and x: "from_account ether_account_packable (ec_evm_loader C) (make_account_info ?k d) = Ok x"
    using assms(3) by (auto simp: opened_at_Some)
  have key: "oa_key (ad_info x) = ?k" using from_account_info [OF x] by (simp add: make_account_info_def)
  have drop: "account_drop ether_account_packable x = Ok x'" if "x' = ad_info x" for x'
    using that opened_at_info [OF assms(3)] by (simp add: account_drop_def)
  have header: "map_value C chain a 0 (\<lambda>x. ed_generation (ad_data x)) = Ok (ed_generation (ad_data x))"
    using drop by (simp add: map_value_def account_value_def assms(3,5))
  have loaded: "get_account_from_solana C a = (?k, Some d)" "rpc_get_account (ec_rpc C) = chain"
    using assms(1) d by (simp_all add: get_account_from_solana_def Let_def rpc_is_def)
  have em: "em_value (em_storage C a index) s = storage_value C chain a index"
    by (rule same_answer [OF answers_storage [OF assms(1)] assms(2)])
  have cell: "(if sa_owner e = sol_system_id (rt_solana (ec_runtime C)) then Ok 0
      else rbind (from_account storage_packable (ec_evm_loader C) (make_account_info k e)) (\<lambda>y.
        if sd_address (ad_data y) \<noteq> a \<or> sd_index (ad_data y) \<noteq> i \<or> sd_generation (ad_data y) \<noteq> ed_generation (ad_data x) then Ok 0
        else storage_get (ad_info y) j)) = Ok v \<longleftrightarrow> cell_value C chain a i j k e = Ok v" for k e i j
    by (cases "from_account storage_packable (ec_evm_loader C) (make_account_info k e)") (simp_all add: cell_value_def header)
  show ?thesis
  proof (cases "unat index < STORAGE_ENTRIES_IN_CONTRACT_ACCOUNT")
    case True
    then show ?thesis
      by (simp add: em get_storage_at_def loaded x assms(4) storage_value_def overridden_storage_def assms(5) contract_value_def
        account_value_def assms(3))
  next
    case False
    let ?cell = "em_cell_key C ?k (index AND NOT 0xFF)"
    show ?thesis
    proof (cases ?cell)
      case (Ok k)
      then show ?thesis using False
        by (cases "chain k") (simp_all add: em get_storage_at_def loaded x assms(4) storage_value_def overridden_storage_def assms(5) key cell)
    qed (use False in \<open>simp_all add: em get_storage_at_def loaded x assms(4) storage_value_def overridden_storage_def assms(5) key\<close>)
  qed
qed

section \<open>A small node\<close>

definition demo_emulated_runtime :: runtime where
  "demo_emulated_runtime = demo_runtime\<lparr>rt_solana := demo_solana\<lparr>sol_find_program_address :=
     (\<lambda>seeds p. (ucast (from_be (last seeds) :: address), 255))\<rparr>, rt_create_with_seed := (\<lambda>base seed p. Ok (base + 0x10000))\<rparr>"

definition demo_extension :: "ether_data \<Rightarrow> bytes" where
  "demo_extension d = (if ed_code_size d = 0 then [] else replicate INTERNAL_STORAGE_SIZE 0 @ [0x60, 1, 0x60, 2, 0])"

definition demo_loaded :: "ether_data \<Rightarrow> sol_account" where
  "demo_loaded d = \<lparr>sa_lamports = 50, sa_data = TAG_ACCOUNT_V3 # ether_pack d @ demo_extension d, sa_owner = 8, sa_executable = False, sa_rent_epoch = 0\<rparr>"

definition demo_loaded_cell :: "storage_data \<Rightarrow> sol_account" where
  "demo_loaded_cell c = \<lparr>sa_lamports = 50, sa_data = TAG_CONTRACT_STORAGE # storage_pack c @ 4 # be_bytes 32 (90 :: u256), sa_owner = 8,
     sa_executable = False, sa_rent_epoch = 0\<rparr>"

definition demo_slot :: storage_data where
  "demo_slot = \<lparr>sd_address = 0x1003, sd_generation = 0, sd_index = 0x300\<rparr>"

definition demo_chain :: "pubkey \<Rightarrow> sol_account option" where
  "demo_chain = [SYSVAR_RENT \<mapsto> sol_account_default, 0x1001 \<mapsto> demo_loaded (demo_header 0x1001 4 100), 0x1002 \<mapsto> demo_loaded (demo_header 0x1002 1 7),
     0x1003 \<mapsto> demo_loaded ((demo_header 0x1003 1 0)\<lparr>ed_code_size := 5\<rparr>),
     0x11003 \<mapsto> demo_loaded_cell demo_slot]"

definition demo_node :: rpc where
  "demo_node = \<lparr>rpc_get_account = demo_chain, rpc_get_account_with_commitment = (\<lambda>k. Some (demo_chain k)),
     rpc_get_multiple_accounts = (\<lambda>ks. Some (map demo_chain ks)), rpc_get_slot = Some 1000, rpc_get_block_time = (\<lambda>n. Some 5000)\<rparr>"

definition demo_config :: "(address \<Rightarrow> account_override option) option \<Rightarrow> emulator_config" where
  "demo_config overrides = \<lparr>ec_runtime = demo_emulated_runtime, ec_env = demo_env, ec_rpc = demo_node, ec_evm_loader = 8,
     ec_block_number = 1000, ec_block_timestamp = 5000, ec_neon_token_mint = 7, ec_chain_id = 111, ec_state_overrides = overrides\<rparr>"

definition demo_empty :: emulator where
  "demo_empty = \<lparr>em_accounts = Map.empty, em_solana = Map.empty\<rparr>"

lemma demo_rpc: "rpc_is demo_node demo_chain"
  by (simp add: rpc_is_def demo_node_def)

lemma demo_empty_ok: "em_ok C chain {} demo_empty"
  by (simp add: em_ok_def demo_empty_def)

lemma demo_key: "key_of (demo_config v) a = ucast a"
  by (simp add: make_solana_program_address_def demo_config_def demo_emulated_runtime_def codec)

lemma demo_state: "ec_runtime (demo_config v) = demo_emulated_runtime" "ec_env (demo_config v) = demo_env" "ec_rpc (demo_config v) = demo_node"
    "ec_chain_id (demo_config v) = 111" "ec_evm_loader (demo_config v) = 8" "override_of (demo_config None) a = None"
  by (simp_all add: demo_config_def override_of_def)

lemma demo_loads: "from_account ether_account_packable 8 (make_account_info k (demo_loaded d))
    = Ok \<lparr>ad_dirty = False, ad_data = d, ad_info = make_account_info k (demo_loaded d)\<rparr>"
proof -
  let ?info = "make_account_info k (demo_loaded d)"
  have "?info = ?info\<lparr>oa_data := pk_tag ether_account_packable # pk_pack ether_account_packable d @ demo_extension d\<rparr>" and "oa_owner ?info = 8"
    by (simp_all add: make_account_info_def demo_loaded_def ether_account_packable_def)
  then show ?thesis by (metis ether_account.open_packed)
qed

lemma demo_loads_cell: "from_account storage_packable 8 (make_account_info k (demo_loaded_cell c))
    = Ok \<lparr>ad_dirty = False, ad_data = c, ad_info = make_account_info k (demo_loaded_cell c)\<rparr>"
proof -
  let ?info = "make_account_info k (demo_loaded_cell c)"
  have "?info = ?info\<lparr>oa_data := pk_tag storage_packable # pk_pack storage_packable c @ 4 # be_bytes 32 (90 :: u256)\<rparr>"
    and "oa_owner ?info = 8"
    by (simp_all add: make_account_info_def demo_loaded_cell_def storage_packable_def)
  then show ?thesis by (metis storage_account.open_packed)
qed

lemma demo_held: "storage_get (make_account_info k (demo_loaded_cell c)) 4 = Ok 90"
proof -
  have "storage_get (make_account_info k (demo_loaded_cell c)) 4 = Ok (chunk_get 4 (4 # be_bytes 32 (90 :: u256)))"
    by (simp add: storage_get_def make_account_info_def demo_loaded_cell_def storage_pack_def storage_size)
  also have "chunk_get 4 (4 # be_bytes 32 (90 :: u256)) = 90"
    by (subst chunk_get.simps) (simp add: codec)
  finally show ?thesis .
qed

lemma demo_cell_key: "em_cell_key (demo_config v) base i = Ok (base + 0x10000)"
  by (simp add: em_cell_key_def storage_address_def demo_state) (simp add: demo_emulated_runtime_def)

lemma demo_opened_at:
  assumes "demo_chain (ucast a) = Some (demo_loaded d)"
  shows "opened_at (demo_config v) demo_chain a = Some \<lparr>ad_dirty = False, ad_data = d, ad_info = make_account_info (ucast a) (demo_loaded d)\<rparr>"
  using assms by (simp add: opened_at_Some demo_key demo_state demo_loads)

lemma demo_accounts: "demo_chain (ucast (0x1001 :: address)) = Some (demo_loaded (demo_header 0x1001 4 100))"
    "demo_chain (ucast (0x1002 :: address)) = Some (demo_loaded (demo_header 0x1002 1 7))"
    "demo_chain (ucast (0x1003 :: address)) = Some (demo_loaded ((demo_header 0x1003 1 0)\<lparr>ed_code_size := 5\<rparr>))"
  by (simp_all add: demo_chain_def)

theorem override_panics_witness:
  "(let C = demo_config (Some [0x1001 \<mapsto> \<lparr>ao_nonce = None, ao_code = None, ao_balance = Some 1000, ao_state = None, ao_state_diff = None\<rparr>]) in
     em_value (em_balance C 0x1001) demo_empty = Panic \<and> em_value (em_nonce C 0x1001) demo_empty = Panic)"
proof -
  let ?v = "\<lparr>ao_nonce = None, ao_code = None, ao_balance = Some 1000, ao_state = None, ao_state_diff = None\<rparr>"
  let ?C = "demo_config (Some [0x1001 \<mapsto> ?v])"
  have "rpc_is (ec_rpc ?C) demo_chain" using demo_rpc by (simp add: demo_config_def)
  moreover have "override_of ?C 0x1001 = Some ?v" by (simp add: override_of_def demo_config_def)
  moreover have "demo_chain (ucast (0x1001 :: address)) = Some (demo_loaded (demo_header 0x1001 4 100))" by (simp add: demo_chain_def)
  moreover have "ao_nonce ?v \<noteq> None \<or> ao_balance ?v \<noteq> None \<or> ao_code ?v \<noteq> None" by simp
  ultimately show ?thesis
    using override_panics [OF _ demo_empty_ok demo_opened_at] by (simp only: Let_def)
qed

theorem storage_at_agrees_witness:
  "get_storage_at (demo_config None) 0x1003 0x304 = Ok 90 \<and> em_value (em_storage (demo_config None) 0x1003 0x304) demo_empty = Ok 90"
proof -
  let ?C = "demo_config None" and ?h = "(demo_header 0x1003 1 0)\<lparr>ed_code_size := 5\<rparr>"
  have rpc: "rpc_is (ec_rpc ?C) demo_chain" by (simp add: demo_state demo_rpc)
  note opened = demo_opened_at [OF demo_accounts(3), of None]
  have node: "sol_system_id (rt_solana demo_emulated_runtime) = 0" "rpc_get_account demo_node = demo_chain"
    by (simp_all add: demo_emulated_runtime_def demo_solana_def demo_node_def)
  have there: "demo_chain 0x11003 = Some (demo_loaded_cell demo_slot)" "sa_owner (demo_loaded_cell demo_slot) = 8"
      "demo_chain 0x1003 = Some (demo_loaded ?h)"
    by (simp_all add: demo_chain_def demo_loaded_cell_def)
  have parts: "is_contract ?h" "ed_generation ?h = 0" "oa_key (make_account_info k e) = k" for k e
    by (simp_all add: is_contract_def code_size_def demo_header_def make_account_info_def)
  have "get_storage_at ?C 0x1003 0x304 = Ok 90"
    by (simp add: get_storage_at_def get_account_from_solana_def demo_key demo_state parts demo_cell_key node there demo_loads
        demo_loads_cell demo_held STORAGE_ENTRIES_IN_CONTRACT_ACCOUNT_def)
      (simp add: demo_slot_def)
  then show ?thesis
    using storage_at_agrees [OF rpc demo_empty_ok opened, of "0x304" 90] by (simp add: demo_state is_contract_def code_size_def)
qed

definition demo_params :: tx_params where
  "demo_params = \<lparr>tp_nonce = None, tp_from = 0x1001, tp_to = Some 0x1002, tp_data = None, tp_value = None, tp_gas_limit = None,
     tp_access_list = None\<rparr>"

lemma demo_map: "map_value (demo_config None) demo_chain 0x1001 d f
    = Ok (f \<lparr>ad_dirty = False, ad_data = demo_header 0x1001 4 100, ad_info = make_account_info 0x1001 (demo_loaded (demo_header 0x1001 4 100))\<rparr>)"
  using demo_opened_at [OF demo_accounts(1)] by (simp add: map_value_def account_value_def demo_state account_drop_def)

lemma demo_backend:
  assumes "em_ok (demo_config None) demo_chain {} s"
  defines "B \<equiv> emulator_backend (demo_config None) s"
  shows "as_nonce B 0x1001 = Ok 4" "as_balance B 0x1001 = Ok 100" "as_code_size B 0x1001 = Ok 0" "as_code B 0x1002 = Ok buf_empty"
    "as_chain_id B = 111"
proof -
  have rpc: "rpc_is (ec_rpc (demo_config None)) demo_chain" by (simp add: demo_state demo_rpc)
  note map = same_answer [OF answers_map0 [OF rpc] assms(1)]
  show "as_nonce B 0x1001 = Ok 4" "as_balance B 0x1001 = Ok 100" "as_code_size B 0x1001 = Ok 0" "as_chain_id B = 111"
    by (simp_all add: B_def emulator_backend_def em_nonce_def em_balance_def em_code_size_def map demo_map demo_state)
      (simp_all add: demo_header_def code_size_def)
  show "as_code B 0x1002 = Ok buf_empty"
    using demo_opened_at [OF demo_accounts(2)]
    by (simp add: same_answer [OF answers_contract [OF rpc] assms(1)] B_def emulator_backend_def em_code_def contract_value_def account_value_def demo_header_def is_contract_def code_size_def)
qed

lemma demo_run:
  assumes "em_ok (demo_config None) demo_chain {} s" and "emulated_transaction demo_params 4 111 = Ok trx"
  shows "run_emulated (demo_config None) s trx 0x1001 500 = Ok (ExitStop, [EvmIncrementNonce 0x1001], 1)"
proof -
  let ?B = "emulator_backend (demo_config None) s"
  let ?D = "executor_database demo_env (rt_solana demo_emulated_runtime) ?B"
  note reads = demo_backend [OF assms(1)]
  have trx: "trx = \<lparr>tx_payload = Legacy \<lparr>l_nonce = 4, l_gas_price = 0, l_gas_limit = - 1, l_target = Some 0x1002, l_value = 0,
      l_call_data = buf_from_slice [], l_v = 0, l_r = 0, l_s = 0, l_chain_id = Some 111, l_recovery_id = 0\<rparr>,
      tx_byte_len = 0, tx_hash = 0, tx_signed_hash = 0\<rparr>"
    using assms(2) by (simp add: emulated_transaction_def demo_params_def option_or_def)
  let ?m = "first_frame trx 0x1001 \<lparr>ctx_caller = 0x1001, ctx_contract = 0x1002, ctx_value = 0, ctx_code_address = Some 0x1002\<rparr>
      buf_empty None (buf_from_slice []) Call"
    and ?x = "(executor_new ?B)\<lparr>ex_actions := [EvmIncrementNonce 0x1001], ex_stack := [Suc 0]\<rparr>"
    and ?l = "[[ascii ''ENTER'', ascii ''CALL'', be_bytes 20 (0x1002 :: address)]]"
  have new: "machine_new demo_env ?D trx 0x1001 (executor_new ?B, []) = (Ok ?m, (?x, ?l))"
    by (simp add: trx machine_new_def new_call_def trx_nonce_def trx_chain_id_def trx_value_def trx_target_def
      trx_call_data_def boot_read_def boot_db_def boot_log_def exec_simps executor_database_def executor_new_def reads
      ex_nonce_def ex_balance_def ex_code_size_def ex_code_def is_precompile_extension_def ex_increment_nonce_def
      push_action_def ex_snapshot_def ex_transfer_def read_container_def has_eof_magic_def EOF_MAGIC_def)
  let ?s = "\<lparr>cur = ?m, parents = [], db = ?x, logs = ?l\<rparr>"
    and ?s' = "\<lparr>cur = ?m, parents = [], db = ?x\<lparr>ex_stack := []\<rparr>, logs = ?l @ [[ascii ''EXIT'', ascii ''STOP'']]\<rparr>"
  have step: "execute_step demo_env ?D False ?s = (Ok (Some ExitStop), ?s')"
    by (simp add: execute_step_def run_opcode_def get_code_def get_code_of_def first_frame_def executor_new_def buf_empty_def
      exec_simps vm_access get_or_default_def Let_def execute_opcode_def table_arith_def opcode_stop_def has_no_parent_def
      apply_action_def executor_database_def ex_commit_snapshot_def)
  have "execute_loop demo_env ?D False (Suc n) 0 ?s = (Ok (ExitStop, 1), ?s')" for n
    by (simp add: exec_simps step)
  then have "execute_loop demo_env ?D False 500 0 ?s = (Ok (ExitStop, 1), ?s')"
    by (metis numeral_eq_Suc)
  then have run: "execute demo_env ?D 500 ?s = (Ok (ExitStop, 1), ?s')"
    by (simp add: execute_def get_code_def get_code_of_def exec_simps first_frame_def is_precompile_address_def)
  show ?thesis by (simp add: run_emulated_def demo_state new run Let_def) (simp add: into_actions_def)
qed

lemma demo_gas: "fst (emulated_gas C [EvmIncrementNonce a] 1 s) = Ok 20000"
  by (cases "em_accounts s a")
    (simp_all add: emulated_gas_def em_calc_accounts_operations_def needed_by_def apply_accounts_operations_def em_apply_action_def
      exec_simps add_ethereum_account_def steps_cost_def EVM_STEPS_MIN_def LAMPORTS_PER_SIGNATURE_def PAYMENT_TO_TREASURE_def
      saturating_add_def)

lemma demo_emulated: "fst (emulate_trx (demo_config None) demo_params 111 500 demo_empty)
    = Done \<lparr>er_exit_status = ExitStop, er_steps_executed = 1, er_used_gas = 20000, er_actions = [EvmIncrementNonce 0x1001]\<rparr>"
proof -
  let ?C = "demo_config None"
  have rpc: "rpc_is (ec_rpc ?C) demo_chain" by (simp add: demo_state demo_rpc)
  have "answers ?C demo_chain (em_nonce ?C 0x1001) (Ok 4) {}"
    using answers_map0 [OF rpc, of "0x1001" 0 "\<lambda>x. ed_trx_count (ad_data x)"] by (simp add: em_nonce_def demo_map) (simp add: demo_header_def)
  then obtain s where s: "em_nonce ?C 0x1001 demo_empty = (Ok 4, s)" "em_ok ?C demo_chain {} s"
    using answersE demo_empty_ok by (metis Un_empty_left)
  obtain trx where trx: "emulated_transaction demo_params 4 111 = Ok trx" by (simp add: emulated_transaction_def demo_params_def)
  obtain s' where gas: "emulated_gas ?C [EvmIncrementNonce 0x1001] 1 s = (Ok 20000, s')"
    using demo_gas [of ?C "0x1001" s] by (metis prod.collapse)
  have p: "tp_nonce demo_params = None" "tp_from demo_params = 0x1001" by (simp_all add: demo_params_def)
  show ?thesis by (simp add: emulate_trx_def p s(1) trx demo_run [OF s(2) trx] gas)
qed

lemma demo_stubs: "setup_syscall_stubs (\<lambda>data. Some (rt_minimum_balance demo_emulated_runtime)) demo_emulated_runtime demo_node
    = Done demo_emulated_runtime"
  by (simp add: setup_syscall_stubs_def demo_node_def demo_chain_def SYSVAR_RENT_def)

theorem emulation_ignores_preloading_witness:
  "reported (emulate_transaction (\<lambda>data. Some (rt_minimum_balance demo_emulated_runtime)) demo_emulated_runtime demo_env demo_node 8 demo_params
      7 111 500 [0x1001, 0x1002] [99] None None)
    = Done \<lparr>er_exit_status = ExitStop, er_steps_executed = 1, er_used_gas = 20000, er_actions = [EvmIncrementNonce 0x1001]\<rparr>"
proof -
  have "emulator_new demo_emulated_runtime demo_env demo_node 8 7 111 None None = Some (demo_config None, demo_empty)"
    by (simp add: emulator_new_def demo_node_def demo_config_def demo_empty_def)
  moreover have "initialize_cached_accounts C [] [] s = s" for C s
    by (simp add: initialize_cached_accounts_def split: option.split)
  ultimately show ?thesis
    using demo_emulated emulation_ignores_preloading [OF demo_rpc, of "\<lambda>data. Some (rt_minimum_balance demo_emulated_runtime)"
      demo_emulated_runtime demo_env 8 demo_params 7 111 500 "[0x1001, 0x1002]" "[99]" None None]
    by (simp add: emulate_transaction_def demo_stubs with_accounts_def reported_def split: prod.splits)
qed

end
