(* ===== verification/Emulator_Chain.thy ===== *)
theory Emulator_Chain
  imports Emulator_Laws
begin

text \<open>
  The emulator and the program: on a node that shows the accounts which an instruction has opened, the storage of the emulator
  answers the executor what the storage of the program answers.
\<close>

section \<open>One state, seen from both sides\<close>

text \<open>
  The accounts that are opened, with the headers that were read from them, are the ones that the node has; an account that the
  node does not have is one of the system program.  The cells belong to the generation of their contract: cells of older
  ones are cleared when the accounts are opened.
\<close>

definition on_chain :: "emulator_config \<Rightarrow> sol_account option \<Rightarrow> owned_account \<Rightarrow> bool" where
  "on_chain C account info =
    (case account of
       Some d \<Rightarrow> sa_data d = oa_data info \<and> sa_owner d = oa_owner info
     | None \<Rightarrow> oa_owner info = sol_system_id (rt_solana (ec_runtime C)))"

definition shows_state :: "emulator_config \<Rightarrow> (pubkey \<Rightarrow> sol_account option) \<Rightarrow> program_storage \<Rightarrow> bool" where
  "shows_state C chain S \<longleftrightarrow>
     ec_evm_loader C = ps_program_id S \<and> sol_system_id (rt_solana (ec_runtime C)) \<noteq> ps_program_id S
     \<and> (\<forall>k info. ps_solana S k = Some info \<longrightarrow> on_chain C (chain k) info)
     \<and> (\<forall>(a, h) \<in> set (ps_ethereum S). \<not> hn_dirty h \<and> hn_key h = key_of C a \<and> opened ether_account_packable S h)
     \<and> (\<forall>((a, i), h) \<in> set (ps_cells S). \<not> hn_dirty h \<and> em_cell_key C (key_of C a) i = Ok (hn_key h)
          \<and> opened storage_packable S h \<and> sd_address (hn_data h) = a \<and> sd_index (hn_data h) = i
          \<and> (\<exists>owner. map_of (ps_ethereum S) a = Some owner \<and> sd_generation (hn_data h) = ed_generation (hn_data owner)))"

definition agrees :: "'a result \<Rightarrow> 'a result \<Rightarrow> bool" where
  "agrees r r' \<longleftrightarrow> (\<forall>x. r = Ok x \<longrightarrow> r' = Ok x)"

lemma agrees_refl [simp]: "agrees r r" "agrees Panic r" "agrees (Err e) r"
  by (simp_all add: agrees_def)

section \<open>Opening an account again\<close>

lemma from_account_same:
  assumes "from_account P program_id info = Ok x" and "oa_owner info' = oa_owner info" and "oa_data info' = oa_data info"
  shows "from_account P program_id info' = Ok (x\<lparr>ad_info := info'\<rparr>)"
  using assms by (auto simp: from_account_def split_account_data_def split: if_splits)

lemma make_account_info_parts [simp]: "oa_owner (make_account_info k d) = sa_owner d" "oa_data (make_account_info k d) = sa_data d"
  by (simp_all add: make_account_info_def)

lemma opens_on_chain:
  assumes "shows_state C chain S" and "opened P S h" and "\<not> hn_dirty h"
  obtains d info where "ps_solana S (hn_key h) = Some info" and "chain (hn_key h) = Some d" and "sa_data d = oa_data info"
    and "sa_owner d = ps_program_id S"
    and "from_account P (ps_program_id S) (make_account_info (hn_key h) d)
      = Ok \<lparr>ad_dirty = False, ad_data = hn_data h, ad_info = make_account_info (hn_key h) d\<rparr>"
proof -
  obtain info x where info: "ps_solana S (hn_key h) = Some info" and x: "from_account P (ps_program_id S) info = Ok x" "ad_data x = hn_data h"
    using assms(2,3) by (auto simp: opened_def)
  note parts = from_account_info [OF x(1)]
  have "on_chain C (chain (hn_key h)) info" using assms(1) info by (auto simp: shows_state_def)
  then obtain d where d: "chain (hn_key h) = Some d" "sa_data d = oa_data info" "sa_owner d = oa_owner info"
    using parts assms(1) by (auto simp: on_chain_def shows_state_def split: option.splits)
  have "from_account P (ps_program_id S) (make_account_info (hn_key h) d) = Ok (x\<lparr>ad_info := make_account_info (hn_key h) d\<rparr>)"
    by (rule from_account_same [OF x(1)]) (simp_all add: d)
  also have "x\<lparr>ad_info := make_account_info (hn_key h) d\<rparr> = \<lparr>ad_dirty = False, ad_data = hn_data h, ad_info = make_account_info (hn_key h) d\<rparr>"
    using parts x(2) by (cases x) simp
  finally show thesis using that info d parts by simp
qed

lemma opened_at_known:
  assumes "shows_state C chain S" and "map_of (ps_ethereum S) a = Some h"
  obtains d info where "ps_solana S (hn_key h) = Some info" and "hn_key h = key_of C a" and "sa_data d = oa_data info"
    and "opened_at C chain a = Some \<lparr>ad_dirty = False, ad_data = hn_data h, ad_info = make_account_info (key_of C a) d\<rparr>"
proof -
  have h: "\<not> hn_dirty h" "hn_key h = key_of C a" "opened ether_account_packable S h"
    using assms(1) map_of_SomeD [OF assms(2)] by (auto simp: shows_state_def)
  obtain d info where "ps_solana S (hn_key h) = Some info" "chain (hn_key h) = Some d" "sa_data d = oa_data info"
    "from_account ether_account_packable (ps_program_id S) (make_account_info (hn_key h) d)
      = Ok \<lparr>ad_dirty = False, ad_data = hn_data h, ad_info = make_account_info (hn_key h) d\<rparr>"
    by (rule opens_on_chain [OF assms(1) h(3,1)])
  moreover have "ec_evm_loader C = ps_program_id S" using assms(1) by (simp add: shows_state_def)
  ultimately show thesis using that h(2) by (simp add: opened_at_Some)
qed

lemma opened_at_unknown:
  assumes "shows_state C chain S" and "map_of (ps_ethereum S) a = None" and "ethereum_account (ec_runtime C) S a = Ok x"
  shows "x = None \<and> opened_at C chain a = None"
proof -
  have key: "fst (find_solana_address (ec_runtime C) a (ps_program_id S)) = key_of C a"
    using assms(1) by (simp add: find_solana_address_def make_solana_program_address_def shows_state_def)
  obtain info where info: "ps_solana S (key_of C a) = Some info" "is_account_empty (ec_runtime C) S info" and x: "x = None"
    using assms(2,3) by (auto simp: ethereum_account_def key rassert_def split: option.splits if_splits)
  have "on_chain C (chain (key_of C a)) info" using assms(1) info by (auto simp: shows_state_def)
  moreover have "from_account ether_account_packable (ec_evm_loader C) (make_account_info k d) \<noteq> Ok y"
    if "sa_data d = oa_data info" "sa_owner d = oa_owner info" for k d y
    using that info(2) assms(1)
    by (auto simp: from_account_def split_account_data_def is_account_empty_def shows_state_def ether_account_packable_def account_tags
        split: if_splits)
  ultimately have "opened_at C chain a \<noteq> Some y" for y
    unfolding opened_at_Some by (auto simp: on_chain_def)
  then show ?thesis using x by (cases "opened_at C chain a") auto
qed

lemma reads_header:
  assumes "shows_state C chain S" and "ec_state_overrides C = None"
    and "\<And>h. f h = Ok (g (hn_data h))"
  shows "agrees (map_account none f (ec_runtime C) S a) (map_value C chain a none (\<lambda>x. g (ad_data x)))"
proof (cases "map_of (ps_ethereum S) a")
  case (Some h)
  obtain d info where "opened_at C chain a = Some \<lparr>ad_dirty = False, ad_data = hn_data h, ad_info = make_account_info (key_of C a) d\<rparr>"
    by (rule opened_at_known [OF assms(1) Some])
  then show ?thesis using assms(2,3)
    by (simp add: map_account_def ethereum_account_def Some map_value_def account_value_def override_of_def account_drop_def)
next
  case None
  show ?thesis
  proof (cases "ethereum_account (ec_runtime C) S a")
    case (Ok x)
    then show ?thesis using opened_at_unknown [OF assms(1) None Ok] by (simp add: map_account_def map_value_def account_value_def)
  qed (simp_all add: map_account_def)
qed

lemma reads_contract:
  assumes "shows_state C chain S" and "\<And>d i i'. oa_data i = oa_data i' \<Longrightarrow> F d i = F d i'"
  shows "agrees (map_account none (\<lambda>h. if is_contract (hn_data h) then rbind (handle_info h S) (F (hn_data h)) else Ok none) (ec_runtime C) S a)
    (contract_value C chain a none (\<lambda>x. F (ad_data x) (ad_info x)))"
proof (cases "map_of (ps_ethereum S) a")
  case (Some h)
  obtain d info where h: "ps_solana S (hn_key h) = Some info" "sa_data d = oa_data info"
    "opened_at C chain a = Some \<lparr>ad_dirty = False, ad_data = hn_data h, ad_info = make_account_info (key_of C a) d\<rparr>"
    by (rule opened_at_known [OF assms(1) Some])
  have "F (hn_data h) info = F (hn_data h) (make_account_info (key_of C a) d)" by (rule assms(2)) (simp add: h)
  then show ?thesis
    by (simp add: map_account_def ethereum_account_def Some contract_value_def account_value_def h handle_info_def unwrap_def)
next
  case None
  show ?thesis
  proof (cases "ethereum_account (ec_runtime C) S a")
    case (Ok x)
    then show ?thesis using opened_at_unknown [OF assms(1) None Ok] by (simp add: map_account_def contract_value_def account_value_def)
  qed (simp_all add: map_account_def)
qed

lemma extension_part_data: "oa_data i = oa_data i' \<Longrightarrow> extension_part i m n = extension_part i' m n"
  by (simp add: extension_part_def)

lemma reads_code_hash:
  assumes "shows_state C chain S" and "ec_state_overrides C = None"
  shows "agrees (ps_code_hash (ec_runtime C) S a) (code_hash_value C chain a)"
proof (cases "map_of (ps_ethereum S) a")
  case (Some h)
  obtain d info where h: "ps_solana S (hn_key h) = Some info" "sa_data d = oa_data info"
    "opened_at C chain a = Some \<lparr>ad_dirty = False, ad_data = hn_data h, ad_info = make_account_info (key_of C a) d\<rparr>"
    by (rule opened_at_known [OF assms(1) Some])
  have code: "contract_code e info = contract_code e (make_account_info (key_of C a) d)" for e
    unfolding contract_code_def by (rule extension_part_data) (simp add: h)
  have "ed_code_size (hn_data h) = 0 \<longleftrightarrow> code_size (hn_data h) = 0" by (simp add: code_size_def unat_eq_0)
  then show ?thesis
    by (simp add: ps_code_hash_def ps_code_size_def ps_nonce_def ps_balance_def map_account_def ethereum_account_def Some code_hash_value_def
      map_value_def contract_value_def account_value_def h override_of_def assms(2) account_drop_def handle_info_def unwrap_def
      is_contract_def code)
next
  case None
  show ?thesis
  proof (cases "ethereum_account (ec_runtime C) S a")
    case (Ok x)
    then show ?thesis using opened_at_unknown [OF assms(1) None Ok]
      by (simp add: ps_code_hash_def ps_code_size_def ps_nonce_def ps_balance_def map_account_def code_hash_value_def map_value_def account_value_def)
  qed (simp_all add: ps_code_hash_def ps_code_size_def map_account_def)
qed

lemma cell_known:
  assumes "shows_state C chain S" and "ec_state_overrides C = None" and "map_of (ps_cells S) (a, i) = Some h"
  obtains d info where "ps_solana S (hn_key h) = Some info" and "em_cell_key C (key_of C a) i = Ok (hn_key h)"
    and "chain (hn_key h) = Some d" and "\<forall>j. cell_value C chain a i j (hn_key h) d = storage_get info j"
proof -
  obtain owner where h: "\<not> hn_dirty h" "em_cell_key C (key_of C a) i = Ok (hn_key h)" "opened storage_packable S h"
      "sd_address (hn_data h) = a" "sd_index (hn_data h) = i"
    and owner: "map_of (ps_ethereum S) a = Some owner" "sd_generation (hn_data h) = ed_generation (hn_data owner)"
    using assms(1) map_of_SomeD [OF assms(3)] by (fastforce simp: shows_state_def)
  obtain d info where d: "ps_solana S (hn_key h) = Some info" "chain (hn_key h) = Some d" "sa_data d = oa_data info"
      "sa_owner d = ps_program_id S" "from_account storage_packable (ps_program_id S) (make_account_info (hn_key h) d)
        = Ok \<lparr>ad_dirty = False, ad_data = hn_data h, ad_info = make_account_info (hn_key h) d\<rparr>"
    by (rule opens_on_chain [OF assms(1) h(3,1)])
  obtain e info' where "opened_at C chain a = Some \<lparr>ad_dirty = False, ad_data = hn_data owner, ad_info = make_account_info (key_of C a) e\<rparr>"
    by (rule opened_at_known [OF assms(1) owner(1)])
  then have generation: "map_value C chain a 0 (\<lambda>x. ed_generation (ad_data x)) = Ok (ed_generation (hn_data owner))"
    by (simp add: map_value_def account_value_def override_of_def assms(2) account_drop_def)
  have "ec_evm_loader C = ps_program_id S" "sol_system_id (rt_solana (ec_runtime C)) \<noteq> ps_program_id S"
    using assms(1) by (simp_all add: shows_state_def)
  then have "cell_value C chain a i j (hn_key h) d = storage_get info j" for j
    using d h owner(2) by (auto simp: cell_value_def generation storage_get_def)
  then show thesis using that d h by simp
qed

lemma solana_address_key:
  assumes "shows_state C chain S"
  shows "fst (solana_address (ec_runtime C) S a) = key_of C a"
proof (cases "map_of (ps_ethereum S) a")
  case (Some h)
  then show ?thesis using assms map_of_SomeD [OF Some] by (auto simp: solana_address_def shows_state_def)
qed (use assms in \<open>simp add: solana_address_def find_solana_address_def make_solana_program_address_def shows_state_def\<close>)

lemma reads_cell:
  assumes "shows_state C chain S" and "ec_state_overrides C = None"
  shows "agrees (rbind (ethereum_storage (ec_runtime C) S a i) (\<lambda>x. case x of
        Some h \<Rightarrow> rbind (handle_info h S) (\<lambda>info. storage_get info j) | None \<Rightarrow> Ok 0))
      (rbind (em_cell_key C (key_of C a) i) (\<lambda>k. case chain k of None \<Rightarrow> Ok 0 | Some d \<Rightarrow> cell_value C chain a i j k d))"
proof (cases "map_of (ps_cells S) (a, i)")
  case (Some h)
  obtain d info where "ps_solana S (hn_key h) = Some info" "em_cell_key C (key_of C a) i = Ok (hn_key h)"
      "chain (hn_key h) = Some d" "\<forall>j. cell_value C chain a i j (hn_key h) d = storage_get info j"
    by (rule cell_known [OF assms Some])
  then show ?thesis by (simp add: ethereum_storage_def Some handle_info_def unwrap_def)
next
  case None
  have program: "ps_program_id S = ec_evm_loader C" using assms(1) by (simp add: shows_state_def)
  show ?thesis
  proof (cases "storage_address (rt_create_with_seed (ec_runtime C)) (ec_evm_loader C) (key_of C a) i")
    case (Ok y)
    obtain seed k where y: "y = (seed, k)" by (cases y)
    show ?thesis
    proof (cases "ps_solana S k")
      case (Some info)
      then have "on_chain C (chain k) info" using assms(1) by (auto simp: shows_state_def)
      then show ?thesis
        by (auto simp: ethereum_storage_def None solana_address_key [OF assms(1)] program Ok y Some em_cell_key_def agrees_def
            rbind_Ok_iff rassert_def on_chain_def cell_value_def split: option.splits if_splits)
    qed (simp add: ethereum_storage_def None solana_address_key [OF assms(1)] program Ok y)
  qed (simp_all add: ethereum_storage_def None solana_address_key [OF assms(1)] program)
qed

lemma reads_storage:
  assumes "shows_state C chain S" and "ec_state_overrides C = None"
  shows "agrees (ps_storage (ec_runtime C) S a i) (storage_value C chain a i)"
proof (cases "unat i < STORAGE_ENTRIES_IN_CONTRACT_ACCOUNT")
  case True
  let ?F = "\<lambda>(d :: ether_data) info. rbind (contract_storage info) (\<lambda>cells.
           rbind (slice_at cells (unat i * 32) 32) (\<lambda>b. Ok (from_be b)))"
  have "?F d info = ?F d info'" if "oa_data info = oa_data info'" for d info info'
    unfolding contract_storage_def using extension_part_data [OF that] by (simp only:)
  from reads_contract [OF assms(1), of ?F, OF this] show ?thesis
    by (simp add: ps_storage_def storage_value_def True overridden_storage_def override_of_def assms(2))
next
  case False
  have "overridden_storage C a i = Ok None" by (simp add: overridden_storage_def override_of_def assms(2))
  then show ?thesis
    unfolding ps_storage_def storage_value_def using reads_cell [OF assms, of a "i AND NOT 0xFF" "ucast (i AND 0xFF)"] False
    by (simp only: if_False rbind_simps option.case)
qed

text \<open>The account of a contract is long enough for its code, which \<open>deploy_contract\<close> asserts when it writes it.\<close>

definition holds_code :: "program_storage \<Rightarrow> address \<Rightarrow> bool" where
  "holds_code S a = (case map_of (ps_ethereum S) a of
     Some h \<Rightarrow> (case ps_solana S (hn_key h) of
         Some info \<Rightarrow> code_size (hn_data h) = 0 \<or> space_needed (code_size (hn_data h)) \<le> length (oa_data info)
       | None \<Rightarrow> True)
   | None \<Rightarrow> True)"

lemma reads_code:
  assumes "shows_state C chain S" and "ec_state_overrides C = None" and "ps_code (ec_runtime C) S a = Ok b" and "holds_code S a"
  shows "\<exists>c. contract_value C chain a buf_empty (\<lambda>x. case Option.bind (override_of C a) ao_code of
       Some code \<Rightarrow> Ok (buf_from_slice code)
     | None \<Rightarrow> rbind (contract_code (ad_data x) (ad_info x)) (\<lambda>code. Ok (buf_from_slice code))) = Ok c \<and> buf_bytes c = buf_bytes b"
proof (cases "map_of (ps_ethereum S) a")
  case (Some h)
  obtain d info where h: "ps_solana S (hn_key h) = Some info" "sa_data d = oa_data info"
    "opened_at C chain a = Some \<lparr>ad_dirty = False, ad_data = hn_data h, ad_info = make_account_info (key_of C a) d\<rparr>"
    by (rule opened_at_known [OF assms(1) Some])
  have "unat (ed_code_size (hn_data h)) < 4294967296" using unat_less_2p [of "ed_code_size (hn_data h)"] by simp
  then have fits: "saturating_add_usize (ether_size + INTERNAL_STORAGE_SIZE) (code_size (hn_data h))
      = ether_size + INTERNAL_STORAGE_SIZE + code_size (hn_data h)"
    by (simp add: saturating_add_usize_def code_size_def ether_size INTERNAL_STORAGE_SIZE_def STORAGE_ENTRIES_IN_CONTRACT_ACCOUNT_def)
  have room: "code_size (hn_data h) \<noteq> 0 \<Longrightarrow> ether_size + INTERNAL_STORAGE_SIZE + code_size (hn_data h) \<le> length (oa_data info)"
    using assms(4) fits by (simp add: holds_code_def Some h space_needed_def)
  show ?thesis using assms(2,3) room
    by (auto simp: fits add.commute [of INTERNAL_STORAGE_SIZE ether_size] ps_code_def map_account_def ethereum_account_def Some contract_value_def account_value_def h handle_info_def
      unwrap_def is_contract_def override_of_def rbind_Ok_iff contract_code_def extension_part_def code_location_def
      buf_from_account_def slice_at_def slice_from_def Let_def split: if_splits)
next
  case None
  obtain x where x: "ethereum_account (ec_runtime C) S a = Ok x" using assms(3) by (auto simp: ps_code_def map_account_def rbind_Ok_iff)
  then show ?thesis using opened_at_unknown [OF assms(1) None x] assms(3)
    by (simp add: ps_code_def map_account_def contract_value_def account_value_def)
qed

text \<open>C9: the emulator reads what the program reads.  On a node that shows the state an instruction has opened, and without overrides,
  every value that the storage of the program gives to the executor (nonce, balance, size and hash of the code, storage slots
  in the account of a contract and in cells, the address of an account) is the value that the storage of the emulator
  gives, whatever it has cached.  For an account that is as long as its code needs, the emulator gives a code of the same
  bytes (from a shorter one the program takes a window past the end of the account).\<close>

theorem emulator_reads_state:
  assumes "rpc_is (ec_rpc C) chain" and "em_ok C chain {} s" and "shows_state C chain S" and "ec_state_overrides C = None"
  defines "P \<equiv> backend (ec_runtime C) S" and "E \<equiv> emulator_backend C s"
  shows "agrees (as_nonce P a) (as_nonce E a) \<and> agrees (as_balance P a) (as_balance E a) \<and> agrees (as_code_size P a) (as_code_size E a)
    \<and> agrees (as_code_hash P a) (as_code_hash E a) \<and> agrees (as_storage P a i) (as_storage E a i)
    \<and> (holds_code S a \<longrightarrow> (\<forall>b. as_code P a = Ok b \<longrightarrow> (\<exists>c. as_code E a = Ok c \<and> buf_bytes c = buf_bytes b)))
    \<and> fst (as_solana_address P a) = fst (as_solana_address E a)"
proof -
  note map = same_answer [OF answers_map0 [OF assms(1)] assms(2)]
  have "agrees (as_nonce P a) (as_nonce E a)" "agrees (as_balance P a) (as_balance E a)" "agrees (as_code_size P a) (as_code_size E a)"
    unfolding P_def E_def backend_def emulator_backend_def account_storage.simps em_nonce_def em_balance_def em_code_size_def map
      ps_nonce_def ps_balance_def ps_code_size_def
    by (rule reads_header [OF assms(3,4)], rule refl)+
  moreover have "agrees (as_code_hash P a) (as_code_hash E a)" "agrees (as_storage P a i) (as_storage E a i)"
    using reads_code_hash [OF assms(3,4)] reads_storage [OF assms(3,4)]
    by (simp_all add: P_def E_def backend_def emulator_backend_def same_answer [OF answers_code_hash [OF assms(1)] assms(2)]
      same_answer [OF answers_storage [OF assms(1)] assms(2)])
  moreover have "holds_code S a \<longrightarrow> (\<forall>b. as_code P a = Ok b \<longrightarrow> (\<exists>c. as_code E a = Ok c \<and> buf_bytes c = buf_bytes b))"
    using reads_code [OF assms(3,4)]
    by (simp add: P_def E_def backend_def emulator_backend_def em_code_def same_answer [OF answers_contract [OF assms(1)] assms(2)])
  moreover have "fst (as_solana_address P a) = fst (as_solana_address E a)"
    using solana_address_key [OF assms(3)] by (simp add: P_def E_def backend_def emulator_backend_def)
  ultimately show ?thesis by simp
qed

section \<open>The state of the small node, opened\<close>

definition demo_seen :: program_storage where
  "demo_seen = \<lparr>ps_program_id = 8, ps_operator = 9, ps_slot = 0, ps_timestamp = 0,
     ps_solana = [0x1003 \<mapsto> make_account_info 0x1003 (demo_loaded ((demo_header 0x1003 1 0)\<lparr>ed_code_size := 5\<rparr>)),
       0x11003 \<mapsto> make_account_info 0x11003 (demo_loaded_cell demo_slot)],
     ps_ethereum = [(0x1003, \<lparr>hn_dirty = False, hn_data = (demo_header 0x1003 1 0)\<lparr>ed_code_size := 5\<rparr>, hn_key = 0x1003\<rparr>)],
     ps_cells = [((0x1003, 0x300), \<lparr>hn_dirty = False, hn_data = demo_slot, hn_key = 0x11003\<rparr>)]\<rparr>"

lemma demo_shown: "shows_state (demo_config None) demo_chain demo_seen"
proof -
  have "sol_system_id (rt_solana demo_emulated_runtime) = 0" by (simp add: demo_emulated_runtime_def demo_solana_def)
  moreover have "on_chain C (demo_chain k) info" if "ps_solana demo_seen k = Some info" for C k info
    using that by (auto simp: demo_seen_def on_chain_def demo_chain_def SYSVAR_RENT_def split: if_splits)
  moreover have "opened ether_account_packable demo_seen h" if "(a, h) \<in> set (ps_ethereum demo_seen)" for a h
    using that by (auto simp: opened_def demo_seen_def demo_loads)
  moreover have "opened storage_packable demo_seen h" if "(a, h) \<in> set (ps_cells demo_seen)" for a h
    using that by (auto simp: opened_def demo_seen_def demo_loads_cell)
  ultimately show ?thesis
    unfolding shows_state_def by (auto simp: demo_state demo_seen_def demo_key demo_cell_key demo_slot_def demo_header_def)
qed

theorem emulator_reads_state_witness:
  "(let P = backend demo_emulated_runtime demo_seen; E = emulator_backend (demo_config None) demo_empty in
     as_nonce P 0x1003 = Ok 1 \<and> as_nonce E 0x1003 = Ok 1 \<and> as_storage P 0x1003 0x304 = Ok 90 \<and> as_storage E 0x1003 0x304 = Ok 90
     \<and> (\<exists>c. as_code E 0x1003 = Ok c \<and> buf_bytes c = [0x60, 1, 0x60, 2, 0]))"
proof -
  let ?P = "backend demo_emulated_runtime demo_seen"
  have rpc: "rpc_is (ec_rpc (demo_config None)) demo_chain" by (simp add: demo_state demo_rpc)
  have none: "ec_state_overrides (demo_config None) = None" by (simp add: demo_config_def)
  have "as_nonce ?P 0x1003 = Ok 1"
    by (simp add: backend_def ps_nonce_def map_account_def ethereum_account_def demo_seen_def demo_header_def)
  moreover have "as_storage ?P 0x1003 0x304 = Ok 90"
    by (simp add: backend_def ps_storage_def STORAGE_ENTRIES_IN_CONTRACT_ACCOUNT_def ethereum_storage_def handle_info_def unwrap_def
      demo_seen_def demo_held)
  moreover have "holds_code demo_seen 0x1003"
    by (simp add: holds_code_def demo_seen_def demo_loaded_def demo_extension_def make_account_info_def demo_header_def space_needed_def
      code_size_def ether_size INTERNAL_STORAGE_SIZE_def STORAGE_ENTRIES_IN_CONTRACT_ACCOUNT_def ether_pack_def)
  moreover obtain b where "as_code ?P 0x1003 = Ok b" "buf_bytes b = [0x60, 1, 0x60, 2, 0]"
    by (simp add: backend_def ps_code_def map_account_def ethereum_account_def demo_seen_def demo_header_def code_size_def handle_info_def
        unwrap_def buf_from_account_def code_location_def)
      (simp add: demo_loaded_def demo_extension_def make_account_info_def saturating_add_usize_def code_size_def ether_size
        INTERNAL_STORAGE_SIZE_def STORAGE_ENTRIES_IN_CONTRACT_ACCOUNT_def ether_pack_def)
  ultimately show ?thesis
    using emulator_reads_state [OF rpc demo_empty_ok demo_shown none, of "0x1003" "0x304"]
    by (simp add: demo_state agrees_def Let_def)
qed

end
