(* ===== verification/Struct_Logger.thy ===== *)
theory Struct_Logger
  imports Machine
begin

text \<open>
  The tracer of the off-chain builds: the events that a run emits (\<open>evm/tracing/mod.rs\<close>), the names of the instructions
  (\<open>evm/opcode_table.rs\<close>) and the logger that makes one entry of every step (\<open>tracers/struct_logger.rs\<close>).  The crate
  \<open>hex\<close> is the parameter \<open>hex\<close>; the conversion of the result to JSON is left out.
\<close>

section \<open>Names of the instructions\<close>

definition opcode_names :: "(u8 \<times> string) list" where
  "opcode_names =
    [(0x00, ''STOP''), (0x01, ''ADD''), (0x02, ''MUL''), (0x03, ''SUB''), (0x04, ''DIV''), (0x05, ''SDIV''),
    (0x06, ''MOD''), (0x07, ''SMOD''), (0x08, ''ADDMOD''), (0x09, ''MULMOD''), (0x0A, ''EXP''),
    (0x0B, ''SIGNEXTEND''), (0x10, ''LT''), (0x11, ''GT''), (0x12, ''SLT''), (0x13, ''SGT''), (0x14, ''EQ''),
    (0x15, ''ISZERO''), (0x16, ''AND''), (0x17, ''OR''), (0x18, ''XOR''), (0x19, ''NOT''), (0x1A, ''BYTE''),
    (0x1B, ''SHL''), (0x1C, ''SHR''), (0x1D, ''SAR''), (0x20, ''KECCAK256''), (0x30, ''ADDRESS''),
    (0x31, ''BALANCE''), (0x32, ''ORIGIN''), (0x33, ''CALLER''), (0x34, ''CALLVALUE''), (0x35, ''CALLDATALOAD''),
    (0x36, ''CALLDATASIZE''), (0x37, ''CALLDATACOPY''), (0x38, ''CODESIZE''), (0x39, ''CODECOPY''),
    (0x3A, ''GASPRICE''), (0x3B, ''EXTCODESIZE''), (0x3C, ''EXTCODECOPY''), (0x3D, ''RETURNDATASIZE''),
    (0x3E, ''RETURNDATACOPY''), (0x3F, ''EXTCODEHASH''), (0x40, ''BLOCKHASH''), (0x41, ''COINBASE''),
    (0x42, ''TIMESTAMP''), (0x43, ''NUMBER''), (0x44, ''PREVRANDAO''), (0x45, ''GASLIMIT''), (0x46, ''CHAINID''),
    (0x47, ''SELFBALANCE''), (0x48, ''BASEFEE''), (0x50, ''POP''), (0x51, ''MLOAD''), (0x52, ''MSTORE''),
    (0x53, ''MSTORE8''), (0x54, ''SLOAD''), (0x55, ''SSTORE''), (0x56, ''JUMP''), (0x57, ''JUMPI''), (0x58, ''PC''),
    (0x59, ''MSIZE''), (0x5A, ''GAS''), (0x5B, ''JUMPDEST''), (0x5F, ''PUSH0''), (0x60, ''PUSH1''), (0x61, ''PUSH2''),
    (0x62, ''PUSH3''), (0x63, ''PUSH4''), (0x64, ''PUSH5''), (0x65, ''PUSH6''), (0x66, ''PUSH7''), (0x67, ''PUSH8''),
    (0x68, ''PUSH9''), (0x69, ''PUSH10''), (0x6A, ''PUSH11''), (0x6B, ''PUSH12''), (0x6C, ''PUSH13''),
    (0x6D, ''PUSH14''), (0x6E, ''PUSH15''), (0x6F, ''PUSH16''), (0x70, ''PUSH17''), (0x71, ''PUSH18''),
    (0x72, ''PUSH19''), (0x73, ''PUSH20''), (0x74, ''PUSH21''), (0x75, ''PUSH22''), (0x76, ''PUSH23''),
    (0x77, ''PUSH24''), (0x78, ''PUSH25''), (0x79, ''PUSH26''), (0x7A, ''PUSH27''), (0x7B, ''PUSH28''),
    (0x7C, ''PUSH29''), (0x7D, ''PUSH30''), (0x7E, ''PUSH31''), (0x7F, ''PUSH32''), (0x80, ''DUP1''),
    (0x81, ''DUP2''), (0x82, ''DUP3''), (0x83, ''DUP4''), (0x84, ''DUP5''), (0x85, ''DUP6''), (0x86, ''DUP7''),
    (0x87, ''DUP8''), (0x88, ''DUP9''), (0x89, ''DUP10''), (0x8A, ''DUP11''), (0x8B, ''DUP12''), (0x8C, ''DUP13''),
    (0x8D, ''DUP14''), (0x8E, ''DUP15''), (0x8F, ''DUP16''), (0x90, ''SWAP1''), (0x91, ''SWAP2''), (0x92, ''SWAP3''),
    (0x93, ''SWAP4''), (0x94, ''SWAP5''), (0x95, ''SWAP6''), (0x96, ''SWAP7''), (0x97, ''SWAP8''), (0x98, ''SWAP9''),
    (0x99, ''SWAP10''), (0x9A, ''SWAP11''), (0x9B, ''SWAP12''), (0x9C, ''SWAP13''), (0x9D, ''SWAP14''),
    (0x9E, ''SWAP15''), (0x9F, ''SWAP16''), (0xA0, ''LOG0''), (0xA1, ''LOG1''), (0xA2, ''LOG2''), (0xA3, ''LOG3''),
    (0xA4, ''LOG4''), (0xF0, ''CREATE''), (0xF1, ''CALL''), (0xF2, ''CALLCODE''), (0xF3, ''RETURN''),
    (0xF4, ''DELEGATECALL''), (0xF5, ''CREATE2''), (0xFA, ''STATICCALL''), (0xFD, ''REVERT''), (0xFE, ''INVALID''),
    (0xFF, ''SELFDESTRUCT'')]"

definition eof_opcode_names :: "(u8 \<times> string) list" where
  "eof_opcode_names =
    [(0x5C, ''RJUMP''), (0x5D, ''RJUMPI''), (0x5E, ''RJUMPV''), (0xB0, ''CALLF''), (0xB1, ''RETF''),
    (0xF2, ''CALLCODE''), (0xFF, ''SELFDESTRUCT''), (0x56, ''JUMP''), (0x57, ''JUMPI''), (0x58, ''PC'')]"

definition names_of :: "(u8 \<times> string) list \<Rightarrow> string list" where
  "names_of table = foldl (\<lambda>opnames (opcode, opname). opnames[unat opcode := opname]) (replicate 256 ''<invalid>'') table"

definition OPNAMES :: "string list" where
  "OPNAMES = names_of opcode_names"

definition EOF_OPNAMES :: "string list" where
  "EOF_OPNAMES = names_of eof_opcode_names"

section \<open>Events\<close>

datatype event =
    BeginVM call_context bytes
  | EndVM exit_status
  | BeginStep u8 usize "bytes32 list" bytes
  | EndStep u64 "bytes option"
  | StorageAccess u256 bytes32

section \<open>The logger\<close>

record trace_config =
  tc_enable_memory :: bool
  tc_disable_storage :: bool
  tc_disable_stack :: bool
  tc_enable_return_data :: bool

record struct_log =
  lg_pc :: u64
  lg_op :: string
  lg_gas :: u64
  lg_gas_cost :: u64
  lg_depth :: usize
  lg_error :: "string option"
  lg_stack :: "u256 list option"
  lg_return_data :: "bytes option"
  lg_memory :: "string list option"
  lg_storage :: "(string \<rightharpoonup> string) option"
  lg_refund :: u64

record struct_logger =
  sl_config :: trace_config
  sl_logs :: "struct_log list"
  sl_depth :: usize
  sl_storage_access :: "(u256 \<times> u256) option"

definition opname :: "u8 \<Rightarrow> string" where
  "opname opcode = (if unat opcode < length EOF_OPNAMES then EOF_OPNAMES ! unat opcode else OPNAMES ! unat opcode)"

definition struct_log_new :: "u8 \<Rightarrow> u64 \<Rightarrow> u64 \<Rightarrow> usize \<Rightarrow> string list option \<Rightarrow> u256 list option \<Rightarrow> struct_log" where
  "struct_log_new opcode pc gas_cost depth mem stack =
    \<lparr>lg_pc = pc, lg_op = opname opcode, lg_gas = 0, lg_gas_cost = gas_cost, lg_depth = depth, lg_error = None, lg_stack = stack,
     lg_return_data = None, lg_memory = mem, lg_storage = None, lg_refund = 0\<rparr>"

definition struct_logger_new :: "trace_config \<Rightarrow> struct_logger" where
  "struct_logger_new config = \<lparr>sl_config = config, sl_logs = [], sl_depth = 0, sl_storage_access = None\<rparr>"

fun chunks32 :: "bytes \<Rightarrow> bytes list" where
  "chunks32 bs = (if bs = [] then [] else take 32 bs # chunks32 (drop 32 bs))"

declare chunks32.simps [simp del]

definition shown_stack :: "trace_config \<Rightarrow> bytes32 list \<Rightarrow> u256 list option" where
  "shown_stack config stack = (if tc_disable_stack config then None else Some stack)"

definition shown_memory :: "(bytes \<Rightarrow> string) \<Rightarrow> trace_config \<Rightarrow> bytes \<Rightarrow> string list option" where
  "shown_memory hex config mem = (if tc_enable_memory config then Some (map hex (chunks32 mem)) else None)"

definition insert_storage :: "(bytes \<Rightarrow> string) \<Rightarrow> u256 \<Rightarrow> u256 \<Rightarrow> struct_log \<Rightarrow> struct_log" where
  "insert_storage hex index v l =
    l\<lparr>lg_storage := Some ((case lg_storage l of Some m \<Rightarrow> m | None \<Rightarrow> Map.empty)(hex (be_bytes 32 index) \<mapsto> hex (be_bytes 32 v)))\<rparr>"

definition end_step :: "(bytes \<Rightarrow> string) \<Rightarrow> u64 \<Rightarrow> bytes option \<Rightarrow> struct_logger \<Rightarrow> struct_logger result" where
  "end_step hex gas_used return_data L =
    rbind (rassert (sl_logs L \<noteq> [])) (\<lambda>_.
    let log = (last (sl_logs L))\<lparr>lg_gas := gas_used\<rparr>;
        (log, access) =
          (if tc_disable_storage (sl_config L) then (log, sl_storage_access L)
           else
             case sl_storage_access L of
               Some (index, v) \<Rightarrow> (insert_storage hex index v log, None)
             | None \<Rightarrow> (log, None));
        log = (if tc_enable_return_data (sl_config L) then log\<lparr>lg_return_data := return_data\<rparr> else log) in
    Ok (L\<lparr>sl_logs := butlast (sl_logs L) @ [log], sl_storage_access := access\<rparr>))"

text \<open>\<open>depth\<close> wraps in the build that traces are made with.\<close>

definition logger_event :: "(bytes \<Rightarrow> string) \<Rightarrow> event \<Rightarrow> struct_logger \<Rightarrow> struct_logger result" where
  "logger_event hex e L =
    (case e of
       BeginVM ctx code \<Rightarrow> Ok (L\<lparr>sl_depth := usize_wrap (sl_depth L + 1)\<rparr>)
     | EndVM status \<Rightarrow> Ok (L\<lparr>sl_depth := usize_wrap (sl_depth L + usize_bound - 1)\<rparr>)
     | BeginStep opcode pc stack mem \<Rightarrow>
         Ok (L\<lparr>sl_logs := sl_logs L @ [struct_log_new opcode (of_nat pc) 0 (sl_depth L) (shown_memory hex (sl_config L) mem)
           (shown_stack (sl_config L) stack)]\<rparr>)
     | EndStep gas_used return_data \<Rightarrow> end_step hex gas_used return_data L
     | StorageAccess index v \<Rightarrow> Ok (if tc_disable_storage (sl_config L) then L else L\<lparr>sl_storage_access := Some (index, v)\<rparr>))"

fun logger_events :: "(bytes \<Rightarrow> string) \<Rightarrow> event list \<Rightarrow> struct_logger \<Rightarrow> struct_logger result" where
  "logger_events hex [] L = Ok L"
| "logger_events hex (e # es) L = rbind (logger_event hex e L) (logger_events hex es)"

record struct_logger_result =
  lr_gas :: u64
  lr_failed :: bool
  lr_return_value :: string
  lr_struct_logs :: "struct_log list"

text \<open>\<open>into_traces\<close> takes the exit status and the gas of the result; a run that is not completed is a panic.\<close>

definition into_traces :: "(bytes \<Rightarrow> string) \<Rightarrow> exit_status \<Rightarrow> u64 \<Rightarrow> struct_logger \<Rightarrow> struct_logger_result result" where
  "into_traces hex status used_gas L =
    rbind (unwrap (is_succeed status)) (\<lambda>succeed.
    Ok \<lparr>lr_gas = used_gas, lr_failed = (\<not> succeed),
      lr_return_value = hex (case into_result status of Some v \<Rightarrow> v | None \<Rightarrow> []), lr_struct_logs = sl_logs L\<rparr>)"

section \<open>What a trace shows\<close>

text \<open>The last \<open>EndStep\<close> before the next step, and an \<open>EndStep\<close> before any step\<close>

fun last_end :: "event list \<Rightarrow> (u64 \<times> bytes option) option" where
  "last_end [] = None"
| "last_end (BeginStep opcode pc stack mem # es) = None"
| "last_end (EndStep g r # es) = Some (case last_end es of Some e \<Rightarrow> e | None \<Rightarrow> (g, r))"
| "last_end (BeginVM ctx code # es) = last_end es"
| "last_end (EndVM status # es) = last_end es"
| "last_end (StorageAccess index v # es) = last_end es"

fun ends_early :: "event list \<Rightarrow> bool" where
  "ends_early [] = False"
| "ends_early (BeginStep opcode pc stack mem # es) = False"
| "ends_early (EndStep g r # es) = True"
| "ends_early (BeginVM ctx code # es) = ends_early es"
| "ends_early (EndVM status # es) = ends_early es"
| "ends_early (StorageAccess index v # es) = ends_early es"

definition ended_by :: "trace_config \<Rightarrow> event list \<Rightarrow> struct_log \<Rightarrow> struct_log" where
  "ended_by config es l =
    (case last_end es of
       None \<Rightarrow> l
     | Some (g, r) \<Rightarrow> l\<lparr>lg_gas := g, lg_return_data := (if tc_enable_return_data config then r else lg_return_data l)\<rparr>)"

definition eof_name :: "u8 \<Rightarrow> string" where
  "eof_name opcode = (case map_of eof_opcode_names opcode of Some n \<Rightarrow> n | None \<Rightarrow> ''<invalid>'')"

fun steps_of :: "(bytes \<Rightarrow> string) \<Rightarrow> trace_config \<Rightarrow> event list \<Rightarrow> usize \<Rightarrow> struct_log list" where
  "steps_of hex config [] depth = []"
| "steps_of hex config (BeginStep opcode pc stack mem # es) depth =
    ended_by config es \<lparr>lg_pc = of_nat pc, lg_op = eof_name opcode, lg_gas = 0, lg_gas_cost = 0, lg_depth = depth, lg_error = None,
      lg_stack = shown_stack config stack, lg_return_data = None, lg_memory = shown_memory hex config mem, lg_storage = None,
      lg_refund = 0\<rparr> # steps_of hex config es depth"
| "steps_of hex config (BeginVM ctx code # es) depth = steps_of hex config es (usize_wrap (depth + 1))"
| "steps_of hex config (EndVM status # es) depth = steps_of hex config es (usize_wrap (depth + usize_bound - 1))"
| "steps_of hex config (EndStep g r # es) depth = steps_of hex config es depth"
| "steps_of hex config (StorageAccess index v # es) depth = steps_of hex config es depth"

definition without_storage :: "struct_log \<Rightarrow> struct_log" where
  "without_storage l = l\<lparr>lg_storage := None\<rparr>"

lemma length_names: "length (names_of table) = 256"
proof -
  have "length (foldl (\<lambda>opnames (opcode, opname). opnames[unat opcode := opname]) ns table) = length ns"
    for ns :: "string list" and table :: "(u8 \<times> string) list"
    by (induction table arbitrary: ns) auto
  then show ?thesis by (simp add: names_of_def)
qed

lemma unat_u8: "unat (b :: u8) < 256"
  using unat_less_2p [of b] by simp

text \<open>The table for EOF code has 256 entries, so the one for legacy code is never asked.\<close>

lemma opname_eof: "opname opcode = EOF_OPNAMES ! unat opcode"
proof -
  have "unat opcode < 256" by (rule unat_u8)
  then show ?thesis by (simp add: opname_def EOF_OPNAMES_def length_names)
qed

lemma foldl_names:
  assumes "distinct (map fst table)" and "length ns = 256"
  shows "foldl (\<lambda>opnames (opcode, opname). opnames[unat opcode := opname]) ns table ! unat (b :: u8)
    = (case map_of table b of Some n \<Rightarrow> n | None \<Rightarrow> ns ! unat b)"
  using assms
proof (induction table arbitrary: ns)
  case (Cons e table)
  obtain a n where e: "e = (a, n)" by (cases e)
  show ?case
  proof (cases "b = a")
    case True
    then have "map_of table b = None" using Cons.prems(1) by (auto simp: e map_of_eq_None_iff)
    then show ?thesis using Cons.prems Cons.IH [of "ns[unat a := n]"] unat_u8 [of a] by (simp add: e True)
  next
    case False
    then have "unat a \<noteq> unat b" by (simp add: word_unat_eq_iff)
    then have "ns[unat a := n] ! unat b = ns ! unat b" by simp
    then show ?thesis using Cons.prems Cons.IH [of "ns[unat a := n]"] False by (simp add: e split: option.split)
  qed
qed simp

lemma opname_is: "opname opcode = eof_name opcode"
proof -
  have "distinct (map fst eof_opcode_names)" by (simp add: eof_opcode_names_def)
  moreover have "unat opcode < 256" by (rule unat_u8)
  ultimately show ?thesis by (simp add: opname_eof EOF_OPNAMES_def names_of_def foldl_names eof_name_def split: option.split)
qed

lemma end_step_logs:
  assumes "sl_logs L \<noteq> []"
  obtains l access where "end_step hex g r L = Ok (L\<lparr>sl_logs := butlast (sl_logs L) @ [l], sl_storage_access := access\<rparr>)"
    and "without_storage l = without_storage (last (sl_logs L))\<lparr>lg_gas := g,
      lg_return_data := (if tc_enable_return_data (sl_config L) then r else lg_return_data (last (sl_logs L)))\<rparr>"
  using assms that
  by (cases "sl_storage_access L"; cases "tc_disable_storage (sl_config L)"; cases "tc_enable_return_data (sl_config L)")
    (auto simp: end_step_def rassert_def without_storage_def insert_storage_def Let_def)

lemma logged_after_step:
  assumes "sl_logs L \<noteq> []"
  shows "\<exists>L'. logger_events hex es L = Ok L' \<and> map without_storage (sl_logs L')
    = map without_storage (butlast (sl_logs L)) @ ended_by (sl_config L) es (without_storage (last (sl_logs L)))
      # steps_of hex (sl_config L) es (sl_depth L)"
  using assms
proof (induction es arbitrary: L)
  case Nil
  then show ?case
    by (simp add: ended_by_def) (metis append_butlast_last_id list.simps(8,9) map_append)
next
  case (Cons e es)
  show ?case
  proof (cases e)
    case (BeginStep opcode pc stack mem)
    let ?l = "struct_log_new opcode (of_nat pc) 0 (sl_depth L) (shown_memory hex (sl_config L) mem) (shown_stack (sl_config L) stack)"
    have split: "map without_storage (butlast (sl_logs L)) @ [without_storage (last (sl_logs L))] = map without_storage (sl_logs L)"
      by (metis Cons.prems append_butlast_last_id list.simps(8,9) map_append)
    have l: "without_storage ?l = \<lparr>lg_pc = of_nat pc, lg_op = eof_name opcode, lg_gas = 0, lg_gas_cost = 0, lg_depth = sl_depth L,
        lg_error = None, lg_stack = shown_stack (sl_config L) stack, lg_return_data = None,
        lg_memory = shown_memory hex (sl_config L) mem, lg_storage = None, lg_refund = 0\<rparr>"
      by (simp add: struct_log_new_def without_storage_def opname_is)
    obtain L' where "logger_events hex es (L\<lparr>sl_logs := sl_logs L @ [?l]\<rparr>) = Ok L'"
        and "map without_storage (sl_logs L') = map without_storage (sl_logs L)
          @ ended_by (sl_config L) es (without_storage ?l) # steps_of hex (sl_config L) es (sl_depth L)"
      using Cons.IH [of "L\<lparr>sl_logs := sl_logs L @ [?l]\<rparr>"] by auto
    then show ?thesis
      by (simp add: BeginStep logger_event_def ended_by_def [of _ "BeginStep opcode pc stack mem # es"] flip: l split)
  next
    case (EndStep g r)
    obtain l access where run: "end_step hex g r L = Ok (L\<lparr>sl_logs := butlast (sl_logs L) @ [l], sl_storage_access := access\<rparr>)"
      and l: "without_storage l = without_storage (last (sl_logs L))\<lparr>lg_gas := g,
      lg_return_data := (if tc_enable_return_data (sl_config L) then r else lg_return_data (last (sl_logs L)))\<rparr>"
      by (rule end_step_logs [OF Cons.prems])
    then show ?thesis using Cons.prems Cons.IH [of "L\<lparr>sl_logs := butlast (sl_logs L) @ [l], sl_storage_access := access\<rparr>"]
      by (auto simp: EndStep logger_event_def ended_by_def without_storage_def split: option.splits)
  next
    case (BeginVM ctx code)
    then show ?thesis using Cons.prems Cons.IH [of "L\<lparr>sl_depth := usize_wrap (sl_depth L + 1)\<rparr>"] by (simp add: BeginVM logger_event_def ended_by_def)
  next
    case (EndVM status)
    then show ?thesis using Cons.prems Cons.IH [of "L\<lparr>sl_depth := usize_wrap (sl_depth L + usize_bound - 1)\<rparr>"] by (simp add: EndVM logger_event_def ended_by_def)
  next
    case (StorageAccess index v)
    then show ?thesis using Cons.prems Cons.IH [of L] Cons.IH [of "L\<lparr>sl_storage_access := Some (index, v)\<rparr>"] by (simp add: StorageAccess logger_event_def ended_by_def)
  qed
qed

text \<open>C36: a trace has one entry for every step, in the order of the steps, with its program counter, depth, stack and memory, and with
  the gas and return data of the last end of the step.  The names are those of the table for EOF code alone: every
  instruction of legacy code that the table does not list is shown as invalid.  The logger panics only if a step ends
  before the first one begins.\<close>

theorem trace_shows_steps:
  "case logger_events hex es (struct_logger_new config) of
     Ok L \<Rightarrow> \<not> ends_early es \<and> map without_storage (sl_logs L) = steps_of hex config es 0
   | _ \<Rightarrow> ends_early es"
proof -
  have start: "sl_config (struct_logger_new config) = config" "sl_depth (struct_logger_new config) = 0" "sl_logs (struct_logger_new config) = []"
    by (simp_all add: struct_logger_new_def)
  have "case logger_events hex es L of
     Ok L' \<Rightarrow> \<not> ends_early es \<and> map without_storage (sl_logs L') = steps_of hex (sl_config L) es (sl_depth L)
   | _ \<Rightarrow> ends_early es" if "sl_logs L = []" for L
    using that
  proof (induction es arbitrary: L rule: ends_early.induct)
    case (2 opcode pc stack mem es)
    let ?l = "struct_log_new opcode (of_nat pc) 0 (sl_depth L) (shown_memory hex (sl_config L) mem) (shown_stack (sl_config L) stack)"
    obtain L' where "logger_events hex es (L\<lparr>sl_logs := [?l]\<rparr>) = Ok L'" "map without_storage (sl_logs L')
        = ended_by (sl_config L) es (without_storage ?l) # steps_of hex (sl_config L) es (sl_depth L)"
      using logged_after_step [of "L\<lparr>sl_logs := [?l]\<rparr>" hex es] by auto
    then show ?case using 2 by (simp add: logger_event_def struct_log_new_def opname_is without_storage_def)
  next
    case (3 g r es)
    then show ?case by (simp add: logger_event_def end_step_def rassert_def)
  next
    case (4 ctx code es)
    then show ?case using 4(1) [of "L\<lparr>sl_depth := usize_wrap (sl_depth L + 1)\<rparr>"] by (simp add: logger_event_def split: result.splits)
  next
    case (5 status es)
    then show ?case using 5(1) [of "L\<lparr>sl_depth := usize_wrap (sl_depth L + usize_bound - 1)\<rparr>"] by (simp add: logger_event_def split: result.splits)
  next
    case (6 index v es)
    have "sl_logs (L\<lparr>sl_storage_access := Some (index, v)\<rparr>) = []" using 6(2) by simp
    from 6(1) [OF 6(2)] 6(1) [OF this] show ?case
      by (cases "tc_disable_storage (sl_config L)") (simp_all add: logger_event_def split: result.splits)
  qed simp
  from this [of "struct_logger_new config"] show ?thesis
    by (simp only: start)
qed

text \<open>The return of a nested frame: the loop ends the step a second time and takes the data away.\<close>

definition demo_call_context :: call_context where
  "demo_call_context = \<lparr>ctx_caller = 0x1001, ctx_contract = 0x1002, ctx_value = 0, ctx_code_address = Some 0x1002\<rparr>"

definition demo_events :: "event list" where
  "demo_events = [BeginVM demo_call_context [0xF1], BeginVM demo_call_context [0xF3], BeginStep 0xF3 0 [] [],
     EndStep 0 (Some [1]), EndVM (ExitReturn [1]), EndStep 0 None]"

theorem trace_shows_steps_witness:
  "case logger_events (\<lambda>b. [CHR ''x'']) demo_events (struct_logger_new \<lparr>tc_enable_memory = False, tc_disable_storage = False,
        tc_disable_stack = True, tc_enable_return_data = True\<rparr>) of
     Ok L \<Rightarrow> map (\<lambda>l. (lg_pc l, lg_op l, lg_depth l, lg_return_data l)) (map without_storage (sl_logs L)) = [(0, ''<invalid>'', 2, None)]
   | _ \<Rightarrow> False"
  using trace_shows_steps [where hex = "\<lambda>b. [CHR ''x'']" and es = demo_events and config = "\<lparr>tc_enable_memory = False, tc_disable_storage = False,
        tc_disable_stack = True, tc_enable_return_data = True\<rparr>"]
  by (simp add: demo_events_def ended_by_def shown_stack_def shown_memory_def eof_name_def eof_opcode_names_def Let_def
      split: result.splits del: map_map)

end
