(* ===== verification/Tracer_Db.thy ===== *)
theory Tracer_Db
  imports Emulator
begin

text \<open>
  The history of the chain as a node (\<open>lib/src/types/tracer_ch_db.rs\<close>, \<open>tracer_ch_common.rs\<close>, \<open>rpc/db_call_client.rs\<close>): accounts as
  they were at a slot, from a database of updates, and the client that the emulator asks instead of a node.

  The record \<open>tracer_db\<close> has one entry for every query; a failed query is an error.  \<open>db_of\<close> answers the queries as their text
  says from tables that are lists of rows.  A key of an account stands for its text in the tables.
\<close>

section \<open>Rows and errors\<close>

datatype ch_error = RowNotFound | ChCustom string | ChOther

type_synonym 'a ch_result = "ch_error + 'a"

definition ch_bind :: "'a ch_result \<Rightarrow> ('a \<Rightarrow> 'b ch_result) \<Rightarrow> 'b ch_result" where
  "ch_bind r f = (case r of Inl e \<Rightarrow> Inl e | Inr x \<Rightarrow> f x)"

lemma ch_bind_simps [simp]: "ch_bind (Inl e) f = Inl e" "ch_bind (Inr x) f = f x"
  by (simp_all add: ch_bind_def)

definition row_opt :: "'a ch_result \<Rightarrow> 'a option ch_result" where
  "row_opt r = (case r of Inr row \<Rightarrow> Inr (Some row) | Inl e \<Rightarrow> if e = RowNotFound then Inr None else Inl e)"

lemma row_opt_simps [simp]: "row_opt (Inr x) = Inr (Some x)" "row_opt (Inl RowNotFound) = Inr None"
  by (simp_all add: row_opt_def)

definition ROOT_BLOCK_DELAY :: u8 where
  "ROOT_BLOCK_DELAY = 100"

definition slot_status_rooted :: u8 where
  "slot_status_rooted = 3"

record slot_parent =
  sp_slot :: u64
  sp_parent :: "u64 option"
  sp_status :: u8

definition is_rooted :: "slot_parent \<Rightarrow> bool" where
  "is_rooted row \<longleftrightarrow> sp_status row = slot_status_rooted"

definition slot_parent_of_rooted :: "u64 \<times> u64 option \<Rightarrow> slot_parent" where
  "slot_parent_of_rooted row = \<lparr>sp_slot = fst row, sp_parent = snd row, sp_status = slot_status_rooted\<rparr>"

record account_row =
  ar_owner :: bytes
  ar_lamports :: u64
  ar_executable :: bool
  ar_rent_epoch :: u64
  ar_data :: bytes
  ar_txn_signature :: "u8 option list"

fun decimal :: "nat \<Rightarrow> string" where
  "decimal n = (if n < 10 then [char_of (48 + n)] else decimal (n div 10) @ [char_of (48 + n mod 10)])"

declare decimal.simps [simp del]

fun join_text :: "string list \<Rightarrow> string" where
  "join_text [] = ''''"
| "join_text [s] = s"
| "join_text (s # ss) = s @ '', '' @ join_text ss"

definition debug_bytes :: "bytes \<Rightarrow> string" where
  "debug_bytes bs = ''['' @ join_text (map (\<lambda>b. decimal (unat b)) bs) @ '']''"

definition account_of_row :: "account_row \<Rightarrow> sol_account ch_result" where
  "account_of_row row =
    (if length (ar_owner row) \<noteq> 32 then
       Inl (ChCustom (''Incorrect slice length ('' @ decimal (length (ar_owner row)) @ '') while converting owner from: ''
         @ debug_bytes (ar_owner row)))
     else Inr \<lparr>sa_lamports = ar_lamports row, sa_data = ar_data row, sa_owner = from_be (ar_owner row),
       sa_executable = ar_executable row, sa_rent_epoch = ar_rent_epoch row\<rparr>)"

definition account_of_opt :: "account_row option \<Rightarrow> sol_account option ch_result" where
  "account_of_opt row = (case row of None \<Rightarrow> Inr None | Some r \<Rightarrow> ch_bind (account_of_row r) (\<lambda>a. Inr (Some a)))"

section \<open>The queries\<close>

record tracer_db =
  td_block_time :: "u64 \<Rightarrow> u64 ch_result"
  td_earliest_rooted_slot :: "u64 ch_result"
  td_latest_block :: "u64 ch_result"
  td_first_data :: "pubkey \<Rightarrow> u64 \<Rightarrow> bytes ch_result"
  td_branch_rows :: "u8 \<Rightarrow> slot_parent list ch_result"
  td_rooted_slot :: "pubkey \<Rightarrow> u64 \<Rightarrow> u64 ch_result"
  td_account_in :: "pubkey \<Rightarrow> u64 list \<Rightarrow> account_row ch_result"
  td_account_at_index :: "pubkey \<Rightarrow> u64 \<Rightarrow> u64 \<Rightarrow> account_row ch_result"
  td_older_account :: "pubkey \<Rightarrow> u64 \<Rightarrow> account_row ch_result"
  td_sig_rooted :: "bytes \<Rightarrow> (u64 \<times> u64 option) ch_result"
  td_sig_confirmed :: "u64 list \<Rightarrow> bytes \<Rightarrow> slot_parent ch_result"
  td_rows_of_slot :: "u64 \<Rightarrow> pubkey \<Rightarrow> account_row list ch_result"
  td_slot_by_blockhash :: "string \<Rightarrow> u64 ch_result"

section \<open>Accounts in the past\<close>

text \<open>\<open>branch_from\<close>: the parent of the row that was taken last is carried along.\<close>

fun branch_from :: "(slot_parent \<Rightarrow> bool) \<Rightarrow> u64 option \<Rightarrow> slot_parent list \<Rightarrow> u64 list" where
  "branch_from test_start last_parent [] = []"
| "branch_from test_start (Some p) (row # rows) =
    (if sp_slot row = p then sp_slot row # branch_from test_start (sp_parent row) rows
     else branch_from test_start (Some p) rows)"
| "branch_from test_start None (row # rows) =
    (if test_start row then sp_slot row # branch_from test_start (sp_parent row) rows
     else branch_from test_start None rows)"

definition get_branch_slots :: "tracer_db \<Rightarrow> u64 option \<Rightarrow> (u64 \<times> u64 list) ch_result" where
  "get_branch_slots Q sl =
    ch_bind (td_branch_rows Q ROOT_BLOCK_DELAY) (\<lambda>rows.
    if rows = [] then Inl (ChCustom ''Rooted slot not found'')
    else
      let first = last rows; rows = butlast rows in
      case sl of
        Some sl \<Rightarrow>
          if sl \<le> sp_slot first then Inr (sl, [])
          else
            let branch = branch_from (\<lambda>row. sp_slot row = sl) None rows in
            if branch = [] then Inl (ChCustom (''requested slot not found '' @ decimal (unat sl)))
            else Inr (sp_slot first, branch)
      | None \<Rightarrow> Inr (sp_slot first, branch_from is_rooted None rows))"

definition get_account_rooted_slot :: "tracer_db \<Rightarrow> pubkey \<Rightarrow> u64 \<Rightarrow> u64 option ch_result" where
  "get_account_rooted_slot Q k sl = row_opt (td_rooted_slot Q k sl)"

definition get_older_account_row_at :: "tracer_db \<Rightarrow> pubkey \<Rightarrow> u64 \<Rightarrow> account_row option ch_result" where
  "get_older_account_row_at Q k sl = row_opt (td_older_account Q k sl)"

definition get_account_at_slot :: "tracer_db \<Rightarrow> pubkey \<Rightarrow> u64 \<Rightarrow> sol_account option ch_result" where
  "get_account_at_slot Q k sl =
    ch_bind (get_branch_slots Q (Some sl)) (\<lambda>(first, branch).
    ch_bind (get_account_rooted_slot Q k first) (\<lambda>rooted_slot.
    let branch = (case rooted_slot of Some r \<Rightarrow> branch @ [r] | None \<Rightarrow> branch) in
    ch_bind (if branch = [] then Inr None else row_opt (td_account_in Q k branch)) (\<lambda>row.
    ch_bind (if row = None then get_older_account_row_at Q k sl else Inr row) account_of_opt)))"

definition get_account_at_index_in_block :: "tracer_db \<Rightarrow> pubkey \<Rightarrow> u64 \<Rightarrow> u64 \<Rightarrow> sol_account option ch_result" where
  "get_account_at_index_in_block Q k sl tx_index_in_block =
    ch_bind (row_opt (td_account_at_index Q k sl tx_index_in_block)) account_of_opt"

definition get_account_at :: "tracer_db \<Rightarrow> pubkey \<Rightarrow> u64 \<Rightarrow> u64 option \<Rightarrow> sol_account option ch_result" where
  "get_account_at Q k sl tx_index_in_block =
    ch_bind (case tx_index_in_block of Some i \<Rightarrow> get_account_at_index_in_block Q k sl i | None \<Rightarrow> Inr None) (\<lambda>account.
    case account of Some a \<Rightarrow> Inr (Some a) | None \<Rightarrow> get_account_at_slot Q k sl)"

definition get_sol_sig_rooted_slot :: "tracer_db \<Rightarrow> bytes \<Rightarrow> slot_parent option ch_result" where
  "get_sol_sig_rooted_slot Q sol_sig =
    ch_bind (row_opt (td_sig_rooted Q sol_sig)) (\<lambda>row. Inr (map_option slot_parent_of_rooted row))"

definition get_sol_sig_confirmed_slot :: "tracer_db \<Rightarrow> bytes \<Rightarrow> slot_parent option ch_result" where
  "get_sol_sig_confirmed_slot Q sol_sig =
    ch_bind (get_branch_slots Q None) (\<lambda>(_, slot_vec). row_opt (td_sig_confirmed Q slot_vec sol_sig))"

definition row_before_signature :: "bytes \<Rightarrow> account_row list \<Rightarrow> account_row option" where
  "row_before_signature sol_sig rows =
    (case dropWhile (\<lambda>row. List.map_filter (\<lambda>v. v) (ar_txn_signature row) \<noteq> sol_sig) rows of
       row # before # _ \<Rightarrow> Some before
     | _ \<Rightarrow> None)"

definition get_account_by_sol_sig :: "tracer_db \<Rightarrow> pubkey \<Rightarrow> bytes \<Rightarrow> sol_account option ch_result" where
  "get_account_by_sol_sig Q k sol_sig =
    ch_bind (get_sol_sig_rooted_slot Q sol_sig) (\<lambda>rooted.
    ch_bind (if rooted = None then get_sol_sig_confirmed_slot Q sol_sig else Inr rooted) (\<lambda>slot_opt.
    case slot_opt of
      None \<Rightarrow> Inr None
    | Some sl \<Rightarrow>
        ch_bind (td_rows_of_slot Q (sp_slot sl) k) (\<lambda>rows.
        case row_before_signature sol_sig rows of
          Some row \<Rightarrow> account_of_opt (Some row)
        | None \<Rightarrow>
            (case sp_parent sl of
               Some parent \<Rightarrow> get_account_at Q k parent None
             | None \<Rightarrow> Inr None))))"

definition get_slot_by_blockhash :: "tracer_db \<Rightarrow> string \<Rightarrow> u64 ch_result" where
  "get_slot_by_blockhash Q blockhash =
    ch_bind (row_opt (td_slot_by_blockhash Q blockhash)) (\<lambda>sl.
    case sl of Some sl \<Rightarrow> Inr sl | None \<Rightarrow> Inl (ChCustom ''get_slot_by_blockhash: no data available''))"

text \<open>The reader of the ELF file (\<open>lib/src/commands/get_neon_elf.rs\<close>) and the text of a key are parameters.\<close>

definition get_neon_revision :: "(bytes \<Rightarrow> string \<Rightarrow> string + string) \<Rightarrow> (pubkey \<Rightarrow> string) \<Rightarrow> tracer_db \<Rightarrow> u64 \<Rightarrow> pubkey \<Rightarrow> string ch_result" where
  "get_neon_revision get_elf_parameter show_key Q sl k =
    ch_bind (row_opt (td_first_data Q k sl)) (\<lambda>data.
    case data of
      Some data \<Rightarrow>
        (case get_elf_parameter data ''NEON_REVISION'' of
           Inl e \<Rightarrow> Inl (ChCustom (''Failed to get NEON_REVISION, error: '' @ e))
         | Inr neon_revision \<Rightarrow> Inr neon_revision)
    | None \<Rightarrow> Inl (ChCustom (''get_neon_revision: for slot '' @ decimal (unat sl) @ '' and pubkey '' @ show_key k @ '' not found'')))"

section \<open>The client of the emulator\<close>

datatype history_error = ClickHouse ch_error | EarlySlot u64 u64

fun load_accounts :: "tracer_db \<Rightarrow> u64 \<Rightarrow> u64 option \<Rightarrow> pubkey list \<Rightarrow> sol_account option list option" where
  "load_accounts Q sl tx_index_in_block [] = Some []"
| "load_accounts Q sl tx_index_in_block (k # ks) =
    (case get_account_at Q k sl tx_index_in_block of
       Inl e \<Rightarrow> None
     | Inr account \<Rightarrow> map_option (\<lambda>accounts. account # accounts) (load_accounts Q sl tx_index_in_block ks))"

definition call_db_client :: "tracer_db \<Rightarrow> u64 \<Rightarrow> u64 option \<Rightarrow> rpc" where
  "call_db_client Q sl tx_index_in_block =
    \<lparr>rpc_get_account = (\<lambda>k. case get_account_at Q k sl tx_index_in_block of Inr (Some account) \<Rightarrow> Some account | _ \<Rightarrow> None),
     rpc_get_account_with_commitment = (\<lambda>k. case get_account_at Q k sl tx_index_in_block of Inr account \<Rightarrow> Some account | Inl e \<Rightarrow> None),
     rpc_get_multiple_accounts = load_accounts Q sl tx_index_in_block,
     rpc_get_slot = Some sl,
     rpc_get_block_time = (\<lambda>sl. case td_block_time Q sl of Inr t \<Rightarrow> Some t | Inl e \<Rightarrow> None)\<rparr>"

definition call_db_client_new :: "tracer_db \<Rightarrow> u64 \<Rightarrow> u64 option \<Rightarrow> history_error + rpc" where
  "call_db_client_new Q sl tx_index_in_block =
    (case td_earliest_rooted_slot Q of
       Inl e \<Rightarrow> Inl (ClickHouse e)
     | Inr earliest \<Rightarrow> if sl < earliest then Inl (EarlySlot sl earliest) else Inr (call_db_client Q sl tx_index_in_block))"

section \<open>The tables\<close>

record update_row =
  ur_pubkey :: pubkey
  ur_slot :: u64
  ur_write_version :: u64
  ur_account :: account_row

record tables =
  tb_update_slot :: "slot_parent list"
  tb_rooted_slots :: "(u64 \<times> u64 option) list"
  tb_updates :: "update_row list"
  tb_older :: "update_row list"
  tb_transactions :: "(u64 \<times> bytes) list"
  tb_blocks :: "(u64 \<times> string \<times> u64) list"

text \<open>\<open>ORDER BY f DESC LIMIT 1\<close>, \<open>ORDER BY f DESC\<close> and \<open>DISTINCT ON (f)\<close>; one row is fetched, or none is found.\<close>

fun newest :: "('a \<Rightarrow> nat) \<Rightarrow> 'a list \<Rightarrow> 'a option" where
  "newest f [] = None"
| "newest f (x # xs) = (case newest f xs of None \<Rightarrow> Some x | Some y \<Rightarrow> Some (if f y \<le> f x then x else y))"

fun first_item :: "'a list \<Rightarrow> 'a option" where
  "first_item [] = None"
| "first_item (x # _) = Some x"

definition descending :: "('a \<Rightarrow> nat) \<Rightarrow> 'a list \<Rightarrow> 'a list" where
  "descending f xs = rev (sort_key f xs)"

fun distinct_on :: "('a \<Rightarrow> 'k) \<Rightarrow> 'a list \<Rightarrow> 'a list" where
  "distinct_on f [] = []"
| "distinct_on f (x # xs) = x # distinct_on f (filter (\<lambda>y. f y \<noteq> f x) xs)"

definition fetch_one :: "'a option \<Rightarrow> 'a ch_result" where
  "fetch_one x = (case x of Some y \<Rightarrow> Inr y | None \<Rightarrow> Inl RowNotFound)"

text \<open>Pairs of words are ordered by the number that they make.\<close>

definition slot_status :: "slot_parent \<Rightarrow> nat" where
  "slot_status row = unat (sp_slot row) * 256 + unat (sp_status row)"

definition slot_version :: "update_row \<Rightarrow> nat" where
  "slot_version u = unat (ur_slot u) * 18446744073709551616 + unat (ur_write_version u)"

definition sql_branch_rows :: "tables \<Rightarrow> u8 \<Rightarrow> slot_parent list" where
  "sql_branch_rows t delay =
    (case newest (unat \<circ> fst) (tb_rooted_slots t) of
       None \<Rightarrow> []
     | Some root \<Rightarrow>
         distinct_on (\<lambda>row. (sp_slot row, sp_parent row)) (descending slot_status
           (filter (\<lambda>row. int (unat (fst root)) - int (unat delay) \<le> int (unat (sp_slot row)) \<and> sp_parent row \<noteq> None)
             (tb_update_slot t))))"

definition sql_rooted_slot :: "tables \<Rightarrow> pubkey \<Rightarrow> u64 \<Rightarrow> u64 option" where
  "sql_rooted_slot t k sl =
    newest unat (map ur_slot (filter (\<lambda>u. ur_pubkey u = k \<and> ur_slot u \<le> sl \<and> sl \<in> fst ` set (tb_rooted_slots t)) (tb_updates t)))"

definition sql_account_in :: "tables \<Rightarrow> pubkey \<Rightarrow> u64 list \<Rightarrow> update_row option" where
  "sql_account_in t k slots = newest slot_version (filter (\<lambda>u. ur_pubkey u = k \<and> ur_slot u \<in> set slots) (tb_updates t))"

definition sql_account_at_index :: "tables \<Rightarrow> pubkey \<Rightarrow> u64 \<Rightarrow> u64 \<Rightarrow> update_row option" where
  "sql_account_at_index t k sl i =
    newest (unat \<circ> ur_write_version) (filter (\<lambda>u. ur_pubkey u = k \<and> ur_slot u = sl \<and> ur_write_version u \<le> i) (tb_updates t))"

definition sql_older_account :: "tables \<Rightarrow> pubkey \<Rightarrow> u64 \<Rightarrow> update_row option" where
  "sql_older_account t k sl = newest (unat \<circ> ur_slot) (filter (\<lambda>u. ur_pubkey u = k \<and> ur_slot u \<le> sl) (tb_older t))"

definition sql_first_update :: "tables \<Rightarrow> pubkey \<Rightarrow> u64 \<Rightarrow> update_row option" where
  "sql_first_update t k sl = first_item (sort_key slot_version (filter (\<lambda>u. ur_pubkey u = k \<and> ur_slot u \<le> sl) (tb_updates t)))"

definition has_signature :: "tables \<Rightarrow> bytes \<Rightarrow> u64 \<Rightarrow> bool" where
  "has_signature t sol_sig sl \<longleftrightarrow> (sl, sol_sig) \<in> set (tb_transactions t)"

definition db_of :: "tables \<Rightarrow> tracer_db" where
  "db_of t =
    \<lparr>td_block_time = (\<lambda>sl. fetch_one (map_option (\<lambda>b. snd (snd b)) (List.find (\<lambda>b. fst b = sl) (tb_blocks t)))),
     td_earliest_rooted_slot = Inr (fold min (map fst (tb_rooted_slots t)) (if tb_rooted_slots t = [] then 0 else - 1)),
     td_latest_block = Inr (fold max (map sp_slot (tb_update_slot t)) 0),
     td_first_data = (\<lambda>k sl. fetch_one (map_option (ar_data \<circ> ur_account) (sql_first_update t k sl))),
     td_branch_rows = (\<lambda>delay. Inr (sql_branch_rows t delay)),
     td_rooted_slot = (\<lambda>k sl. fetch_one (sql_rooted_slot t k sl)),
     td_account_in = (\<lambda>k slots. fetch_one (map_option ur_account (sql_account_in t k slots))),
     td_account_at_index = (\<lambda>k sl i. fetch_one (map_option ur_account (sql_account_at_index t k sl i))),
     td_older_account = (\<lambda>k sl. fetch_one (map_option ur_account (sql_older_account t k sl))),
     td_sig_rooted = (\<lambda>sol_sig. fetch_one (newest (unat \<circ> fst) (filter (\<lambda>row. has_signature t sol_sig (fst row)) (tb_rooted_slots t)))),
     td_sig_confirmed = (\<lambda>slots sol_sig. fetch_one (newest (unat \<circ> sp_slot)
       (filter (\<lambda>row. sp_slot row \<in> set slots \<and> has_signature t sol_sig (sp_slot row)) (tb_update_slot t)))),
     td_rows_of_slot = (\<lambda>sl k. Inr (map ur_account
       (distinct_on (\<lambda>u. (ur_pubkey u, ar_txn_signature (ur_account u), ur_write_version u))
         (descending (unat \<circ> ur_write_version) (filter (\<lambda>u. ur_slot u = sl \<and> ur_pubkey u = k) (tb_updates t)))))),
     td_slot_by_blockhash = (\<lambda>hash. fetch_one (map_option fst (List.find (\<lambda>b. fst (snd b) = hash) (tb_blocks t))))\<rparr>"

end
