(* ===== verification/Trace_Laws.thy ===== *)
theory Trace_Laws
  imports Tracer_Db Struct_Logger Emulator_Laws
begin

text \<open>
  Traces of past transactions (\<open>lib/src/commands/trace.rs\<close>) and what the history promises: the branch of a slot is its chain of
  parents, an account is read as the newest update on the branch left it, and the client of the database is one state of
  the chain for the emulator.
\<close>

section \<open>Tracing\<close>

text \<open>
  \<open>events\<close> is what the machine emits when it runs a transaction on a storage: it depends on the storage only through the
  answers that the storage gives.
\<close>

definition trace_trx :: "(bytes \<Rightarrow> string) \<Rightarrow> (account_storage \<Rightarrow> tx_params \<Rightarrow> event list) \<Rightarrow> emulator_config \<Rightarrow> u64 \<Rightarrow> u64 \<Rightarrow> trace_config
    \<Rightarrow> tx_params \<Rightarrow> emulator \<Rightarrow> struct_logger_result neon_result \<times> emulator" where
  "trace_trx hex events C chain_id steps config p s =
    (case emulate_trx C p chain_id steps s of
       (Done r, s') \<Rightarrow>
         (lift_result (rbind (logger_events hex (events (emulator_backend C s) p) (struct_logger_new config))
           (into_traces hex (er_exit_status r) (er_used_gas r))), s')
     | (Failed e, s') \<Rightarrow> (Failed e, s')
     | (Panicked, s') \<Rightarrow> (Panicked, s'))"

fun trace_all :: "(tx_params \<Rightarrow> emulator \<Rightarrow> 'a neon_result \<times> emulator) \<Rightarrow> tx_params list \<Rightarrow> emulator \<Rightarrow> 'a list neon_result" where
  "trace_all f [] s = Done []"
| "trace_all f (p # ps) s =
    (case f p s of
       (Done r, s') \<Rightarrow> (case trace_all f ps s' of Done rs \<Rightarrow> Done (r # rs) | Failed e \<Rightarrow> Failed e | Panicked \<Rightarrow> Panicked)
     | (Failed e, _) \<Rightarrow> Failed e
     | (Panicked, _) \<Rightarrow> Panicked)"

text \<open>\<open>trace_transaction\<close> calls \<open>emulate_transaction\<close>, which is written out here, since the storage it builds is what the events are of.\<close>

definition trace_transaction :: "(bytes \<Rightarrow> string) \<Rightarrow> (account_storage \<Rightarrow> tx_params \<Rightarrow> event list) \<Rightarrow> (bytes \<Rightarrow> (usize \<Rightarrow> u64) option) \<Rightarrow> runtime
    \<Rightarrow> env \<Rightarrow> rpc \<Rightarrow> pubkey \<Rightarrow> tx_params \<Rightarrow> pubkey \<Rightarrow> u64 \<Rightarrow> u64 \<Rightarrow> address list \<Rightarrow> pubkey list \<Rightarrow> trace_config \<Rightarrow> block_overrides option
    \<Rightarrow> (address \<Rightarrow> account_override option) option \<Rightarrow> struct_logger_result neon_result" where
  "trace_transaction hex events read_rent R E rpc evm_loader p token_mint chain_id steps accounts solana_accounts config overrides
      state_overrides =
    (case setup_syscall_stubs read_rent R rpc of
       Failed e \<Rightarrow> Failed e
     | Panicked \<Rightarrow> Panicked
     | Done R \<Rightarrow>
    (case with_accounts R E rpc evm_loader token_mint chain_id accounts solana_accounts overrides state_overrides of
       None \<Rightarrow> Failed ClientError
     | Some (C, s) \<Rightarrow> fst (trace_trx hex events C chain_id steps config p s)))"

definition trace_block :: "(bytes \<Rightarrow> string) \<Rightarrow> (account_storage \<Rightarrow> tx_params \<Rightarrow> event list) \<Rightarrow> (bytes \<Rightarrow> (usize \<Rightarrow> u64) option) \<Rightarrow> runtime
    \<Rightarrow> env \<Rightarrow> rpc \<Rightarrow> pubkey \<Rightarrow> tx_params list \<Rightarrow> pubkey \<Rightarrow> u64 \<Rightarrow> u64 \<Rightarrow> address list \<Rightarrow> pubkey list \<Rightarrow> trace_config
    \<Rightarrow> struct_logger_result list neon_result" where
  "trace_block hex events read_rent R E rpc evm_loader transactions token_mint chain_id steps accounts solana_accounts config =
    (case setup_syscall_stubs read_rent R rpc of
       Failed e \<Rightarrow> Failed e
     | Panicked \<Rightarrow> Panicked
     | Done R \<Rightarrow>
    (case with_accounts R E rpc evm_loader token_mint chain_id accounts solana_accounts None None of
       None \<Rightarrow> Failed ClientError
     | Some (C, s) \<Rightarrow> trace_all (trace_trx hex events C chain_id steps config) transactions s))"

section \<open>The caches of the emulator\<close>

definition keeps_caches :: "emulator_config \<Rightarrow> (pubkey \<Rightarrow> sol_account option) \<Rightarrow> (emulator, 'a) exec \<Rightarrow> bool" where
  "keeps_caches C chain m \<longleftrightarrow> (\<forall>s. em_ok C chain {} s \<longrightarrow> em_ok C chain {} (snd (m s)))"

lemma keeps_ret: "keeps_caches C chain (ret x)"
  by (simp add: keeps_caches_def ret_def)

lemma keeps_then:
  assumes "keeps_caches C chain m" and "\<And>x. keeps_caches C chain (f x)"
  shows "keeps_caches C chain (and_then m f)"
  using assms unfolding keeps_caches_def and_then_def by (auto split: prod.split result.split)

lemma keeps_answers: "answers C chain m v A \<Longrightarrow> keeps_caches C chain m"
  unfolding keeps_caches_def by (metis answersD em_ok_mono sup_ge1)

lemma keeps_operations_loop: "keeps_caches C chain (apply_operations_loop C ops gas iterations)"
proof (induction ops arbitrary: gas iterations)
  case Nil
  then show ?case by (simp add: keeps_ret)
next
  case (Cons e ops)
  obtain a op where e: "e = (a, op)" by (cases e)
  have step: "em_ok C chain {} (case map_option (resized size) (em_accounts s a) of
      Some n \<Rightarrow> s\<lparr>em_accounts := (em_accounts s)(a \<mapsto> n)\<rparr> | None \<Rightarrow> s)" if "em_ok C chain {} s" for s size
    using that by (auto simp: em_ok_def resized_def split: option.split)
  show ?case
    unfolding keeps_caches_def
  proof (intro allI impI)
    fix s assume "em_ok C chain {} s"
    then show "em_ok C chain {} (snd (apply_operations_loop C (e # ops) gas iterations s))"
      using step Cons.IH by (simp add: e Let_def exec_simps keeps_caches_def)
  qed
qed

lemma keeps_emulate:
  assumes "rpc_is (ec_rpc C) chain" and "em_ok C chain {} s"
  shows "em_ok C chain {} (snd (emulate_trx C p chain_id steps s))"
proof -
  have gas: "keeps_caches C chain (emulated_gas C actions n)" for actions n
  proof -
    have 1: "keeps_caches C chain (em_calc_accounts_operations C actions)"
      unfolding em_calc_accounts_operations_def by (rule keeps_answers [OF answers_operations [OF assms(1)]])
    obtain v where "answers C chain (em_apply_actions C actions 0) v {}" using answers_actions [OF assms(1)] by blast
    then have 2: "keeps_caches C chain (em_apply_actions C actions 0)" by (rule keeps_answers)
    have 3: "keeps_caches C chain (apply_accounts_operations C ops)" for ops
      unfolding apply_accounts_operations_def by (rule keeps_then [OF keeps_operations_loop]) (auto simp: keeps_ret split: prod.split)
    show ?thesis unfolding emulated_gas_def by (intro keeps_then 1 2 3 keeps_ret)
  qed
  have "keeps_caches C chain (em_nonce C a)" for a
    unfolding em_nonce_def by (rule keeps_answers [OF answers_map0 [OF assms(1)]])
  then have nonce: "keeps_caches C chain (case tp_nonce p of Some n \<Rightarrow> ret n | None \<Rightarrow> em_nonce C (tp_from p))"
    by (simp add: keeps_ret split: option.split)
  obtain r s1 where 1: "(case tp_nonce p of Some n \<Rightarrow> ret n | None \<Rightarrow> em_nonce C (tp_from p)) s = (r, s1)" by fastforce
  then have s1: "em_ok C chain {} s1" using nonce assms(2) unfolding keeps_caches_def by (metis snd_conv)
  then have "em_ok C chain {} (snd (emulated_gas C actions n s1))" for actions n using gas by (simp add: keeps_caches_def)
  then show ?thesis using s1
    by (auto simp: emulate_trx_def 1 split: result.split prod.split if_splits) (metis snd_conv)+
qed

section \<open>A block\<close>

definition first_failure :: "'a neon_result list \<Rightarrow> 'a list neon_result" where
  "first_failure rs = foldr (\<lambda>r acc. case r of
     Done x \<Rightarrow> (case acc of Done xs \<Rightarrow> Done (x # xs) | other \<Rightarrow> other) | Failed e \<Rightarrow> Failed e | Panicked \<Rightarrow> Panicked) rs (Done [])"

lemma trace_trx_cached:
  assumes "rpc_is (ec_rpc C) chain" and "em_ok C chain {} s" and "em_ok C chain {} s'"
  shows "fst (trace_trx hex events C chain_id steps config p s) = fst (trace_trx hex events C chain_id steps config p s')"
  using emulation_cached [OF assms, of p chain_id steps] backend_cached [OF assms]
  by (auto simp: trace_trx_def split: prod.split neon_result.split)

lemma trace_trx_keeps:
  assumes "rpc_is (ec_rpc C) chain" and "em_ok C chain {} s"
  shows "em_ok C chain {} (snd (trace_trx hex events C chain_id steps config p s))"
  using keeps_emulate [OF assms, of p chain_id steps] by (auto simp: trace_trx_def split: prod.split neon_result.split)

lemma trace_all_cached:
  assumes "rpc_is (ec_rpc C) chain" and "em_ok C chain {} s" and "em_ok C chain {} s'"
  shows "trace_all (trace_trx hex events C chain_id steps config) ps s'
    = first_failure (map (\<lambda>p. fst (trace_trx hex events C chain_id steps config p s)) ps)"
  using assms(3)
proof (induction ps arbitrary: s')
  case (Cons p ps)
  obtain r t where 1: "trace_trx hex events C chain_id steps config p s' = (r, t)" by fastforce
  then have "r = fst (trace_trx hex events C chain_id steps config p s)" "em_ok C chain {} t"
    using trace_trx_cached [OF assms(1) Cons.prems assms(2)] trace_trx_keeps [OF assms(1) Cons.prems] by (metis fst_conv, metis snd_conv)
  then show ?case using Cons.IH [of t] by (cases r) (auto simp: 1 first_failure_def split: neon_result.split)
qed (simp add: first_failure_def)

lemma with_accounts_ok:
  assumes "rpc_is rpc chain" and "with_accounts R E rpc evm_loader token_mint chain_id accounts solana_accounts bo so = Some (C, s)"
  shows "rpc_is (ec_rpc C) chain \<and> em_ok C chain {} s"
proof -
  obtain s0 where 0: "emulator_new R E rpc evm_loader token_mint chain_id bo so = Some (C, s0)"
      and s: "s = initialize_cached_accounts C accounts solana_accounts s0"
    using assms(2) by (auto simp: with_accounts_def)
  then have rpc: "rpc_is (ec_rpc C) chain" and "em_ok C chain {} s0"
    using assms(1) by (auto simp: emulator_new_def bind_eq_Some_conv em_ok_def)
  then show ?thesis using initialized_ok [OF rpc] s by simp
qed

lemma first_failure_const:
  assumes "ps \<noteq> []"
  shows "first_failure (map (\<lambda>p. Failed e) ps) = Failed e" and "first_failure (map (\<lambda>p. Panicked) ps) = Panicked"
  using assms by (cases ps; simp add: first_failure_def)+

text \<open>C37: the transactions of a block are traced one by one on the state before the block: the trace of each is the one that
  \<open>trace_transaction\<close> gives of it alone, whatever the transactions before it have done, although a block executes them one
  after the other; the first failure is the result.\<close>

theorem trace_block_sees_start:
  assumes "rpc_is rpc chain" and "ps \<noteq> []"
  shows "trace_block hex events read_rent R E rpc evm_loader ps token_mint chain_id steps accounts solana_accounts config
    = first_failure (map (\<lambda>p. trace_transaction hex events read_rent R E rpc evm_loader p token_mint chain_id steps accounts
        solana_accounts config None None) ps)"
proof (cases "setup_syscall_stubs read_rent R rpc")
  case (Done R')
  show ?thesis
  proof (cases "with_accounts R' E rpc evm_loader token_mint chain_id accounts solana_accounts None None")
    case None
    then show ?thesis by (simp add: trace_block_def trace_transaction_def Done first_failure_const [OF assms(2)])
  next
    case (Some e)
    obtain C s where e: "e = (C, s)" by (cases e)
    from with_accounts_ok [OF assms(1) Some [unfolded e]] show ?thesis
      by (simp add: trace_block_def trace_transaction_def Done Some e trace_all_cached [of C chain s s])
  qed
qed (simp_all add: trace_block_def trace_transaction_def first_failure_const [OF assms(2)])

section \<open>The branch of a slot\<close>

text \<open>The slots that are reached from \<open>start\<close> by going to parents, inside the rows\<close>

inductive on_branch :: "slot_parent list \<Rightarrow> u64 \<Rightarrow> u64 \<Rightarrow> bool" for rows start where
  branch_start: "start \<in> sp_slot ` set rows \<Longrightarrow> on_branch rows start start"
| branch_parent: "on_branch rows start t \<Longrightarrow> row \<in> set rows \<Longrightarrow> sp_slot row = t \<Longrightarrow> sp_parent row = Some p \<Longrightarrow> p \<in> sp_slot ` set rows
    \<Longrightarrow> on_branch rows start p"

definition well_ordered :: "slot_parent list \<Rightarrow> bool" where
  "well_ordered rows \<longleftrightarrow> sorted_wrt (\<lambda>r r'. sp_slot r' < sp_slot r) rows \<and> (\<forall>row \<in> set rows. \<exists>p. sp_parent row = Some p \<and> p < sp_slot row)"

lemma well_ordered_Cons: "well_ordered (row # rows) \<longleftrightarrow> well_ordered rows \<and> (\<forall>r \<in> set rows. sp_slot r < sp_slot row)
    \<and> (\<exists>p. sp_parent row = Some p \<and> p < sp_slot row)"
  by (auto simp: well_ordered_def)

inductive_cases on_branchE: "on_branch rows start t"

lemma on_branch_slot: "on_branch rows start t \<Longrightarrow> t \<in> sp_slot ` set rows"
  by (auto elim: on_branchE)

lemma on_branch_start_slot: "on_branch rows start t \<Longrightarrow> start \<in> sp_slot ` set rows"
  by (induction rule: on_branch.induct) auto

lemma on_branch_le: "on_branch rows start t \<Longrightarrow> well_ordered rows \<Longrightarrow> t \<le> start"
  by (induction rule: on_branch.induct) (auto simp: well_ordered_def)

lemma on_branch_mono: "on_branch rows start t \<Longrightarrow> set rows \<subseteq> set rows' \<Longrightarrow> on_branch rows' start t"
  by (induction rule: on_branch.induct) (auto intro: on_branch.intros)

lemma on_branch_skip:
  assumes "on_branch (row # rows) start t" and "well_ordered (row # rows)" and "start \<noteq> sp_slot row"
  shows "on_branch rows start t"
  using assms(1)
proof (induction rule: on_branch.induct)
  case branch_start
  then show ?case using assms(3) by (auto intro: on_branch.branch_start)
next
  case (branch_parent t r p)
  have "t \<noteq> sp_slot row" using on_branch_slot [OF branch_parent.IH] assms(2) by (auto simp: well_ordered_Cons)
  then have r: "r \<in> set rows" using branch_parent.hyps by auto
  have "p < sp_slot r" using assms(2) branch_parent.hyps r by (force simp: well_ordered_def)
  then have "p \<noteq> sp_slot row" using assms(2) r by (auto simp: well_ordered_Cons)
  then have "p \<in> sp_slot ` set rows" using branch_parent.hyps by auto
  then show ?case using on_branch.branch_parent [OF branch_parent.IH r] branch_parent.hyps by simp
qed

lemma on_branch_next:
  assumes "well_ordered (row # rows)" and "sp_parent row = Some p"
  shows "on_branch (row # rows) (sp_slot row) t \<longleftrightarrow> t = sp_slot row \<or> on_branch rows p t"
proof
  assume "on_branch (row # rows) (sp_slot row) t"
  then show "t = sp_slot row \<or> on_branch rows p t"
  proof (induction rule: on_branch.induct)
    case (branch_parent t r q)
    have "q < sp_slot r" using assms(1) branch_parent.hyps by (force simp: well_ordered_def)
    then have q: "q \<in> sp_slot ` set rows" using assms(1) branch_parent.hyps by (auto simp: well_ordered_Cons)
    show ?case
    proof (cases "t = sp_slot row")
      case True
      then have "r = row" using branch_parent.hyps assms(1) by (auto simp: well_ordered_Cons)
      then show ?thesis using branch_parent.hyps assms(2) q by (auto intro: on_branch.branch_start)
    next
      case False
      then have IH: "on_branch rows p t" and r: "r \<in> set rows" using branch_parent.IH branch_parent.hyps by auto
      show ?thesis using on_branch.branch_parent [OF IH r] branch_parent.hyps q by simp
    qed
  qed simp
next
  assume "t = sp_slot row \<or> on_branch rows p t"
  then show "on_branch (row # rows) (sp_slot row) t"
  proof
    assume "on_branch rows p t"
    then have "on_branch (row # rows) p t" and p: "p \<in> sp_slot ` set rows"
      using on_branch_mono [of rows p t "row # rows"] on_branch_start_slot by auto
    have here: "on_branch (row # rows) (sp_slot row) p"
      by (rule on_branch.branch_parent [of _ _ "sp_slot row" row]) (use p assms(2) in \<open>auto intro: on_branch.branch_start\<close>)
    show ?thesis
      using \<open>on_branch (row # rows) p t\<close> here
      by (induction rule: on_branch.induct) (auto intro: on_branch.branch_parent)
  qed (auto intro: on_branch.branch_start)
qed

lemma branch_from_parent:
  "well_ordered rows \<Longrightarrow> set (branch_from test (Some p) rows) = {t. on_branch rows p t}"
proof (induction rows arbitrary: p)
  case Nil
  then show ?case using on_branch_slot by fastforce
next
  case (Cons row rows)
  then obtain q where q: "sp_parent row = Some q" by (auto simp: well_ordered_Cons)
  have w: "well_ordered rows" using Cons.prems by (simp add: well_ordered_Cons)
  show ?case
  proof (cases "sp_slot row = p")
    case True
    then show ?thesis using on_branch_next [OF Cons.prems q] Cons.IH [OF w] by (auto simp: q)
  next
    case False
    then have "on_branch (row # rows) p t \<longleftrightarrow> on_branch rows p t" for t
      using on_branch_skip [OF _ Cons.prems] on_branch_mono [of rows p t "row # rows"] by auto
    then show ?thesis using False Cons.IH [OF w] by simp
  qed
qed

lemma branch_from_start:
  "well_ordered rows \<Longrightarrow> set (branch_from (\<lambda>row. sp_slot row = a) None rows) = {t. on_branch rows a t}"
proof (induction rows)
  case Nil
  then show ?case using on_branch_slot by fastforce
next
  case (Cons row rows)
  then obtain q where q: "sp_parent row = Some q" by (auto simp: well_ordered_Cons)
  have w: "well_ordered rows" using Cons.prems by (simp add: well_ordered_Cons)
  show ?case
  proof (cases "sp_slot row = a")
    case True
    then show ?thesis using on_branch_next [OF Cons.prems q] branch_from_parent [OF w] by (auto simp: q)
  next
    case False
    then have "on_branch (row # rows) a t \<longleftrightarrow> on_branch rows a t" for t
      using on_branch_skip [OF _ Cons.prems] on_branch_mono [of rows a t "row # rows"] by auto
    then show ?thesis using False Cons.IH [OF w] by simp
  qed
qed

section \<open>The newest update\<close>

lemma newest_None: "newest f xs = None \<longleftrightarrow> xs = []"
  by (cases xs) (auto split: option.split)

lemma newest_Some: "newest f xs = Some y \<Longrightarrow> y \<in> set xs \<and> (\<forall>x \<in> set xs. f x \<le> f y)"
proof (induction xs arbitrary: y)
  case (Cons x xs)
  then show ?case by (cases "newest f xs") (auto simp: newest_None split: if_splits)
qed simp

lemma set_distinct_on: "set (distinct_on f xs) \<subseteq> set xs"
  by (induction f xs rule: distinct_on.induct) auto

lemma sorted_distinct_on: "sorted_wrt P xs \<Longrightarrow> sorted_wrt P (distinct_on f xs)"
  by (induction f xs rule: distinct_on.induct) (use set_distinct_on in \<open>fastforce simp: sorted_wrt_filter\<close>)+

lemma keys_distinct_on: "sorted_wrt (\<lambda>x y. f x \<noteq> f y) (distinct_on f xs)"
  by (induction f xs rule: distinct_on.induct) (use set_distinct_on in fastforce)+

lemma sorted_wrt_both:
  "sorted_wrt P xs \<Longrightarrow> sorted_wrt Q xs \<Longrightarrow> (\<And>x y. x \<in> set xs \<Longrightarrow> y \<in> set xs \<Longrightarrow> P x y \<Longrightarrow> Q x y \<Longrightarrow> R x y) \<Longrightarrow> sorted_wrt R xs"
  by (induction xs) auto

lemma sorted_descending: "sorted_wrt (\<lambda>x y. f y \<le> f x) (descending f xs)"
  using sorted_sort_key [of f xs] by (simp add: descending_def sorted_wrt_rev sorted_map)

lemma set_descending [simp]: "set (descending f xs) = set xs"
  by (simp add: descending_def)

definition tables_ok :: "tables \<Rightarrow> bool" where
  "tables_ok t \<longleftrightarrow> (\<forall>row \<in> set (tb_update_slot t). \<forall>p. sp_parent row = Some p \<longrightarrow> p < sp_slot row)
     \<and> (\<forall>row \<in> set (tb_update_slot t). \<forall>row' \<in> set (tb_update_slot t).
          sp_slot row = sp_slot row' \<longrightarrow> sp_parent row \<noteq> None \<longrightarrow> sp_parent row' \<noteq> None \<longrightarrow> sp_parent row = sp_parent row')"

lemma slot_status_slot: "slot_status r \<le> slot_status r' \<Longrightarrow> sp_slot r \<le> sp_slot r'"
  using unat_less_2p [of "sp_status r"] unat_less_2p [of "sp_status r'"] by (simp add: slot_status_def word_le_nat_alt)

lemma branch_rows_ordered:
  assumes "tables_ok t"
  shows "well_ordered (sql_branch_rows t delay)"
proof (cases "newest (unat \<circ> fst) (tb_rooted_slots t)")
  case None
  then show ?thesis by (simp add: sql_branch_rows_def well_ordered_def)
next
  case (Some root)
  let ?in = "filter (\<lambda>row. int (unat (fst root)) - int (unat delay) \<le> int (unat (sp_slot row)) \<and> sp_parent row \<noteq> None) (tb_update_slot t)"
  let ?f = "\<lambda>row. (sp_slot row, sp_parent row)"
  let ?rows = "distinct_on ?f (descending slot_status ?in)"
  have rows: "set ?rows \<subseteq> set ?in" using set_distinct_on by fastforce
  have sorted: "sorted_wrt (\<lambda>r r'. slot_status r' \<le> slot_status r) ?rows" by (intro sorted_distinct_on sorted_descending)
  have slots: "sorted_wrt (\<lambda>r r'. sp_slot r' < sp_slot r) ?rows"
  proof (rule sorted_wrt_both [OF sorted keys_distinct_on])
    fix r r' assume r: "r \<in> set ?rows" "r' \<in> set ?rows" and le: "slot_status r' \<le> slot_status r" and ne: "?f r \<noteq> ?f r'"
    have "sp_slot r \<noteq> sp_slot r'"
    proof
      assume eq: "sp_slot r = sp_slot r'"
      have "r \<in> set (tb_update_slot t)" "r' \<in> set (tb_update_slot t)" "sp_parent r \<noteq> None" "sp_parent r' \<noteq> None"
        using r rows by auto
      then have "sp_parent r = sp_parent r'" using assms eq unfolding tables_ok_def by blast
      then show False using ne eq by simp
    qed
    then show "sp_slot r' < sp_slot r" using slot_status_slot [OF le] by (metis order_le_imp_less_or_eq)
  qed
  have "\<exists>p. sp_parent row = Some p \<and> p < sp_slot row" if "row \<in> set ?rows" for row
  proof -
    have "row \<in> set (tb_update_slot t)" "sp_parent row \<noteq> None" using that rows by auto
    then show ?thesis using assms by (auto simp: tables_ok_def)
  qed
  then show ?thesis using slots by (simp add: sql_branch_rows_def Some well_ordered_def)
qed

lemma db_of_queries [simp]:
  "td_branch_rows (db_of t) delay = Inr (sql_branch_rows t delay)"
  "td_rooted_slot (db_of t) k sl = fetch_one (sql_rooted_slot t k sl)"
  "td_account_in (db_of t) k slots = fetch_one (map_option ur_account (sql_account_in t k slots))"
  by (simp_all add: db_of_def)

lemma row_opt_fetch [simp]: "row_opt (fetch_one x) = Inr x"
  by (cases x) (simp_all add: fetch_one_def)

lemma slot_version_slot: "ur_slot u < ur_slot u' \<Longrightarrow> slot_version u < slot_version u'"
  using unat_less_2p [of "ur_write_version u"] by (simp add: slot_version_def word_less_nat_alt)

text \<open>The rows that a branch is followed in: those from \<open>ROOT_BLOCK_DELAY\<close> slots before the last root on, without the oldest\<close>

definition window :: "tables \<Rightarrow> slot_parent list" where
  "window t = butlast (sql_branch_rows t ROOT_BLOCK_DELAY)"

definition updates_at :: "tables \<Rightarrow> pubkey \<Rightarrow> (u64 \<Rightarrow> bool) \<Rightarrow> update_row set" where
  "updates_at t k P = {u \<in> set (tb_updates t). ur_pubkey u = k \<and> P (ur_slot u)}"

definition newest_in :: "update_row set \<Rightarrow> update_row \<Rightarrow> bool" where
  "newest_in us n \<longleftrightarrow> n \<in> us \<and> (\<forall>m \<in> us. slot_version m \<le> slot_version n)"

lemma sql_account_newest: "sql_account_in t k slots = Some n \<Longrightarrow> newest_in (updates_at t k (\<lambda>s. s \<in> set slots)) n"
  using newest_Some [of slot_version "filter (\<lambda>u. ur_pubkey u = k \<and> ur_slot u \<in> set slots) (tb_updates t)" n]
  by (auto simp: sql_account_in_def newest_in_def updates_at_def)

lemma sql_account_None: "sql_account_in t k slots = None \<longleftrightarrow> updates_at t k (\<lambda>s. s \<in> set slots) = {}"
  by (auto simp: sql_account_in_def newest_None updates_at_def filter_empty_conv)

lemma rooted_slot_newest:
  "sql_rooted_slot t k sl = Some r \<Longrightarrow> sl \<in> fst ` set (tb_rooted_slots t) \<and> r \<le> sl
     \<and> updates_at t k (\<lambda>s. s = r) \<noteq> {} \<and> (\<forall>u \<in> updates_at t k (\<lambda>s. s \<le> sl). ur_slot u \<le> r)"
  by (auto simp: sql_rooted_slot_def updates_at_def word_le_nat_alt dest!: newest_Some) force

lemma rooted_slot_None: "sql_rooted_slot t k sl = None \<longleftrightarrow> updates_at t k (\<lambda>s. s \<le> sl) = {} \<or> sl \<notin> fst ` set (tb_rooted_slots t)"
  by (auto simp: sql_rooted_slot_def newest_None updates_at_def filter_empty_conv)

text \<open>The newest of the updates on a branch and at a slot before it, when the branch has one and when it has none\<close>

lemma newest_behind:
  assumes "newest_in (updates_at t k (\<lambda>s. s \<in> B \<or> s = r)) n" and "\<forall>s \<in> B. r < s" and "updates_at t k (\<lambda>s. s \<in> B) \<noteq> {}"
  shows "newest_in (updates_at t k (\<lambda>s. s \<in> B)) n"
proof -
  obtain u where u: "u \<in> updates_at t k (\<lambda>s. s \<in> B)" using assms(3) by blast
  then have "slot_version u \<le> slot_version n" using assms(1) by (auto simp: newest_in_def updates_at_def)
  then have "\<not> ur_slot n < ur_slot u" using slot_version_slot [of n u] by linarith
  moreover have "r < ur_slot u" using u assms(2) by (auto simp: updates_at_def)
  ultimately have "ur_slot n \<noteq> r" by auto
  then show ?thesis using assms(1) by (auto simp: newest_in_def updates_at_def)
qed

lemma newest_before:
  assumes "newest_in (updates_at t k (\<lambda>s. s = r)) n" and "r \<le> sl" and "\<forall>u \<in> updates_at t k (\<lambda>s. s \<le> sl). ur_slot u \<le> r"
  shows "newest_in (updates_at t k (\<lambda>s. s \<le> sl)) n"
proof -
  have "slot_version m \<le> slot_version n" if m: "m \<in> updates_at t k (\<lambda>s. s \<le> sl)" for m
  proof (cases "ur_slot m = r")
    case True
    then show ?thesis using assms(1) m by (auto simp: newest_in_def updates_at_def)
  next
    case False
    then have "ur_slot m < r" using assms(3) m by (simp add: order_less_le)
    moreover have "ur_slot n = r" using assms(1) by (auto simp: newest_in_def updates_at_def)
    ultimately show ?thesis using slot_version_slot [of m n] by simp
  qed
  then show ?thesis using assms(1,2) by (auto simp: newest_in_def updates_at_def)
qed

text \<open>C11: what the history answers for an account at a slot.  The hypothesis on the tables is that a parent is an older slot and that
  all rows of a slot name the same parent, where they name one.  The code looks at the rows from \<open>ROOT_BLOCK_DELAY\<close> slots before the last
  root on; \<open>first\<close> is the slot of the oldest of these rows, and the theorem is about the slots after it.  The branch of the slot is
  followed from parent to parent in these rows, the oldest of them left out, so it does not go behind \<open>first\<close>.  If the
  account was updated on the branch, the answer is the account as the newest of these updates left it, whatever other forks did.
  If it was not, and \<open>first\<close> is a root, it is the account as the newest update at or before \<open>first\<close> left it, on whatever fork that
  was.  If there is no such update, or \<open>first\<close> is no root, it is what the table of older accounts holds for the slot.\<close>

theorem history_reads_branch:
  assumes "tables_ok t" and "get_branch_slots (db_of t) (Some sl) = Inr (first, branch)" and "first < sl"
  shows "let on = updates_at t k (on_branch (window t) sl); before = updates_at t k (\<lambda>s. s \<le> first) in
    if on \<noteq> {} then \<exists>n. newest_in on n \<and> get_account_at_slot (db_of t) k sl = account_of_opt (Some (ur_account n))
    else if before \<noteq> {} \<and> first \<in> fst ` set (tb_rooted_slots t)
      then \<exists>n. newest_in before n \<and> get_account_at_slot (db_of t) k sl = account_of_opt (Some (ur_account n))
    else get_account_at_slot (db_of t) k sl = account_of_opt (map_option ur_account (sql_older_account t k sl))"
proof -
  let ?all = "sql_branch_rows t ROOT_BLOCK_DELAY" and ?rows = "window t"
  have all: "?all \<noteq> []" and first: "first = sp_slot (last ?all)" and branch: "branch = branch_from (\<lambda>row. sp_slot row = sl) None ?rows"
    using assms(2,3) by (auto simp: get_branch_slots_def window_def Let_def split: if_splits)
  have "well_ordered (?rows @ [last ?all])" using branch_rows_ordered [OF assms(1)] all by (simp add: window_def)
  then have rows: "well_ordered ?rows" and above: "\<forall>row \<in> set ?rows. first < sp_slot row"
    using first by (auto simp: well_ordered_def sorted_wrt_append)
  have on: "on_branch ?rows sl = (\<lambda>s. s \<in> set branch)" using branch_from_start [OF rows] branch by auto
  have behind: "first < s" if "s \<in> set branch" for s using that above on_branch_slot [of ?rows sl s] by (auto simp: on)
  let ?get = "get_account_at_slot (db_of t) k sl" and ?on = "updates_at t k (on_branch ?rows sl)"
  have older: "td_older_account (db_of t) k sl = fetch_one (map_option ur_account (sql_older_account t k sl))"
    by (simp add: db_of_def)
  show ?thesis
  proof (cases "sql_rooted_slot t k first")
    case None
    have none: "\<not> (updates_at t k (\<lambda>s. s \<le> first) \<noteq> {} \<and> first \<in> fst ` set (tb_rooted_slots t))"
      using None by (simp add: rooted_slot_None)
    have get: "?get = (case sql_account_in t k branch of Some n \<Rightarrow> account_of_opt (Some (ur_account n))
        | None \<Rightarrow> account_of_opt (map_option ur_account (sql_older_account t k sl)))"
      by (simp add: get_account_at_slot_def assms(2) get_account_rooted_slot_def get_older_account_row_at_def older None
          sql_account_in_def split: option.split)
    show ?thesis
    proof (cases "sql_account_in t k branch")
      case none_on: None
      then have "?on = {}" by (simp add: on sql_account_None)
      then show ?thesis using none get none_on by (simp only: Let_def) simp
    next
      case (Some n)
      note n = sql_account_newest [OF Some]
      then have "?on \<noteq> {}" by (auto simp: on newest_in_def)
      then show ?thesis using n get Some by (auto simp: on Let_def)
    qed
  next
    case (Some r)
    note r = rooted_slot_newest [OF Some]
    then have found: "updates_at t k (\<lambda>s. s \<in> set (branch @ [r])) \<noteq> {}" by (auto simp: updates_at_def)
    then obtain n where n: "sql_account_in t k (branch @ [r]) = Some n" using sql_account_None [of t k "branch @ [r]"] by blast
    have get: "?get = account_of_opt (Some (ur_account n))"
      using n by (simp add: get_account_at_slot_def assms(2) get_account_rooted_slot_def Some)
    have newest: "newest_in (updates_at t k (\<lambda>s. s \<in> set branch \<or> s = r)) n"
      using sql_account_newest [OF n] by (simp add: disj_commute)
    show ?thesis
    proof (cases "?on = {}")
      case True
      then have "updates_at t k (\<lambda>s. s \<in> set branch \<or> s = r) = updates_at t k (\<lambda>s. s = r)"
        by (auto simp: on updates_at_def)
      then have "newest_in (updates_at t k (\<lambda>s. s \<le> first)) n" using newest r newest_before [of t k r n first] by simp
      moreover have "updates_at t k (\<lambda>s. s \<le> first) \<noteq> {}" using calculation by (auto simp: newest_in_def)
      ultimately show ?thesis using True get r by (auto simp: Let_def)
    next
      case False
      moreover have "\<forall>s \<in> set branch. r < s" using r behind by (auto dest: order_le_less_trans)
      ultimately have "newest_in ?on n" using newest_behind [OF newest] by (simp add: on)
      then show ?thesis using False get by (auto simp: Let_def)
    qed
  qed
qed

section \<open>The client as a node\<close>

text \<open>When every account can be read, the client of the database is one state of the chain.\<close>

lemma history_is_a_state:
  assumes "\<And>k. \<exists>account. get_account_at Q k sl i = Inr account"
  shows "rpc_is (call_db_client Q sl i) (\<lambda>k. case get_account_at Q k sl i of Inr account \<Rightarrow> account | Inl e \<Rightarrow> None)"
proof -
  let ?chain = "\<lambda>k. case get_account_at Q k sl i of Inr account \<Rightarrow> account | Inl e \<Rightarrow> None"
  have read: "get_account_at Q k sl i = Inr (?chain k)" for k
    using assms [of k] by (cases "get_account_at Q k sl i") simp_all
  have "load_accounts Q sl i ks = Some (map ?chain ks)" for ks
  proof (induction ks)
    case (Cons k ks)
    then show ?case using read [of k] by (cases "get_account_at Q k sl i") simp_all
  qed simp
  moreover have "(case get_account_at Q k sl i of Inr (Some account) \<Rightarrow> Some account | _ \<Rightarrow> None) = ?chain k"
    "(case get_account_at Q k sl i of Inr account \<Rightarrow> Some account | Inl e \<Rightarrow> None) = Some (?chain k)" for k
    using assms [of k] by (cases "get_account_at Q k sl i"; simp split: option.split)+
  ultimately show ?thesis by (simp add: rpc_is_def call_db_client_def fun_eq_iff)
qed

section \<open>A small history\<close>

definition demo_update :: "u64 \<Rightarrow> u64 \<Rightarrow> u64 \<Rightarrow> update_row" where
  "demo_update sl version lamports = \<lparr>ur_pubkey = 7, ur_slot = sl, ur_write_version = version,
     ur_account = \<lparr>ar_owner = replicate 32 0, ar_lamports = lamports, ar_executable = False, ar_rent_epoch = 0, ar_data = [],
       ar_txn_signature = []\<rparr>\<rparr>"

text \<open>Slots 11 and 12 follow the root 10; slot 13 is a fork from 10, on which the account was updated last.\<close>

definition demo_history :: tables where
  "demo_history = \<lparr>tb_update_slot = [\<lparr>sp_slot = 10, sp_parent = Some 9, sp_status = 3\<rparr>, \<lparr>sp_slot = 11, sp_parent = Some 10, sp_status = 1\<rparr>,
       \<lparr>sp_slot = 12, sp_parent = Some 11, sp_status = 1\<rparr>, \<lparr>sp_slot = 13, sp_parent = Some 10, sp_status = 2\<rparr>],
     tb_rooted_slots = [(10, Some 9)], tb_updates = [demo_update 10 1 50, demo_update 11 2 60, demo_update 13 3 70], tb_older = [],
     tb_transactions = [], tb_blocks = []\<rparr>"

lemma demo_branch_rows: "sql_branch_rows demo_history ROOT_BLOCK_DELAY = [\<lparr>sp_slot = 13, sp_parent = Some 10, sp_status = 2\<rparr>,
    \<lparr>sp_slot = 12, sp_parent = Some 11, sp_status = 1\<rparr>, \<lparr>sp_slot = 11, sp_parent = Some 10, sp_status = 1\<rparr>,
    \<lparr>sp_slot = 10, sp_parent = Some 9, sp_status = 3\<rparr>]"
  by (simp add: sql_branch_rows_def demo_history_def ROOT_BLOCK_DELAY_def descending_def slot_status_def)

theorem history_reads_branch_witness:
  "get_account_at_slot (db_of demo_history) 7 12 = account_of_opt (Some (ur_account (demo_update 11 2 60)))"
proof -
  let ?rows = "window demo_history"
  have ok: "tables_ok demo_history" by (simp add: tables_ok_def demo_history_def)
  have slots: "get_branch_slots (db_of demo_history) (Some 12) = Inr (10, [12, 11])"
    by (simp add: get_branch_slots_def demo_branch_rows)
  have rows: "well_ordered ?rows" by (simp add: window_def demo_branch_rows well_ordered_def)
  have "set (branch_from (\<lambda>row. sp_slot row = 12) None ?rows) = {12, 11}" by (simp add: window_def demo_branch_rows)
  then have on: "on_branch ?rows 12 = (\<lambda>s. s \<in> {12, 11})"
    using branch_from_start [OF rows, of 12] by blast
  have branch: "updates_at demo_history 7 (on_branch ?rows 12) = {demo_update 11 2 60}"
    unfolding on by (auto simp: updates_at_def demo_history_def demo_update_def)
  have "newest_in {u} n \<longleftrightarrow> n = u" for u n by (auto simp: newest_in_def)
  then show ?thesis using history_reads_branch [OF ok slots, of 7] by (auto simp: Let_def branch)
qed

theorem trace_block_sees_start_witness:
  "trace_block (\<lambda>b. []) (\<lambda>B p. []) (\<lambda>data. Some (rt_minimum_balance demo_emulated_runtime)) demo_emulated_runtime demo_env demo_node 8
      [demo_params, demo_params] 7 111 500 [] []
      \<lparr>tc_enable_memory = False, tc_disable_storage = False, tc_disable_stack = False, tc_enable_return_data = False\<rparr>
    = (let r = \<lparr>lr_gas = 20000, lr_failed = False, lr_return_value = [], lr_struct_logs = []\<rparr> in Done [r, r])"
proof -
  have new: "emulator_new demo_emulated_runtime demo_env demo_node 8 7 111 None None = Some (demo_config None, demo_empty)"
    by (simp add: emulator_new_def demo_node_def demo_config_def demo_empty_def)
  have none: "initialize_cached_accounts C [] [] s = s" for C s
    by (simp add: initialize_cached_accounts_def split: option.split)
  have start: "with_accounts demo_emulated_runtime demo_env demo_node 8 7 111 [] [] None None = Some (demo_config None, demo_empty)"
    by (simp add: with_accounts_def new none)
  have one: "fst (trace_trx (\<lambda>b. []) (\<lambda>B p. []) (demo_config None) 111 500 config demo_params demo_empty)
      = Done \<lparr>lr_gas = 20000, lr_failed = False, lr_return_value = [], lr_struct_logs = []\<rparr>" for config
    using demo_emulated
    by (cases "emulate_trx (demo_config None) demo_params 111 500 demo_empty")
      (simp add: trace_trx_def lift_result_def into_traces_def is_succeed_def into_result_def struct_logger_new_def unwrap_def)
  show ?thesis using trace_block_sees_start [OF demo_rpc, of "[demo_params, demo_params]"]
    by (simp add: trace_transaction_def demo_stubs start one first_failure_def Let_def)
qed

end
