(* ===== verification/Spec2Isabelle.thy ===== *)
theory Spec2Isabelle
  imports Extension_Laws Slot_Hashes State_Lifecycle Transaction_Laws Transaction_Rlp_Laws Apply_Total
    Emulator_Chain Struct_Logger Trace_Laws
begin

text \<open>
  The Neon EVM (\<open>src/evm_loader/program/src\<close>, called \<open>program/src\<close> below) is an Ethereum virtual machine that runs as a
  program on Solana.  An Ethereum transaction reaches it inside an instruction or in a holder account, is executed in one
  instruction or over many, and changes the accounts of the program only at its end, by applying a log of actions.  This
  library models the program from the bytes of an instruction down to the cells of the EVM stack.

  \<^bold>\<open>How the parts interact.\<close>  \<open>process_instruction\<close> (\<open>entrypoint.rs\<close>) reads a tag and calls one instruction.  The
  transaction instructions check the accounts at their fixed places, open the other accounts of the program
  (\<open>ProgramAccountStorage\<close>), and run a machine (\<open>evm/mod.rs\<close>) over an executor state (\<open>executor/state.rs\<close>).  The machine
  reads and changes the world only through the trait \<open>Database\<close>, which the executor implements by a log of actions with
  snapshots over the accounts, which it reads through the trait \<open>AccountStorage\<close>.  A transaction that does not end within
  the step limit is saved in a state account, with its accounts locked, and resumed by a later instruction.  When the machine
  stops, the log is rearranged and applied to the accounts, and the operator is paid.

  \<^bold>\<open>Conventions.\<close>  Machine integers are words; \<open>usize\<close> is a natural number with its bound written out, as the arithmetic of the
  release build wraps.  A computation ends in \<open>Ok\<close>, \<open>Err\<close> or \<open>Panic\<close> (\<open>unwrap\<close>, \<open>expect\<close>, \<open>assert!\<close>, an index out of range),
  so that no panic of the source is hidden.  The instructions of the machine are functions in a state and error monad
  (\<open>Errors\<close>); the accounts of an instruction are a map from keys, which every operation returns updated.

  \<^bold>\<open>Theories and sources\<close>, from the bottom:

  \<^item> \<open>Prelude\<close>: integers, bytes, \<open>usize\<close>, the collections \<open>exec_simps\<close> and \<open>codec\<close>.  \<open>Errors\<close>: \<open>error.rs\<close>, the monad, its
    Hoare rules \<open>hoare\<close> and the invariant rules \<open>keeps\<close>; the revert messages and their round trip.
  \<^item> \<open>Stack\<close>, \<open>Memory\<close>, \<open>Buffer\<close>: \<open>evm/stack.rs\<close>, \<open>memory.rs\<close>, \<open>buffer.rs\<close>.  The stack is modelled on raw pointers and as a list, and
    every operation of the first refines one of the second; a copy into memory is specified byte by byte; all three survive being saved and resumed.
  \<^item> \<open>Opcode_Table\<close>, \<open>Eof\<close>, \<open>Analysis\<close>, \<open>Validate\<close>: \<open>evm/opcode_table.rs\<close>, \<open>eof.rs\<close>, \<open>analysis.rs\<close>, \<open>validate.rs\<close>.  Containers are read
    back as they are written; the bit map marks exactly the immediate bytes; validated code jumps only to instructions and
    keeps its stack within its declared bounds (\<open>flow_reach\<close> is the step relation of the abstract machine); the validation
    ends and does not panic.
  \<^item> \<open>Transaction\<close>, \<open>Transaction_Rlp\<close>, \<open>Rlp_Encoding\<close>, \<open>Rlp_Reader\<close>, \<open>Transaction_Rlp_Laws\<close>: \<open>types/transaction.rs\<close>, the payloads,
    their accessors, their decoding, the hash that was signed and the recovery of the signer.  \<open>Rlp_Encoding\<close> is the encoding of the yellow
    paper, \<open>rlp_documented\<close> what the decoder relies on, and \<open>Rlp_Reader\<close> shows that a reader of the encoding satisfies it;
    a transaction that is encoded is read back, with the hash its sender signed.
  \<^item> \<open>Machine\<close>, \<open>Opcodes_Arith\<close>, \<open>Opcodes_Env\<close>, \<open>Opcodes_Call\<close>, \<open>Interpreter\<close>: \<open>evm/mod.rs\<close>, \<open>database.rs\<close>, \<open>opcode.rs\<close>,
    \<open>types/address.rs\<close>: frames, every instruction, the dispatch tables and the execution loop.  The number of turns of the loop is its
    argument \<open>step_limit\<close>, as in the source.  The arithmetic agrees with that of the integers.
  \<^item> \<open>Built_Ins\<close>: \<open>evm/precompile\<close>, the built-in contracts; BLAKE2 F in full, the others up to the crates they call.
  \<^item> \<open>Executor\<close>, \<open>Executor_Db\<close>, \<open>Frames\<close>, \<open>Journal\<close>: \<open>executor/state.rs\<close>, \<open>action.rs\<close>, \<open>cache.rs\<close>.  \<open>Frames\<close> states the contract of the
    database as the locale \<open>snapshot_db\<close> and proves from it what holds of a whole execution; \<open>Executor_Db\<close> interprets it on
    the executor; \<open>Journal\<close> draws the consequences: snapshots and frames stay in step, a revert undoes a frame, a static
    frame writes nothing, the log refines a stack of worlds, transfers conserve the balances.
  \<^item> \<open>External_Programs\<close>, \<open>Extensions\<close>, \<open>Extension_Token\<close>, \<open>Extension_Metaplex\<close>, \<open>Extension_Laws\<close>: \<open>external_programs\<close> and
    \<open>executor/precompile_extension\<close>, the contracts at reserved addresses that read or change Solana accounts.
  \<^item> \<open>Account_Data\<close>, \<open>Storage_Account\<close>, \<open>State_Account\<close>, \<open>State_Lifecycle\<close>, \<open>Slot_Hashes\<close>: \<open>account/mod.rs\<close>, \<open>ether_account.rs\<close>,
    \<open>ether_storage.rs\<close>, \<open>state.rs\<close>, \<open>holder.rs\<close>, \<open>state_account.rs\<close> and the hashes of \<open>account_storage/mod.rs\<close>.  The locale
    \<open>packable_laws\<close> states what a packed header promises and is interpreted on all five headers.
  \<^item> \<open>Program_Storage\<close>, \<open>Apply\<close>, \<open>Apply_Laws\<close>, \<open>Account_Locks\<close>, \<open>Apply_Total\<close>:
    \<open>account/ether_contract.rs\<close>, \<open>account_storage/base.rs\<close>, \<open>backend.rs\<close>, \<open>mod.rs\<close>, \<open>apply.rs\<close>.
    The view \<open>eth\<close> of the opened accounts is the abstract state; what the executor read is what the accounts hold
    afterwards.  \<open>Account_Locks\<close> has the invariant of the opened accounts (\<open>ps_wf\<close>): what is saved is read again, and an account
    that one transaction has locked is closed to the others.  \<open>Apply_Total\<close> shows for which logs the whole of \<open>apply_state_change\<close>
    ends without an error, and that storage is then read as the executor read it; \<open>Apply_Laws\<close> which logs are never applied.
  \<^item> \<open>Program_Checks\<close>, \<open>Account_Instructions\<close>, \<open>Transaction_Step\<close>, \<open>Entry_Point\<close>, \<open>Transaction_Laws\<close>: \<open>account/operator.rs\<close> and the
    other wrappers, \<open>gasometer.rs\<close>, \<open>instruction/*.rs\<close>, \<open>entrypoint.rs\<close>.
  \<^item> \<open>Emulator\<close>, \<open>Emulator_Laws\<close>, \<open>Emulator_Chain\<close>: the emulator of the off-chain library (\<open>lib/src/account_storage.rs\<close>,
    \<open>commands/emulate.rs\<close>, \<open>get_storage_at.rs\<close>, \<open>get_ether_account_data.rs\<close>), a second implementation of \<open>AccountStorage\<close> on
    accounts that it loads from a node.  Its answers do not depend on what it has cached, its two readers of the storage
    agree, and on a node that shows the opened accounts (the simulation relation \<open>shows_state\<close>) it answers what the
    program's own storage answers.  An override of the header of an account makes it panic.
  \<^item> \<open>Struct_Logger\<close>: \<open>evm/tracing\<close> and the names of \<open>evm/opcode_table.rs\<close>; what a trace shows of the events of a run.
  \<^item> \<open>Tracer_Db\<close>, \<open>Trace_Laws\<close>: accounts of the past (\<open>lib/src/types/tracer_ch_db.rs\<close>), the client of the emulator on them
    (\<open>rpc/db_call_client.rs\<close>) and the tracing of a transaction and of a block (\<open>commands/trace.rs\<close>).  The branch of a slot is
    the inductive relation \<open>on_branch\<close>, its chain of parents; an account is read as the newest update on the branch left it, and behind
    the window of the branch as the newest update on any fork did.
    A history without failures is one state of the chain (\<open>rpc_is\<close>), so what is proved of the emulator holds on it; the
    transactions of a block are traced each on the state before the block.

  \<^bold>\<open>Bounds and fuel.\<close>  The loops of the source are structural or have a measure, but for the execution loop, whose bound is
  the source's own; no other fuel is used.  The bounds on lengths in the hypotheses (\<open>usize_bound\<close>) are those of the address
  space.

  \<^bold>\<open>Parameters.\<close>  What the source takes from other crates is an argument: hashing, the texts of errors and the built-in
  contracts in \<open>env\<close>; the programs and constructors of instructions of Solana in \<open>solana\<close>; rent, program addresses,
  \<open>realloc\<close> and \<open>invoke_signed\<close> in \<open>runtime\<close>; bincode in \<open>codec\<close>; the crate \<open>rlp\<close> in
  \<open>rlp_crate\<close>; the cryptography behind the built-in contracts in \<open>crypto\<close>; the node that the emulator asks in \<open>rpc\<close>;
  the database of the history in \<open>tracer_db\<close>, with \<open>db_of\<close> for the meaning of the texts of the queries.  The theorems assume nothing of these but what
  their hypotheses say.

  \<^bold>\<open>Not modelled.\<close>  Log messages, which have no effect on the program; the places where the machine emits events to a tracer,
  which are compiled out on chain; the heap allocator, which is the crate \<open>linked_list_allocator\<close>; the bodies of foreign
  programs; the rest of the off-chain library, the command line and the server, which do network input and output; and the
  macros, which run at compile time.
\<close>

end
